(* ===== verification/Prelude.thy ===== *)
theory Prelude
  imports Main "HOL-Library.AList" "HOL-Library.Sublist"
begin

text \<open>
  Shared vocabulary of the development: the parts of the JavaScript standard library that the
  TypeScript sources use (number printing and parsing, \<open>substring\<close>, \<open>substr\<close>, \<open>indexOf\<close>,
  \<open>split\<close>, \<open>join\<close>, \<open>padStart\<close>, \<open>trim\<close>, insertion-ordered maps), the sum type
  for code that throws, and the generic lemmas the component theories build on.

  Conventions. A string is a list of characters; a character outside ASCII is written as its
  UTF-8 bytes and no definition of the development counts or splits such characters. A JavaScript
  number that the code uses as an integer is an \<open>int\<close> or a \<open>nat\<close>; where the code can
  produce \<open>NaN\<close> the number is an \<open>int option\<close> with \<open>None\<close> for \<open>NaN\<close>.
\<close>

named_theorems js_simps \<open>evaluation of the JavaScript library functions\<close>

section \<open>Results of code that throws\<close>

datatype js_error =
    TypeError
  | RangeError
  | SyntaxError
  | ErrorMsg string

type_synonym 'a result = "js_error + 'a"

fun rbind :: "'e + 'a \<Rightarrow> ('a \<Rightarrow> 'e + 'b) \<Rightarrow> 'e + 'b" where
  "rbind (Inl e) f = Inl e"
| "rbind (Inr x) f = f x"

fun rmap_list :: "('a \<Rightarrow> 'e + 'b) \<Rightarrow> 'a list \<Rightarrow> 'e + 'b list" where
  "rmap_list f [] = Inr []"
| "rmap_list f (x # xs) = rbind (f x) (\<lambda>y. rbind (rmap_list f xs) (\<lambda>ys. Inr (y # ys)))"

definition of_option :: "'e \<Rightarrow> 'a option \<Rightarrow> 'e + 'a" where
  "of_option e x = (case x of None \<Rightarrow> Inl e | Some y \<Rightarrow> Inr y)"

lemma rbind_Inr_iff [simp]: "rbind m f = Inr y \<longleftrightarrow> (\<exists>x. m = Inr x \<and> f x = Inr y)"
  by (cases m) auto

lemma rbind_Inl_iff: "rbind m f = Inl e \<longleftrightarrow> m = Inl e \<or> (\<exists>x. m = Inr x \<and> f x = Inl e)"
  by (cases m) auto

lemma rbind_assoc: "rbind (rbind m f) g = rbind m (\<lambda>x. rbind (f x) g)"
  by (cases m) auto

lemma of_option_Inr_iff [simp]: "of_option e x = Inr y \<longleftrightarrow> x = Some y"
  by (auto simp: of_option_def split: option.splits)

lemma of_option_simps [simp]: "of_option e None = Inl e" "of_option e (Some y) = Inr y"
  by (simp_all add: of_option_def)

lemma rmap_list_Inr_length: "rmap_list f xs = Inr ys \<Longrightarrow> length ys = length xs"
  by (induction xs arbitrary: ys) auto

lemma rmap_list_all_Inr: "(\<And>x. x \<in> set xs \<Longrightarrow> f x = Inr (g x)) \<Longrightarrow> rmap_list f xs = Inr (map g xs)"
  by (induction xs) auto

section \<open>Digits, printing and parsing of numbers\<close>

definition digit_char :: "nat \<Rightarrow> char" where
  "digit_char d = ''0123456789abcdef'' ! d"

definition digit_val :: "char \<Rightarrow> nat option" where
  "digit_val c = (let n = of_char c :: nat in
     if 48 \<le> n \<and> n \<le> 57 then Some (n - 48)
     else if 97 \<le> n \<and> n \<le> 102 then Some (n - 87)
     else if 65 \<le> n \<and> n \<le> 70 then Some (n - 55)
     else None)"

lemma nat_less_16_cases:
  "d < (16::nat) \<Longrightarrow>
    d = 0 \<or> d = 1 \<or> d = 2 \<or> d = 3 \<or> d = 4 \<or> d = 5 \<or> d = 6 \<or> d = 7 \<or> d = 8 \<or>
    d = 9 \<or> d = 10 \<or> d = 11 \<or> d = 12 \<or> d = 13 \<or> d = 14 \<or> d = 15"
  by presburger

lemma digit_val_char [simp]: "d < 16 \<Longrightarrow> digit_val (digit_char d) = Some d"
  by (drule nat_less_16_cases) (auto simp: digit_val_def digit_char_def Let_def)

text \<open>\<open>n.toString(b)\<close> for a non-negative integer.\<close>

fun nat_to_base :: "nat \<Rightarrow> nat \<Rightarrow> string" where
  "nat_to_base b n =
     (if b < 2 \<or> n < b then [digit_char n] else nat_to_base b (n div b) @ [digit_char (n mod b)])"

declare nat_to_base.simps [simp del]

abbreviation dec :: "nat \<Rightarrow> string" where "dec \<equiv> nat_to_base 10"

abbreviation hex :: "nat \<Rightarrow> string" where "hex \<equiv> nat_to_base 16"

text \<open>\<open>n.toString(b)\<close> for an integer: the sign, then the digits of the magnitude.\<close>

definition int_to_base :: "nat \<Rightarrow> int \<Rightarrow> string" where
  "int_to_base b i =
     (if i < 0 then CHR ''-'' # nat_to_base b (nat (- i)) else nat_to_base b (nat i))"

definition base_value :: "nat \<Rightarrow> string \<Rightarrow> nat" where
  "base_value b s = foldl (\<lambda>a c. b * a + the (digit_val c)) 0 s"

lemma base_value_append_digit [simp]:
  "base_value b (s @ [c]) = b * base_value b s + the (digit_val c)"
  by (simp add: base_value_def)

lemma base_value_append: "base_value b (s @ t) = base_value b s * b ^ length t + base_value b t"
proof -
  have f: "foldl (\<lambda>a c. b * a + the (digit_val c)) v t = v * b ^ length t + base_value b t" for v
  proof (induction t rule: rev_induct)
    case Nil
    then show ?case by (simp add: base_value_def)
  next
    case (snoc c t)
    have "foldl (\<lambda>a c. b * a + the (digit_val c)) v (t @ [c]) = b * (v * b ^ length t + base_value b t) + the (digit_val c)"
      by (simp add: snoc.IH)
    also have "\<dots> = v * b ^ length (t @ [c]) + base_value b (t @ [c])"
      by (simp add: add_mult_distrib2 mult.left_commute)
    finally show ?case .
  qed
  have "base_value b (s @ t) = foldl (\<lambda>a c. b * a + the (digit_val c)) (base_value b s) t"
    by (simp add: base_value_def)
  then show ?thesis unfolding f .
qed

lemma base_value_nat_to_base: "2 \<le> b \<Longrightarrow> b \<le> 16 \<Longrightarrow> base_value b (nat_to_base b n) = n"
proof (induction b n rule: nat_to_base.induct)
  case (1 b n)
  show ?case
  proof (cases "n < b")
    case True
    with 1 show ?thesis
      by (subst nat_to_base.simps) (simp add: base_value_def)
  next
    case False
    have "n mod b < 16"
      using 1 by (meson less_le_trans mod_less_divisor zero_less_numeral order_less_le_trans)
    with False 1 show ?thesis
      by (subst nat_to_base.simps) simp
  qed
qed

lemma nat_to_base_inject:
  "2 \<le> b \<Longrightarrow> b \<le> 16 \<Longrightarrow> nat_to_base b m = nat_to_base b n \<longleftrightarrow> m = n"
  by (metis base_value_nat_to_base)

lemma dec_inject [simp]: "dec m = dec n \<longleftrightarrow> m = n"
  by (rule nat_to_base_inject) simp_all

lemma hex_inject [simp]: "hex m = hex n \<longleftrightarrow> m = n"
  by (rule nat_to_base_inject) simp_all

lemma nat_to_base_nonempty [simp]: "nat_to_base b n \<noteq> []"
  by (subst nat_to_base.simps) simp

lemma nat_to_base_digits:
  "2 \<le> b \<Longrightarrow> b \<le> 16 \<Longrightarrow> c \<in> set (nat_to_base b n) \<Longrightarrow> \<exists>d < b. c = digit_char d"
proof (induction b n rule: nat_to_base.induct)
  case (1 b n)
  show ?case
  proof (cases "n < b")
    case True
    with 1 show ?thesis by (auto simp: nat_to_base.simps [of b n])
  next
    case False
    with 1 have "c \<in> set (nat_to_base b (n div b)) \<or> c = digit_char (n mod b)"
      by (auto simp: nat_to_base.simps [of b n])
    moreover have "n mod b < b" using 1 by simp
    moreover have "\<not> (b < 2 \<or> n < b)" using 1 False by simp
    ultimately show ?thesis using 1 by blast
  qed
qed

lemma hex_less_16: "n < 16 \<Longrightarrow> hex n = [digit_char n]"
  by (subst nat_to_base.simps) simp

lemma length_hex_le2: "n < 256 \<Longrightarrow> length (hex n) \<le> 2"
proof (cases "n < 16")
  case True
  then show ?thesis by (simp add: hex_less_16)
next
  case False
  assume "n < 256"
  then have "n div 16 < 16" by simp
  with False show ?thesis
    by (subst nat_to_base.simps) (simp add: hex_less_16)
qed

section \<open>String functions of JavaScript\<close>

definition padStart :: "string \<Rightarrow> nat \<Rightarrow> char \<Rightarrow> string" where
  "padStart s n c = replicate (n - length s) c @ s"

lemma length_padStart [simp]: "length (padStart s n c) = max n (length s)"
  by (simp add: padStart_def)

text \<open>\<open>s.substring(a, b)\<close>: both ends clamped to the length, swapped when out of order.\<close>

definition substring :: "string \<Rightarrow> nat \<Rightarrow> nat \<Rightarrow> string" where
  "substring s a b = (let lo = min a b; hi = max a b in take (hi - lo) (drop lo s))"

text \<open>\<open>s.substring(a)\<close>.\<close>

definition substring_from :: "string \<Rightarrow> nat \<Rightarrow> string" where
  "substring_from s a = drop a s"

text \<open>\<open>s.substr(start, len)\<close>: a negative start counts from the end.\<close>

definition substr :: "string \<Rightarrow> int \<Rightarrow> nat \<Rightarrow> string" where
  "substr s start len =
     take len (drop (nat (if start < 0 then max 0 (int (length s) + start) else start)) s)"

definition is_ws :: "char \<Rightarrow> bool" where
  "is_ws c \<longleftrightarrow> of_char c \<in> {9, 10, 11, 12, 13, 32 :: nat}"

definition trim_left :: "string \<Rightarrow> string" where
  "trim_left s = dropWhile is_ws s"

definition trim :: "string \<Rightarrow> string" where
  "trim s = rev (dropWhile is_ws (rev (dropWhile is_ws s)))"

definition to_lower_char :: "char \<Rightarrow> char" where
  "to_lower_char c = (let n = of_char c :: nat in if 65 \<le> n \<and> n \<le> 90 then char_of (n + 32) else c)"

definition to_upper_char :: "char \<Rightarrow> char" where
  "to_upper_char c = (let n = of_char c :: nat in if 97 \<le> n \<and> n \<le> 122 then char_of (n - 32) else c)"

definition toLowerCase :: "string \<Rightarrow> string" where
  "toLowerCase s = map to_lower_char s"

definition toUpperCase :: "string \<Rightarrow> string" where
  "toUpperCase s = map to_upper_char s"

text \<open>\<open>s.indexOf(p)\<close>; \<open>None\<close> stands for \<open>-1\<close>.\<close>

fun index_of :: "'a list \<Rightarrow> 'a list \<Rightarrow> nat option" where
  "index_of p [] = (if p = [] then Some 0 else None)"
| "index_of p (c # cs) =
     (if take (length p) (c # cs) = p then Some 0 else map_option Suc (index_of p cs))"

text \<open>\<open>xs.findIndex(P)\<close>; \<open>None\<close> stands for \<open>-1\<close>.\<close>

fun find_index :: "('a \<Rightarrow> bool) \<Rightarrow> 'a list \<Rightarrow> nat option" where
  "find_index P [] = None"
| "find_index P (x # xs) = (if P x then Some 0 else map_option Suc (find_index P xs))"

lemma index_of_SomeD:
  "index_of p s = Some i \<Longrightarrow> i + length p \<le> length s \<and> take (length p) (drop i s) = p"
proof (induction s arbitrary: i)
  case Nil
  then show ?case by (simp split: if_splits)
next
  case (Cons c cs)
  show ?case
  proof (cases "take (length p) (c # cs) = p")
    case True
    then have "length p \<le> length (c # cs)" by (metis length_take min.cobounded1)
    with True Cons.prems show ?thesis by (simp split: if_splits)
  next
    case False
    with Cons.prems obtain j where "index_of p cs = Some j" "i = Suc j"
      by (auto split: if_splits)
    with Cons.IH [of j] show ?thesis by simp
  qed
qed

lemma index_of_range: "index_of p s = Some i \<Longrightarrow> i + length p \<le> length s"
  using index_of_SomeD by blast

lemma find_index_Some_iff:
  "find_index P xs = Some i \<longleftrightarrow> i < length xs \<and> P (xs ! i) \<and> (\<forall>j < i. \<not> P (xs ! j))"
proof (induction xs arbitrary: i)
  case Nil
  then show ?case by simp
next
  case (Cons x xs)
  show ?case
  proof (cases i)
    case 0
    then show ?thesis by auto
  next
    case (Suc k)
    with Cons show ?thesis
      by (auto simp: less_Suc_eq_0_disj)
  qed
qed

lemma find_index_None_iff: "find_index P xs = None \<longleftrightarrow> (\<forall>x \<in> set xs. \<not> P x)"
  by (induction xs) auto

text \<open>\<open>s.split(sep)\<close> for a non-empty separator, and \<open>xs.join(sep)\<close>.\<close>

function split_str :: "string \<Rightarrow> string \<Rightarrow> string list" where
  "split_str sep s =
     (if sep = [] then map (\<lambda>c. [c]) s
      else case index_of sep s of
        None \<Rightarrow> [s]
      | Some i \<Rightarrow> take i s # split_str sep (drop (i + length sep) s))"
  by pat_completeness auto
termination
proof (relation "measure (\<lambda>(sep, s). length s)", goal_cases)
  case 1
  show ?case by simp
next
  case (2 sep s i)
  then have "i + length sep \<le> length s" "0 < length sep"
    by (auto dest: index_of_range)
  then have "length s - (i + length sep) < length s" by linarith
  then show ?case by simp
qed

declare split_str.simps [simp del]

fun join :: "string \<Rightarrow> string list \<Rightarrow> string" where
  "join sep [] = []"
| "join sep [x] = x"
| "join sep (x # y # r) = x @ sep @ join sep (y # r)"

lemma split_str_nonempty [simp]: "sep \<noteq> [] \<Longrightarrow> split_str sep s \<noteq> []"
  by (subst split_str.simps) (auto split: option.splits)

lemma join_Cons: "xs \<noteq> [] \<Longrightarrow> join sep (x # xs) = x @ sep @ join sep xs"
  by (cases xs) simp_all

lemma join_split_str: "sep \<noteq> [] \<Longrightarrow> join sep (split_str sep s) = s"
proof (induction sep s rule: split_str.induct)
  case (1 sep s)
  show ?case
  proof (cases "index_of sep s")
    case None
    with 1 show ?thesis by (simp add: split_str.simps [of sep s])
  next
    case (Some i)
    then have d: "take (length sep) (drop i s) = sep"
      using index_of_SomeD by blast
    have "s = take i s @ sep @ drop (i + length sep) s"
      by (metis add.commute append_take_drop_id d drop_drop)
    with 1 Some show ?thesis
      by (simp add: split_str.simps [of sep s] join_Cons)
  qed
qed

lemma index_of_char_None: "c \<notin> set s \<Longrightarrow> index_of [c] s = None"
  by (induction s) auto

lemma index_of_char_append: "c \<notin> set x \<Longrightarrow> index_of [c] (x @ c # t) = Some (length x)"
  by (induction x) auto

lemma split_str_char_append: "c \<notin> set x \<Longrightarrow> split_str [c] (x @ c # t) = x # split_str [c] t"
  by (subst split_str.simps) (simp add: index_of_char_append)

lemma split_str_char_single: "c \<notin> set x \<Longrightarrow> split_str [c] x = [x]"
  by (subst split_str.simps) (simp add: index_of_char_None)

lemma split_str_join:
  "xs \<noteq> [] \<Longrightarrow> (\<And>x. x \<in> set xs \<Longrightarrow> c \<notin> set x) \<Longrightarrow> split_str [c] (join [c] xs) = xs"
proof (induction xs)
  case (Cons x xs)
  then show ?case by (cases xs) (simp_all add: split_str_char_single split_str_char_append)
qed simp

text \<open>\<open>parseInt(s, 16)\<close> and \<open>parseInt(s)\<close>: leading white space, a sign, an optional
  \<open>0x\<close> prefix (base 16 only), then the longest run of digits; \<open>None\<close> is \<open>NaN\<close>.\<close>

definition is_digit_of :: "nat \<Rightarrow> char \<Rightarrow> bool" where
  "is_digit_of b c \<longleftrightarrow> (case digit_val c of None \<Rightarrow> False | Some d \<Rightarrow> d < b)"

definition split_sign :: "string \<Rightarrow> bool \<times> string" where
  "split_sign s = (case s of
      [] \<Rightarrow> (False, [])
    | c # cs \<Rightarrow> if c = CHR ''-'' then (True, cs) else if c = CHR ''+'' then (False, cs) else (False, s))"

definition strip_0x :: "string \<Rightarrow> string" where
  "strip_0x s = (case s of
      a # b # cs \<Rightarrow> if a = CHR ''0'' \<and> (b = CHR ''x'' \<or> b = CHR ''X'') then cs else s
    | _ \<Rightarrow> s)"

definition parseInt :: "nat \<Rightarrow> string \<Rightarrow> int option" where
  "parseInt b s =
     (let (neg, body) = split_sign (trim_left s);
          ds = takeWhile (is_digit_of b) (if b = 16 then strip_0x body else body)
      in if ds = [] then None
         else Some (if neg then - int (base_value b ds) else int (base_value b ds)))"

lemma is_digit_of_digit_char: "d < b \<Longrightarrow> b \<le> 16 \<Longrightarrow> is_digit_of b (digit_char d)"
  by (simp add: is_digit_of_def)

lemma digit_char_not_special:
  "d < 16 \<Longrightarrow> digit_char d \<noteq> CHR ''-'' \<and> digit_char d \<noteq> CHR ''+'' \<and>
     digit_char d \<noteq> CHR ''x'' \<and> digit_char d \<noteq> CHR ''X'' \<and> \<not> is_ws (digit_char d) \<and>
     digit_char d \<noteq> CHR 0x0A"
  by (drule nat_less_16_cases) (auto simp: digit_char_def is_ws_def)

text \<open>Parsing a non-empty string of digits only.\<close>

lemma parseInt_digits:
  assumes "b \<le> 16" and "s \<noteq> []" and digits: "\<And>c. c \<in> set s \<Longrightarrow> \<exists>d < b. c = digit_char d"
  shows "parseInt b s = Some (int (base_value b s))"
proof -
  obtain c cs where s: "s = c # cs" using assms(2) by (cases s) auto
  then obtain d where "d < b" "c = digit_char d"
    using digits [of c] by auto
  then have d: "d < 16" "c = digit_char d" using assms(1) by simp_all
  have "trim_left s = s" "split_sign s = (False, s)"
    using digit_char_not_special [OF d(1)] d(2) by (auto simp: trim_left_def s split_sign_def)
  moreover have "strip_0x s = s"
  proof (cases cs)
    case Nil
    then show ?thesis by (simp add: s strip_0x_def)
  next
    case (Cons c' cs')
    with s obtain d' where "d' < b" "c' = digit_char d'"
      using digits [of c'] by auto
    then have "d' < 16" "c' = digit_char d'" using assms(1) by simp_all
    then show ?thesis
      using digit_char_not_special [of d'] by (simp add: s Cons strip_0x_def)
  qed
  moreover have "takeWhile (is_digit_of b) s = s"
    using digits assms(1) by (auto simp: takeWhile_eq_all_conv intro: is_digit_of_digit_char)
  ultimately show ?thesis
    using assms(2) by (cases "b = 16") (simp_all add: parseInt_def Let_def del: takeWhile_eq_all_conv)
qed

lemma base_value_leading_zeros:
  "base_value b (replicate k (digit_char 0) @ s) = base_value b s"
  by (induction k) (simp_all add: base_value_def)

lemma base_value_less: "list_all (is_digit_of b) s \<Longrightarrow> base_value b s < b ^ length s"
proof (induction s rule: rev_induct)
  case Nil
  then show ?case by (simp add: base_value_def)
next
  case (snoc c s)
  then obtain d where d: "digit_val c = Some d" "d < b" by (auto simp: is_digit_of_def split: option.splits)
  have "base_value b s + 1 \<le> b ^ length s" using snoc by simp
  then have "b * (base_value b s + 1) \<le> b * b ^ length s" by (rule mult_le_mono2)
  then show ?case using d by simp
qed

lemma digit_char_0: "digit_char 0 = CHR ''0''"
  by (simp add: digit_char_def)

lemma parseInt_dec [simp]: "parseInt 10 (dec n) = Some (int n)"
  using nat_to_base_digits [of 10 _ n]
  by (subst parseInt_digits) (auto simp: base_value_nat_to_base)

lemma parseInt_padded_hex:
  "parseInt 16 (padStart (hex n) k CHR ''0'') = Some (int n)"
proof -
  have "\<exists>d < 16. c = digit_char d" if "c \<in> set (padStart (hex n) k CHR ''0'')" for c
    using that nat_to_base_digits [of 16 c n] digit_char_0
    by (auto simp: padStart_def intro: exI [where x = 0])
  then show ?thesis
    by (subst parseInt_digits)
      (simp_all add: padStart_def base_value_nat_to_base
        flip: digit_char_0 add: base_value_leading_zeros)
qed

section \<open>Insertion-ordered maps (\<open>Map\<close>, plain objects)\<close>

text \<open>A JavaScript \<open>Map\<close> keeps its entries in insertion order and \<open>set\<close> on an existing
  key replaces the value in place: this is \<open>AList.update\<close>.\<close>

type_synonym ('k, 'v) omap = "('k \<times> 'v) list"

abbreviation omap_set :: "'k \<Rightarrow> 'v \<Rightarrow> ('k, 'v) omap \<Rightarrow> ('k, 'v) omap" where
  "omap_set \<equiv> AList.update"

abbreviation omap_keys :: "('k, 'v) omap \<Rightarrow> 'k list" where
  "omap_keys m \<equiv> map fst m"

lemma omap_set_fresh: "k \<notin> fst ` set m \<Longrightarrow> omap_set k v m = m @ [(k, v)]"
  by (induction m) auto

lemma omap_set_keys_mem: "k \<in> fst ` set m \<Longrightarrow> omap_keys (omap_set k v m) = omap_keys m"
  by (induction m) auto

lemma omap_has_iff: "map_of m k = None \<longleftrightarrow> k \<notin> fst ` set m"
  by (rule map_of_eq_None_iff)

section \<open>Generic list lemmas\<close>

lemma concat_replicate_singleton: "concat (map (\<lambda>(n, x). replicate n x) [(k, a)]) = replicate k a"
  by simp

lemma nth_concat_const_width:
  assumes "\<And>xs. xs \<in> set xss \<Longrightarrow> length xs = w" and "i < length xss" and "j < w"
  shows "concat xss ! (i * w + j) = xss ! i ! j"
  using assms
proof (induction xss arbitrary: i)
  case Nil
  then show ?case by simp
next
  case (Cons ys xss)
  show ?case
  proof (cases i)
    case 0
    with Cons show ?thesis by (simp add: nth_append)
  next
    case (Suc k)
    have "length ys = w" using Cons.prems by simp
    with Suc Cons show ?thesis by (simp add: nth_append add.assoc)
  qed
qed

lemma length_concat_const_width:
  "(\<And>xs. xs \<in> set xss \<Longrightarrow> length xs = w) \<Longrightarrow> length (concat xss) = length xss * w"
  by (induction xss) auto

lemma filter_neq_idem: "x \<notin> set xs \<Longrightarrow> filter (\<lambda>y. y \<noteq> x) xs = xs"
  by (induction xs) auto

lemma length_filter_neq_distinct:
  "distinct xs \<Longrightarrow> x \<in> set xs \<Longrightarrow> Suc (length (filter (\<lambda>y. y \<noteq> x) xs)) = length xs"
  by (induction xs) (auto simp: filter_neq_idem)

end
