(* ===== verification/Graph_Store.thy ===== *)
theory Graph_Store
  imports Prelude "HOL-Library.Word"
begin

text \<open>
  The entity store of the subgraph (\<open>packages/punks-subgraph/schema.graphql\<close>) and the helpers of
  \<open>src/utils/helpers.ts\<close>.

  An entity is a record, a kind of entity a map from ids to records, the store a record of these
  maps. Loading an entity gives a copy, and a change reaches the store when the copy is saved, so a
  handler that holds two copies of one entity, or a copy that a helper has meanwhile saved again,
  overwrites the other change: the definitions keep the copies apart the way the code does.
  Addresses and hashes are the strings of \<open>toHexString()\<close>, \<open>BigInt\<close> is \<open>int\<close> and \<open>i32\<close> is
  \<open>32 word\<close>. A handler of type \<open>store option\<close> returns \<open>None\<close> when it aborts: it uses an
  entity that is null, reads a required field that was never set, or saves an entity without one.
  Saving a new entity over an existing id keeps the optional fields that were not assigned.
  The log lines are not modelled.
\<close>

section \<open>Entities\<close>

record seed_entity =
  sd_punkType :: int
  sd_skinTone :: int
  sd_accessory_types :: "int list"
  sd_accessory_ids :: "int list"

record punk_entity =
  pk_seed :: "string option"
  pk_owner :: string

record ogpunk_entity =
  og_wrapped :: bool
  og_owner :: string
  og_delegate :: "string option"

record account_entity =
  ac_delegate :: "string option"
  ac_tokenBalanceRaw :: int
  ac_tokenBalance :: int
  ac_ogpunkBalanceRaw :: int
  ac_ogpunkBalance :: int
  ac_totalTokensHeldRaw :: int
  ac_totalTokensHeld :: int
  ac_punks :: "string list"
  ac_ogpunks :: "string list"

record delegate_entity =
  dl_delegatedVotesRaw :: int
  dl_delegatedVotes :: int
  dl_delegatedOGVotesRaw :: int
  dl_delegatedOGVotes :: int
  dl_tokenHoldersRepresentedAmount :: "32 word"
  dl_punksRepresented :: "string list"
  dl_ogpunksRepresented :: "string list"

record governance_entity =
  gv_proposals :: int
  gv_currentTokenHolders :: int
  gv_currentDelegates :: int
  gv_totalTokenHolders :: int
  gv_totalDelegates :: int
  gv_delegatedVotesRaw :: int
  gv_delegatedVotes :: int
  gv_proposalsQueued :: int

record auction_entity =
  au_punk :: string
  au_amount :: int
  au_startTime :: int
  au_endTime :: int
  au_bidder :: "string option"
  au_settled :: bool

record bid_entity =
  bd_punk :: string
  bd_amount :: int
  bd_bidder :: "string option"
  bd_blockNumber :: int
  bd_txIndex :: int
  bd_auction :: string
  bd_blockTimestamp :: int

datatype proposal_status = PENDING | ACTIVE | CANCELLED | VETOED | QUEUED | EXECUTED

record proposal_entity =
  pr_proposer :: string
  pr_targets :: "string list"
  pr_values :: "int list"
  pr_signatures :: "string list"
  pr_calldatas :: "string list"
  pr_createdTimestamp :: int
  pr_createdBlock :: int
  pr_createdTransactionHash :: string
  pr_startBlock :: int
  pr_endBlock :: int
  pr_proposalThreshold :: int
  pr_quorumVotes :: int
  pr_forVotes :: int
  pr_againstVotes :: int
  pr_abstainVotes :: int
  pr_description :: string
  pr_status :: proposal_status
  pr_executionETA :: "int option"

record vote_entity =
  vt_support :: bool
  vt_supportDetailed :: "32 word"
  vt_votesRaw :: int
  vt_votes :: int
  vt_reason :: "string option"
  vt_voter :: string
  vt_punks :: "string list option"
  vt_proposal :: string
  vt_blockNumber :: int

record transfer_event_entity =
  te_punk :: string
  te_previousHolder :: string
  te_newHolder :: string
  te_blockNumber :: int
  te_blockTimestamp :: int

record delegation_event_entity =
  de_punk :: string
  de_previousDelegate :: string
  de_newDelegate :: string
  de_blockNumber :: int
  de_blockTimestamp :: int

record og_delegation_event_entity =
  oe_ogpunk :: string
  oe_delegator :: string
  oe_previousDelegate :: string
  oe_newDelegate :: string
  oe_blockNumber :: int
  oe_blockTimestamp :: int

record store =
  st_seeds :: "string \<rightharpoonup> seed_entity"
  st_punks :: "string \<rightharpoonup> punk_entity"
  st_ogpunks :: "string \<rightharpoonup> ogpunk_entity"
  st_accounts :: "string \<rightharpoonup> account_entity"
  st_delegates :: "string \<rightharpoonup> delegate_entity"
  st_governance :: "governance_entity option"
  st_auctions :: "string \<rightharpoonup> auction_entity"
  st_bids :: "string \<rightharpoonup> bid_entity"
  st_proposals :: "string \<rightharpoonup> proposal_entity"
  st_votes :: "string \<rightharpoonup> vote_entity"
  st_transferEvents :: "string \<rightharpoonup> transfer_event_entity"
  st_delegationEvents :: "string \<rightharpoonup> delegation_event_entity"
  st_ogDelegationEvents :: "string \<rightharpoonup> og_delegation_event_entity"

definition empty_store :: store where
  "empty_store = \<lparr>st_seeds = Map.empty, st_punks = Map.empty, st_ogpunks = Map.empty,
     st_accounts = Map.empty, st_delegates = Map.empty, st_governance = None, st_auctions = Map.empty,
     st_bids = Map.empty, st_proposals = Map.empty, st_votes = Map.empty,
     st_transferEvents = Map.empty, st_delegationEvents = Map.empty, st_ogDelegationEvents = Map.empty\<rparr>"

section \<open>Loading and saving\<close>

definition save_seed :: "string \<Rightarrow> seed_entity \<Rightarrow> store \<Rightarrow> store" where
  "save_seed i e s = s\<lparr>st_seeds := (st_seeds s)(i \<mapsto> e)\<rparr>"

definition save_punk :: "string \<Rightarrow> punk_entity \<Rightarrow> store \<Rightarrow> store" where
  "save_punk i e s = s\<lparr>st_punks := (st_punks s)(i \<mapsto> e)\<rparr>"

definition save_ogpunk :: "string \<Rightarrow> ogpunk_entity \<Rightarrow> store \<Rightarrow> store" where
  "save_ogpunk i e s = s\<lparr>st_ogpunks := (st_ogpunks s)(i \<mapsto> e)\<rparr>"

definition save_account :: "string \<Rightarrow> account_entity \<Rightarrow> store \<Rightarrow> store" where
  "save_account i e s = s\<lparr>st_accounts := (st_accounts s)(i \<mapsto> e)\<rparr>"

definition save_delegate :: "string \<Rightarrow> delegate_entity \<Rightarrow> store \<Rightarrow> store" where
  "save_delegate i e s = s\<lparr>st_delegates := (st_delegates s)(i \<mapsto> e)\<rparr>"

definition save_governance :: "governance_entity \<Rightarrow> store \<Rightarrow> store" where
  "save_governance e s = s\<lparr>st_governance := Some e\<rparr>"

definition save_auction :: "string \<Rightarrow> auction_entity \<Rightarrow> store \<Rightarrow> store" where
  "save_auction i e s = s\<lparr>st_auctions := (st_auctions s)(i \<mapsto> e)\<rparr>"

definition save_bid :: "string \<Rightarrow> bid_entity \<Rightarrow> store \<Rightarrow> store" where
  "save_bid i e s = s\<lparr>st_bids := (st_bids s)(i \<mapsto> e)\<rparr>"

definition save_proposal :: "string \<Rightarrow> proposal_entity \<Rightarrow> store \<Rightarrow> store" where
  "save_proposal i e s = s\<lparr>st_proposals := (st_proposals s)(i \<mapsto> e)\<rparr>"

definition save_vote :: "string \<Rightarrow> vote_entity \<Rightarrow> store \<Rightarrow> store" where
  "save_vote i e s = s\<lparr>st_votes := (st_votes s)(i \<mapsto> e)\<rparr>"

definition save_transferEvent :: "string \<Rightarrow> transfer_event_entity \<Rightarrow> store \<Rightarrow> store" where
  "save_transferEvent i e s = s\<lparr>st_transferEvents := (st_transferEvents s)(i \<mapsto> e)\<rparr>"

definition save_delegationEvent :: "string \<Rightarrow> delegation_event_entity \<Rightarrow> store \<Rightarrow> store" where
  "save_delegationEvent i e s = s\<lparr>st_delegationEvents := (st_delegationEvents s)(i \<mapsto> e)\<rparr>"

definition save_ogDelegationEvent :: "string \<Rightarrow> og_delegation_event_entity \<Rightarrow> store \<Rightarrow> store" where
  "save_ogDelegationEvent i e s = s\<lparr>st_ogDelegationEvents := (st_ogDelegationEvents s)(i \<mapsto> e)\<rparr>"

lemmas save_defs =
  save_seed_def save_punk_def save_ogpunk_def save_account_def save_delegate_def save_governance_def
  save_auction_def save_bid_def save_proposal_def save_vote_def save_transferEvent_def
  save_delegationEvent_def save_ogDelegationEvent_def

section \<open>The helpers\<close>

definition ZERO_ADDRESS :: string where
  "ZERO_ADDRESS = ''0x0000000000000000000000000000000000000000''"

definition getGovernanceEntity :: "store \<Rightarrow> governance_entity" where
  "getGovernanceEntity s =
     (case st_governance s of
        Some g \<Rightarrow> g
      | None \<Rightarrow>
          \<lparr>gv_proposals = 0, gv_currentTokenHolders = 0, gv_currentDelegates = 0,
           gv_totalTokenHolders = 0, gv_totalDelegates = 0, gv_delegatedVotesRaw = 0,
           gv_delegatedVotes = 0, gv_proposalsQueued = 0\<rparr>)"

definition new_account :: account_entity where
  "new_account =
     \<lparr>ac_delegate = None, ac_tokenBalanceRaw = 0, ac_tokenBalance = 0,
      ac_ogpunkBalanceRaw = 0, ac_ogpunkBalance = 0, ac_totalTokensHeldRaw = 0,
      ac_totalTokensHeld = 0, ac_punks = [], ac_ogpunks = []\<rparr>"

text \<open>The handlers call it with the default arguments (create, save).\<close>

definition getOrCreateAccount :: "string \<Rightarrow> store \<Rightarrow> account_entity \<times> store" where
  "getOrCreateAccount i s =
     (case st_accounts s i of
        Some a \<Rightarrow> (a, s)
      | None \<Rightarrow> (new_account, save_account i new_account s))"

definition new_delegate :: delegate_entity where
  "new_delegate =
     \<lparr>dl_delegatedVotesRaw = 0, dl_delegatedVotes = 0, dl_delegatedOGVotesRaw = 0,
      dl_delegatedOGVotes = 0, dl_tokenHoldersRepresentedAmount = 0, dl_punksRepresented = [],
      dl_ogpunksRepresented = []\<rparr>"

definition getOrCreateDelegate :: "string \<Rightarrow> store \<Rightarrow> delegate_entity \<times> store" where
  "getOrCreateDelegate i s =
     (case st_delegates s i of
        Some d \<Rightarrow> (d, s)
      | None \<Rightarrow>
          let d = new_delegate;
              s1 = (if i \<noteq> ZERO_ADDRESS
                    then let g = getGovernanceEntity s
                         in save_governance (g\<lparr>gv_totalDelegates := gv_totalDelegates g + 1\<rparr>) s
                    else s)
          in (d, save_delegate i d s1))"

text \<open>A proposal or vote that was not found comes back as a new entity of which only the id is
  set (\<open>None\<close>); the call does not save it.\<close>

definition getOrCreateVote :: "string \<Rightarrow> store \<Rightarrow> vote_entity option" where
  "getOrCreateVote i s = st_votes s i"

definition getOrCreateProposal :: "string \<Rightarrow> store \<Rightarrow> proposal_entity option \<times> store" where
  "getOrCreateProposal i s =
     (case st_proposals s i of
        Some p \<Rightarrow> (Some p, s)
      | None \<Rightarrow>
          let g = getGovernanceEntity s
          in (None, save_governance (g\<lparr>gv_proposals := gv_proposals g + 1\<rparr>) s))"

section \<open>The interface of one kind of entity\<close>

locale entity =
  fixes load :: "'s \<Rightarrow> 'i \<Rightarrow> 'e option"
    and save :: "'i \<Rightarrow> 'e \<Rightarrow> 's \<Rightarrow> 's"
  assumes load_same: "load (save i e s) i = Some e"
    and load_other: "j \<noteq> i \<Longrightarrow> load (save i e s) j = load s j"
begin

lemma load_save: "load (save i e s) j = (if j = i then Some e else load s j)"
  by (simp add: load_same load_other)

lemma dom_save: "dom (load (save i e s)) = insert i (dom (load s))"
  by (auto simp: load_save dom_def)

lemma finite_save: "finite (dom (load s)) \<Longrightarrow> finite (dom (load (save i e s)))"
  by (simp add: dom_save)

lemma load_saves_other:
  "j \<notin> set (map f xs) \<Longrightarrow> load (fold (\<lambda>x. save (f x) (g x)) xs s) j = load s j"
  by (induction xs arbitrary: s) (auto simp: load_other)

lemma load_saves:
  "inj_on f (set xs) \<Longrightarrow> x \<in> set xs \<Longrightarrow> load (fold (\<lambda>x. save (f x) (g x)) xs s) (f x) = Some (g x)"
proof (induction xs arbitrary: s)
  case (Cons y xs)
  show ?case
  proof (cases "x \<in> set xs")
    case True
    with Cons show ?thesis by (simp add: inj_on_insert)
  next
    case False
    with Cons.prems have "f x \<notin> set (map f xs)" "x = y" by (auto simp: inj_on_def)
    then show ?thesis by (simp add: load_saves_other load_same)
  qed
qed simp

end

interpretation seeds: entity st_seeds save_seed
  by unfold_locales (simp_all add: save_seed_def)

interpretation punks: entity st_punks save_punk
  by unfold_locales (simp_all add: save_punk_def)

interpretation ogpunks: entity st_ogpunks save_ogpunk
  by unfold_locales (simp_all add: save_ogpunk_def)

interpretation accounts: entity st_accounts save_account
  by unfold_locales (simp_all add: save_account_def)

interpretation delegates: entity st_delegates save_delegate
  by unfold_locales (simp_all add: save_delegate_def)

interpretation auctions: entity st_auctions save_auction
  by unfold_locales (simp_all add: save_auction_def)

interpretation bids: entity st_bids save_bid
  by unfold_locales (simp_all add: save_bid_def)

interpretation proposals: entity st_proposals save_proposal
  by unfold_locales (simp_all add: save_proposal_def)

interpretation votes: entity st_votes save_vote
  by unfold_locales (simp_all add: save_vote_def)

interpretation transferEvents: entity st_transferEvents save_transferEvent
  by unfold_locales (simp_all add: save_transferEvent_def)

interpretation delegationEvents: entity st_delegationEvents save_delegationEvent
  by unfold_locales (simp_all add: save_delegationEvent_def)

interpretation ogDelegationEvents: entity st_ogDelegationEvents save_ogDelegationEvent
  by unfold_locales (simp_all add: save_ogDelegationEvent_def)

lemmas entity_loads =
  seeds.load_save punks.load_save ogpunks.load_save accounts.load_save delegates.load_save
  auctions.load_save bids.load_save proposals.load_save votes.load_save transferEvents.load_save
  delegationEvents.load_save ogDelegationEvents.load_save

text \<open>Saving one kind of entity leaves every other kind alone.\<close>

lemma save_seed_frame [simp]:
  "st_punks (save_seed i e s) = st_punks s" "st_ogpunks (save_seed i e s) = st_ogpunks s"
  "st_accounts (save_seed i e s) = st_accounts s" "st_delegates (save_seed i e s) = st_delegates s"
  "st_governance (save_seed i e s) = st_governance s" "st_auctions (save_seed i e s) = st_auctions s"
  "st_bids (save_seed i e s) = st_bids s" "st_proposals (save_seed i e s) = st_proposals s"
  "st_votes (save_seed i e s) = st_votes s" "st_transferEvents (save_seed i e s) = st_transferEvents s"
  "st_delegationEvents (save_seed i e s) = st_delegationEvents s" "st_ogDelegationEvents (save_seed i e s) = st_ogDelegationEvents s"
  by (simp_all add: save_seed_def)

lemma save_punk_frame [simp]:
  "st_seeds (save_punk i e s) = st_seeds s" "st_ogpunks (save_punk i e s) = st_ogpunks s"
  "st_accounts (save_punk i e s) = st_accounts s" "st_delegates (save_punk i e s) = st_delegates s"
  "st_governance (save_punk i e s) = st_governance s" "st_auctions (save_punk i e s) = st_auctions s"
  "st_bids (save_punk i e s) = st_bids s" "st_proposals (save_punk i e s) = st_proposals s"
  "st_votes (save_punk i e s) = st_votes s" "st_transferEvents (save_punk i e s) = st_transferEvents s"
  "st_delegationEvents (save_punk i e s) = st_delegationEvents s" "st_ogDelegationEvents (save_punk i e s) = st_ogDelegationEvents s"
  by (simp_all add: save_punk_def)

lemma save_ogpunk_frame [simp]:
  "st_seeds (save_ogpunk i e s) = st_seeds s" "st_punks (save_ogpunk i e s) = st_punks s"
  "st_accounts (save_ogpunk i e s) = st_accounts s" "st_delegates (save_ogpunk i e s) = st_delegates s"
  "st_governance (save_ogpunk i e s) = st_governance s" "st_auctions (save_ogpunk i e s) = st_auctions s"
  "st_bids (save_ogpunk i e s) = st_bids s" "st_proposals (save_ogpunk i e s) = st_proposals s"
  "st_votes (save_ogpunk i e s) = st_votes s" "st_transferEvents (save_ogpunk i e s) = st_transferEvents s"
  "st_delegationEvents (save_ogpunk i e s) = st_delegationEvents s" "st_ogDelegationEvents (save_ogpunk i e s) = st_ogDelegationEvents s"
  by (simp_all add: save_ogpunk_def)

lemma save_account_frame [simp]:
  "st_seeds (save_account i e s) = st_seeds s" "st_punks (save_account i e s) = st_punks s"
  "st_ogpunks (save_account i e s) = st_ogpunks s" "st_delegates (save_account i e s) = st_delegates s"
  "st_governance (save_account i e s) = st_governance s" "st_auctions (save_account i e s) = st_auctions s"
  "st_bids (save_account i e s) = st_bids s" "st_proposals (save_account i e s) = st_proposals s"
  "st_votes (save_account i e s) = st_votes s" "st_transferEvents (save_account i e s) = st_transferEvents s"
  "st_delegationEvents (save_account i e s) = st_delegationEvents s" "st_ogDelegationEvents (save_account i e s) = st_ogDelegationEvents s"
  by (simp_all add: save_account_def)

lemma save_delegate_frame [simp]:
  "st_seeds (save_delegate i e s) = st_seeds s" "st_punks (save_delegate i e s) = st_punks s"
  "st_ogpunks (save_delegate i e s) = st_ogpunks s" "st_accounts (save_delegate i e s) = st_accounts s"
  "st_governance (save_delegate i e s) = st_governance s" "st_auctions (save_delegate i e s) = st_auctions s"
  "st_bids (save_delegate i e s) = st_bids s" "st_proposals (save_delegate i e s) = st_proposals s"
  "st_votes (save_delegate i e s) = st_votes s" "st_transferEvents (save_delegate i e s) = st_transferEvents s"
  "st_delegationEvents (save_delegate i e s) = st_delegationEvents s" "st_ogDelegationEvents (save_delegate i e s) = st_ogDelegationEvents s"
  by (simp_all add: save_delegate_def)

lemma save_governance_frame [simp]:
  "st_seeds (save_governance e s) = st_seeds s" "st_punks (save_governance e s) = st_punks s"
  "st_ogpunks (save_governance e s) = st_ogpunks s" "st_accounts (save_governance e s) = st_accounts s"
  "st_delegates (save_governance e s) = st_delegates s" "st_auctions (save_governance e s) = st_auctions s"
  "st_bids (save_governance e s) = st_bids s" "st_proposals (save_governance e s) = st_proposals s"
  "st_votes (save_governance e s) = st_votes s" "st_transferEvents (save_governance e s) = st_transferEvents s"
  "st_delegationEvents (save_governance e s) = st_delegationEvents s" "st_ogDelegationEvents (save_governance e s) = st_ogDelegationEvents s"
  "st_governance (save_governance e s) = Some e"
  by (simp_all add: save_governance_def)

lemma save_auction_frame [simp]:
  "st_seeds (save_auction i e s) = st_seeds s" "st_punks (save_auction i e s) = st_punks s"
  "st_ogpunks (save_auction i e s) = st_ogpunks s" "st_accounts (save_auction i e s) = st_accounts s"
  "st_delegates (save_auction i e s) = st_delegates s" "st_governance (save_auction i e s) = st_governance s"
  "st_bids (save_auction i e s) = st_bids s" "st_proposals (save_auction i e s) = st_proposals s"
  "st_votes (save_auction i e s) = st_votes s" "st_transferEvents (save_auction i e s) = st_transferEvents s"
  "st_delegationEvents (save_auction i e s) = st_delegationEvents s" "st_ogDelegationEvents (save_auction i e s) = st_ogDelegationEvents s"
  by (simp_all add: save_auction_def)

lemma save_bid_frame [simp]:
  "st_seeds (save_bid i e s) = st_seeds s" "st_punks (save_bid i e s) = st_punks s"
  "st_ogpunks (save_bid i e s) = st_ogpunks s" "st_accounts (save_bid i e s) = st_accounts s"
  "st_delegates (save_bid i e s) = st_delegates s" "st_governance (save_bid i e s) = st_governance s"
  "st_auctions (save_bid i e s) = st_auctions s" "st_proposals (save_bid i e s) = st_proposals s"
  "st_votes (save_bid i e s) = st_votes s" "st_transferEvents (save_bid i e s) = st_transferEvents s"
  "st_delegationEvents (save_bid i e s) = st_delegationEvents s" "st_ogDelegationEvents (save_bid i e s) = st_ogDelegationEvents s"
  by (simp_all add: save_bid_def)

lemma save_proposal_frame [simp]:
  "st_seeds (save_proposal i e s) = st_seeds s" "st_punks (save_proposal i e s) = st_punks s"
  "st_ogpunks (save_proposal i e s) = st_ogpunks s" "st_accounts (save_proposal i e s) = st_accounts s"
  "st_delegates (save_proposal i e s) = st_delegates s" "st_governance (save_proposal i e s) = st_governance s"
  "st_auctions (save_proposal i e s) = st_auctions s" "st_bids (save_proposal i e s) = st_bids s"
  "st_votes (save_proposal i e s) = st_votes s" "st_transferEvents (save_proposal i e s) = st_transferEvents s"
  "st_delegationEvents (save_proposal i e s) = st_delegationEvents s" "st_ogDelegationEvents (save_proposal i e s) = st_ogDelegationEvents s"
  by (simp_all add: save_proposal_def)

lemma save_vote_frame [simp]:
  "st_seeds (save_vote i e s) = st_seeds s" "st_punks (save_vote i e s) = st_punks s"
  "st_ogpunks (save_vote i e s) = st_ogpunks s" "st_accounts (save_vote i e s) = st_accounts s"
  "st_delegates (save_vote i e s) = st_delegates s" "st_governance (save_vote i e s) = st_governance s"
  "st_auctions (save_vote i e s) = st_auctions s" "st_bids (save_vote i e s) = st_bids s"
  "st_proposals (save_vote i e s) = st_proposals s" "st_transferEvents (save_vote i e s) = st_transferEvents s"
  "st_delegationEvents (save_vote i e s) = st_delegationEvents s" "st_ogDelegationEvents (save_vote i e s) = st_ogDelegationEvents s"
  by (simp_all add: save_vote_def)

lemma save_transferEvent_frame [simp]:
  "st_seeds (save_transferEvent i e s) = st_seeds s" "st_punks (save_transferEvent i e s) = st_punks s"
  "st_ogpunks (save_transferEvent i e s) = st_ogpunks s" "st_accounts (save_transferEvent i e s) = st_accounts s"
  "st_delegates (save_transferEvent i e s) = st_delegates s" "st_governance (save_transferEvent i e s) = st_governance s"
  "st_auctions (save_transferEvent i e s) = st_auctions s" "st_bids (save_transferEvent i e s) = st_bids s"
  "st_proposals (save_transferEvent i e s) = st_proposals s" "st_votes (save_transferEvent i e s) = st_votes s"
  "st_delegationEvents (save_transferEvent i e s) = st_delegationEvents s" "st_ogDelegationEvents (save_transferEvent i e s) = st_ogDelegationEvents s"
  by (simp_all add: save_transferEvent_def)

lemma save_delegationEvent_frame [simp]:
  "st_seeds (save_delegationEvent i e s) = st_seeds s" "st_punks (save_delegationEvent i e s) = st_punks s"
  "st_ogpunks (save_delegationEvent i e s) = st_ogpunks s" "st_accounts (save_delegationEvent i e s) = st_accounts s"
  "st_delegates (save_delegationEvent i e s) = st_delegates s" "st_governance (save_delegationEvent i e s) = st_governance s"
  "st_auctions (save_delegationEvent i e s) = st_auctions s" "st_bids (save_delegationEvent i e s) = st_bids s"
  "st_proposals (save_delegationEvent i e s) = st_proposals s" "st_votes (save_delegationEvent i e s) = st_votes s"
  "st_transferEvents (save_delegationEvent i e s) = st_transferEvents s" "st_ogDelegationEvents (save_delegationEvent i e s) = st_ogDelegationEvents s"
  by (simp_all add: save_delegationEvent_def)

lemma save_ogDelegationEvent_frame [simp]:
  "st_seeds (save_ogDelegationEvent i e s) = st_seeds s" "st_punks (save_ogDelegationEvent i e s) = st_punks s"
  "st_ogpunks (save_ogDelegationEvent i e s) = st_ogpunks s" "st_accounts (save_ogDelegationEvent i e s) = st_accounts s"
  "st_delegates (save_ogDelegationEvent i e s) = st_delegates s" "st_governance (save_ogDelegationEvent i e s) = st_governance s"
  "st_auctions (save_ogDelegationEvent i e s) = st_auctions s" "st_bids (save_ogDelegationEvent i e s) = st_bids s"
  "st_proposals (save_ogDelegationEvent i e s) = st_proposals s" "st_votes (save_ogDelegationEvent i e s) = st_votes s"
  "st_transferEvents (save_ogDelegationEvent i e s) = st_transferEvents s" "st_delegationEvents (save_ogDelegationEvent i e s) = st_delegationEvents s"
  by (simp_all add: save_ogDelegationEvent_def)

section \<open>Observers\<close>

text \<open>What a handler sees of an account or a delegate: a missing one is as good as a new one.\<close>

definition account_of :: "store \<Rightarrow> string \<Rightarrow> account_entity" where
  "account_of s a = (case st_accounts s a of None \<Rightarrow> new_account | Some e \<Rightarrow> e)"

definition delegate_of :: "store \<Rightarrow> string \<Rightarrow> delegate_entity" where
  "delegate_of s d = (case st_delegates s d of None \<Rightarrow> new_delegate | Some e \<Rightarrow> e)"

definition known_delegate :: "store \<Rightarrow> string \<Rightarrow> bool" where
  "known_delegate s d \<longleftrightarrow> st_delegates s d \<noteq> None"

lemma account_of_save [simp]:
  "account_of (save_account i e s) a = (if a = i then e else account_of s a)"
  by (simp add: account_of_def accounts.load_save)

lemma delegate_of_save [simp]:
  "delegate_of (save_delegate i e s) d = (if d = i then e else delegate_of s d)"
  by (simp add: delegate_of_def delegates.load_save)

lemma known_delegate_save [simp]:
  "known_delegate (save_delegate i e s) d \<longleftrightarrow> d = i \<or> known_delegate s d"
  by (simp add: known_delegate_def delegates.load_save)

lemma getGovernance_save [simp]: "getGovernanceEntity (save_governance g s) = g"
  by (simp add: getGovernanceEntity_def)

lemma fst_getOrCreateAccount [simp]: "fst (getOrCreateAccount a s) = account_of s a"
  by (simp add: getOrCreateAccount_def account_of_def split: option.splits)

lemma account_of_getOrCreateAccount [simp]: "account_of (snd (getOrCreateAccount a s)) b = account_of s b"
  by (simp add: getOrCreateAccount_def account_of_def accounts.load_save split: option.splits)

lemma fst_getOrCreateDelegate [simp]: "fst (getOrCreateDelegate d s) = delegate_of s d"
  by (simp add: getOrCreateDelegate_def delegate_of_def Let_def split: option.splits)

lemma delegate_of_getOrCreateDelegate [simp]: "delegate_of (snd (getOrCreateDelegate d s)) b = delegate_of s b"
  by (simp add: getOrCreateDelegate_def delegate_of_def Let_def delegates.load_save split: option.splits)

lemma known_getOrCreateDelegate [simp]:
  "known_delegate (snd (getOrCreateDelegate d s)) b \<longleftrightarrow> b = d \<or> known_delegate s b"
  by (auto simp: getOrCreateDelegate_def known_delegate_def Let_def delegates.load_save split: option.splits)

lemma getGovernance_getOrCreateDelegate:
  "getGovernanceEntity (snd (getOrCreateDelegate d s)) =
     (if known_delegate s d \<or> d = ZERO_ADDRESS then getGovernanceEntity s
      else (getGovernanceEntity s)\<lparr>gv_totalDelegates := gv_totalDelegates (getGovernanceEntity s) + 1\<rparr>)"
  by (simp add: getOrCreateDelegate_def known_delegate_def getGovernanceEntity_def Let_def split: option.splits)

lemma getOrCreateAccount_frame [simp]:
  "st_seeds (snd (getOrCreateAccount i s)) = st_seeds s" "st_punks (snd (getOrCreateAccount i s)) = st_punks s"
  "st_ogpunks (snd (getOrCreateAccount i s)) = st_ogpunks s" "st_delegates (snd (getOrCreateAccount i s)) = st_delegates s"
  "st_governance (snd (getOrCreateAccount i s)) = st_governance s" "st_auctions (snd (getOrCreateAccount i s)) = st_auctions s"
  "st_bids (snd (getOrCreateAccount i s)) = st_bids s" "st_proposals (snd (getOrCreateAccount i s)) = st_proposals s"
  "st_votes (snd (getOrCreateAccount i s)) = st_votes s" "st_transferEvents (snd (getOrCreateAccount i s)) = st_transferEvents s"
  "st_delegationEvents (snd (getOrCreateAccount i s)) = st_delegationEvents s" "st_ogDelegationEvents (snd (getOrCreateAccount i s)) = st_ogDelegationEvents s"
  by (simp_all add: getOrCreateAccount_def split: option.splits)

lemma getOrCreateDelegate_frame [simp]:
  "st_seeds (snd (getOrCreateDelegate i s)) = st_seeds s" "st_punks (snd (getOrCreateDelegate i s)) = st_punks s"
  "st_ogpunks (snd (getOrCreateDelegate i s)) = st_ogpunks s" "st_accounts (snd (getOrCreateDelegate i s)) = st_accounts s"
  "st_auctions (snd (getOrCreateDelegate i s)) = st_auctions s" "st_bids (snd (getOrCreateDelegate i s)) = st_bids s"
  "st_proposals (snd (getOrCreateDelegate i s)) = st_proposals s" "st_votes (snd (getOrCreateDelegate i s)) = st_votes s"
  "st_transferEvents (snd (getOrCreateDelegate i s)) = st_transferEvents s" "st_delegationEvents (snd (getOrCreateDelegate i s)) = st_delegationEvents s"
  "st_ogDelegationEvents (snd (getOrCreateDelegate i s)) = st_ogDelegationEvents s"
  by (simp_all add: getOrCreateDelegate_def Let_def split: option.splits)

lemma getOrCreateProposal_frame [simp]:
  "st_seeds (snd (getOrCreateProposal i s)) = st_seeds s" "st_punks (snd (getOrCreateProposal i s)) = st_punks s"
  "st_ogpunks (snd (getOrCreateProposal i s)) = st_ogpunks s" "st_accounts (snd (getOrCreateProposal i s)) = st_accounts s"
  "st_delegates (snd (getOrCreateProposal i s)) = st_delegates s" "st_auctions (snd (getOrCreateProposal i s)) = st_auctions s"
  "st_bids (snd (getOrCreateProposal i s)) = st_bids s" "st_proposals (snd (getOrCreateProposal i s)) = st_proposals s"
  "st_votes (snd (getOrCreateProposal i s)) = st_votes s" "st_transferEvents (snd (getOrCreateProposal i s)) = st_transferEvents s"
  "st_delegationEvents (snd (getOrCreateProposal i s)) = st_delegationEvents s" "st_ogDelegationEvents (snd (getOrCreateProposal i s)) = st_ogDelegationEvents s"
  by (simp_all add: getOrCreateProposal_def Let_def split: option.splits)

lemma observe_save_seed [simp]:
  "account_of (save_seed i e s) = account_of s"
  "delegate_of (save_seed i e s) = delegate_of s"
  "known_delegate (save_seed i e s) = known_delegate s"
  "getGovernanceEntity (save_seed i e s) = getGovernanceEntity s"
  by (simp_all add: fun_eq_iff account_of_def delegate_of_def known_delegate_def getGovernanceEntity_def)

lemma observe_save_punk [simp]:
  "account_of (save_punk i e s) = account_of s"
  "delegate_of (save_punk i e s) = delegate_of s"
  "known_delegate (save_punk i e s) = known_delegate s"
  "getGovernanceEntity (save_punk i e s) = getGovernanceEntity s"
  by (simp_all add: fun_eq_iff account_of_def delegate_of_def known_delegate_def getGovernanceEntity_def)

lemma observe_save_ogpunk [simp]:
  "account_of (save_ogpunk i e s) = account_of s"
  "delegate_of (save_ogpunk i e s) = delegate_of s"
  "known_delegate (save_ogpunk i e s) = known_delegate s"
  "getGovernanceEntity (save_ogpunk i e s) = getGovernanceEntity s"
  by (simp_all add: fun_eq_iff account_of_def delegate_of_def known_delegate_def getGovernanceEntity_def)

lemma observe_save_account [simp]:
  "delegate_of (save_account i e s) = delegate_of s"
  "known_delegate (save_account i e s) = known_delegate s"
  "getGovernanceEntity (save_account i e s) = getGovernanceEntity s"
  by (simp_all add: fun_eq_iff account_of_def delegate_of_def known_delegate_def getGovernanceEntity_def)

lemma observe_save_delegate [simp]:
  "account_of (save_delegate i e s) = account_of s"
  "getGovernanceEntity (save_delegate i e s) = getGovernanceEntity s"
  by (simp_all add: fun_eq_iff account_of_def delegate_of_def known_delegate_def getGovernanceEntity_def)

lemma observe_save_governance [simp]:
  "account_of (save_governance e s) = account_of s"
  "delegate_of (save_governance e s) = delegate_of s"
  "known_delegate (save_governance e s) = known_delegate s"
  by (simp_all add: fun_eq_iff account_of_def delegate_of_def known_delegate_def getGovernanceEntity_def)

lemma observe_save_auction [simp]:
  "account_of (save_auction i e s) = account_of s"
  "delegate_of (save_auction i e s) = delegate_of s"
  "known_delegate (save_auction i e s) = known_delegate s"
  "getGovernanceEntity (save_auction i e s) = getGovernanceEntity s"
  by (simp_all add: fun_eq_iff account_of_def delegate_of_def known_delegate_def getGovernanceEntity_def)

lemma observe_save_bid [simp]:
  "account_of (save_bid i e s) = account_of s"
  "delegate_of (save_bid i e s) = delegate_of s"
  "known_delegate (save_bid i e s) = known_delegate s"
  "getGovernanceEntity (save_bid i e s) = getGovernanceEntity s"
  by (simp_all add: fun_eq_iff account_of_def delegate_of_def known_delegate_def getGovernanceEntity_def)

lemma observe_save_proposal [simp]:
  "account_of (save_proposal i e s) = account_of s"
  "delegate_of (save_proposal i e s) = delegate_of s"
  "known_delegate (save_proposal i e s) = known_delegate s"
  "getGovernanceEntity (save_proposal i e s) = getGovernanceEntity s"
  by (simp_all add: fun_eq_iff account_of_def delegate_of_def known_delegate_def getGovernanceEntity_def)

lemma observe_save_vote [simp]:
  "account_of (save_vote i e s) = account_of s"
  "delegate_of (save_vote i e s) = delegate_of s"
  "known_delegate (save_vote i e s) = known_delegate s"
  "getGovernanceEntity (save_vote i e s) = getGovernanceEntity s"
  by (simp_all add: fun_eq_iff account_of_def delegate_of_def known_delegate_def getGovernanceEntity_def)

lemma observe_save_transferEvent [simp]:
  "account_of (save_transferEvent i e s) = account_of s"
  "delegate_of (save_transferEvent i e s) = delegate_of s"
  "known_delegate (save_transferEvent i e s) = known_delegate s"
  "getGovernanceEntity (save_transferEvent i e s) = getGovernanceEntity s"
  by (simp_all add: fun_eq_iff account_of_def delegate_of_def known_delegate_def getGovernanceEntity_def)

lemma observe_save_delegationEvent [simp]:
  "account_of (save_delegationEvent i e s) = account_of s"
  "delegate_of (save_delegationEvent i e s) = delegate_of s"
  "known_delegate (save_delegationEvent i e s) = known_delegate s"
  "getGovernanceEntity (save_delegationEvent i e s) = getGovernanceEntity s"
  by (simp_all add: fun_eq_iff account_of_def delegate_of_def known_delegate_def getGovernanceEntity_def)

lemma observe_save_ogDelegationEvent [simp]:
  "account_of (save_ogDelegationEvent i e s) = account_of s"
  "delegate_of (save_ogDelegationEvent i e s) = delegate_of s"
  "known_delegate (save_ogDelegationEvent i e s) = known_delegate s"
  "getGovernanceEntity (save_ogDelegationEvent i e s) = getGovernanceEntity s"
  by (simp_all add: fun_eq_iff account_of_def delegate_of_def known_delegate_def getGovernanceEntity_def)

lemma observe_getOrCreateAccount [simp]:
  "delegate_of (snd (getOrCreateAccount i s)) = delegate_of s"
  "known_delegate (snd (getOrCreateAccount i s)) = known_delegate s"
  "getGovernanceEntity (snd (getOrCreateAccount i s)) = getGovernanceEntity s"
  by (simp_all add: fun_eq_iff account_of_def delegate_of_def known_delegate_def getGovernanceEntity_def)

lemma observe_getOrCreateDelegate [simp]:
  "account_of (snd (getOrCreateDelegate i s)) = account_of s"
  by (simp_all add: fun_eq_iff account_of_def delegate_of_def known_delegate_def getGovernanceEntity_def)

lemma observe_getOrCreateProposal [simp]:
  "account_of (snd (getOrCreateProposal i s)) = account_of s"
  "delegate_of (snd (getOrCreateProposal i s)) = delegate_of s"
  "known_delegate (snd (getOrCreateProposal i s)) = known_delegate s"
  by (simp_all add: fun_eq_iff account_of_def delegate_of_def known_delegate_def getGovernanceEntity_def)

end
