(* ===== verification/Graph_Token.thy ===== *)
theory Graph_Token
  imports Graph_Store
begin

text \<open>
  \<open>packages/punks-subgraph/src/n-erc-721.ts\<close>: the handlers for the events of the punk token. Each
  handler takes the parts of the event it reads and the store, and returns the store. The copies
  \<open>fromHolder\<close>, \<open>toHolder\<close> and \<open>governance\<close> of \<open>handleTransfer\<close> are the values of the
  definitions below, taken when the code takes them.

  The lemmas relate the store to a ledger, a map from token numbers to owners: after a history of
  transfers that the token contract can emit, the entities are exactly the ledger. They also say what
  the delegation lists and the running totals of the governance entity are.
\<close>

record event_env =
  ev_hash :: string
  ev_index :: int
  ev_number :: int
  ev_timestamp :: int
  ev_address :: string

section \<open>Punks and delegations\<close>

text \<open>The accessories are the pairs \<open>accType\<close>, \<open>accId\<close>.\<close>

definition handlePunkCreated :: "nat \<Rightarrow> nat \<Rightarrow> nat \<Rightarrow> (nat \<times> nat) list \<Rightarrow> store \<Rightarrow> store" where
  "handlePunkCreated tokenId punkType skinTone accessories s =
     (let tid = dec tokenId;
          seed = \<lparr>sd_punkType = int punkType, sd_skinTone = int skinTone,
                  sd_accessory_types = map (int \<circ> fst) accessories,
                  sd_accessory_ids = map (int \<circ> snd) accessories\<rparr>;
          s1 = save_seed tid seed s
      in case st_punks s1 tid of
           None \<Rightarrow> s1
         | Some punk \<Rightarrow> save_punk tid (punk\<lparr>pk_seed := Some tid\<rparr>) s1)"

definition delegation_event :: "event_env \<Rightarrow> string \<Rightarrow> string \<Rightarrow> string \<Rightarrow> delegation_event_entity" where
  "delegation_event ev punk previousDelegate newDelegate =
     \<lparr>de_punk = punk, de_previousDelegate = previousDelegate, de_newDelegate = newDelegate,
      de_blockNumber = ev_number ev, de_blockTimestamp = ev_timestamp ev\<rparr>"

definition handleDelegateChanged :: "event_env \<Rightarrow> string \<Rightarrow> string \<Rightarrow> string \<Rightarrow> store \<Rightarrow> store" where
  "handleDelegateChanged ev delegator fromDelegate toDelegate s =
     (let (tokenHolder, s1) = getOrCreateAccount delegator s;
          (previousDelegate, s2) = getOrCreateDelegate fromDelegate s1;
          (newDelegate, s3) = getOrCreateDelegate toDelegate s2;
          accountPunks = ac_punks tokenHolder;
          s4 = save_account delegator (tokenHolder\<lparr>ac_delegate := Some toDelegate\<rparr>) s3;
          previousDelegate1 = previousDelegate\<lparr>
            dl_tokenHoldersRepresentedAmount := dl_tokenHoldersRepresentedAmount previousDelegate - 1,
            dl_punksRepresented := filter (\<lambda>n. n \<notin> set accountPunks) (dl_punksRepresented previousDelegate)\<rparr>;
          newDelegate1 = newDelegate\<lparr>
            dl_tokenHoldersRepresentedAmount := dl_tokenHoldersRepresentedAmount newDelegate + 1,
            dl_punksRepresented := dl_punksRepresented newDelegate @ accountPunks\<rparr>;
          s5 = save_delegate fromDelegate previousDelegate1 s4;
          s6 = save_delegate toDelegate newDelegate1 s5
      in fold (\<lambda>p. save_delegationEvent (ev_hash ev @ ''_'' @ p)
                     (delegation_event ev p fromDelegate toDelegate)) accountPunks s6)"

definition handleDelegateVotesChanged :: "string \<Rightarrow> int \<Rightarrow> int \<Rightarrow> store \<Rightarrow> store" where
  "handleDelegateVotesChanged delegateId previousBalance newBalance s =
     (let governance = getGovernanceEntity s;
          (delegate, s1) = getOrCreateDelegate delegateId s;
          votesDifference = newBalance - previousBalance;
          s2 = save_delegate delegateId
                 (delegate\<lparr>dl_delegatedVotesRaw := newBalance, dl_delegatedVotes := newBalance\<rparr>) s1;
          g1 = (if previousBalance = 0 \<and> newBalance > 0
                then governance\<lparr>gv_currentDelegates := gv_currentDelegates governance + 1\<rparr> else governance);
          g2 = (if newBalance = 0
                then g1\<lparr>gv_currentDelegates := gv_currentDelegates g1 - 1\<rparr> else g1);
          g3 = g2\<lparr>gv_delegatedVotesRaw := gv_delegatedVotesRaw g2 + votesDifference\<rparr>;
          g4 = g3\<lparr>gv_delegatedVotes := gv_delegatedVotesRaw g3\<rparr>
      in save_governance g4 s2)"

section \<open>Transfers\<close>

text \<open>The block of \<open>handleTransfer\<close> for the holder the punk leaves: it returns the copies of the
  holder and of the governance entity it ends with.\<close>

definition leave_holder ::
  "string \<Rightarrow> string \<Rightarrow> account_entity \<Rightarrow> governance_entity \<Rightarrow> store \<Rightarrow>
     account_entity \<times> governance_entity \<times> store" where
  "leave_holder fromId tid fromHolder governance s =
     (if fromId = ZERO_ADDRESS
      then let g = governance\<lparr>gv_totalTokenHolders := gv_totalTokenHolders governance + 1\<rparr>
           in (fromHolder, g, save_governance g s)
      else
        let previousBalance = ac_tokenBalanceRaw fromHolder;
            f1 = fromHolder\<lparr>ac_tokenBalanceRaw := previousBalance - 1,
                   ac_tokenBalance := previousBalance - 1,
                   ac_punks := filter (\<lambda>n. n \<noteq> tid) (ac_punks fromHolder)\<rparr>;
            s1 = (case ac_delegate f1 of
                    None \<Rightarrow> s
                  | Some d \<Rightarrow>
                      let (fromHolderDelegate, s') = getOrCreateDelegate d s
                      in save_delegate d (fromHolderDelegate\<lparr>dl_punksRepresented :=
                           filter (\<lambda>n. n \<noteq> tid) (dl_punksRepresented fromHolderDelegate)\<rparr>) s');
            (f2, g, s2) =
              (if ac_tokenBalanceRaw f1 = 0 \<and> previousBalance > 0
               then let g = governance\<lparr>gv_currentTokenHolders := gv_currentTokenHolders governance - 1\<rparr>
                    in (f1\<lparr>ac_delegate := None\<rparr>, g, save_governance g s1)
               else if ac_tokenBalanceRaw f1 > 0 \<and> previousBalance = 0
               then let g = governance\<lparr>gv_currentTokenHolders := gv_currentTokenHolders governance + 1\<rparr>
                    in (f1, g, save_governance g s1)
               else (f1, governance, s1))
        in (f2, g, save_account fromId f2 s2))"

text \<open>The rest of \<open>handleTransfer\<close>, from the comment \<open>toHolder\<close> on: \<open>fromHolder\<close>,
  \<open>toHolder\<close> and \<open>governance\<close> are the copies it holds at that point.\<close>

definition enter_holder ::
  "event_env \<Rightarrow> string \<Rightarrow> string \<Rightarrow> string \<Rightarrow> account_entity \<Rightarrow> account_entity \<Rightarrow> governance_entity \<Rightarrow>
     store \<Rightarrow> store" where
  "enter_holder ev fromId toId tid fromHolder toHolder governance s =
     (let (governance2, s5) =
            (if toId = ZERO_ADDRESS
             then let g = governance\<lparr>gv_totalTokenHolders := gv_totalTokenHolders governance - 1\<rparr>
                  in (g, save_governance g s)
             else (governance, s));
          toDelegateId = (case ac_delegate toHolder of Some d \<Rightarrow> d | None \<Rightarrow> toId);
          s6 = save_delegationEvent (ev_hash ev @ ''_'' @ tid)
                 (delegation_event ev tid
                    (case ac_delegate fromHolder of Some d \<Rightarrow> d | None \<Rightarrow> fromId) toDelegateId) s5;
          (toHolderDelegate, s7) = getOrCreateDelegate toDelegateId s6;
          s8 = save_delegate toDelegateId
                 (toHolderDelegate\<lparr>dl_punksRepresented := dl_punksRepresented toHolderDelegate @ [tid]\<rparr>) s7;
          previousBalance = ac_tokenBalanceRaw toHolder;
          t1 = toHolder\<lparr>ac_tokenBalanceRaw := previousBalance + 1,
                 ac_tokenBalance := previousBalance + 1,
                 ac_totalTokensHeldRaw := ac_totalTokensHeldRaw toHolder + 1,
                 ac_totalTokensHeld := ac_totalTokensHeldRaw toHolder + 1,
                 ac_punks := ac_punks toHolder @ [tid]\<rparr>;
          (t2, s9) =
            (if ac_tokenBalanceRaw t1 = 0 \<and> previousBalance > 0
             then let g = governance2\<lparr>gv_currentTokenHolders := gv_currentTokenHolders governance2 - 1\<rparr>
                  in (t1, save_governance g s8)
             else if ac_tokenBalanceRaw t1 > 0 \<and> previousBalance = 0
             then let g = governance2\<lparr>gv_currentTokenHolders := gv_currentTokenHolders governance2 + 1\<rparr>
                  in (t1\<lparr>ac_delegate := Some toId\<rparr>, save_governance g s8)
             else (t1, s8));
          punk = (case st_punks s9 tid of None \<Rightarrow> \<lparr>pk_seed = None, pk_owner = []\<rparr> | Some p \<Rightarrow> p);
          s10 = save_punk tid (punk\<lparr>pk_owner := toId\<rparr>) s9
      in save_account toId t2 s10)"

definition handleTransfer :: "event_env \<Rightarrow> string \<Rightarrow> string \<Rightarrow> nat \<Rightarrow> store \<Rightarrow> store" where
  "handleTransfer ev fromId toId tokenId s0 =
     (let (fromHolder, s1) = getOrCreateAccount fromId s0;
          (toHolder, s2) = getOrCreateAccount toId s1;
          governance = getGovernanceEntity s2;
          tid = dec tokenId;
          s3 = save_transferEvent (ev_hash ev @ ''_'' @ tid)
                 \<lparr>te_punk = tid, te_previousHolder = fromId, te_newHolder = toId,
                  te_blockNumber = ev_number ev, te_blockTimestamp = ev_timestamp ev\<rparr> s2;
          (fromHolder1, governance1, s4) = leave_holder fromId tid fromHolder governance s3
      in enter_holder ev fromId toId tid fromHolder1 toHolder governance1 s4)"

section \<open>The ledger\<close>

type_synonym ledger = "nat \<rightharpoonup> string"

definition holds :: "ledger \<Rightarrow> string \<Rightarrow> nat set" where
  "holds L a = {t. L t = Some a}"

text \<open>A transfer that the token contract can emit: a mint of a token that does not exist, or a
  transfer by the owner to another address.\<close>

definition valid_transfer :: "ledger \<Rightarrow> string \<Rightarrow> string \<Rightarrow> nat \<Rightarrow> bool" where
  "valid_transfer L fromId toId t \<longleftrightarrow>
     fromId \<noteq> toId \<and> (if fromId = ZERO_ADDRESS then L t = None else L t = Some fromId)"

text \<open>What the indexed account of an address must say.\<close>

definition account_matches :: "ledger \<Rightarrow> string \<Rightarrow> account_entity \<Rightarrow> bool" where
  "account_matches L a e \<longleftrightarrow>
     distinct (ac_punks e) \<and> set (ac_punks e) = dec ` holds L a \<and>
     ac_tokenBalanceRaw e = int (length (ac_punks e)) \<and> ac_tokenBalance e = ac_tokenBalanceRaw e"

definition indexed :: "ledger \<Rightarrow> store \<Rightarrow> bool" where
  "indexed L s \<longleftrightarrow>
     (\<forall>a. account_matches L a (account_of s a)) \<and>
     (\<forall>t. map_option pk_owner (st_punks s (dec t)) = L t) \<and>
     finite (dom L) \<and>
     gv_currentTokenHolders (getGovernanceEntity s) = int (card (ran L))"

section \<open>What a transfer does to the accounts\<close>

abbreviation current_holders :: "store \<Rightarrow> int" where
  "current_holders s \<equiv> gv_currentTokenHolders (getGovernanceEntity s)"

text \<open>One debit or credit, seen through the fields that count tokens.\<close>

definition debit :: "string \<Rightarrow> string \<Rightarrow> account_entity \<Rightarrow> account_entity \<Rightarrow> bool" where
  "debit a tid e e' \<longleftrightarrow>
     (if a = ZERO_ADDRESS then e' = e
      else ac_punks e' = filter (\<lambda>n. n \<noteq> tid) (ac_punks e) \<and>
        ac_tokenBalanceRaw e' = ac_tokenBalanceRaw e - 1 \<and> ac_tokenBalance e' = ac_tokenBalanceRaw e - 1)"

definition credit :: "string \<Rightarrow> account_entity \<Rightarrow> account_entity \<Rightarrow> bool" where
  "credit tid e e' \<longleftrightarrow>
     ac_punks e' = ac_punks e @ [tid] \<and>
     ac_tokenBalanceRaw e' = ac_tokenBalanceRaw e + 1 \<and> ac_tokenBalance e' = ac_tokenBalanceRaw e + 1"

definition empties :: "string \<Rightarrow> account_entity \<Rightarrow> int" where
  "empties a e = (if a \<noteq> ZERO_ADDRESS \<and> ac_tokenBalanceRaw e = 1 then 1 else 0)"

definition starts :: "account_entity \<Rightarrow> int" where
  "starts e = (if ac_tokenBalanceRaw e = 0 then 1 else 0)"

lemma leave_holder_effect:
  assumes "leave_holder a tid e g s = (e', g', s')" and "account_of s a = e"
    and "gv_currentTokenHolders g = current_holders s" and "a \<noteq> ZERO_ADDRESS \<Longrightarrow> 0 < ac_tokenBalanceRaw e"
  shows "account_of s' = (account_of s)(a := e') \<and> st_punks s' = st_punks s \<and> debit a tid e e' \<and>
    gv_currentTokenHolders g' = current_holders s' \<and>
    current_holders s' = current_holders s - empties a e"
proof (cases "a = ZERO_ADDRESS")
  case True
  with assms(1-3) show ?thesis
    by (auto simp: leave_holder_def Let_def debit_def empties_def fun_eq_iff)
next
  case False
  with assms show ?thesis
    by (auto simp: leave_holder_def Let_def case_prod_beta fun_eq_iff getGovernance_getOrCreateDelegate
        debit_def empties_def split: option.splits if_splits)
qed

lemma enter_holder_effect:
  assumes "gv_currentTokenHolders g = current_holders s" and "0 \<le> ac_tokenBalanceRaw e"
    and "s' = enter_holder ev fromId b tid f e g s"
  shows "(\<forall>a. a \<noteq> b \<longrightarrow> account_of s' a = account_of s a) \<and> credit tid e (account_of s' b) \<and>
    (\<forall>i. map_option pk_owner (st_punks s' i) = (if i = tid then Some b else map_option pk_owner (st_punks s i))) \<and>
    current_holders s' = current_holders s + starts e"
  using assms(1,2) unfolding assms(3)
  by (auto simp: enter_holder_def Let_def case_prod_beta getGovernance_getOrCreateDelegate punks.load_save
      credit_def starts_def split: option.splits)

lemma transfer_effect:
  assumes ne: "fromId \<noteq> toId"
    and from_pos: "fromId \<noteq> ZERO_ADDRESS \<Longrightarrow> 0 < ac_tokenBalanceRaw (account_of s fromId)"
    and to_nonneg: "0 \<le> ac_tokenBalanceRaw (account_of s toId)"
    and s': "s' = handleTransfer ev fromId toId t s"
  shows "credit (dec t) (account_of s toId) (account_of s' toId)"
    and "debit fromId (dec t) (account_of s fromId) (account_of s' fromId)"
    and "\<And>a. a \<noteq> fromId \<Longrightarrow> a \<noteq> toId \<Longrightarrow> account_of s' a = account_of s a"
    and "\<And>i. map_option pk_owner (st_punks s' i) = (if i = dec t then Some toId else map_option pk_owner (st_punks s i))"
    and "current_holders s' = current_holders s - empties fromId (account_of s fromId) + starts (account_of s toId)"
proof -
  define s3 where "s3 = save_transferEvent (ev_hash ev @ ''_'' @ dec t)
      \<lparr>te_punk = dec t, te_previousHolder = fromId, te_newHolder = toId,
       te_blockNumber = ev_number ev, te_blockTimestamp = ev_timestamp ev\<rparr>
      (snd (getOrCreateAccount toId (snd (getOrCreateAccount fromId s))))"
  have s3: "account_of s3 = account_of s" "st_punks s3 = st_punks s" "getGovernanceEntity s3 = getGovernanceEntity s"
    by (simp_all add: s3_def fun_eq_iff)
  obtain f1 g1 s4 where m: "leave_holder fromId (dec t) (account_of s fromId) (getGovernanceEntity s) s3 = (f1, g1, s4)"
    by (cases "leave_holder fromId (dec t) (account_of s fromId) (getGovernanceEntity s) s3") auto
  from m have s': "s' = enter_holder ev fromId toId (dec t) f1 (account_of s toId) g1 s4"
    by (simp add: s' handleTransfer_def case_prod_beta Let_def s3_def)
  have s4: "account_of s4 = (account_of s)(fromId := f1)" "st_punks s4 = st_punks s"
      "debit fromId (dec t) (account_of s fromId) f1" "gv_currentTokenHolders g1 = current_holders s4"
      "current_holders s4 = current_holders s - empties fromId (account_of s fromId)"
    using leave_holder_effect [OF m] from_pos by (simp_all add: s3)
  note enter = enter_holder_effect [OF s4(4) to_nonneg s']
  show "credit (dec t) (account_of s toId) (account_of s' toId)" using enter by blast
  show "debit fromId (dec t) (account_of s fromId) (account_of s' fromId)" using enter ne s4 by simp
  show "account_of s' a = account_of s a" if "a \<noteq> fromId" "a \<noteq> toId" for a using enter s4 that by simp
  show "map_option pk_owner (st_punks s' i) = (if i = dec t then Some toId else map_option pk_owner (st_punks s i))" for i
    using enter s4 by simp
  show "current_holders s' = current_holders s - empties fromId (account_of s fromId) + starts (account_of s toId)"
    using enter s4 by simp
qed

section \<open>The index follows the ledger\<close>

lemma inj_dec: "inj dec"
  by (rule injI) simp

lemma dec_image_mem [simp]: "dec t \<in> dec ` A \<longleftrightarrow> t \<in> A"
  by (simp add: inj_image_mem_iff [OF inj_dec])

lemma holds_update:
  "holds (L(t \<mapsto> b)) a = (if a = b then insert t (holds L a) else holds L a - {t})"
  by (auto simp: holds_def split: if_splits)

lemma matches_balance:
  assumes "account_matches L a e" and "finite (dom L)"
  shows "ac_tokenBalanceRaw e = int (card (holds L a))" and "finite (holds L a)"
proof -
  have "finite (holds L a)" by (rule finite_subset [OF _ assms(2)]) (auto simp: holds_def)
  then show "finite (holds L a)" .
  have "card (holds L a) = card (dec ` holds L a)" using inj_dec by (simp add: card_image inj_on_subset)
  also have "\<dots> = length (ac_punks e)" using assms(1) by (metis account_matches_def distinct_card)
  finally show "ac_tokenBalanceRaw e = int (card (holds L a))" using assms(1) by (simp add: account_matches_def)
qed

lemma matches_credit:
  assumes "account_matches L b e" and "credit (dec t) e e'" and "t \<notin> holds L b"
  shows "account_matches (L(t \<mapsto> b)) b e'"
  using assms by (auto simp: account_matches_def credit_def holds_update)

lemma matches_debit:
  assumes "account_matches L a e" and "debit a (dec t) e e'" and "a \<noteq> b"
    and "if a = ZERO_ADDRESS then L t = None else L t = Some a"
  shows "account_matches (L(t \<mapsto> b)) a e'"
proof (cases "a = ZERO_ADDRESS")
  case True
  with assms show ?thesis by (auto simp: account_matches_def debit_def holds_update) (auto simp: holds_def)
next
  case False
  with assms have e: "distinct (ac_punks e)" "set (ac_punks e) = dec ` holds L a" "t \<in> holds L a"
    "ac_punks e' = filter (\<lambda>n. n \<noteq> dec t) (ac_punks e)"
    by (auto simp: account_matches_def debit_def holds_def)
  then have "Suc (length (ac_punks e')) = length (ac_punks e)"
    by (simp add: length_filter_neq_distinct)
  moreover have "set (ac_punks e') = dec ` (holds L a - {t})"
    using e by (auto simp: image_set_diff [OF inj_dec])
  ultimately show ?thesis
    using assms e False by (auto simp: account_matches_def debit_def holds_update)
qed

lemma matches_other:
  "account_matches L a e \<Longrightarrow> a \<noteq> b \<Longrightarrow> L t \<noteq> Some a \<Longrightarrow> account_matches (L(t \<mapsto> b)) a e"
  by (auto simp: account_matches_def holds_update) (auto simp: holds_def)

lemma ran_holds: "ran L = {a. holds L a \<noteq> {}}"
  by (auto simp: ran_def holds_def)

lemma card_ran_update:
  assumes "finite (dom L)" and "a \<noteq> b" and "case L t of None \<Rightarrow> True | Some c \<Rightarrow> c = a"
  shows "int (card (ran (L(t \<mapsto> b)))) = int (card (ran L))
    - (if holds L a = {t} then 1 else 0) + (if holds L b = {} then 1 else 0)"
proof -
  have fin: "finite (ran L)" by (rule finite_ran [OF assms(1)])
  have other: "c \<noteq> a \<Longrightarrow> t \<notin> holds L c" for c using assms(3) by (auto simp: holds_def split: option.splits)
  have "c \<in> ran (L(t \<mapsto> b)) \<longleftrightarrow> c = b \<or> c \<in> ran L \<and> \<not> (c = a \<and> holds L a = {t})" for c
  proof -
    consider "c = b" | "c \<noteq> b" "c = a" | "c \<noteq> b" "c \<noteq> a" by blast
    then show ?thesis
    proof cases
      case 2
      then show ?thesis by (auto simp: ran_holds holds_update subset_singleton_iff)
    next
      case 3
      then have "holds L c - {t} = holds L c" using other by simp
      with 3 show ?thesis by (simp add: ran_holds holds_update)
    qed (simp add: ran_holds holds_update)
  qed
  then have "ran (L(t \<mapsto> b)) = insert b (ran L - (if holds L a = {t} then {a} else {}))"
    by auto
  moreover have "a \<in> ran L" if "holds L a = {t}" using that by (auto simp: ran_holds)
  moreover have "b \<in> ran L \<longleftrightarrow> holds L b \<noteq> {}" by (simp add: ran_holds)
  moreover have "int (card (ran L) - 1) = int (card (ran L)) - 1" if "holds L a = {t}"
  proof -
    have "0 < card (ran L)" using that fin by (auto simp: card_gt_0_iff ran_holds)
    then show ?thesis by linarith
  qed
  ultimately show ?thesis
    using fin assms(2) by (auto simp: card_insert_if card_Diff_singleton_if)
qed

text \<open>Take a store that indexes the ledger (every account lists exactly the
  punks it owns, without repetition, its balance is their number, every punk entity names its owner,
  and \<open>currentTokenHolders\<close> is the number of owners). After \<open>handleTransfer\<close> of a transfer
  that the contract can emit, the store indexes the ledger with that punk moved.\<close>

lemma transfer_indexed:
  assumes ix: "indexed L s" and v: "valid_transfer L fromId toId t"
  shows "indexed (L(t \<mapsto> toId)) (handleTransfer ev fromId toId t s)"
proof -
  define s' where "s' = handleTransfer ev fromId toId t s"
  have m: "account_matches L a (account_of s a)" for a using ix by (simp add: indexed_def)
  have fin: "finite (dom L)" using ix by (simp add: indexed_def)
  note bal = matches_balance [OF m fin]
  have ne: "fromId \<noteq> toId" and src: "if fromId = ZERO_ADDRESS then L t = None else L t = Some fromId"
    using v by (simp_all add: valid_transfer_def)
  have not_to: "t \<notin> holds L toId" using ne src by (auto simp: holds_def split: if_splits)
  have pos: "0 < ac_tokenBalanceRaw (account_of s fromId)" if "fromId \<noteq> ZERO_ADDRESS"
    using that src bal by (auto simp: holds_def card_gt_0_iff)
  have nonneg: "0 \<le> ac_tokenBalanceRaw (account_of s toId)" using bal by simp
  note eff = transfer_effect [OF ne pos nonneg s'_def]
  have "account_matches (L(t \<mapsto> toId)) a (account_of s' a)" for a
  proof -
    consider "a = toId" | "a = fromId" | "a \<noteq> toId" "a \<noteq> fromId" by blast
    then show ?thesis
    proof cases
      case 1
      then show ?thesis using matches_credit [OF m eff(1) not_to] by simp
    next
      case 2
      then show ?thesis using matches_debit [OF m eff(2) ne src] by simp
    next
      case 3
      then show ?thesis
        using matches_other [OF m, of a toId t] eff(3) src by (auto split: if_splits)
    qed
  qed
  moreover have "map_option pk_owner (st_punks s' (dec i)) = (L(t \<mapsto> toId)) i" for i
    using eff(4) [of "dec i"] ix by (simp add: indexed_def)
  moreover have "current_holders s' = int (card (ran (L(t \<mapsto> toId))))"
  proof -
    have "case L t of None \<Rightarrow> True | Some c \<Rightarrow> c = fromId" using src by (auto split: if_splits)
    from card_ran_update [OF fin ne this]
    have c: "int (card (ran (L(t \<mapsto> toId)))) = int (card (ran L))
      - (if holds L fromId = {t} then 1 else 0) + (if holds L toId = {} then 1 else 0)" .
    have "t \<in> holds L fromId \<longleftrightarrow> fromId \<noteq> ZERO_ADDRESS" using src by (auto simp: holds_def split: if_splits)
    then have "holds L fromId = {t} \<longleftrightarrow> fromId \<noteq> ZERO_ADDRESS \<and> card (holds L fromId) = 1"
      by (metis card_1_singletonE is_singletonI is_singleton_altdef singletonD singletonI)
    moreover have "holds L toId = {} \<longleftrightarrow> card (holds L toId) = 0" using bal(2) by simp
    ultimately show ?thesis
      using eff(5) c bal(1) ix by (simp add: empties_def starts_def indexed_def)
  qed
  ultimately show ?thesis using fin by (simp add: indexed_def s'_def)
qed

end
