(* ===== verification/Graph_Auction.thy ===== *)
theory Graph_Auction
  imports Graph_Token
begin

text \<open>
  \<open>packages/punks-subgraph/src/n-auction-house.ts\<close>: auctions and bids. The lemmas describe what an
  auction entity says after a history of the events of one auction house.
\<close>

text \<open>A new auction entity assigns every field but \<open>bidder\<close>; an entity already stored under the
  id keeps its bidder.\<close>

definition handleAuctionCreated :: "nat \<Rightarrow> int \<Rightarrow> int \<Rightarrow> store \<Rightarrow> store" where
  "handleAuctionCreated tokenId startTime endTime s =
     (let tid = dec tokenId
      in case st_punks s tid of
           None \<Rightarrow> s
         | Some punk \<Rightarrow>
             save_auction tid
               \<lparr>au_punk = tid, au_amount = 0, au_startTime = startTime, au_endTime = endTime,
                au_bidder = (case st_auctions s tid of None \<Rightarrow> None | Some old \<Rightarrow> au_bidder old),
                au_settled = False\<rparr> s)"

definition handleAuctionBid :: "event_env \<Rightarrow> nat \<Rightarrow> string \<Rightarrow> int \<Rightarrow> store \<Rightarrow> store" where
  "handleAuctionBid ev tokenId sender amount s =
     (let tid = dec tokenId;
          (bidder, s1) = getOrCreateAccount sender s
      in case st_auctions s1 tid of
           None \<Rightarrow> s1
         | Some auction \<Rightarrow>
             let auction1 = auction\<lparr>au_amount := amount, au_bidder := Some sender\<rparr>;
                 s2 = save_auction tid auction1 s1
             in save_bid (ev_hash ev)
                  \<lparr>bd_punk = au_punk auction1, bd_amount = au_amount auction1, bd_bidder = Some sender,
                   bd_blockNumber = ev_number ev, bd_txIndex = ev_index ev, bd_auction = tid,
                   bd_blockTimestamp = ev_timestamp ev\<rparr> s2)"

definition handleAuctionExtended :: "nat \<Rightarrow> int \<Rightarrow> store \<Rightarrow> store" where
  "handleAuctionExtended tokenId endTime s =
     (case st_auctions s (dec tokenId) of
        None \<Rightarrow> s
      | Some auction \<Rightarrow> save_auction (dec tokenId) (auction\<lparr>au_endTime := endTime\<rparr>) s)"

definition handleAuctionSettled :: "nat \<Rightarrow> store \<Rightarrow> store" where
  "handleAuctionSettled tokenId s =
     (case st_auctions s (dec tokenId) of
        None \<Rightarrow> s
      | Some auction \<Rightarrow> save_auction (dec tokenId) (auction\<lparr>au_settled := True\<rparr>) s)"

section \<open>The life of one auction\<close>

datatype auction_event =
    Created nat int int
  | Bid event_env nat string int
  | Extended nat int
  | Settled nat

fun handle_auction :: "auction_event \<Rightarrow> store \<Rightarrow> store" where
  "handle_auction (Created t start end) = handleAuctionCreated t start end"
| "handle_auction (Bid ev t sender amount) = handleAuctionBid ev t sender amount"
| "handle_auction (Extended t end) = handleAuctionExtended t end"
| "handle_auction (Settled t) = handleAuctionSettled t"

fun event_token :: "auction_event \<Rightarrow> nat" where
  "event_token (Created t _ _) = t"
| "event_token (Bid _ t _ _) = t"
| "event_token (Extended t _) = t"
| "event_token (Settled t) = t"

text \<open>What the events of one auction, after its creation, say: the last bid, the last end time,
  whether it was settled.\<close>

fun auction_view :: "auction_entity \<Rightarrow> auction_event \<Rightarrow> auction_entity" where
  "auction_view a (Created t start end) = a"
| "auction_view a (Bid ev t sender amount) = a\<lparr>au_amount := amount, au_bidder := Some sender\<rparr>"
| "auction_view a (Extended t end) = a\<lparr>au_endTime := end\<rparr>"
| "auction_view a (Settled t) = a\<lparr>au_settled := True\<rparr>"

definition is_creation :: "auction_event \<Rightarrow> bool" where
  "is_creation e = (case e of Created _ _ _ \<Rightarrow> True | _ \<Rightarrow> False)"

lemma handle_auction_other:
  "event_token e \<noteq> t \<Longrightarrow> st_auctions (handle_auction e s) (dec t) = st_auctions s (dec t)"
  by (cases e) (auto simp: handleAuctionCreated_def handleAuctionBid_def handleAuctionExtended_def
      handleAuctionSettled_def Let_def case_prod_beta auctions.load_save split: option.splits)

lemma handle_auction_same:
  "\<not> is_creation e \<Longrightarrow> event_token e = t \<Longrightarrow> st_auctions s (dec t) = Some a \<Longrightarrow>
     st_auctions (handle_auction e s) (dec t) = Some (auction_view a e)"
  by (cases e) (auto simp: is_creation_def handleAuctionBid_def handleAuctionExtended_def
      handleAuctionSettled_def Let_def case_prod_beta auctions.load_save split: option.splits)

lemma handle_auctions:
  assumes "st_auctions s (dec t) = Some a" and "\<forall>e \<in> set es. event_token e = t \<longrightarrow> \<not> is_creation e"
  shows "st_auctions (fold handle_auction es s) (dec t) =
    Some (foldl auction_view a (filter (\<lambda>e. event_token e = t) es))"
  using assms
  by (induction es arbitrary: s a) (auto simp: handle_auction_other handle_auction_same)

text \<open>C15. An auction through its life: once a punk's auction is created (for a punk the store knows
  and that has no auction yet), the entity after any interleaving of later events of all auctions
  (bids, extensions, settlements, and creations of other auctions) is the created one with exactly
  its own events applied in order: highest bid and bidder of the last bid, end time of the last
  extension, settled once settled.\<close>

theorem auction_history:
  assumes "st_punks s (dec t) \<noteq> None" and "st_auctions s (dec t) = None"
    and "\<forall>e \<in> set es. event_token e = t \<longrightarrow> \<not> is_creation e"
  shows "st_auctions (fold handle_auction es (handleAuctionCreated t start stop s)) (dec t) =
    Some (foldl auction_view
      \<lparr>au_punk = dec t, au_amount = 0, au_startTime = start, au_endTime = stop, au_bidder = None, au_settled = False\<rparr>
      (filter (\<lambda>e. event_token e = t) es))"
proof (rule handle_auctions [OF _ assms(3)])
  show "st_auctions (handleAuctionCreated t start stop s) (dec t) =
    Some \<lparr>au_punk = dec t, au_amount = 0, au_startTime = start, au_endTime = stop, au_bidder = None, au_settled = False\<rparr>"
    using assms(1,2) by (auto simp: handleAuctionCreated_def Let_def auctions.load_save)
qed

definition demo_env :: "string \<Rightarrow> event_env" where
  "demo_env h = \<lparr>ev_hash = h, ev_index = 0, ev_number = 1, ev_timestamp = 2, ev_address = ''0xaa''\<rparr>"

theorem auction_history_witness:
  "st_auctions (fold handle_auction [Bid (demo_env ''0x1'') 7 ''0xb'' 5, Bid (demo_env ''0x2'') 8 ''0xc'' 9, Settled 7]
      (handleAuctionCreated 7 10 20 (save_punk (dec 7) \<lparr>pk_seed = None, pk_owner = ''0xa''\<rparr> empty_store))) (dec 7) =
    Some \<lparr>au_punk = dec 7, au_amount = 5, au_startTime = 10, au_endTime = 20, au_bidder = Some ''0xb'', au_settled = True\<rparr>"
  by (subst auction_history) (auto simp: is_creation_def punks.load_save empty_store_def)

section \<open>Bids\<close>

text \<open>The bids of an auction never exceed its amount as long as the auction house raises the price
  with every bid.\<close>

definition bids_below :: "store \<Rightarrow> bool" where
  "bids_below s \<longleftrightarrow> (\<forall>h b. st_bids s h = Some b \<longrightarrow>
     (\<exists>a. st_auctions s (bd_auction b) = Some a \<and> bd_amount b \<le> au_amount a))"

fun raises :: "store \<Rightarrow> auction_event \<Rightarrow> bool" where
  "raises s (Created t _ _) \<longleftrightarrow> st_auctions s (dec t) = None"
| "raises s (Bid ev t sender amount) \<longleftrightarrow> (\<forall>a. st_auctions s (dec t) = Some a \<longrightarrow> au_amount a \<le> amount)"
| "raises s (Extended _ _) \<longleftrightarrow> True"
| "raises s (Settled _) \<longleftrightarrow> True"

lemma bids_belowD: "bids_below s \<Longrightarrow> st_bids s h = Some b \<Longrightarrow>
    \<exists>a. st_auctions s (bd_auction b) = Some a \<and> bd_amount b \<le> au_amount a"
  by (simp add: bids_below_def)

lemma bids_below_step:
  assumes "bids_below s" and "raises s e"
  shows "bids_below (handle_auction e s)"
proof (cases e)
  case (Created t start stop)
  with assms show ?thesis
    by (auto simp: bids_below_def handleAuctionCreated_def Let_def auctions.load_save split: option.splits) force+
next
  case (Bid ev t sender amount)
  show ?thesis
  proof (cases "st_auctions s (dec t)")
    case None
    with assms Bid show ?thesis
      by (simp add: bids_below_def handleAuctionBid_def Let_def case_prod_beta)
  next
    case (Some a)
    with assms(2) Bid have up: "au_amount a \<le> amount" by simp
    have "\<exists>a'. st_auctions (handle_auction e s) (bd_auction b) = Some a' \<and> bd_amount b \<le> au_amount a'"
      if "st_bids (handle_auction e s) h = Some b" for h b
    proof (cases "h = ev_hash ev")
      case True
      with that Some Bid show ?thesis
        by (auto simp: handleAuctionBid_def Let_def case_prod_beta auctions.load_save bids.load_save)
    next
      case False
      with that Some Bid have "st_bids s h = Some b"
        by (simp add: handleAuctionBid_def Let_def case_prod_beta bids.load_save)
      from bids_belowD [OF assms(1) this] Some Bid up show ?thesis
        by (cases "bd_auction b = dec t")
          (auto simp: handleAuctionBid_def Let_def case_prod_beta auctions.load_save)
    qed
    then show ?thesis by (simp add: bids_below_def)
  qed
next
  case (Extended t stop)
  with assms show ?thesis
    by (fastforce simp: bids_below_def handleAuctionExtended_def auctions.load_save split: option.splits)
next
  case (Settled t)
  with assms show ?thesis
    by (fastforce simp: bids_below_def handleAuctionSettled_def auctions.load_save split: option.splits)
qed

end
