(* ===== verification/Graph_OgPunks.thy ===== *)
theory Graph_OgPunks
  imports Graph_Token
begin

text \<open>
  \<open>packages/punks-subgraph/src/og-cryptopunks.ts\<close>, \<open>wrapped-punk.ts\<close> and
  \<open>cryptopunks-vote.ts\<close>: the original CryptoPunks, their wrapper and the registry of delegations.
  Using a punk that the store does not have aborts the handler (\<open>None\<close>). The lemmas relate the
  store to the ledger of the original punks, the wrapped ones counted as owned by the wrapper unless
  the wrapped token has an owner of its own.
\<close>

definition receive_ogpunk :: "string \<Rightarrow> account_entity \<Rightarrow> account_entity" where
  "receive_ogpunk tid owner = owner\<lparr>ac_ogpunkBalanceRaw := ac_ogpunkBalanceRaw owner + 1,
     ac_ogpunkBalance := ac_ogpunkBalanceRaw owner + 1, ac_ogpunks := ac_ogpunks owner @ [tid]\<rparr>"

definition release_ogpunk :: "string \<Rightarrow> account_entity \<Rightarrow> account_entity" where
  "release_ogpunk tid owner = owner\<lparr>ac_ogpunkBalanceRaw := ac_ogpunkBalanceRaw owner - 1,
     ac_ogpunkBalance := ac_ogpunkBalanceRaw owner - 1,
     ac_ogpunks := filter (\<lambda>n. n \<noteq> tid) (ac_ogpunks owner)\<rparr>"

definition handleOGPunkAssign :: "string \<Rightarrow> nat \<Rightarrow> store \<Rightarrow> store" where
  "handleOGPunkAssign toId punkIndex s =
     (let (owner, s1) = getOrCreateAccount toId s;
          tid = dec punkIndex;
          ogpunk = \<lparr>og_wrapped = False, og_owner = toId,
                    og_delegate = (case st_ogpunks s1 tid of None \<Rightarrow> None | Some old \<Rightarrow> og_delegate old)\<rparr>;
          s2 = save_ogpunk tid ogpunk s1
      in save_account toId (receive_ogpunk tid owner) s2)"

definition handleOGPunkTransfer :: "string \<Rightarrow> string \<Rightarrow> nat \<Rightarrow> store \<Rightarrow> store option" where
  "handleOGPunkTransfer fromId toId punkIndex s =
     (let (prevOwner, s1) = getOrCreateAccount fromId s;
          (newOwner, s2) = getOrCreateAccount toId s1;
          tid = dec punkIndex
      in case st_ogpunks s2 tid of
           None \<Rightarrow> None
         | Some ogpunk \<Rightarrow>
             let s3 = save_account fromId (release_ogpunk tid prevOwner) s2;
                 s4 = save_ogpunk tid (ogpunk\<lparr>og_owner := toId\<rparr>) s3
             in Some (save_account toId (receive_ogpunk tid newOwner) s4))"

text \<open>The handler of the wrapper reads the punk first and saves it last; it loads the new owner after
  it has saved the previous one. \<open>address\<close> is the address of the wrapper contract.\<close>

definition handleWrappedTransfer :: "string \<Rightarrow> string \<Rightarrow> string \<Rightarrow> nat \<Rightarrow> store \<Rightarrow> store option" where
  "handleWrappedTransfer address fromId toId tokenId s =
     (let tid = dec tokenId
      in case st_ogpunks s tid of
           None \<Rightarrow> None
         | Some ogpunk \<Rightarrow>
             let (ogpunk1, prevId) =
                   (if fromId = ZERO_ADDRESS then (ogpunk\<lparr>og_wrapped := True\<rparr>, address) else (ogpunk, fromId));
                 (prevOwner, s1) = getOrCreateAccount prevId s;
                 s2 = save_account prevId (release_ogpunk tid prevOwner) s1;
                 (ogpunk2, newId) =
                   (if toId = ZERO_ADDRESS then (ogpunk1\<lparr>og_wrapped := False\<rparr>, address) else (ogpunk1, toId));
                 (newOwner, s3) = getOrCreateAccount newId s2;
                 s4 = save_ogpunk tid (ogpunk2\<lparr>og_owner := newId\<rparr>) s3
             in Some (save_account newId (receive_ogpunk tid newOwner) s4))"

definition handleOGPunkDelegateChanged ::
  "event_env \<Rightarrow> string \<Rightarrow> string \<Rightarrow> string \<Rightarrow> nat \<Rightarrow> store \<Rightarrow> store option" where
  "handleOGPunkDelegateChanged ev delegatorId fromDelegate toDelegate punkIndex s =
     (let (delegator, s1) = getOrCreateAccount delegatorId s;
          (previousDelegate, s2) = getOrCreateDelegate fromDelegate s1;
          (newDelegate, s3) = getOrCreateDelegate toDelegate s2;
          tid = dec punkIndex
      in case st_ogpunks s3 tid of
           None \<Rightarrow> None
         | Some ogpunk \<Rightarrow>
             let s4 = save_ogpunk tid (ogpunk\<lparr>og_delegate := Some toDelegate\<rparr>) s3;
                 s5 = save_delegate fromDelegate (previousDelegate\<lparr>dl_ogpunksRepresented :=
                        filter (\<lambda>n. n \<noteq> tid) (dl_ogpunksRepresented previousDelegate)\<rparr>) s4;
                 s6 = save_delegate toDelegate (newDelegate\<lparr>dl_ogpunksRepresented :=
                        dl_ogpunksRepresented newDelegate @ [tid]\<rparr>) s5
             in Some (save_ogDelegationEvent (ev_hash ev @ ''_'' @ tid)
                  \<lparr>oe_ogpunk = tid, oe_delegator = delegatorId, oe_previousDelegate = fromDelegate,
                   oe_newDelegate = toDelegate, oe_blockNumber = ev_number ev,
                   oe_blockTimestamp = ev_timestamp ev\<rparr> s6))"

definition handleOGPunkDelegateVotesChanged :: "string \<Rightarrow> int \<Rightarrow> store \<Rightarrow> store" where
  "handleOGPunkDelegateVotesChanged delegateId newBalance s =
     (let (delegate, s1) = getOrCreateDelegate delegateId s
      in save_delegate delegateId
           (delegate\<lparr>dl_delegatedOGVotesRaw := newBalance, dl_delegatedOGVotes := newBalance\<rparr>) s1)"

section \<open>The ledger of the original punks\<close>

definition og_matches :: "ledger \<Rightarrow> string \<Rightarrow> account_entity \<Rightarrow> bool" where
  "og_matches L a e \<longleftrightarrow>
     distinct (ac_ogpunks e) \<and> set (ac_ogpunks e) = dec ` holds L a \<and>
     ac_ogpunkBalanceRaw e = int (length (ac_ogpunks e)) \<and> ac_ogpunkBalance e = ac_ogpunkBalanceRaw e"

definition og_indexed :: "ledger \<Rightarrow> store \<Rightarrow> bool" where
  "og_indexed L s \<longleftrightarrow>
     (\<forall>a. og_matches L a (account_of s a)) \<and> (\<forall>t. map_option og_owner (st_ogpunks s (dec t)) = L t)"

lemma og_receive:
  "og_matches L b e \<Longrightarrow> t \<notin> holds L b \<Longrightarrow> og_matches (L(t \<mapsto> b)) b (receive_ogpunk (dec t) e)"
  by (auto simp: og_matches_def receive_ogpunk_def holds_update)

lemma og_release:
  assumes "og_matches L a e" and "L t = Some a"
  shows "og_matches (L(t := None)) a (release_ogpunk (dec t) e)"
proof -
  have e: "distinct (ac_ogpunks e)" "set (ac_ogpunks e) = dec ` holds L a" "t \<in> holds L a"
    using assms by (auto simp: og_matches_def holds_def)
  have "holds (L(t := None)) a = holds L a - {t}" by (auto simp: holds_def)
  moreover have "Suc (length (filter (\<lambda>n. n \<noteq> dec t) (ac_ogpunks e))) = length (ac_ogpunks e)"
    using e by (simp add: length_filter_neq_distinct)
  moreover have "set (filter (\<lambda>n. n \<noteq> dec t) (ac_ogpunks e)) = dec ` (holds L a - {t})"
    using e by (auto simp: image_set_diff [OF inj_dec])
  ultimately show ?thesis
    using assms(1) by (auto simp: og_matches_def release_ogpunk_def)
qed

lemma og_release_other: "og_matches L a e \<Longrightarrow> L t \<noteq> Some a \<Longrightarrow> og_matches (L(t := None)) a e"
  by (auto simp: og_matches_def holds_def)

lemma og_update_other: "og_matches L a e \<Longrightarrow> a \<noteq> b \<Longrightarrow> L t = None \<Longrightarrow> og_matches (L(t \<mapsto> b)) a e"
  by (auto simp: og_matches_def holds_def)

text \<open>Moving a punk, in the two steps the code has: the previous owner releases it, then the new
  owner, loaded after that, receives it.\<close>

lemma og_move:
  assumes "og_matches L a (f a)" and "\<And>c. og_matches L c (f c)" and "L t = Some a"
    and "f1 = f(a := release_ogpunk (dec t) (f a))" and "f2 = f1(b := receive_ogpunk (dec t) (f1 b))"
  shows "og_matches (L(t \<mapsto> b)) c (f2 c)"
proof -
  have rel: "og_matches (L(t := None)) c (f1 c)" for c
    using assms(2) [of c] assms(3,4) og_release [OF assms(1,3)] og_release_other [of L c "f c" t] by auto
  have "t \<notin> holds (L(t := None)) b" by (simp add: holds_def)
  from og_receive [OF rel this] og_update_other [OF rel, of c b t] assms(5) show ?thesis
    by (cases "c = b") simp_all
qed

lemma wrapped_transfer_effect:
  assumes "handleWrappedTransfer address fromId toId t s = Some s'"
  defines "a \<equiv> if fromId = ZERO_ADDRESS then address else fromId"
    and "b \<equiv> if toId = ZERO_ADDRESS then address else toId"
  defines "f1 \<equiv> (account_of s)(a := release_ogpunk (dec t) (account_of s a))"
  shows "account_of s' = f1(b := receive_ogpunk (dec t) (f1 b))"
    and "map_option og_owner (st_ogpunks s' i) = (if i = dec t then Some b else map_option og_owner (st_ogpunks s i))"
  using assms(1)
  by (auto simp: handleWrappedTransfer_def Let_def case_prod_beta a_def b_def f1_def fun_eq_iff ogpunks.load_save
      split: option.splits)

lemma wrapped_move:
  assumes "og_indexed L s" and "L t = Some (if fromId = ZERO_ADDRESS then address else fromId)"
  shows "\<exists>s'. handleWrappedTransfer address fromId toId t s = Some s' \<and>
    og_indexed (L(t \<mapsto> (if toId = ZERO_ADDRESS then address else toId))) s'"
proof -
  let ?a = "if fromId = ZERO_ADDRESS then address else fromId"
  let ?b = "if toId = ZERO_ADDRESS then address else toId"
  have own: "map_option og_owner (st_ogpunks s (dec i)) = L i" for i
    using assms(1) by (simp add: og_indexed_def)
  have m: "og_matches L c (account_of s c)" for c using assms(1) by (simp add: og_indexed_def)
  obtain og where "st_ogpunks s (dec t) = Some og"
    using own [of t] assms(2) by (cases "st_ogpunks s (dec t)") auto
  then obtain s' where s': "handleWrappedTransfer address fromId toId t s = Some s'"
    by (simp add: handleWrappedTransfer_def Let_def case_prod_beta)
  note eff = wrapped_transfer_effect [OF s']
  have "og_matches (L(t \<mapsto> ?b)) c (account_of s' c)" for c
    by (rule og_move [OF m m assms(2) refl eff(1)])
  moreover have "map_option og_owner (st_ogpunks s' (dec i)) = (L(t \<mapsto> ?b)) i" for i
    using eff(2) [of "dec i"] own [of i] by simp
  ultimately show ?thesis using s' by (auto simp: og_indexed_def)
qed

text \<open>The handler of the original contract is right when the two owners differ.\<close>

lemma og_transfer_indexed:
  assumes "og_indexed L s" and "L t = Some fromId" and "fromId \<noteq> toId"
  shows "\<exists>s'. handleOGPunkTransfer fromId toId t s = Some s' \<and> og_indexed (L(t \<mapsto> toId)) s'"
proof -
  have own: "map_option og_owner (st_ogpunks s (dec i)) = L i" for i
    using assms(1) by (simp add: og_indexed_def)
  have m: "og_matches L c (account_of s c)" for c using assms(1) by (simp add: og_indexed_def)
  obtain og where og: "st_ogpunks s (dec t) = Some og"
    using own [of t] assms(2) by (cases "st_ogpunks s (dec t)") auto
  then obtain s' where s': "handleOGPunkTransfer fromId toId t s = Some s'"
    by (simp add: handleOGPunkTransfer_def Let_def case_prod_beta)
  define f1 where "f1 = (account_of s)(fromId := release_ogpunk (dec t) (account_of s fromId))"
  have acc: "account_of s' = f1(toId := receive_ogpunk (dec t) (f1 toId))"
    using s' og assms(3) by (auto simp: handleOGPunkTransfer_def Let_def case_prod_beta f1_def fun_eq_iff)
  have "og_matches (L(t \<mapsto> toId)) c (account_of s' c)" for c
    by (rule og_move [OF m m assms(2) f1_def acc])
  moreover have "map_option og_owner (st_ogpunks s' (dec i)) = (L(t \<mapsto> toId)) i" for i
    using s' og own [of i] by (auto simp: handleOGPunkTransfer_def Let_def case_prod_beta ogpunks.load_save)
  ultimately show ?thesis using s' by (auto simp: og_indexed_def)
qed

lemma og_assign_indexed:
  assumes "og_indexed L s" and "L t = None"
  shows "og_indexed (L(t \<mapsto> toId)) (handleOGPunkAssign toId t s)"
proof -
  let ?s' = "handleOGPunkAssign toId t s"
  have m: "og_matches L c (account_of s c)" for c using assms(1) by (simp add: og_indexed_def)
  have "t \<notin> holds L toId" using assms(2) by (simp add: holds_def)
  then have "og_matches (L(t \<mapsto> toId)) c (account_of ?s' c)" for c
    using og_receive [OF m] og_update_other [OF m, of c toId t] assms(2)
    by (cases "c = toId") (simp_all add: handleOGPunkAssign_def Let_def case_prod_beta)
  then show ?thesis
    using assms(1) by (auto simp: og_indexed_def handleOGPunkAssign_def Let_def case_prod_beta ogpunks.load_save)
qed

lemma og_indexed_empty: "og_indexed Map.empty empty_store"
  by (simp add: og_indexed_def og_matches_def holds_def account_of_def new_account_def empty_store_def)

text \<open>Wrapped punks: when the store indexes the ledger of the original punks (every account
  lists exactly the punks it owns and counts them, every punk entity names its owner), the transfer of
  a wrapped token by its owner, and its wrapping and unwrapping, in which the wrapper contract takes
  the place of the zero address, succeed and leave the store indexing the ledger with the punk moved.
  The two owners may be the same.\<close>

lemma wrapped_transfer_indexed:
  assumes "og_indexed L s" and "L t = Some (if fromId = ZERO_ADDRESS then address else fromId)"
  shows "\<exists>s'. handleWrappedTransfer address fromId toId t s = Some s' \<and>
    og_indexed (L(t \<mapsto> (if toId = ZERO_ADDRESS then address else toId))) s'"
  using assms by (rule wrapped_move)

section \<open>Transfers to oneself\<close>

text \<open>A transfer of an original punk to its own owner, which the contract allows, breaks the
  index: the handler holds two copies of the account and saves the one that only received the punk, so
  the account counts it twice and lists it twice.\<close>

lemma og_self_transfer:
  assumes "st_ogpunks s (dec t) = Some og"
  shows "\<exists>s'. handleOGPunkTransfer a a t s = Some s' \<and>
    ac_ogpunks (account_of s' a) = ac_ogpunks (account_of s a) @ [dec t] \<and>
    ac_ogpunkBalanceRaw (account_of s' a) = ac_ogpunkBalanceRaw (account_of s a) + 1"
  using assms by (simp add: handleOGPunkTransfer_def Let_def case_prod_beta receive_ogpunk_def)

end
