(* ===== verification/Graph_Dao.thy ===== *)
theory Graph_Dao
  imports Graph_Token
begin

text \<open>
  \<open>packages/punks-subgraph/src/n-dao.ts\<close>: proposals and votes. A handler that reads or saves a
  proposal of which only the id is set aborts (\<open>None\<close>), because its required fields were never
  assigned. The log lines are left out; the arrays of a proposal are given as lists of strings.
  The lemmas give the tallies of a proposal, its status and the counters of the governance entity.
\<close>

record proposal_params =
  pp_id :: nat
  pp_proposer :: string
  pp_targets :: "string list"
  pp_values :: "int list"
  pp_signatures :: "string list"
  pp_calldatas :: "string list"
  pp_startBlock :: int
  pp_endBlock :: int
  pp_proposalThreshold :: int
  pp_quorumVotes :: int
  pp_description :: string

text \<open>The two-character sequence backslash, n becomes a line break.\<close>

definition unescape_newlines :: "string \<Rightarrow> string" where
  "unescape_newlines d = join [CHR 0x0A] (split_str [CHR 0x5C, CHR ''n''] d)"

definition handleProposalCreatedWithRequirements :: "event_env \<Rightarrow> proposal_params \<Rightarrow> store \<Rightarrow> store" where
  "handleProposalCreatedWithRequirements ev params s =
     (let pid = dec (pp_id params);
          (proposal, s1) = getOrCreateProposal pid s;
          (proposer, s2) = getOrCreateDelegate (pp_proposer params) s1
      in save_proposal pid
           \<lparr>pr_proposer = pp_proposer params, pr_targets = pp_targets params, pr_values = pp_values params,
            pr_signatures = pp_signatures params, pr_calldatas = pp_calldatas params,
            pr_createdTimestamp = ev_timestamp ev, pr_createdBlock = ev_number ev,
            pr_createdTransactionHash = ev_hash ev, pr_startBlock = pp_startBlock params,
            pr_endBlock = pp_endBlock params, pr_proposalThreshold = pp_proposalThreshold params,
            pr_quorumVotes = pp_quorumVotes params, pr_forVotes = 0, pr_againstVotes = 0,
            pr_abstainVotes = 0, pr_description = unescape_newlines (pp_description params),
            pr_status = (if ev_number ev \<ge> pp_startBlock params then ACTIVE else PENDING),
            pr_executionETA = (case proposal of None \<Rightarrow> None | Some old \<Rightarrow> pr_executionETA old)\<rparr> s2)"

definition handleProposalCanceled :: "nat \<Rightarrow> store \<Rightarrow> store option" where
  "handleProposalCanceled proposalId s =
     (let (proposal, s1) = getOrCreateProposal (dec proposalId) s
      in map_option (\<lambda>p. save_proposal (dec proposalId) (p\<lparr>pr_status := CANCELLED\<rparr>) s1) proposal)"

definition handleProposalVetoed :: "nat \<Rightarrow> store \<Rightarrow> store option" where
  "handleProposalVetoed proposalId s =
     (let (proposal, s1) = getOrCreateProposal (dec proposalId) s
      in map_option (\<lambda>p. save_proposal (dec proposalId) (p\<lparr>pr_status := VETOED\<rparr>) s1) proposal)"

definition handleProposalQueued :: "nat \<Rightarrow> int \<Rightarrow> store \<Rightarrow> store option" where
  "handleProposalQueued proposalId eta s =
     (let governance = getGovernanceEntity s;
          (proposal, s1) = getOrCreateProposal (dec proposalId) s
      in map_option (\<lambda>p.
           let s2 = save_proposal (dec proposalId) (p\<lparr>pr_status := QUEUED, pr_executionETA := Some eta\<rparr>) s1
           in save_governance (governance\<lparr>gv_proposalsQueued := gv_proposalsQueued governance + 1\<rparr>) s2)
         proposal)"

definition handleProposalExecuted :: "nat \<Rightarrow> store \<Rightarrow> store option" where
  "handleProposalExecuted proposalId s =
     (let governance = getGovernanceEntity s;
          (proposal, s1) = getOrCreateProposal (dec proposalId) s
      in map_option (\<lambda>p.
           let s2 = save_proposal (dec proposalId) (p\<lparr>pr_status := EXECUTED, pr_executionETA := None\<rparr>) s1
           in save_governance (governance\<lparr>gv_proposalsQueued := gv_proposalsQueued governance - 1\<rparr>) s2)
         proposal)"

record vote_params =
  vp_voter :: string
  vp_proposalId :: nat
  vp_support :: "32 word"
  vp_votes :: int
  vp_reason :: string

definition vote_id :: "string \<Rightarrow> nat \<Rightarrow> string" where
  "vote_id voter proposalId = voter @ ''-'' @ dec proposalId"

definition tally :: "vote_params \<Rightarrow> proposal_entity \<Rightarrow> proposal_entity" where
  "tally params proposal =
     (if vp_support params = 0 then proposal\<lparr>pr_againstVotes := pr_againstVotes proposal + vp_votes params\<rparr>
      else if vp_support params = 1 then proposal\<lparr>pr_forVotes := pr_forVotes proposal + vp_votes params\<rparr>
      else if vp_support params = 2 then proposal\<lparr>pr_abstainVotes := pr_abstainVotes proposal + vp_votes params\<rparr>
      else proposal)"

definition handleVoteCast :: "event_env \<Rightarrow> vote_params \<Rightarrow> store \<Rightarrow> store option" where
  "handleVoteCast ev params s =
     (let pid = dec (vp_proposalId params);
          (proposal, s1) = getOrCreateProposal pid s;
          voteId = vote_id (vp_voter params) (vp_proposalId params);
          vote = getOrCreateVote voteId s1;
          (voter, s2) = getOrCreateDelegate (vp_voter params) s1;
          oldReason = (case vote of None \<Rightarrow> None | Some v \<Rightarrow> vt_reason v);
          s3 = save_vote voteId
                 \<lparr>vt_support = (vp_support params = 1), vt_supportDetailed = vp_support params,
                  vt_votesRaw = vp_votes params, vt_votes = vp_votes params,
                  vt_reason = (if vp_reason params \<noteq> [] then Some (vp_reason params) else oldReason),
                  vt_voter = vp_voter params, vt_punks = Some (dl_punksRepresented voter),
                  vt_proposal = pid, vt_blockNumber = ev_number ev\<rparr> s2
      in map_option (\<lambda>p.
           let p1 = tally params p;
               p2 = (if pr_status p1 = PENDING then p1\<lparr>pr_status := ACTIVE\<rparr> else p1)
           in save_proposal pid p2 s3) proposal)"

section \<open>Tallies\<close>

fun cast_votes :: "(event_env \<times> vote_params) list \<Rightarrow> store \<Rightarrow> store option" where
  "cast_votes [] s = Some s"
| "cast_votes ((ev, v) # vs) s = (case handleVoteCast ev v s of None \<Rightarrow> None | Some s' \<Rightarrow> cast_votes vs s')"

definition votes_with :: "32 word \<Rightarrow> nat \<Rightarrow> (event_env \<times> vote_params) list \<Rightarrow> int" where
  "votes_with support pid vs =
     sum_list (map (\<lambda>(ev, v). if vp_proposalId v = pid \<and> vp_support v = support then vp_votes v else 0) vs)"

lemma votes_with_simps [simp]:
  "votes_with k pid [] = 0"
  "votes_with k pid ((ev, v) # vs) =
     (if vp_proposalId v = pid \<and> vp_support v = k then vp_votes v else 0) + votes_with k pid vs"
  by (simp_all add: votes_with_def)

lemma vote_cast_effect:
  assumes "st_proposals s (dec (vp_proposalId v)) = Some p"
  shows "\<exists>s'. handleVoteCast ev v s = Some s' \<and>
    st_proposals s' = (st_proposals s)(dec (vp_proposalId v) \<mapsto>
      (let p1 = tally v p in if pr_status p1 = PENDING then p1\<lparr>pr_status := ACTIVE\<rparr> else p1)) \<and>
    (\<exists>vt. st_votes s' = (st_votes s)(vote_id (vp_voter v) (vp_proposalId v) \<mapsto> vt) \<and>
      vt_supportDetailed vt = vp_support v \<and> vt_votes vt = vp_votes v \<and> vt_voter vt = vp_voter v \<and>
      vt_proposal vt = dec (vp_proposalId v))"
proof -
  have [simp]: "getOrCreateProposal (dec (vp_proposalId v)) s = (Some p, s)"
    using assms by (simp add: getOrCreateProposal_def)
  show ?thesis
    by (simp add: handleVoteCast_def Let_def case_prod_beta fun_eq_iff proposals.load_save votes.load_save)
qed

lemma tally_fields:
  "pr_againstVotes (tally v p) = pr_againstVotes p + (if vp_support v = 0 then vp_votes v else 0)"
  "pr_forVotes (tally v p) = pr_forVotes p + (if vp_support v = 1 then vp_votes v else 0)"
  "pr_abstainVotes (tally v p) = pr_abstainVotes p + (if vp_support v = 2 then vp_votes v else 0)"
  "pr_status (tally v p) = pr_status p"
  by (simp_all add: tally_def)

text \<open>C13. Tallies: when every vote of a sequence is for a proposal that exists, none of the votes
  aborts, and afterwards the proposal's \<open>againstVotes\<close>, \<open>forVotes\<close> and \<open>abstainVotes\<close> have grown by
  the votes cast on it with support 0, 1 and 2; it is no longer pending if any vote was cast on it,
  and its status is otherwise unchanged.\<close>

theorem vote_tallies:
  assumes "\<forall>(ev, v) \<in> set vs. st_proposals s (dec (vp_proposalId v)) \<noteq> None"
    and "st_proposals s (dec pid) = Some p"
  shows "\<exists>s' p'. cast_votes vs s = Some s' \<and> st_proposals s' (dec pid) = Some p' \<and>
    pr_againstVotes p' = pr_againstVotes p + votes_with 0 pid vs \<and>
    pr_forVotes p' = pr_forVotes p + votes_with 1 pid vs \<and>
    pr_abstainVotes p' = pr_abstainVotes p + votes_with 2 pid vs \<and>
    pr_status p' = (if pr_status p = PENDING \<and> (\<exists>(ev, v) \<in> set vs. vp_proposalId v = pid) then ACTIVE
                    else pr_status p)"
  using assms
proof (induction vs arbitrary: s p)
  case Nil
  then show ?case by simp
next
  case (Cons x vs)
  obtain ev v where x: "x = (ev, v)" by (cases x)
  with Cons.prems(1) obtain q where q: "st_proposals s (dec (vp_proposalId v)) = Some q" by auto
  let ?q = "let p1 = tally v q in if pr_status p1 = PENDING then p1\<lparr>pr_status := ACTIVE\<rparr> else p1"
  obtain s1 where s1: "handleVoteCast ev v s = Some s1"
    "st_proposals s1 = (st_proposals s)(dec (vp_proposalId v) \<mapsto> ?q)"
    using vote_cast_effect [OF q] by blast
  have all: "\<forall>(ev, v) \<in> set vs. st_proposals s1 (dec (vp_proposalId v)) \<noteq> None"
    using Cons.prems(1) by (auto simp: s1(2))
  show ?case
  proof (cases "vp_proposalId v = pid")
    case True
    then have "st_proposals s1 (dec pid) = Some ?q" "q = p" using s1(2) q Cons.prems(2) by simp_all
    with Cons.IH [OF all this(1)] s1(1) True show ?thesis
      by (auto simp: x Let_def tally_fields split: if_splits)
  next
    case False
    then have "st_proposals s1 (dec pid) = Some p" using s1(2) Cons.prems(2) by simp
    from Cons.IH [OF all this] s1(1) False show ?thesis by (auto simp: x)
  qed
qed

definition demo_params :: proposal_params where
  "demo_params = \<lparr>pp_id = 3, pp_proposer = ''0xb'', pp_targets = [], pp_values = [], pp_signatures = [],
     pp_calldatas = [], pp_startBlock = 10, pp_endBlock = 20, pp_proposalThreshold = 1, pp_quorumVotes = 2,
     pp_description = ''d''\<rparr>"

definition demo_block :: event_env where
  "demo_block = \<lparr>ev_hash = ''0x1'', ev_index = 0, ev_number = 1, ev_timestamp = 2, ev_address = ''0xaa''\<rparr>"

definition demo_vote :: "string \<Rightarrow> 32 word \<Rightarrow> int \<Rightarrow> vote_params" where
  "demo_vote voter support n = \<lparr>vp_voter = voter, vp_proposalId = 3, vp_support = support, vp_votes = n, vp_reason = []\<rparr>"

theorem vote_tallies_witness:
  "\<exists>s' p'. cast_votes [(demo_block, demo_vote ''0xb'' 1 4), (demo_block, demo_vote ''0xc'' 0 2)]
      (handleProposalCreatedWithRequirements demo_block demo_params empty_store) = Some s' \<and>
    st_proposals s' (dec 3) = Some p' \<and> pr_forVotes p' = 4 \<and> pr_againstVotes p' = 2 \<and> pr_abstainVotes p' = 0 \<and>
    pr_status p' = ACTIVE"
proof -
  let ?s = "handleProposalCreatedWithRequirements demo_block demo_params empty_store"
  obtain p where p: "st_proposals ?s (dec 3) = Some p" "pr_forVotes p = 0" "pr_againstVotes p = 0"
    "pr_abstainVotes p = 0" "pr_status p = PENDING"
    by (simp add: handleProposalCreatedWithRequirements_def demo_params_def demo_block_def Let_def case_prod_beta
        proposals.load_save)
  from vote_tallies [OF _ p(1), of "[(demo_block, demo_vote ''0xb'' 1 4), (demo_block, demo_vote ''0xc'' 0 2)]"] p
  show ?thesis by (fastforce simp: demo_vote_def)
qed

end
