(* ===== verification/Graph_Index.thy ===== *)
theory Graph_Index
  imports Graph_Auction Graph_OgPunks Graph_Dao
begin

text \<open>
  The subgraph as a whole: the events of all its data sources (\<open>subgraph.yaml.mustache\<close>), the step
  that hands an event to its handler, and the histories the contracts can produce. The invariant of
  these histories joins the two ledgers of \<open>Graph_Token\<close> and \<open>Graph_OgPunks\<close> with the running
  totals of the governance entity. A handler of one data source is shown to leave alone what the
  others are judged by.
\<close>

datatype graph_event =
    PunkCreated nat nat nat "(nat \<times> nat) list"
  | DelegateChanged event_env string string string
  | DelegateVotesChanged string int int
  | Transfer event_env string string nat
  | Auction auction_event
  | OGAssign string nat
  | OGTransfer string string nat
  | WrappedTransfer string string string nat
  | OGDelegateChanged event_env string string string nat
  | OGDelegateVotesChanged string int
  | ProposalCreated event_env proposal_params
  | ProposalCanceled nat
  | ProposalVetoed nat
  | ProposalQueued nat int
  | ProposalExecuted nat
  | VoteCast event_env vote_params

fun handle_event :: "graph_event \<Rightarrow> store \<Rightarrow> store option" where
  "handle_event (PunkCreated t pt sk accs) s = Some (handlePunkCreated t pt sk accs s)"
| "handle_event (DelegateChanged ev a f d) s = Some (handleDelegateChanged ev a f d s)"
| "handle_event (DelegateVotesChanged d old new) s = Some (handleDelegateVotesChanged d old new s)"
| "handle_event (Transfer ev a b t) s = Some (handleTransfer ev a b t s)"
| "handle_event (Auction e) s = Some (handle_auction e s)"
| "handle_event (OGAssign a t) s = Some (handleOGPunkAssign a t s)"
| "handle_event (OGTransfer a b t) s = handleOGPunkTransfer a b t s"
| "handle_event (WrappedTransfer w a b t) s = handleWrappedTransfer w a b t s"
| "handle_event (OGDelegateChanged ev a f d t) s = handleOGPunkDelegateChanged ev a f d t s"
| "handle_event (OGDelegateVotesChanged d new) s = Some (handleOGPunkDelegateVotesChanged d new s)"
| "handle_event (ProposalCreated ev p) s = Some (handleProposalCreatedWithRequirements ev p s)"
| "handle_event (ProposalCanceled i) s = handleProposalCanceled i s"
| "handle_event (ProposalVetoed i) s = handleProposalVetoed i s"
| "handle_event (ProposalQueued i eta) s = handleProposalQueued i eta s"
| "handle_event (ProposalExecuted i) s = handleProposalExecuted i s"
| "handle_event (VoteCast ev v) s = handleVoteCast ev v s"

section \<open>The histories of the contracts\<close>

abbreviation votes_of :: "store \<Rightarrow> string \<Rightarrow> int" where
  "votes_of s d \<equiv> dl_delegatedVotesRaw (delegate_of s d)"

fun token_ledger :: "graph_event \<Rightarrow> ledger \<Rightarrow> ledger" where
  "token_ledger (Transfer ev a b t) L = L(t \<mapsto> b)"
| "token_ledger _ L = L"

fun og_ledger :: "graph_event \<Rightarrow> ledger \<Rightarrow> ledger" where
  "og_ledger (OGAssign a t) M = M(t \<mapsto> a)"
| "og_ledger (OGTransfer a b t) M = M(t \<mapsto> b)"
| "og_ledger (WrappedTransfer w a b t) M = M(t \<mapsto> (if b = ZERO_ADDRESS then w else b))"
| "og_ledger _ M = M"

definition has_proposal :: "store \<Rightarrow> nat \<Rightarrow> bool" where
  "has_proposal s i \<longleftrightarrow> st_proposals s (dec i) \<noteq> None"

text \<open>What the contracts guarantee of the next event: tokens are moved by their owner to another
  address, a change of votes starts from the recorded number and ends in another one, votes and
  changes of status name a proposal that was created, proposals are created once.\<close>

fun possible :: "ledger \<Rightarrow> ledger \<Rightarrow> store \<Rightarrow> graph_event \<Rightarrow> bool" where
  "possible L M s (Transfer ev a b t) \<longleftrightarrow> valid_transfer L a b t"
| "possible L M s (DelegateVotesChanged d old new) \<longleftrightarrow> old = votes_of s d \<and> 0 \<le> new \<and> new \<noteq> old"
| "possible L M s (OGAssign a t) \<longleftrightarrow> M t = None"
| "possible L M s (OGTransfer a b t) \<longleftrightarrow> M t = Some a \<and> a \<noteq> b"
| "possible L M s (WrappedTransfer w a b t) \<longleftrightarrow> M t = Some (if a = ZERO_ADDRESS then w else a)"
| "possible L M s (OGDelegateChanged ev a f d t) \<longleftrightarrow> M t \<noteq> None"
| "possible L M s (ProposalCreated ev p) \<longleftrightarrow> \<not> has_proposal s (pp_id p)"
| "possible L M s (ProposalCanceled i) \<longleftrightarrow> has_proposal s i"
| "possible L M s (ProposalVetoed i) \<longleftrightarrow> has_proposal s i"
| "possible L M s (ProposalQueued i eta) \<longleftrightarrow> has_proposal s i"
| "possible L M s (ProposalExecuted i) \<longleftrightarrow> has_proposal s i"
| "possible L M s (VoteCast ev v) \<longleftrightarrow> has_proposal s (vp_proposalId v)"
| "possible L M s _ \<longleftrightarrow> True"

inductive history :: "ledger \<Rightarrow> ledger \<Rightarrow> store \<Rightarrow> bool" where
  start: "history Map.empty Map.empty empty_store"
| event: "history L M s \<Longrightarrow> possible L M s e \<Longrightarrow> handle_event e s = Some s' \<Longrightarrow>
    history (token_ledger e L) (og_ledger e M) s'"

section \<open>What a handler leaves alone\<close>

definition same_tokens :: "store \<Rightarrow> store \<Rightarrow> bool" where
  "same_tokens s s' \<longleftrightarrow>
     (\<forall>a. ac_punks (account_of s' a) = ac_punks (account_of s a) \<and>
        ac_tokenBalanceRaw (account_of s' a) = ac_tokenBalanceRaw (account_of s a) \<and>
        ac_tokenBalance (account_of s' a) = ac_tokenBalance (account_of s a)) \<and>
     (\<forall>i. map_option pk_owner (st_punks s' i) = map_option pk_owner (st_punks s i)) \<and>
     current_holders s' = current_holders s"

definition same_ogs :: "store \<Rightarrow> store \<Rightarrow> bool" where
  "same_ogs s s' \<longleftrightarrow>
     (\<forall>a. ac_ogpunks (account_of s' a) = ac_ogpunks (account_of s a) \<and>
        ac_ogpunkBalanceRaw (account_of s' a) = ac_ogpunkBalanceRaw (account_of s a) \<and>
        ac_ogpunkBalance (account_of s' a) = ac_ogpunkBalance (account_of s a)) \<and>
     (\<forall>i. map_option og_owner (st_ogpunks s' i) = map_option og_owner (st_ogpunks s i))"

definition same_votes :: "store \<Rightarrow> store \<Rightarrow> bool" where
  "same_votes s s' \<longleftrightarrow>
     (\<forall>d. votes_of s' d = votes_of s d) \<and>
     gv_delegatedVotesRaw (getGovernanceEntity s') = gv_delegatedVotesRaw (getGovernanceEntity s) \<and>
     gv_currentDelegates (getGovernanceEntity s') = gv_currentDelegates (getGovernanceEntity s)"

definition same_proposals :: "store \<Rightarrow> store \<Rightarrow> bool" where
  "same_proposals s s' \<longleftrightarrow>
     dom (st_proposals s') = dom (st_proposals s) \<and>
     gv_proposals (getGovernanceEntity s') = gv_proposals (getGovernanceEntity s)"

lemmas same_defs = same_tokens_def same_ogs_def same_votes_def same_proposals_def

lemma same_tokens_indexed: "same_tokens s s' \<Longrightarrow> indexed L s \<Longrightarrow> indexed L s'"
  by (simp add: same_tokens_def indexed_def account_matches_def)

lemma same_ogs_indexed: "same_ogs s s' \<Longrightarrow> og_indexed M s \<Longrightarrow> og_indexed M s'"
  by (simp add: same_ogs_def og_indexed_def og_matches_def)

named_theorems handler_defs

lemmas [handler_defs] =
  handlePunkCreated_def handleDelegateVotesChanged_def handleAuctionCreated_def handleAuctionBid_def
  handleAuctionExtended_def handleAuctionSettled_def handleOGPunkAssign_def handleOGPunkTransfer_def
  handleWrappedTransfer_def handleOGPunkDelegateChanged_def handleOGPunkDelegateVotesChanged_def
  handleProposalCreatedWithRequirements_def handleProposalCanceled_def handleProposalVetoed_def
  handleProposalQueued_def handleProposalExecuted_def handleVoteCast_def getOrCreateProposal_def
  getGovernance_getOrCreateDelegate Let_def case_prod_beta fun_eq_iff
  receive_ogpunk_def release_ogpunk_def

text \<open>The loop that writes the delegation events touches nothing else.\<close>

lemma fold_delegation_frame:
  "account_of (fold (\<lambda>p. save_delegationEvent (f p) (g p)) ps s) = account_of s \<and>
   delegate_of (fold (\<lambda>p. save_delegationEvent (f p) (g p)) ps s) = delegate_of s \<and>
   getGovernanceEntity (fold (\<lambda>p. save_delegationEvent (f p) (g p)) ps s) = getGovernanceEntity s \<and>
   st_punks (fold (\<lambda>p. save_delegationEvent (f p) (g p)) ps s) = st_punks s \<and>
   st_ogpunks (fold (\<lambda>p. save_delegationEvent (f p) (g p)) ps s) = st_ogpunks s \<and>
   st_proposals (fold (\<lambda>p. save_delegationEvent (f p) (g p)) ps s) = st_proposals s"
  by (induction ps arbitrary: s) (simp_all add: fun_eq_iff)

lemma delegate_changed_frame:
  "same_tokens s (handleDelegateChanged ev a f d s)" "same_ogs s (handleDelegateChanged ev a f d s)"
  "same_votes s (handleDelegateChanged ev a f d s)" "same_proposals s (handleDelegateChanged ev a f d s)"
  by (simp_all add: handleDelegateChanged_def same_defs Let_def case_prod_beta fun_eq_iff fold_delegation_frame
      getGovernance_getOrCreateDelegate)

lemma auction_frame:
  "same_tokens s (handle_auction e s)" "same_ogs s (handle_auction e s)"
  "same_votes s (handle_auction e s)" "same_proposals s (handle_auction e s)"
  by (cases e; simp add: same_defs handler_defs split: option.splits)+

fun is_transfer :: "graph_event \<Rightarrow> bool" where
  "is_transfer (Transfer _ _ _ _) = True"
| "is_transfer _ = False"

fun moves_og :: "graph_event \<Rightarrow> bool" where
  "moves_og (OGAssign _ _) = True"
| "moves_og (OGTransfer _ _ _) = True"
| "moves_og (WrappedTransfer _ _ _ _) = True"
| "moves_og _ = False"

fun is_votes_changed :: "graph_event \<Rightarrow> bool" where
  "is_votes_changed (DelegateVotesChanged _ _ _) = True"
| "is_votes_changed _ = False"

fun is_proposal_created :: "graph_event \<Rightarrow> bool" where
  "is_proposal_created (ProposalCreated _ _) = True"
| "is_proposal_created _ = False"

lemma tokens_frame:
  assumes "handle_event e s = Some s'" and "\<not> is_transfer e"
  shows "same_tokens s s'"
proof (cases e)
  case (DelegateChanged ev a f d)
  then show ?thesis using assms by (auto simp: delegate_changed_frame auction_frame)
next
  case (Auction ae)
  then show ?thesis using assms by (auto simp: delegate_changed_frame auction_frame)
qed (use assms in \<open>auto simp: same_tokens_def handler_defs punks.load_save split: option.splits if_splits\<close>)

text \<open>A transfer of a punk changes none of the other three views.\<close>

lemma leave_holder_frame:
  assumes "leave_holder a tid e g s = (e', g', s')" and "account_of s a = e"
    and "same_votes s0 s" and "gv_delegatedVotesRaw g = gv_delegatedVotesRaw (getGovernanceEntity s)"
    and "gv_currentDelegates g = gv_currentDelegates (getGovernanceEntity s)"
    and "gv_proposals g = gv_proposals (getGovernanceEntity s)"
  shows "same_ogs s s' \<and> same_votes s0 s' \<and> same_proposals s s' \<and>
    gv_delegatedVotesRaw g' = gv_delegatedVotesRaw (getGovernanceEntity s') \<and>
    gv_currentDelegates g' = gv_currentDelegates (getGovernanceEntity s') \<and>
    gv_proposals g' = gv_proposals (getGovernanceEntity s') \<and>
    ac_ogpunks e' = ac_ogpunks e \<and> ac_ogpunkBalanceRaw e' = ac_ogpunkBalanceRaw e \<and>
    ac_ogpunkBalance e' = ac_ogpunkBalance e"
  using assms
  by (cases "a = ZERO_ADDRESS")
    (auto simp: leave_holder_def same_defs Let_def case_prod_beta fun_eq_iff getGovernance_getOrCreateDelegate
      split: option.splits if_splits)

lemma enter_holder_frame:
  assumes "account_of s0 b = e" and "\<And>a. ac_ogpunks (account_of s a) = ac_ogpunks (account_of s0 a) \<and>
      ac_ogpunkBalanceRaw (account_of s a) = ac_ogpunkBalanceRaw (account_of s0 a) \<and>
      ac_ogpunkBalance (account_of s a) = ac_ogpunkBalance (account_of s0 a)"
    and "st_ogpunks s = st_ogpunks s0" and "same_votes s0 s" and "same_proposals s0 s"
    and "gv_delegatedVotesRaw g = gv_delegatedVotesRaw (getGovernanceEntity s)"
    and "gv_currentDelegates g = gv_currentDelegates (getGovernanceEntity s)"
    and "gv_proposals g = gv_proposals (getGovernanceEntity s)"
  shows "same_ogs s0 (enter_holder ev a b tid f e g s) \<and> same_votes s0 (enter_holder ev a b tid f e g s) \<and>
    same_proposals s0 (enter_holder ev a b tid f e g s)"
  using assms
  by (auto simp: enter_holder_def same_defs Let_def case_prod_beta fun_eq_iff getGovernance_getOrCreateDelegate
      split: option.splits)

lemma transfer_frame:
  "same_ogs s (handleTransfer ev a b t s) \<and> same_votes s (handleTransfer ev a b t s) \<and>
   same_proposals s (handleTransfer ev a b t s)"
proof -
  define s3 where "s3 = save_transferEvent (ev_hash ev @ ''_'' @ dec t)
      \<lparr>te_punk = dec t, te_previousHolder = a, te_newHolder = b,
       te_blockNumber = ev_number ev, te_blockTimestamp = ev_timestamp ev\<rparr>
      (snd (getOrCreateAccount b (snd (getOrCreateAccount a s))))"
  have s3: "account_of s3 = account_of s" "st_ogpunks s3 = st_ogpunks s" "getGovernanceEntity s3 = getGovernanceEntity s"
    "delegate_of s3 = delegate_of s" "st_proposals s3 = st_proposals s"
    by (simp_all add: s3_def fun_eq_iff)
  obtain f1 g1 s4 where m: "leave_holder a (dec t) (account_of s a) (getGovernanceEntity s) s3 = (f1, g1, s4)"
    by (cases "leave_holder a (dec t) (account_of s a) (getGovernanceEntity s) s3") auto
  from m have h: "handleTransfer ev a b t s = enter_holder ev a b (dec t) f1 (account_of s b) g1 s4"
    by (simp add: handleTransfer_def case_prod_beta Let_def s3_def)
  have ogs: "st_ogpunks s4 = st_ogpunks s3"
    using m by (auto simp: leave_holder_def Let_def case_prod_beta split: option.splits if_splits)
  have "same_votes s s3" by (simp add: same_votes_def s3)
  from leave_holder_frame [OF m _ this] s3
  have f: "same_ogs s3 s4" "same_votes s s4" "same_proposals s3 s4"
    "gv_delegatedVotesRaw g1 = gv_delegatedVotesRaw (getGovernanceEntity s4)"
    "gv_currentDelegates g1 = gv_currentDelegates (getGovernanceEntity s4)"
    "gv_proposals g1 = gv_proposals (getGovernanceEntity s4)" by simp_all
  show ?thesis unfolding h
    by (rule enter_holder_frame) (use f s3 ogs in \<open>simp_all add: same_ogs_def same_proposals_def\<close>)
qed

lemma ogs_frame:
  assumes "handle_event e s = Some s'" and "\<not> moves_og e"
  shows "same_ogs s s'"
proof (cases e)
  case (DelegateChanged ev a f d)
  then show ?thesis using assms by (auto simp: delegate_changed_frame auction_frame transfer_frame)
next
  case (Transfer ev a b t)
  then show ?thesis using assms by (auto simp: delegate_changed_frame auction_frame transfer_frame)
next
  case (Auction ae)
  then show ?thesis using assms by (auto simp: delegate_changed_frame auction_frame transfer_frame)
qed (use assms in \<open>auto simp: same_ogs_def handler_defs ogpunks.load_save split: option.splits if_splits\<close>)

lemma votes_frame:
  assumes "handle_event e s = Some s'" and "\<not> is_votes_changed e"
  shows "same_votes s s'"
proof (cases e)
  case (DelegateChanged ev a f d)
  then show ?thesis using assms by (auto simp: delegate_changed_frame auction_frame transfer_frame)
next
  case (Transfer ev a b t)
  then show ?thesis using assms by (auto simp: delegate_changed_frame auction_frame transfer_frame)
next
  case (Auction ae)
  then show ?thesis using assms by (auto simp: delegate_changed_frame auction_frame transfer_frame)
qed (use assms in \<open>auto simp: same_votes_def handler_defs  split: option.splits if_splits\<close>)

lemma proposals_frame:
  assumes "handle_event e s = Some s'" and "\<not> is_proposal_created e"
  shows "same_proposals s s'"
proof (cases e)
  case (DelegateChanged ev a f d)
  then show ?thesis using assms by (auto simp: delegate_changed_frame auction_frame transfer_frame)
next
  case (Transfer ev a b t)
  then show ?thesis using assms by (auto simp: delegate_changed_frame auction_frame transfer_frame)
next
  case (Auction ae)
  then show ?thesis using assms by (auto simp: delegate_changed_frame auction_frame transfer_frame)
qed (use assms in \<open>auto simp: same_proposals_def handler_defs proposals.load_save split: option.splits if_splits\<close>)

section \<open>The running totals\<close>

definition votes_ok :: "store \<Rightarrow> bool" where
  "votes_ok s \<longleftrightarrow>
     finite {d. votes_of s d \<noteq> 0} \<and> (\<forall>d. 0 \<le> votes_of s d) \<and>
     gv_delegatedVotesRaw (getGovernanceEntity s) = (\<Sum>d | votes_of s d \<noteq> 0. votes_of s d) \<and>
     gv_currentDelegates (getGovernanceEntity s) = int (card {d. votes_of s d \<noteq> 0})"

definition proposals_ok :: "store \<Rightarrow> bool" where
  "proposals_ok s \<longleftrightarrow>
     finite (dom (st_proposals s)) \<and>
     gv_proposals (getGovernanceEntity s) = int (card (dom (st_proposals s)))"

lemma same_votes_ok: "same_votes s s' \<Longrightarrow> votes_ok s \<Longrightarrow> votes_ok s'"
  by (simp add: same_votes_def votes_ok_def)

lemma same_proposals_ok: "same_proposals s s' \<Longrightarrow> proposals_ok s \<Longrightarrow> proposals_ok s'"
  by (simp add: same_proposals_def proposals_ok_def)

lemma votes_changed_effect:
  "votes_of (handleDelegateVotesChanged d old new s) e = (if e = d then new else votes_of s e)"
  "gv_delegatedVotesRaw (getGovernanceEntity (handleDelegateVotesChanged d old new s)) =
     gv_delegatedVotesRaw (getGovernanceEntity s) + (new - old)"
  "gv_currentDelegates (getGovernanceEntity (handleDelegateVotesChanged d old new s)) =
     gv_currentDelegates (getGovernanceEntity s) + (if old = 0 \<and> new > 0 then 1 else 0) - (if new = 0 then 1 else 0)"
  by (simp_all add: handleDelegateVotesChanged_def Let_def case_prod_beta fun_eq_iff)

lemma sum_support_update:
  fixes f :: "'a \<Rightarrow> int"
  assumes "finite {d. f d \<noteq> 0}"
  shows "(\<Sum>e | (if e = d then v else f e) \<noteq> 0. if e = d then v else f e) = (\<Sum>e | f e \<noteq> 0. f e) + v - f d"
proof -
  let ?A = "insert d {e. f e \<noteq> 0}"
  have "(\<Sum>e | (if e = d then v else f e) \<noteq> 0. if e = d then v else f e) = (\<Sum>e \<in> ?A. if e = d then v else f e)"
    by (rule sum.mono_neutral_left) (use assms in \<open>auto split: if_splits\<close>)
  also have "\<dots> = v + (\<Sum>e \<in> ?A - {d}. f e)"
    using assms by (subst sum.remove [of _ d]) (auto intro: sum.cong)
  also have "(\<Sum>e \<in> ?A - {d}. f e) = (\<Sum>e \<in> ?A. f e) - f d"
    using assms by (subst sum.remove [of ?A d]) auto
  also have "(\<Sum>e \<in> ?A. f e) = (\<Sum>e | f e \<noteq> 0. f e)"
    by (rule sum.mono_neutral_right) (use assms in auto)
  finally show ?thesis by simp
qed

lemma votes_changed_ok:
  assumes ok: "votes_ok s" and "old = votes_of s d" and "0 \<le> new" and "new \<noteq> old"
  shows "votes_ok (handleDelegateVotesChanged d old new s)"
proof -
  let ?f = "\<lambda>e. votes_of s e"
  let ?g = "\<lambda>e. if e = d then new else ?f e"
  have fin: "finite {e. ?f e \<noteq> 0}" using ok by (simp add: votes_ok_def)
  have nonneg: "0 \<le> old" using ok assms(2) by (simp add: votes_ok_def)
  have supp: "{e. ?g e \<noteq> 0} = (if new = 0 then {e. ?f e \<noteq> 0} - {d} else insert d {e. ?f e \<noteq> 0})"
    by auto
  have card_pos: "0 < card {e. ?f e \<noteq> 0}" if "old \<noteq> 0"
    using fin that assms(2) by (auto simp: card_gt_0_iff)
  have "int (card {e. ?g e \<noteq> 0}) = int (card {e. ?f e \<noteq> 0})
      + (if old = 0 \<and> new > 0 then 1 else 0) - (if new = 0 then 1 else 0)"
  proof (cases "new = 0")
    case True
    then have "d \<in> {e. ?f e \<noteq> 0}" using assms(2,4) by simp
    moreover have "0 < card {e. ?f e \<noteq> 0}" using card_pos True assms(4) by simp
    ultimately show ?thesis unfolding supp using True fin assms(4) by (simp add: of_nat_diff Suc_leI)
  next
    case False
    then show ?thesis unfolding supp using fin assms(2,3) by (simp add: card_insert_if)
  qed
  moreover have "finite {e. ?g e \<noteq> 0}" unfolding supp using fin by simp
  moreover have "(\<Sum>e | ?g e \<noteq> 0. ?g e) = (\<Sum>e | ?f e \<noteq> 0. ?f e) + new - old"
    using sum_support_update [OF fin, of d new] assms(2) by simp
  ultimately show ?thesis
    using ok assms(3) unfolding votes_ok_def votes_changed_effect by auto
qed

lemma proposal_created_ok:
  assumes "proposals_ok s" and "\<not> has_proposal s (pp_id p)"
  shows "proposals_ok (handleProposalCreatedWithRequirements ev p s)"
  using assms
  by (simp add: proposals_ok_def has_proposal_def handleProposalCreatedWithRequirements_def Let_def case_prod_beta
      getOrCreateProposal_def getGovernance_getOrCreateDelegate proposals.dom_save card_insert_if domIff)

section \<open>The invariant of every history\<close>

definition consistent :: "ledger \<Rightarrow> ledger \<Rightarrow> store \<Rightarrow> bool" where
  "consistent L M s \<longleftrightarrow> indexed L s \<and> og_indexed M s \<and> votes_ok s \<and> proposals_ok s"

lemma consistent_empty: "consistent Map.empty Map.empty empty_store"
  using og_indexed_empty
  by (simp add: consistent_def indexed_def account_matches_def holds_def account_of_def
      delegate_of_def new_account_def new_delegate_def empty_store_def getGovernanceEntity_def
      votes_ok_def proposals_ok_def)

lemma indexed_step:
  assumes "indexed L s" and "possible L M s e" and "handle_event e s = Some s'"
  shows "indexed (token_ledger e L) s'"
proof (cases "is_transfer e")
  case True
  with assms show ?thesis by (cases e) (auto intro: transfer_indexed)
next
  case False
  then have "token_ledger e L = L" by (cases e) auto
  with tokens_frame [OF assms(3) False] assms(1) show ?thesis by (simp add: same_tokens_indexed)
qed

lemma og_indexed_step:
  assumes "og_indexed M s" and "possible L M s e" and "handle_event e s = Some s'"
  shows "og_indexed (og_ledger e M) s'"
proof (cases "moves_og e")
  case True
  then show ?thesis
  proof (cases e)
    case (OGTransfer a b t)
    with assms og_transfer_indexed [of M s t a b] show ?thesis by auto
  next
    case (WrappedTransfer w a b t)
    with assms wrapped_move [of M s t a w b] show ?thesis by auto
  qed (use assms og_assign_indexed True in auto)
next
  case False
  then have "og_ledger e M = M" by (cases e) auto
  with ogs_frame [OF assms(3) False] assms(1) show ?thesis by (simp add: same_ogs_indexed)
qed

lemma votes_ok_step:
  assumes "votes_ok s" and "possible L M s e" and "handle_event e s = Some s'"
  shows "votes_ok s'"
proof (cases "is_votes_changed e")
  case True
  with assms show ?thesis by (cases e) (auto intro: votes_changed_ok)
next
  case False
  from votes_frame [OF assms(3) False] assms(1) show ?thesis by (rule same_votes_ok)
qed

lemma proposals_ok_step:
  assumes "proposals_ok s" and "possible L M s e" and "handle_event e s = Some s'"
  shows "proposals_ok s'"
proof (cases "is_proposal_created e")
  case True
  with assms show ?thesis by (cases e) (auto intro: proposal_created_ok)
next
  case False
  from proposals_frame [OF assms(3) False] assms(1) show ?thesis by (rule same_proposals_ok)
qed

lemma history_consistent: "history L M s \<Longrightarrow> consistent L M s"
proof (induction rule: history.induct)
  case start
  show ?case by (rule consistent_empty)
next
  case (event L M s e s')
  then show ?case
    by (auto simp: consistent_def intro: indexed_step og_indexed_step votes_ok_step proposals_ok_step)
qed

text \<open>No event of a history aborts its handler.\<close>

lemma possible_progress:
  assumes "og_indexed M s" and "possible L M s e"
  shows "\<exists>s'. handle_event e s = Some s'"
proof (cases e)
  case (OGTransfer a b t)
  with assms og_transfer_indexed [of M s t a b] show ?thesis by auto
next
  case (WrappedTransfer w a b t)
  with assms wrapped_move [of M s t a w b] show ?thesis by auto
next
  case (OGDelegateChanged ev a f d t)
  with assms have "map_option og_owner (st_ogpunks s (dec t)) = M t" "M t \<noteq> None" by (simp_all add: og_indexed_def)
  with OGDelegateChanged show ?thesis
    by (cases "st_ogpunks s (dec t)") (simp_all add: handleOGPunkDelegateChanged_def Let_def case_prod_beta)
qed (use assms in \<open>auto simp: has_proposal_def handler_defs\<close>)


lemma history_mint:
  assumes "history L M s" and "L t = None" and "a \<noteq> ZERO_ADDRESS"
  shows "history (L(t \<mapsto> a)) M (handleTransfer ev ZERO_ADDRESS a t s)"
proof -
  have "possible L M s (Transfer ev ZERO_ADDRESS a t)" using assms(2,3) by (simp add: valid_transfer_def)
  from history.event [OF assms(1) this] show ?thesis by simp
qed


section \<open>Where the entities and the chain part\<close>

text \<open>The entity of a delegate that a transfer creates is not counted: \<open>governance\<close> is loaded before
  \<open>getOrCreateDelegate\<close> counts the delegate and saved again after it.\<close>

text \<open>Lost update of \<open>totalDelegates\<close>: minting a punk to an account without punks, for which no
  delegate entity exists yet, creates the delegate entity but leaves \<open>totalDelegates\<close> as it was.\<close>

lemma mint_loses_delegate_count:
  fixes ev :: event_env and t :: nat
  assumes "a \<noteq> ZERO_ADDRESS" and "ac_tokenBalanceRaw (account_of s a) = 0" and "ac_delegate (account_of s a) = None"
    and "\<not> known_delegate s a"
  defines "s' \<equiv> handleTransfer ev ZERO_ADDRESS a t s"
  shows "known_delegate s' a \<and>
    gv_totalDelegates (getGovernanceEntity s') = gv_totalDelegates (getGovernanceEntity s)"
  using assms(1-4)
  by (simp add: s'_def handleTransfer_def leave_holder_def enter_holder_def Let_def case_prod_beta)

text \<open>A delegation is forgotten: when an account without punks has delegated to someone else and
  then receives a punk, the punk is put on the list of that delegate, but the account is left
  recorded as its own delegate, although the token contract keeps the delegation.\<close>

lemma first_punk_forgets_delegate:
  fixes ev :: event_env and t :: nat
  assumes "fromId \<noteq> a" and "ac_tokenBalanceRaw (account_of s a) = 0"
    and "ac_delegate (account_of s a) = Some d" and "d \<noteq> a"
  defines "s' \<equiv> handleTransfer ev fromId a t s"
  shows "dec t \<in> set (dl_punksRepresented (delegate_of s' d)) \<and> ac_delegate (account_of s' a) = Some a"
  using assms(1-4)
  by (simp add: s'_def handleTransfer_def enter_holder_def Let_def case_prod_beta)

section \<open>Delegation\<close>

text \<open>A change of delegate moves the representation: after \<open>handleDelegateChanged\<close> from one
  delegate to another, the account names the new delegate; the account's punks have been added to the
  new delegate's list and removed from the previous one's; the two counts of represented holders moved
  by one (as \<open>i32\<close>); and there is one delegation event per punk, with the two delegates and the
  block.\<close>

lemma delegate_changed_moves:
  fixes ev :: event_env and a :: string and s :: store
  assumes "f \<noteq> d"
  defines "s' \<equiv> handleDelegateChanged ev a f d s" and "ps \<equiv> ac_punks (account_of s a)"
  shows "ac_delegate (account_of s' a) = Some d \<and>
    dl_punksRepresented (delegate_of s' d) = dl_punksRepresented (delegate_of s d) @ ps \<and>
    dl_punksRepresented (delegate_of s' f) = filter (\<lambda>p. p \<notin> set ps) (dl_punksRepresented (delegate_of s f)) \<and>
    dl_tokenHoldersRepresentedAmount (delegate_of s' d) = dl_tokenHoldersRepresentedAmount (delegate_of s d) + 1 \<and>
    dl_tokenHoldersRepresentedAmount (delegate_of s' f) = dl_tokenHoldersRepresentedAmount (delegate_of s f) - 1 \<and>
    (\<forall>p \<in> set ps. st_delegationEvents s' (ev_hash ev @ ''_'' @ p) =
       Some \<lparr>de_punk = p, de_previousDelegate = f, de_newDelegate = d, de_blockNumber = ev_number ev,
             de_blockTimestamp = ev_timestamp ev\<rparr>)"
proof -
  have "inj_on (\<lambda>p. ev_hash ev @ ''_'' @ p) (set ps)" by (simp add: inj_on_def)
  then show ?thesis
    using assms(1) delegationEvents.load_saves [of "\<lambda>p. ev_hash ev @ ''_'' @ p" ps]
    by (auto simp: s'_def ps_def handleDelegateChanged_def Let_def case_prod_beta fold_delegation_frame delegation_event_def)
qed

end
