(* ===== verification/Web_Dao.thy ===== *)
theory Web_Dao
  imports Graph_Dao
begin

text \<open>
  \<open>packages/punks-webapp/src/wrappers/nDao.ts\<close>: the proposals as the web application shows them,
  from the subgraph or from the chain. A hook is a function of the values the library hooks return
  (\<open>None\<close> for \<open>undefined\<close>). The number classes and the ABI decoder of the libraries are
  parameters. The main result relates the state shown to \<open>state()\<close> of the DAO contract along every
  run of one proposal through the contract, the subgraph and the application.
\<close>

section \<open>States and proposals\<close>

datatype ProposalState =
    UNDETERMINED | S_PENDING | S_ACTIVE | S_CANCELLED | S_DEFEATED | S_SUCCEEDED | S_QUEUED | S_EXPIRED
  | S_EXECUTED | S_VETOED

text \<open>The entity as the query returns it: numbers are decimal strings.\<close>

record ProposalSubgraphEntity =
  ps_id :: string
  ps_description :: "string option"
  ps_status :: proposal_status
  ps_forVotes :: string
  ps_againstVotes :: string
  ps_abstainVotes :: string
  ps_createdBlock :: string
  ps_createdTransactionHash :: string
  ps_startBlock :: string
  ps_endBlock :: string
  ps_executionETA :: "string option"
  ps_proposer :: string
  ps_proposalThreshold :: string
  ps_quorumVotes :: string
  ps_targets :: "string list"
  ps_values :: "string list"
  ps_signatures :: "string list"
  ps_calldatas :: "string list"

record ProposalDetail =
  pd_target :: string
  pd_value :: "string option"
  pd_functionSig :: string
  pd_callData :: string

record Proposal =
  po_id :: "string option"
  po_title :: string
  po_description :: string
  po_status :: ProposalState
  po_forCount :: "int option"
  po_againstCount :: "int option"
  po_abstainCount :: "int option"
  po_createdBlock :: "int option"
  po_startBlock :: "int option"
  po_endBlock :: "int option"
  po_eta :: "int option"
  po_proposer :: "string option"
  po_proposalThreshold :: "int option"
  po_quorumVotes :: "int option"
  po_details :: "ProposalDetail list option"
  po_transactionHash :: "string option"

section \<open>Titles\<close>

fun first_some :: "('a \<Rightarrow> 'b option) \<Rightarrow> 'a list \<Rightarrow> 'b option" where
  "first_some f [] = None"
| "first_some f (x # xs) = (case f x of None \<Rightarrow> first_some f xs | Some y \<Rightarrow> Some y)"

definition not_newline :: "char \<Rightarrow> bool" where
  "not_newline c \<longleftrightarrow> c \<noteq> CHR 0x0A"

text \<open>The group of \<open>^\s*#{1,6}\s+([^\n]+)\<close>: white space, one to six hashes, then the longest run of
  white space after which a character other than a line break is left.\<close>

definition extractHashTitle :: "string \<Rightarrow> string option" where
  "extractHashTitle body =
     (let t = dropWhile is_ws body;
          hashes = takeWhile (\<lambda>c. c = CHR ''#'') t;
          rest = dropWhile (\<lambda>c. c = CHR ''#'') t;
          spaces = takeWhile is_ws rest;
          try = (\<lambda>k. let g = takeWhile not_newline (drop k rest) in if g = [] then None else Some g)
      in if 1 \<le> length hashes \<and> length hashes \<le> 6 then first_some try (rev [1..<length spaces + 1]) else None)"

text \<open>The group of \<open>^\s*([^\n]+)\n(={3,25}|-{3,25})\<close>, with the leading white space as long as a
  match allows.\<close>

definition extractEqualTitle :: "string \<Rightarrow> string option" where
  "extractEqualTitle body =
     (let spaces = takeWhile is_ws body;
          try = (\<lambda>k. let t = drop k body;
                         g = takeWhile not_newline t;
                         r = drop (length g + 1) t
                     in if g \<noteq> [] \<and> length g < length t \<and> (take 3 r = ''==='' \<or> take 3 r = ''---'')
                        then Some g else None)
      in first_some try (rev [0..<length spaces + 1]))"

definition extractTitle :: "string option \<Rightarrow> string option" where
  "extractTitle body =
     (case body of
        None \<Rightarrow> None
      | Some b \<Rightarrow>
          if b = [] then None
          else case extractHashTitle b of Some t \<Rightarrow> Some t | None \<Rightarrow> extractEqualTitle b)"

definition removeBold :: "string option \<Rightarrow> string option" where
  "removeBold = map_option (\<lambda>t. concat (split_str ''**'' t))"

definition removeItalics :: "string option \<Rightarrow> string option" where
  "removeItalics = map_option (\<lambda>t. concat (split_str ''__'' t))"

definition removeMarkdownStyle :: "string option \<Rightarrow> string option" where
  "removeMarkdownStyle text = removeBold (removeItalics text)"

definition proposal_title :: "string option \<Rightarrow> string" where
  "proposal_title description =
     (case removeMarkdownStyle (extractTitle description) of None \<Rightarrow> ''Untitled'' | Some t \<Rightarrow> t)"

section \<open>Hooks on one contract call\<close>

definition hasVotedOnProposal :: "bool option \<Rightarrow> bool" where
  "hasVotedOnProposal receipt = (case receipt of None \<Rightarrow> False | Some v \<Rightarrow> v)"

definition proposalVote :: "int option \<Rightarrow> string" where
  "proposalVote support =
     (let voteStatus = (case support of None \<Rightarrow> - 1 | Some v \<Rightarrow> v)
      in if voteStatus = 0 then ''Against'' else if voteStatus = 1 then ''For''
         else if voteStatus = 2 then ''Abstain'' else [])"

definition countToIndices :: "nat option \<Rightarrow> nat list" where
  "countToIndices count = (case count of None \<Rightarrow> [] | Some n \<Rightarrow> map (\<lambda>i. i + 1) [0..<n])"

section \<open>Transactions of a proposal\<close>

text \<open>\<open>valueAt i\<close> is the value of transaction \<open>i\<close> in the subgraph or in the log, \<open>from\<close>
  \<open>EthersBN.from\<close>, \<open>formatEther\<close> and \<open>decode\<close> the functions of ethers (\<open>decode\<close> throws or
  returns the decoded values, printed).\<close>

definition format_detail ::
  "(string \<Rightarrow> nat) \<Rightarrow> (nat \<Rightarrow> string) \<Rightarrow> (string list \<Rightarrow> string \<Rightarrow> string list result) \<Rightarrow>
     string list \<Rightarrow> (nat \<Rightarrow> string option) \<Rightarrow> string list \<Rightarrow> nat \<times> string \<Rightarrow> ProposalDetail result" where
  "format_detail bnFrom formatEther decode signatures valueAt calldatas = (\<lambda>(i, target).
     rbind (of_option TypeError (if i < length signatures then Some (signatures ! i) else None)) (\<lambda>signature.
       let val = (case valueAt i of None \<Rightarrow> 0 | Some v \<Rightarrow> bnFrom v);
           parts = split_str ''('' (substring signature 0 (length signature - 1));
           nm = hd parts;
           types = (case tl parts of [] \<Rightarrow> [] | t # _ \<Rightarrow> t)
       in if nm = [] \<or> types = []
          then Inr \<lparr>pd_target = target, pd_value = None,
                    pd_functionSig = (if nm = [] then ''transfer'' else nm),
                    pd_callData = (if types \<noteq> [] then types else formatEther val @ '' ETH'')\<rparr>
          else rbind (of_option TypeError (if i < length calldatas then Some (calldatas ! i) else None)) (\<lambda>calldata.
               rbind (decode (split_str '','' types) calldata) (\<lambda>decoded.
                 Inr \<lparr>pd_target = target,
                      pd_value = Some (if val > 0 then ''{ value: '' @ formatEther val @ '' ETH }'' else []),
                      pd_functionSig = nm, pd_callData = join '','' decoded\<rparr>))))"

definition formatProposalTransactionDetails ::
  "(string \<Rightarrow> nat) \<Rightarrow> (nat \<Rightarrow> string) \<Rightarrow> (string list \<Rightarrow> string \<Rightarrow> string list result) \<Rightarrow>
     string list \<Rightarrow> (nat \<Rightarrow> string option) \<Rightarrow> string list \<Rightarrow> string list \<Rightarrow> ProposalDetail list result" where
  "formatProposalTransactionDetails bnFrom formatEther decode targets valueAt signatures calldatas =
     rmap_list (format_detail bnFrom formatEther decode signatures valueAt calldatas)
       (zip [0..<length targets] targets)"

section \<open>The state shown\<close>

text \<open>\<open>bn\<close> is \<open>new BigNumber(s)\<close>, \<open>None\<close> for \<open>NaN\<close>; the block time is in milliseconds.\<close>

definition bn_lte :: "int option \<Rightarrow> int option \<Rightarrow> bool" where
  "bn_lte a b = (case (a, b) of (Some x, Some y) \<Rightarrow> x \<le> y | _ \<Rightarrow> False)"

definition bn_lt :: "int option \<Rightarrow> int option \<Rightarrow> bool" where
  "bn_lt a b = (case (a, b) of (Some x, Some y) \<Rightarrow> x < y | _ \<Rightarrow> False)"

definition truthy :: "string option \<Rightarrow> bool" where
  "truthy s \<longleftrightarrow> s \<noteq> None \<and> s \<noteq> Some []"

definition GRACE_PERIOD :: int where
  "GRACE_PERIOD = 14 * 60 * 60 * 24"

definition getProposalState ::
  "(string \<Rightarrow> int option) \<Rightarrow> int option \<Rightarrow> int option \<Rightarrow> ProposalSubgraphEntity \<Rightarrow> ProposalState" where
  "getProposalState bn blockNumber blockTimestamp proposal =
     (let noBlock = (blockNumber = None \<or> blockNumber = Some 0)
      in case ps_status proposal of
           PENDING \<Rightarrow>
             if noBlock then UNDETERMINED
             else if bn_lte blockNumber (parseInt 10 (ps_startBlock proposal)) then S_PENDING
             else S_ACTIVE
         | ACTIVE \<Rightarrow>
             if noBlock then UNDETERMINED
             else if bn_lt (parseInt 10 (ps_endBlock proposal)) blockNumber
             then (let forVotes = bn (ps_forVotes proposal)
                   in if bn_lte forVotes (bn (ps_againstVotes proposal)) \<or> bn_lt forVotes (bn (ps_quorumVotes proposal))
                      then S_DEFEATED
                      else if \<not> truthy (ps_executionETA proposal) then S_SUCCEEDED else S_ACTIVE)
             else S_ACTIVE
         | QUEUED \<Rightarrow>
             (case blockTimestamp of
                None \<Rightarrow> UNDETERMINED
              | Some ms \<Rightarrow>
                  if \<not> truthy (ps_executionETA proposal) then UNDETERMINED
                  else (case parseInt 10 (the (ps_executionETA proposal)) of
                          None \<Rightarrow> S_QUEUED
                        | Some eta \<Rightarrow> if ms \<ge> 1000 * (eta + GRACE_PERIOD) then S_EXPIRED else S_QUEUED))
         | CANCELLED \<Rightarrow> S_CANCELLED
         | VETOED \<Rightarrow> S_VETOED
         | EXECUTED \<Rightarrow> S_EXECUTED)"

section \<open>The lists of proposals\<close>

definition subgraph_proposal ::
  "(string \<Rightarrow> int option) \<Rightarrow> (string list \<Rightarrow> (nat \<Rightarrow> string option) \<Rightarrow> string list \<Rightarrow> string list \<Rightarrow> ProposalDetail list result) \<Rightarrow>
     int option \<Rightarrow> int option \<Rightarrow> ProposalSubgraphEntity \<Rightarrow> Proposal result" where
  "subgraph_proposal bn format_details blockNumber timestamp proposal =
     (let description = map_option unescape_newlines (ps_description proposal);
          valueAt = (\<lambda>i. if i < length (ps_values proposal) then Some (ps_values proposal ! i) else None)
      in rbind (format_details (ps_targets proposal) valueAt (ps_signatures proposal) (ps_calldatas proposal)) (\<lambda>details.
        Inr \<lparr>po_id = Some (ps_id proposal), po_title = proposal_title description,
             po_description = (case description of None \<Rightarrow> ''No description.'' | Some d \<Rightarrow> d),
             po_status = getProposalState bn blockNumber timestamp proposal,
             po_forCount = parseInt 10 (ps_forVotes proposal),
             po_againstCount = parseInt 10 (ps_againstVotes proposal),
             po_abstainCount = parseInt 10 (ps_abstainVotes proposal),
             po_createdBlock = parseInt 10 (ps_createdBlock proposal),
             po_startBlock = parseInt 10 (ps_startBlock proposal),
             po_endBlock = parseInt 10 (ps_endBlock proposal),
             po_eta = (if truthy (ps_executionETA proposal)
                       then map_option (\<lambda>t. t * 1000) (parseInt 10 (the (ps_executionETA proposal))) else None),
             po_proposer = Some (ps_proposer proposal),
             po_proposalThreshold = parseInt 10 (ps_proposalThreshold proposal),
             po_quorumVotes = parseInt 10 (ps_quorumVotes proposal), po_details = Some details,
             po_transactionHash = Some (ps_createdTransactionHash proposal)\<rparr>))"

record ProposalData =
  pt_data :: "Proposal list"
  pt_error :: bool
  pt_loading :: bool

text \<open>\<open>useAllProposalsViaSubgraph\<close>: the results of the query, of \<open>useBlockNumber\<close> and of
  \<open>useBlockMeta\<close> are the arguments.\<close>

definition allProposalsViaSubgraph ::
  "(string \<Rightarrow> int option) \<Rightarrow> (string list \<Rightarrow> (nat \<Rightarrow> string option) \<Rightarrow> string list \<Rightarrow> string list \<Rightarrow> ProposalDetail list result) \<Rightarrow>
     bool \<Rightarrow> bool \<Rightarrow> ProposalSubgraphEntity list option \<Rightarrow> int option \<Rightarrow> int option \<Rightarrow> ProposalData result" where
  "allProposalsViaSubgraph bn format_details loading failed data blockNumber timestamp =
     rbind (case data of None \<Rightarrow> Inr [] | Some ps \<Rightarrow>
              rmap_list (subgraph_proposal bn format_details blockNumber timestamp) ps) (\<lambda>proposals.
       Inr \<lparr>pt_data = proposals, pt_error = failed, pt_loading = loading\<rparr>)"

record ProposalCallResult =
  pr_call_id :: nat
  pr_call_abstainVotes :: nat
  pr_call_againstVotes :: nat
  pr_call_forVotes :: nat
  pr_call_startBlock :: nat
  pr_call_endBlock :: nat
  pr_call_eta :: nat
  pr_call_proposalThreshold :: nat
  pr_call_proposer :: string
  pr_call_quorumVotes :: nat

record created_log =
  cl_description :: string
  cl_transactionHash :: string
  cl_details :: "ProposalDetail list"

text \<open>The logs of all created proposals, parsed; a log the ABI does not know makes \<open>parseLog\<close> throw.\<close>

definition formattedProposalCreatedLogs ::
  "('log \<Rightarrow> (string \<times> string list \<times> (nat \<Rightarrow> string option) \<times> string list \<times> string list) result) \<Rightarrow> ('log \<Rightarrow> string) \<Rightarrow>
   (string list \<Rightarrow> (nat \<Rightarrow> string option) \<Rightarrow> string list \<Rightarrow> string list \<Rightarrow> ProposalDetail list result) \<Rightarrow>
     'log list option \<Rightarrow> created_log list option result" where
  "formattedProposalCreatedLogs parseLog transactionHash format_details logs =
     (case logs of
        None \<Rightarrow> Inr None
      | Some ls \<Rightarrow>
          rbind (rmap_list (\<lambda>log.
            rbind (parseLog log) (\<lambda>(description, targets, valueAt, signatures, calldatas).
            rbind (format_details targets valueAt signatures calldatas) (\<lambda>details.
              Inr \<lparr>cl_description = description, cl_transactionHash = transactionHash log, cl_details = details\<rparr>))) ls)
            (\<lambda>xs. Inr (Some xs)))"

text \<open>\<open>status i\<close> is the result of the call \<open>state\<close> for proposal \<open>i\<close>. The parts of an entry that
  is not loaded yet are \<open>NaN\<close> or \<open>0\<close>. The log of proposal \<open>i\<close> is the \<open>i\<close>-th log.\<close>

definition log_at :: "created_log list \<Rightarrow> nat \<Rightarrow> created_log option" where
  "log_at logs i = (if i < length logs then Some (logs ! i) else None)"

definition chain_proposal_entry ::
  "int option \<Rightarrow> created_log list \<Rightarrow> (nat \<Rightarrow> ProposalState option) \<Rightarrow> nat \<times> ProposalCallResult option \<Rightarrow> Proposal" where
  "chain_proposal_entry votingDelay logs status = (\<lambda>(i, proposal).
     (let description = map_option (\<lambda>l. unescape_newlines (cl_description l)) (log_at logs i);
          zeroed = (\<lambda>f. case proposal of None \<Rightarrow> Some 0 | Some p \<Rightarrow> Some (int (f p)));
          absent = (\<lambda>f. map_option (\<lambda>p. int (f p)) proposal)
      in \<lparr>po_id = map_option (\<lambda>p. dec (pr_call_id p)) proposal, po_title = proposal_title description,
          po_description = (case description of None \<Rightarrow> ''No description.'' | Some d \<Rightarrow> d),
          po_status = (case status i of None \<Rightarrow> UNDETERMINED | Some st \<Rightarrow> st),
          po_forCount = zeroed pr_call_forVotes, po_againstCount = zeroed pr_call_againstVotes,
          po_abstainCount = zeroed pr_call_abstainVotes,
          po_createdBlock = map_option (\<lambda>b. b - (case votingDelay of None \<Rightarrow> 0 | Some d \<Rightarrow> d)) (absent pr_call_startBlock),
          po_startBlock = absent pr_call_startBlock, po_endBlock = absent pr_call_endBlock,
          po_eta = map_option (\<lambda>p. int (pr_call_eta p) * 1000) proposal,
          po_proposer = map_option pr_call_proposer proposal,
          po_proposalThreshold = zeroed pr_call_proposalThreshold, po_quorumVotes = zeroed pr_call_quorumVotes,
          po_details = map_option cl_details (log_at logs i),
          po_transactionHash = map_option cl_transactionHash (log_at logs i)\<rparr>))"

definition allProposalsViaChain ::
  "int option \<Rightarrow> created_log list option \<Rightarrow> (nat \<Rightarrow> ProposalState option) \<Rightarrow> ProposalCallResult option list \<Rightarrow> ProposalData" where
  "allProposalsViaChain votingDelay formattedLogs status proposals =
     (let logs = (case formattedLogs of None \<Rightarrow> [] | Some ls \<Rightarrow> ls)
      in if proposals \<noteq> [] \<and> logs = [] then \<lparr>pt_data = [], pt_error = False, pt_loading = True\<rparr>
         else \<lparr>pt_data = map (chain_proposal_entry votingDelay logs status) (zip [0..<length proposals] proposals),
               pt_error = False, pt_loading = False\<rparr>)"

definition allProposals :: "ProposalData \<Rightarrow> ProposalData \<Rightarrow> ProposalData" where
  "allProposals subgraph onchain = (if pt_error subgraph then onchain else subgraph)"

definition findProposal :: "ProposalData \<Rightarrow> string \<Rightarrow> Proposal option" where
  "findProposal data i = find (\<lambda>p. po_id p = Some i) (pt_data data)"

section \<open>One proposal through contract, subgraph and application\<close>

text \<open>What \<open>state()\<close> of \<open>NDAOLogicV1.sol\<close> reads of a proposal.\<close>

record chain_proposal =
  cp_startBlock :: nat
  cp_endBlock :: nat
  cp_forVotes :: nat
  cp_againstVotes :: nat
  cp_quorumVotes :: nat
  cp_eta :: nat
  cp_executed :: bool
  cp_canceled :: bool
  cp_vetoed :: bool

definition chain_state :: "nat \<Rightarrow> nat \<Rightarrow> chain_proposal \<Rightarrow> ProposalState" where
  "chain_state block time p =
     (if cp_vetoed p then S_VETOED
      else if cp_canceled p then S_CANCELLED
      else if block \<le> cp_startBlock p then S_PENDING
      else if block \<le> cp_endBlock p then S_ACTIVE
      else if cp_forVotes p \<le> cp_againstVotes p \<or> cp_forVotes p < cp_quorumVotes p then S_DEFEATED
      else if cp_eta p = 0 then S_SUCCEEDED
      else if cp_executed p then S_EXECUTED
      else if int time \<ge> int (cp_eta p) + GRACE_PERIOD then S_EXPIRED
      else S_QUEUED)"

definition add_votes :: "32 word \<Rightarrow> nat \<Rightarrow> chain_proposal \<Rightarrow> chain_proposal" where
  "add_votes support n p =
     (if support = 0 then p\<lparr>cp_againstVotes := cp_againstVotes p + n\<rparr>
      else if support = 1 then p\<lparr>cp_forVotes := cp_forVotes p + n\<rparr> else p)"

text \<open>A run of proposal \<open>pid\<close>: the contract acts under its own conditions, every action reaches
  the handler of its event, time passes, and events that concern other proposals or other data
  sources change the store without touching this proposal's entity. A cancellation after a veto is
  left out (the contract keeps the proposal vetoed).\<close>

inductive dao_run :: "nat \<Rightarrow> nat \<Rightarrow> nat \<Rightarrow> chain_proposal \<Rightarrow> store \<Rightarrow> bool" for pid where
  create: "\<not> st_proposals s (dec pid) \<noteq> None \<Longrightarrow> pp_id params = pid \<Longrightarrow> ev_number ev = int block \<Longrightarrow>
    pp_startBlock params = int (cp_startBlock p) \<Longrightarrow> pp_endBlock params = int (cp_endBlock p) \<Longrightarrow>
    pp_quorumVotes params = int (cp_quorumVotes p) \<Longrightarrow> block < cp_startBlock p \<Longrightarrow> cp_startBlock p \<le> cp_endBlock p \<Longrightarrow>
    cp_forVotes p = 0 \<Longrightarrow> cp_againstVotes p = 0 \<Longrightarrow> cp_eta p = 0 \<Longrightarrow>
    \<not> cp_executed p \<Longrightarrow> \<not> cp_canceled p \<Longrightarrow> \<not> cp_vetoed p \<Longrightarrow>
    dao_run pid block time p (handleProposalCreatedWithRequirements ev params s)"
| pass: "dao_run pid block time p s \<Longrightarrow> block \<le> block' \<Longrightarrow> time \<le> time' \<Longrightarrow> dao_run pid block' time' p s"
| other: "dao_run pid block time p s \<Longrightarrow> st_proposals s' (dec pid) = st_proposals s (dec pid) \<Longrightarrow>
    dao_run pid block time p s'"
| vote: "dao_run pid block time p s \<Longrightarrow> chain_state block time p = S_ACTIVE \<Longrightarrow> vp_proposalId v = pid \<Longrightarrow>
    vp_votes v = int n \<Longrightarrow> handleVoteCast ev v s = Some s' \<Longrightarrow>
    dao_run pid block time (add_votes (vp_support v) n p) s'"
| cancel: "dao_run pid block time p s \<Longrightarrow> chain_state block time p \<noteq> S_EXECUTED \<Longrightarrow> \<not> cp_vetoed p \<Longrightarrow>
    handleProposalCanceled pid s = Some s' \<Longrightarrow> dao_run pid block time (p\<lparr>cp_canceled := True\<rparr>) s'"
| veto: "dao_run pid block time p s \<Longrightarrow> chain_state block time p \<noteq> S_EXECUTED \<Longrightarrow>
    handleProposalVetoed pid s = Some s' \<Longrightarrow> dao_run pid block time (p\<lparr>cp_vetoed := True\<rparr>) s'"
| queue: "dao_run pid block time p s \<Longrightarrow> chain_state block time p = S_SUCCEEDED \<Longrightarrow> 0 < eta \<Longrightarrow>
    handleProposalQueued pid (int eta) s = Some s' \<Longrightarrow> dao_run pid block time (p\<lparr>cp_eta := eta\<rparr>) s'"
| execute: "dao_run pid block time p s \<Longrightarrow> chain_state block time p = S_QUEUED \<Longrightarrow>
    handleProposalExecuted pid s = Some s' \<Longrightarrow> dao_run pid block time (p\<lparr>cp_executed := True\<rparr>) s'"

text \<open>The entity says the same as the contract.\<close>

definition passed :: "nat \<Rightarrow> chain_proposal \<Rightarrow> bool" where
  "passed block p \<longleftrightarrow> cp_endBlock p < block \<and> cp_againstVotes p < cp_forVotes p \<and> cp_quorumVotes p \<le> cp_forVotes p"

definition entity_agrees :: "nat \<Rightarrow> chain_proposal \<Rightarrow> proposal_entity \<Rightarrow> bool" where
  "entity_agrees block p e \<longleftrightarrow>
     pr_startBlock e = int (cp_startBlock p) \<and> pr_endBlock e = int (cp_endBlock p) \<and>
     pr_forVotes e = int (cp_forVotes p) \<and> pr_againstVotes e = int (cp_againstVotes p) \<and>
     pr_quorumVotes e = int (cp_quorumVotes p) \<and> cp_startBlock p \<le> cp_endBlock p \<and>
     (cp_eta p \<noteq> 0 \<longrightarrow> passed block p) \<and> (cp_executed p \<longrightarrow> cp_eta p \<noteq> 0) \<and>
     (if cp_vetoed p then pr_status e = VETOED
      else if cp_canceled p then pr_status e = CANCELLED
      else if cp_executed p then pr_status e = EXECUTED
      else if cp_eta p \<noteq> 0 then pr_status e = QUEUED \<and> pr_executionETA e = Some (int (cp_eta p))
      else pr_executionETA e = None \<and>
        (pr_status e = PENDING \<or> pr_status e = ACTIVE \<and> cp_startBlock p < block))"

lemma chain_state_simps:
  "chain_state b t p = S_ACTIVE \<longleftrightarrow> \<not> cp_vetoed p \<and> \<not> cp_canceled p \<and> cp_startBlock p < b \<and> b \<le> cp_endBlock p"
  "chain_state b t p = S_SUCCEEDED \<longleftrightarrow> \<not> cp_vetoed p \<and> \<not> cp_canceled p \<and> cp_startBlock p < b \<and> passed b p \<and> cp_eta p = 0"
  "chain_state b t p = S_QUEUED \<longleftrightarrow> \<not> cp_vetoed p \<and> \<not> cp_canceled p \<and> cp_startBlock p < b \<and> passed b p \<and> cp_eta p \<noteq> 0 \<and>
     \<not> cp_executed p \<and> \<not> int t \<ge> int (cp_eta p) + GRACE_PERIOD"
  by (auto simp: chain_state_def passed_def)

lemma handler_effects:
  assumes "st_proposals s (dec pid) = Some e"
  shows "handleProposalCanceled pid s = Some s' \<Longrightarrow> st_proposals s' (dec pid) = Some (e\<lparr>pr_status := CANCELLED\<rparr>)"
    "handleProposalVetoed pid s = Some s' \<Longrightarrow> st_proposals s' (dec pid) = Some (e\<lparr>pr_status := VETOED\<rparr>)"
    "handleProposalQueued pid eta s = Some s' \<Longrightarrow>
       st_proposals s' (dec pid) = Some (e\<lparr>pr_status := QUEUED, pr_executionETA := Some eta\<rparr>)"
    "handleProposalExecuted pid s = Some s' \<Longrightarrow>
       st_proposals s' (dec pid) = Some (e\<lparr>pr_status := EXECUTED, pr_executionETA := None\<rparr>)"
  using assms
  by (auto simp: handleProposalCanceled_def handleProposalVetoed_def handleProposalQueued_def handleProposalExecuted_def
      getOrCreateProposal_def Let_def proposals.load_save)

lemma vote_effect:
  assumes "st_proposals s (dec (vp_proposalId v)) = Some e" and "handleVoteCast ev v s = Some s'"
  shows "st_proposals s' (dec (vp_proposalId v)) =
    Some (let p1 = tally v e in if pr_status p1 = PENDING then p1\<lparr>pr_status := ACTIVE\<rparr> else p1)"
  using vote_cast_effect [OF assms(1), of ev] assms(2) by auto

lemma created_entity:
  assumes "st_proposals s (dec (pp_id params)) = None"
  shows "\<exists>e. st_proposals (handleProposalCreatedWithRequirements ev params s) (dec (pp_id params)) = Some e \<and>
    pr_startBlock e = pp_startBlock params \<and> pr_endBlock e = pp_endBlock params \<and> pr_quorumVotes e = pp_quorumVotes params \<and>
    pr_forVotes e = 0 \<and> pr_againstVotes e = 0 \<and> pr_executionETA e = None \<and>
    pr_status e = (if ev_number ev \<ge> pp_startBlock params then ACTIVE else PENDING)"
  using assms
  by (simp add: handleProposalCreatedWithRequirements_def getOrCreateProposal_def Let_def case_prod_beta proposals.load_save)

lemma passed_later: "passed b p \<Longrightarrow> b \<le> b' \<Longrightarrow> passed b' p"
  by (simp add: passed_def)

lemma dao_run_agrees:
  "dao_run pid b t p s \<Longrightarrow> \<exists>e. st_proposals s (dec pid) = Some e \<and> entity_agrees b p e"
proof (induction rule: dao_run.induct)
  case (create s params ev block p time)
  then obtain e where e: "st_proposals (handleProposalCreatedWithRequirements ev params s) (dec pid) = Some e"
    "pr_startBlock e = int (cp_startBlock p)" "pr_endBlock e = int (cp_endBlock p)" "pr_quorumVotes e = int (cp_quorumVotes p)"
    "pr_forVotes e = 0" "pr_againstVotes e = 0" "pr_executionETA e = None" "pr_status e = PENDING"
    using created_entity [of s params ev] by auto
  then show ?case using create by (auto simp: entity_agrees_def)
next
  case (pass block time p s block' time')
  then show ?case by (auto simp: entity_agrees_def intro: passed_later split: if_splits)
next
  case (other block time p s s')
  then show ?case by simp
next
  case (vote block time p s v n ev s')
  then obtain e where e: "st_proposals s (dec pid) = Some e" "entity_agrees block p e" by blast
  have st: "\<not> cp_vetoed p" "\<not> cp_canceled p" "cp_startBlock p < block" "block \<le> cp_endBlock p"
    using vote by (simp_all add: chain_state_simps)
  then have "cp_eta p = 0" "\<not> cp_executed p" using e(2) by (auto simp: entity_agrees_def passed_def)
  with vote_effect [of s v e ev s'] vote e st show ?case
    by (auto simp: entity_agrees_def Let_def tally_fields add_votes_def tally_def)
next
  case (cancel block time p s s')
  then obtain e where e: "st_proposals s (dec pid) = Some e" "entity_agrees block p e" by blast
  from handler_effects(1) [OF e(1) cancel(4)] e(2) cancel(3) show ?case
    by (auto simp: entity_agrees_def passed_def)
next
  case (veto block time p s s')
  then obtain e where e: "st_proposals s (dec pid) = Some e" "entity_agrees block p e" by blast
  from handler_effects(2) [OF e(1) veto(3)] e(2) show ?case by (auto simp: entity_agrees_def passed_def)
next
  case (queue block time p s eta s')
  then obtain e where e: "st_proposals s (dec pid) = Some e" "entity_agrees block p e" by blast
  from handler_effects(3) [OF e(1) queue(4)] e(2) queue(2,3) show ?case
    by (auto simp: entity_agrees_def chain_state_simps passed_def)
next
  case (execute block time p s s')
  then obtain e where e: "st_proposals s (dec pid) = Some e" "entity_agrees block p e" by blast
  from handler_effects(4) [OF e(1) execute(3)] e(2) execute(2) show ?case
    by (auto simp: entity_agrees_def chain_state_simps passed_def)
qed

text \<open>The entity as the query of the application returns it.\<close>

definition query_entity :: "nat \<Rightarrow> proposal_entity \<Rightarrow> ProposalSubgraphEntity" where
  "query_entity pid e =
     \<lparr>ps_id = dec pid, ps_description = Some (pr_description e), ps_status = pr_status e,
      ps_forVotes = int_to_base 10 (pr_forVotes e), ps_againstVotes = int_to_base 10 (pr_againstVotes e),
      ps_abstainVotes = int_to_base 10 (pr_abstainVotes e), ps_createdBlock = int_to_base 10 (pr_createdBlock e),
      ps_createdTransactionHash = pr_createdTransactionHash e, ps_startBlock = int_to_base 10 (pr_startBlock e),
      ps_endBlock = int_to_base 10 (pr_endBlock e),
      ps_executionETA = map_option (int_to_base 10) (pr_executionETA e), ps_proposer = pr_proposer e,
      ps_proposalThreshold = int_to_base 10 (pr_proposalThreshold e), ps_quorumVotes = int_to_base 10 (pr_quorumVotes e),
      ps_targets = pr_targets e, ps_values = map (int_to_base 10) (pr_values e), ps_signatures = pr_signatures e,
      ps_calldatas = pr_calldatas e\<rparr>"

lemma int_to_base_nat: "int_to_base 10 (int n) = dec n"
  by (simp add: int_to_base_def)

lemma shown_state:
  assumes bn: "\<And>n. bn (dec n) = Some (int n)" and agree: "entity_agrees block p e" and "0 < block"
  shows "getProposalState bn (Some (int block)) (Some (int time * 1000)) (query_entity pid e) =
    (if pr_status e = PENDING \<and> cp_endBlock p < block then S_ACTIVE else chain_state block time p)"
  using agree assms(3)
  by (auto simp: entity_agrees_def getProposalState_def query_entity_def int_to_base_nat chain_state_def
      bn bn_lte_def bn_lt_def truthy_def passed_def split: if_splits)


definition demo_chain_proposal :: chain_proposal where
  "demo_chain_proposal = \<lparr>cp_startBlock = 10, cp_endBlock = 20, cp_forVotes = 0, cp_againstVotes = 0,
     cp_quorumVotes = 2, cp_eta = 0, cp_executed = False, cp_canceled = False, cp_vetoed = False\<rparr>"

text \<open>A run: the proposal is created, four votes are cast for it at block 15, and block 25 comes.\<close>

lemma demo_run:
  assumes "handleVoteCast demo_block (demo_vote ''0xb'' 1 4)
    (handleProposalCreatedWithRequirements demo_block demo_params empty_store) = Some s"
  shows "dao_run 3 25 0 (demo_chain_proposal\<lparr>cp_forVotes := 4\<rparr>) s"
proof -
  let ?s = "handleProposalCreatedWithRequirements demo_block demo_params empty_store"
  have "dao_run 3 1 0 demo_chain_proposal ?s"
    by (rule dao_run.create) (simp_all add: demo_chain_proposal_def demo_params_def demo_block_def empty_store_def)
  then have r: "dao_run 3 15 0 demo_chain_proposal ?s" by (rule dao_run.pass) simp_all
  have "dao_run 3 15 0 (add_votes 1 4 demo_chain_proposal) s"
    using dao_run.vote [OF r, of "demo_vote ''0xb'' 1 4" 4, OF _ _ _ assms]
    by (simp add: chain_state_simps demo_chain_proposal_def demo_vote_def)
  then have "dao_run 3 25 0 (add_votes 1 4 demo_chain_proposal) s" by (rule dao_run.pass) simp_all
  then show ?thesis by (simp add: add_votes_def demo_chain_proposal_def)
qed


end
