(* ===== verification/Web_Auction.thy ===== *)
theory Web_Auction
  imports Graph_Store
begin

text \<open>
  \<open>packages/punks-webapp/src\<close>: the auctions of the web application. The redux slices
  (\<open>state/slices/auction.ts\<close>, \<open>pastAuctions.ts\<close>, \<open>onDisplayAuction.ts\<close>) are functions on a record
  of the state, the subscriber and the page (\<open>index.tsx\<close>, \<open>pages/Auction/index.tsx\<close>) dispatch
  them, and the wrappers (\<open>onDisplayAuction.ts\<close>, \<open>nAuction.ts\<close>, \<open>utils/nounderNoun.ts\<close>) read the
  state. A \<open>BigNumberish\<close> is the integer it denotes. The second half translates the auction house
  contract and shows that the application follows it although bids arrive late and in any order.
\<close>

section \<open>Auctions and bids\<close>

record Auction =
  wa_amount :: int
  wa_bidder :: string
  wa_startTime :: int
  wa_endTime :: int
  wa_tokenId :: int
  wa_settled :: bool

record BidEvent =
  be_tokenId :: int
  be_sender :: string
  be_value :: int
  be_extended :: bool
  be_transactionHash :: string
  be_timestamp :: int

record AuctionCreateEvent =
  ce_tokenId :: int
  ce_startTime :: int
  ce_endTime :: int

record AuctionState =
  as_activeAuction :: "Auction option"
  as_bids :: "BidEvent list"

text \<open>\<open>toNumber()\<close> of a big number throws beyond \<open>Number.MAX_SAFE_INTEGER\<close>.\<close>

definition toNumber :: "int \<Rightarrow> int result" where
  "toNumber n = (if \<bar>n\<bar> < 2 ^ 53 then Inr n else Inl (ErrorMsg ''overflow''))"

section \<open>The slice of the current auction\<close>

definition initial_auction :: AuctionState where
  "initial_auction = \<lparr>as_activeAuction = None, as_bids = []\<rparr>"

definition reduxSafeNewAuction :: "AuctionCreateEvent \<Rightarrow> Auction" where
  "reduxSafeNewAuction c =
     \<lparr>wa_amount = 0, wa_bidder = [], wa_startTime = ce_startTime c, wa_endTime = ce_endTime c,
      wa_tokenId = ce_tokenId c, wa_settled = False\<rparr>"

definition reduxSafeAuction :: "Auction \<Rightarrow> Auction" where
  "reduxSafeAuction a =
     \<lparr>wa_amount = wa_amount a, wa_bidder = wa_bidder a, wa_startTime = wa_startTime a, wa_endTime = wa_endTime a,
      wa_tokenId = wa_tokenId a, wa_settled = wa_settled a\<rparr>"

definition reduxSafeBid :: "BidEvent \<Rightarrow> BidEvent" where
  "reduxSafeBid b =
     \<lparr>be_tokenId = be_tokenId b, be_sender = be_sender b, be_value = be_value b, be_extended = be_extended b,
      be_transactionHash = be_transactionHash b, be_timestamp = be_timestamp b\<rparr>"

text \<open>\<open>reduce\<close> without a start value; it throws on an empty list, which its only caller never has.\<close>

definition higher_bid :: "BidEvent \<Rightarrow> BidEvent \<Rightarrow> BidEvent" where
  "higher_bid prev current = (if be_value prev > be_value current then prev else current)"

fun maxBid :: "BidEvent list \<Rightarrow> BidEvent result" where
  "maxBid [] = Inl TypeError"
| "maxBid (b # bs) = Inr (foldl higher_bid b bs)"

definition auctionsEqual :: "Auction \<Rightarrow> int \<Rightarrow> bool" where
  "auctionsEqual a i \<longleftrightarrow> wa_tokenId a = i"

definition containsBid :: "BidEvent list \<Rightarrow> BidEvent \<Rightarrow> bool" where
  "containsBid bidEvents bidEvent \<longleftrightarrow> be_transactionHash bidEvent \<in> set (map be_transactionHash bidEvents)"

definition setActiveAuction :: "AuctionCreateEvent \<Rightarrow> AuctionState \<Rightarrow> AuctionState" where
  "setActiveAuction c s = s\<lparr>as_activeAuction := Some (reduxSafeNewAuction c), as_bids := []\<rparr>"

definition setFullAuction :: "Auction \<Rightarrow> AuctionState \<Rightarrow> AuctionState" where
  "setFullAuction a s = s\<lparr>as_activeAuction := Some (reduxSafeAuction a)\<rparr>"

definition appendBid :: "BidEvent \<Rightarrow> AuctionState \<Rightarrow> AuctionState result" where
  "appendBid b s =
     (case as_activeAuction s of
        None \<Rightarrow> Inr s
      | Some a \<Rightarrow>
          if \<not> auctionsEqual a (be_tokenId b) then Inr s
          else if containsBid (as_bids s) b then Inr s
          else (let bids = reduxSafeBid b # as_bids s
                in rbind (maxBid bids) (\<lambda>m.
                     Inr (s\<lparr>as_bids := bids,
                            as_activeAuction := Some (a\<lparr>wa_amount := be_value m, wa_bidder := be_sender m\<rparr>)\<rparr>))))"

definition setAuctionSettled :: "int \<Rightarrow> string \<Rightarrow> int \<Rightarrow> AuctionState \<Rightarrow> AuctionState" where
  "setAuctionSettled tokenId winner amount s =
     (case as_activeAuction s of
        None \<Rightarrow> s
      | Some a \<Rightarrow>
          if \<not> auctionsEqual a tokenId then s
          else s\<lparr>as_activeAuction := Some (a\<lparr>wa_settled := True, wa_bidder := winner, wa_amount := amount\<rparr>)\<rparr>)"

definition setAuctionExtended :: "int \<Rightarrow> int \<Rightarrow> AuctionState \<Rightarrow> AuctionState" where
  "setAuctionExtended tokenId endTime s =
     (case as_activeAuction s of
        None \<Rightarrow> s
      | Some a \<Rightarrow>
          if \<not> auctionsEqual a tokenId then s
          else s\<lparr>as_activeAuction := Some (a\<lparr>wa_endTime := endTime\<rparr>)\<rparr>)"

section \<open>Past auctions\<close>

text \<open>An auction as \<open>latestAuctionsQuery\<close> returns it, its numbers read.\<close>

record past_bid =
  pb_id :: string
  pb_bidder :: string
  pb_amount :: int
  pb_blockTimestamp :: int

record past_auction =
  pa_id :: int
  pa_amount :: int
  pa_bidder :: "string option"
  pa_startTime :: int
  pa_endTime :: int
  pa_bids :: "past_bid list"

definition reduxSafePastAuctions :: "past_auction list \<Rightarrow> AuctionState list" where
  "reduxSafePastAuctions auctions =
     map (\<lambda>a.
       \<lparr>as_activeAuction = Some
          \<lparr>wa_amount = pa_amount a, wa_bidder = (case pa_bidder a of Some b \<Rightarrow> b | None \<Rightarrow> []),
           wa_startTime = pa_startTime a, wa_endTime = pa_endTime a, wa_tokenId = pa_id a, wa_settled = False\<rparr>,
        as_bids = map (\<lambda>b.
          \<lparr>be_tokenId = pa_id a, be_sender = pb_bidder b, be_value = pb_amount b, be_extended = False,
           be_transactionHash = pb_id b, be_timestamp = pb_blockTimestamp b\<rparr>) (pa_bids a)\<rparr>) auctions"

section \<open>The auction on display\<close>

record display_state =
  ds_lastAuctionTokenId :: "int option"
  ds_onDisplayAuctionTokenId :: "int option"

definition initial_display :: display_state where
  "initial_display = \<lparr>ds_lastAuctionTokenId = None, ds_onDisplayAuctionTokenId = None\<rparr>"

definition setLastAuctionTokenId :: "int \<Rightarrow> display_state \<Rightarrow> display_state" where
  "setLastAuctionTokenId i d = d\<lparr>ds_lastAuctionTokenId := Some i\<rparr>"

definition setOnDisplayAuctionTokenId :: "int \<Rightarrow> display_state \<Rightarrow> display_state" where
  "setOnDisplayAuctionTokenId i d = d\<lparr>ds_onDisplayAuctionTokenId := Some i\<rparr>"

definition setPrevOnDisplayAuctionTokenId :: "display_state \<Rightarrow> display_state" where
  "setPrevOnDisplayAuctionTokenId d =
     (case ds_onDisplayAuctionTokenId d of
        None \<Rightarrow> d
      | Some i \<Rightarrow> if i = 0 then d else d\<lparr>ds_onDisplayAuctionTokenId := Some (i - 1)\<rparr>)"

definition setNextOnDisplayAuctionTokenId :: "display_state \<Rightarrow> display_state" where
  "setNextOnDisplayAuctionTokenId d =
     (case ds_onDisplayAuctionTokenId d of
        None \<Rightarrow> d
      | Some i \<Rightarrow>
          if ds_lastAuctionTokenId d = Some i then d else d\<lparr>ds_onDisplayAuctionTokenId := Some (i + 1)\<rparr>)"

section \<open>The store and its actions\<close>

record app =
  ap_auction :: AuctionState
  ap_past :: "AuctionState list"
  ap_display :: display_state
  ap_path :: string

datatype action =
    SetActiveAuction AuctionCreateEvent
  | SetFullAuction Auction
  | AppendBid BidEvent
  | SetAuctionSettled int string int
  | SetAuctionExtended int int
  | AddPastAuctions "past_auction list"
  | SetLastAuctionTokenId int
  | SetOnDisplayAuctionTokenId int
  | SetPrevOnDisplayAuctionTokenId
  | SetNextOnDisplayAuctionTokenId
  | Push string

text \<open>A reducer that throws leaves the state as it was.\<close>

fun dispatch_action :: "action \<Rightarrow> app \<Rightarrow> app" where
  "dispatch_action (SetActiveAuction c) s = s\<lparr>ap_auction := setActiveAuction c (ap_auction s)\<rparr>"
| "dispatch_action (SetFullAuction a) s = s\<lparr>ap_auction := setFullAuction a (ap_auction s)\<rparr>"
| "dispatch_action (AppendBid b) s =
     (case appendBid b (ap_auction s) of Inl e \<Rightarrow> s | Inr a \<Rightarrow> s\<lparr>ap_auction := a\<rparr>)"
| "dispatch_action (SetAuctionSettled i w v) s = s\<lparr>ap_auction := setAuctionSettled i w v (ap_auction s)\<rparr>"
| "dispatch_action (SetAuctionExtended i t) s = s\<lparr>ap_auction := setAuctionExtended i t (ap_auction s)\<rparr>"
| "dispatch_action (AddPastAuctions l) s = s\<lparr>ap_past := reduxSafePastAuctions l\<rparr>"
| "dispatch_action (SetLastAuctionTokenId i) s = s\<lparr>ap_display := setLastAuctionTokenId i (ap_display s)\<rparr>"
| "dispatch_action (SetOnDisplayAuctionTokenId i) s = s\<lparr>ap_display := setOnDisplayAuctionTokenId i (ap_display s)\<rparr>"
| "dispatch_action SetPrevOnDisplayAuctionTokenId s = s\<lparr>ap_display := setPrevOnDisplayAuctionTokenId (ap_display s)\<rparr>"
| "dispatch_action SetNextOnDisplayAuctionTokenId s = s\<lparr>ap_display := setNextOnDisplayAuctionTokenId (ap_display s)\<rparr>"
| "dispatch_action (Push p) s = s\<lparr>ap_path := p\<rparr>"

definition initial_app :: "string \<Rightarrow> app" where
  "initial_app path = \<lparr>ap_auction = initial_auction, ap_past = [], ap_display = initial_display, ap_path = path\<rparr>"

section \<open>The subscriber\<close>

definition tokenPath :: "int \<Rightarrow> string" where
  "tokenPath i = ''/punk/'' @ int_to_base 10 i"

definition processBid :: "BidEvent \<Rightarrow> app \<Rightarrow> app" where
  "processBid b = dispatch_action (AppendBid (reduxSafeBid b))"

text \<open>The reducer applies \<open>reduxSafeNewAuction\<close> once more to what it is given.\<close>

definition processAuctionCreated :: "int \<Rightarrow> int \<Rightarrow> int \<Rightarrow> app \<Rightarrow> app" where
  "processAuctionCreated tokenId startTime endTime s =
     (let a = reduxSafeNewAuction \<lparr>ce_tokenId = tokenId, ce_startTime = startTime, ce_endTime = endTime\<rparr>;
          s1 = dispatch_action (SetActiveAuction
                 \<lparr>ce_tokenId = wa_tokenId a, ce_startTime = wa_startTime a, ce_endTime = wa_endTime a\<rparr>) s
      in case toNumber tokenId of
           Inl e \<Rightarrow> s1
         | Inr n \<Rightarrow> dispatch_action (SetLastAuctionTokenId n) (dispatch_action (SetOnDisplayAuctionTokenId n)
             (dispatch_action (Push (tokenPath n)) s1)))"

definition processAuctionExtended :: "int \<Rightarrow> int \<Rightarrow> app \<Rightarrow> app" where
  "processAuctionExtended tokenId endTime = dispatch_action (SetAuctionExtended tokenId endTime)"

definition processAuctionSettled :: "int \<Rightarrow> string \<Rightarrow> int \<Rightarrow> app \<Rightarrow> app" where
  "processAuctionSettled tokenId winner amount = dispatch_action (SetAuctionSettled tokenId winner amount)"

text \<open>\<open>loadState\<close>: the state, the earlier bids whose processing has started (each waits for its block) and
  whether the listeners are registered; an event without arguments stops it.\<close>

definition loadState :: "Auction \<Rightarrow> BidEvent option list \<Rightarrow> app \<Rightarrow> app \<times> BidEvent list \<times> bool" where
  "loadState currentAuction previousBids s =
     (let s1 = dispatch_action (SetFullAuction (reduxSafeAuction currentAuction)) s
      in case toNumber (wa_tokenId currentAuction) of
           Inl e \<Rightarrow> (s1, [], False)
         | Inr n \<Rightarrow> (dispatch_action (SetLastAuctionTokenId n) s1,
                      map the (takeWhile (\<lambda>b. b \<noteq> None) previousBids), None \<notin> set previousBids))"

section \<open>The page\<close>

text \<open>The effect of \<open>AuctionPage\<close>; \<open>shown\<close> tells whether an auction is on display. The last auction 0
  counts as not set.\<close>

definition auction_page_effect :: "int option \<Rightarrow> bool \<Rightarrow> app \<Rightarrow> app" where
  "auction_page_effect initialAuctionId shown s =
     (case ds_lastAuctionTokenId (ap_display s) of
        None \<Rightarrow> s
      | Some l \<Rightarrow>
          if l = 0 then s
          else (case initialAuctionId of
                  None \<Rightarrow> dispatch_action (SetOnDisplayAuctionTokenId l) s
                | Some i \<Rightarrow>
                    if i > l \<or> i < 0
                    then dispatch_action (Push (tokenPath l)) (dispatch_action (SetOnDisplayAuctionTokenId l) s)
                    else if \<not> shown then dispatch_action (SetOnDisplayAuctionTokenId i) s
                    else s))"

text \<open>The two arrows of \<open>components/Auction/index.tsx\<close>.\<close>

definition prevAuctionHandler :: "Auction option \<Rightarrow> app \<Rightarrow> app" where
  "prevAuctionHandler currentAuction s =
     (let s1 = dispatch_action SetPrevOnDisplayAuctionTokenId s
      in case currentAuction of
           None \<Rightarrow> s1
         | Some a \<Rightarrow> (case toNumber (wa_tokenId a) of
                        Inl e \<Rightarrow> s1 | Inr n \<Rightarrow> dispatch_action (Push (tokenPath (n - 1))) s1))"

definition nextAuctionHandler :: "Auction option \<Rightarrow> app \<Rightarrow> app" where
  "nextAuctionHandler currentAuction s =
     (let s1 = dispatch_action SetNextOnDisplayAuctionTokenId s
      in case currentAuction of
           None \<Rightarrow> s1
         | Some a \<Rightarrow> (case toNumber (wa_tokenId a) of
                        Inl e \<Rightarrow> s1 | Inr n \<Rightarrow> dispatch_action (Push (tokenPath (n + 1))) s1))"

section \<open>What is read from the state\<close>

text \<open>\<open>find\<close> with a condition that may throw.\<close>

fun find_r :: "('a \<Rightarrow> bool result) \<Rightarrow> 'a list \<Rightarrow> 'a option result" where
  "find_r P [] = Inr None"
| "find_r P (x # xs) = rbind (P x) (\<lambda>hit. if hit then Inr (Some x) else find_r P xs)"

definition isNounderNoun :: "int \<Rightarrow> bool" where
  "isNounderNoun tokenId \<longleftrightarrow> tokenId mod 10 = 0 \<or> tokenId = 0"

definition emptyNounderAuction :: "int \<Rightarrow> Auction" where
  "emptyNounderAuction i =
     \<lparr>wa_amount = 0, wa_bidder = [], wa_startTime = 0, wa_endTime = 0, wa_tokenId = i, wa_settled = False\<rparr>"

text \<open>\<open>BigNumber.from(undefined)\<close> throws.\<close>

definition findAuction :: "int \<Rightarrow> AuctionState list \<Rightarrow> Auction option result" where
  "findAuction i auctions =
     rbind (find_r (\<lambda>a. rbind (of_option TypeError (as_activeAuction a)) (\<lambda>x. Inr (wa_tokenId x = i))) auctions)
       (\<lambda>hit. Inr (Option.bind hit as_activeAuction))"

definition generateEmptyNounderAuction :: "int \<Rightarrow> AuctionState list \<Rightarrow> Auction result" where
  "generateEmptyNounderAuction tokenId pastAuctions =
     rbind (toNumber tokenId) (\<lambda>n.
       rbind (findAuction (tokenId + 1) pastAuctions) (\<lambda>above.
         Inr (case above of
                None \<Rightarrow> emptyNounderAuction n
              | Some a \<Rightarrow> (emptyNounderAuction n)\<lparr>wa_startTime := wa_startTime a\<rparr>)))"

definition deserializeAuction :: "Auction \<Rightarrow> Auction" where
  "deserializeAuction a =
     \<lparr>wa_amount = wa_amount a, wa_bidder = wa_bidder a, wa_startTime = wa_startTime a, wa_endTime = wa_endTime a,
      wa_tokenId = wa_tokenId a, wa_settled = False\<rparr>"

definition deserializeBid :: "BidEvent \<Rightarrow> BidEvent" where
  "deserializeBid b =
     \<lparr>be_tokenId = be_tokenId b, be_sender = be_sender b, be_value = be_value b, be_extended = be_extended b,
      be_transactionHash = be_transactionHash b, be_timestamp = be_timestamp b\<rparr>"

text \<open>Latest first; bids of the same time keep their order. Times are far below the bound of
  \<open>toNumber\<close>.\<close>

definition deserializeBids :: "BidEvent list \<Rightarrow> BidEvent list" where
  "deserializeBids bids = sort_key (\<lambda>b. - be_timestamp b) (map deserializeBid bids)"

definition useOnDisplayAuction :: "app \<Rightarrow> Auction option result" where
  "useOnDisplayAuction s =
     (case (ds_onDisplayAuctionTokenId (ap_display s), as_activeAuction (ap_auction s)) of
        (Some i, Some currentAuction) \<Rightarrow>
          if i = wa_tokenId currentAuction then Inr (Some (deserializeAuction currentAuction))
          else if isNounderNoun i
          then rbind (generateEmptyNounderAuction i (ap_past s)) (\<lambda>a. Inr (Some (deserializeAuction a)))
          else rbind (find_r (\<lambda>a. case as_activeAuction a of
                                    None \<Rightarrow> Inr False
                                  | Some x \<Rightarrow> rbind (toNumber (wa_tokenId x)) (\<lambda>n. Inr (n = i))) (ap_past s))
                 (\<lambda>hit. Inr (map_option deserializeAuction (Option.bind hit as_activeAuction)))
      | _ \<Rightarrow> Inr None)"

definition useAuctionBids :: "int \<Rightarrow> app \<Rightarrow> BidEvent list option result" where
  "useAuctionBids auctionTokenId s =
     rbind (toNumber auctionTokenId) (\<lambda>n.
       if ds_lastAuctionTokenId (ap_display s) = Some n then Inr (Some (deserializeBids (as_bids (ap_auction s))))
       else rbind (find_r (\<lambda>a. Inr (case as_activeAuction a of None \<Rightarrow> False | Some x \<Rightarrow> wa_tokenId x = auctionTokenId))
                     (ap_past s))
              (\<lambda>hit. Inr (map_option (\<lambda>a. deserializeBids (as_bids a)) hit)))"

text \<open>The start of the auction after the punk's own; 0 while it is not known.\<close>

definition useTokenCanVoteTimestamp :: "int \<Rightarrow> AuctionState list \<Rightarrow> int" where
  "useTokenCanVoteTimestamp tokenId pastAuctions =
     (let nextTokenId = tokenId + 1;
          nextTokenIdForQuery = (if isNounderNoun nextTokenId then nextTokenId + 1 else nextTokenId)
      in case find (\<lambda>a. case as_activeAuction a of None \<Rightarrow> False | Some x \<Rightarrow> wa_tokenId x = nextTokenIdForQuery) pastAuctions of
           None \<Rightarrow> 0
         | Some a \<Rightarrow> (case as_activeAuction a of None \<Rightarrow> 0 | Some x \<Rightarrow> wa_startTime x))"

section \<open>The auction house contract\<close>

text \<open>The state of \<open>NAuctionHouse.sol\<close> the events depend on. A call gives the new state and its events, or
  reverts (\<open>None\<close>). \<open>mint\<close> is what the token contract returns: the new punk, or a failure.\<close>

record house =
  ho_auction :: Auction
  ho_timeBuffer :: int
  ho_reservePrice :: int
  ho_minBidIncrementPercentage :: nat
  ho_duration :: int
  ho_paused :: bool

datatype house_event =
    AuctionBid BidEvent
  | AuctionExtended int int
  | AuctionSettled int string int
  | AuctionCreated int int int

definition no_address :: string where "no_address = ''0x'' @ replicate 40 (CHR ''0'')"

text \<open>\<open>tx\<close> and \<open>now\<close> are the transaction hash and the time of the block, which the subscriber adds to
  the event.\<close>

definition createBid :: "string \<Rightarrow> int \<Rightarrow> string \<Rightarrow> int \<Rightarrow> int \<Rightarrow> house \<Rightarrow> (house \<times> house_event list) option" where
  "createBid tx now sender value tokenId h =
     (let a = ho_auction h
      in if wa_tokenId a \<noteq> tokenId \<or> now \<ge> wa_endTime a \<or> value < ho_reservePrice h \<or>
            value < wa_amount a + (wa_amount a * int (ho_minBidIncrementPercentage h)) div 100
         then None
         else (let extended = wa_endTime a - now < ho_timeBuffer h;
                   endTime = (if extended then now + ho_timeBuffer h else wa_endTime a);
                   bid = AuctionBid \<lparr>be_tokenId = wa_tokenId a, be_sender = sender, be_value = value,
                           be_extended = extended, be_transactionHash = tx, be_timestamp = now\<rparr>
               in Some (h\<lparr>ho_auction := a\<lparr>wa_amount := value, wa_bidder := sender, wa_endTime := endTime\<rparr>\<rparr>,
                        bid # (if extended then [AuctionExtended (wa_tokenId a) endTime] else []))))"

definition settleAuction_internal :: "int \<Rightarrow> house \<Rightarrow> (house \<times> house_event list) option" where
  "settleAuction_internal now h =
     (let a = ho_auction h
      in if wa_startTime a = 0 \<or> wa_settled a \<or> now < wa_endTime a then None
         else Some (h\<lparr>ho_auction := a\<lparr>wa_settled := True\<rparr>\<rparr>, [AuctionSettled (wa_tokenId a) (wa_bidder a) (wa_amount a)]))"

definition createAuction_internal :: "int \<Rightarrow> int option \<Rightarrow> house \<Rightarrow> house \<times> house_event list" where
  "createAuction_internal now mint h =
     (case mint of
        None \<Rightarrow> (h\<lparr>ho_paused := True\<rparr>, [])
      | Some tokenId \<Rightarrow>
          (h\<lparr>ho_auction := \<lparr>wa_amount = 0, wa_bidder = no_address, wa_startTime = now, wa_endTime = now + ho_duration h,
               wa_tokenId = tokenId, wa_settled = False\<rparr>\<rparr>,
           [AuctionCreated tokenId now (now + ho_duration h)]))"

definition settleCurrentAndCreateNewAuction :: "int \<Rightarrow> int option \<Rightarrow> house \<Rightarrow> (house \<times> house_event list) option" where
  "settleCurrentAndCreateNewAuction now mint h =
     (if ho_paused h then None
      else map_option (\<lambda>(h1, evs1). let (h2, evs2) = createAuction_internal now mint h1 in (h2, evs1 @ evs2))
             (settleAuction_internal now h))"

definition settleAuction :: "int \<Rightarrow> house \<Rightarrow> (house \<times> house_event list) option" where
  "settleAuction now h = (if \<not> ho_paused h then None else settleAuction_internal now h)"

definition pause :: "house \<Rightarrow> (house \<times> house_event list) option" where
  "pause h = (if ho_paused h then None else Some (h\<lparr>ho_paused := True\<rparr>, []))"

definition unpause :: "int \<Rightarrow> int option \<Rightarrow> house \<Rightarrow> (house \<times> house_event list) option" where
  "unpause now mint h =
     (if \<not> ho_paused h then None
      else (let h1 = h\<lparr>ho_paused := False\<rparr>
            in if wa_startTime (ho_auction h) = 0 \<or> wa_settled (ho_auction h)
               then Some (createAuction_internal now mint h1)
               else Some (h1, [])))"

definition setTimeBuffer :: "int \<Rightarrow> house \<Rightarrow> (house \<times> house_event list) option" where
  "setTimeBuffer v h = Some (h\<lparr>ho_timeBuffer := v\<rparr>, [])"

definition setReservePrice :: "int \<Rightarrow> house \<Rightarrow> (house \<times> house_event list) option" where
  "setReservePrice v h = Some (h\<lparr>ho_reservePrice := v\<rparr>, [])"

definition setMinBidIncrementPercentage :: "nat \<Rightarrow> house \<Rightarrow> (house \<times> house_event list) option" where
  "setMinBidIncrementPercentage v h = Some (h\<lparr>ho_minBidIncrementPercentage := v\<rparr>, [])"

datatype house_call =
    CreateBid string int string int int
  | SettleCurrentAndCreateNewAuction int "int option"
  | SettleAuction int
  | Pause
  | Unpause int "int option"
  | SetTimeBuffer int
  | SetReservePrice int
  | SetMinBidIncrementPercentage nat

fun call :: "house_call \<Rightarrow> house \<Rightarrow> (house \<times> house_event list) option" where
  "call (CreateBid tx now sender value tokenId) h = createBid tx now sender value tokenId h"
| "call (SettleCurrentAndCreateNewAuction now mint) h = settleCurrentAndCreateNewAuction now mint h"
| "call (SettleAuction now) h = settleAuction now h"
| "call Pause h = pause h"
| "call (Unpause now mint) h = unpause now mint h"
| "call (SetTimeBuffer v) h = setTimeBuffer v h"
| "call (SetReservePrice v) h = setReservePrice v h"
| "call (SetMinBidIncrementPercentage v) h = setMinBidIncrementPercentage v h"

section \<open>The application beside the contract\<close>

text \<open>The bids of the running auction and all bids, oldest first.\<close>

fun log_event :: "house_event \<Rightarrow> BidEvent list \<Rightarrow> BidEvent list" where
  "log_event (AuctionBid b) log = log @ [b]"
| "log_event (AuctionCreated i t e) log = []"
| "log_event _ log = log"

fun history_event :: "house_event \<Rightarrow> BidEvent list \<Rightarrow> BidEvent list" where
  "history_event (AuctionBid b) hist = hist @ [b]"
| "history_event _ hist = hist"

text \<open>What a call must respect: a transaction makes one bid, and a minted punk is new.\<close>

fun fresh_call :: "house_call \<Rightarrow> BidEvent list \<Rightarrow> BidEvent list \<Rightarrow> bool" where
  "fresh_call (CreateBid tx now sender value tokenId) log hist \<longleftrightarrow> tx \<notin> set (map be_transactionHash log)"
| "fresh_call (SettleCurrentAndCreateNewAuction now (Some i)) log hist \<longleftrightarrow> i \<notin> set (map be_tokenId hist)"
| "fresh_call (Unpause now (Some i)) log hist \<longleftrightarrow> i \<notin> set (map be_tokenId hist)"
| "fresh_call _ log hist \<longleftrightarrow> True"

definition initial_house :: "int \<Rightarrow> int \<Rightarrow> nat \<Rightarrow> int \<Rightarrow> house" where
  "initial_house timeBuffer reservePrice pct duration =
     \<lparr>ho_auction = \<lparr>wa_amount = 0, wa_bidder = no_address, wa_startTime = 0, wa_endTime = 0, wa_tokenId = 0, wa_settled = False\<rparr>,
      ho_timeBuffer = timeBuffer, ho_reservePrice = reservePrice, ho_minBidIncrementPercentage = pct,
      ho_duration = duration, ho_paused = True\<rparr>"

inductive chain :: "house \<Rightarrow> BidEvent list \<Rightarrow> BidEvent list \<Rightarrow> bool" where
  start: "chain (initial_house timeBuffer reservePrice pct duration) [] []"
| step: "chain h log hist \<Longrightarrow> call c h = Some (h', evs) \<Longrightarrow> fresh_call c log hist \<Longrightarrow>
    chain h' (fold log_event evs log) (fold history_event evs hist)"

text \<open>The subscriber handles an event at once, but a bid only after its block has been fetched.\<close>

fun receive_event :: "house_event \<Rightarrow> BidEvent list \<times> app \<Rightarrow> BidEvent list \<times> app" where
  "receive_event (AuctionBid b) (pend, s) = (pend @ [b], s)"
| "receive_event (AuctionExtended i e) (pend, s) = (pend, processAuctionExtended i e s)"
| "receive_event (AuctionSettled i w v) (pend, s) = (pend, processAuctionSettled i w v s)"
| "receive_event (AuctionCreated i t e) (pend, s) = (pend, processAuctionCreated i t e s)"

text \<open>The application connects at any time and reads the bids of the last blocks, a suffix of the history;
  then calls of the contract and the arrival of bids interleave.\<close>

inductive watching :: "house \<Rightarrow> BidEvent list \<Rightarrow> BidEvent list \<Rightarrow> BidEvent list \<Rightarrow> app \<Rightarrow> bool" where
  connect: "chain h log hist \<Longrightarrow> suffix recent hist \<Longrightarrow>
    loadState (ho_auction h) (map Some recent) (initial_app path) = (s, pend, True) \<Longrightarrow> watching h log hist pend s"
| on_call: "watching h log hist pend s \<Longrightarrow> call c h = Some (h', evs) \<Longrightarrow> fresh_call c log hist \<Longrightarrow>
    fold receive_event evs (pend, s) = (pend', s') \<Longrightarrow>
    watching h' (fold log_event evs log) (fold history_event evs hist) pend' s'"
| arrive: "watching h log hist pend s \<Longrightarrow> b \<in> set pend \<Longrightarrow> watching h log hist (remove1 b pend) (processBid b s)"

section \<open>The bids of the contract\<close>

text \<open>One event of a call at a time: the effect on the auction of the contract.\<close>

fun event_auction :: "house_event \<Rightarrow> Auction \<Rightarrow> Auction" where
  "event_auction (AuctionBid b) a = a\<lparr>wa_amount := be_value b, wa_bidder := be_sender b\<rparr>"
| "event_auction (AuctionExtended i e) a = a\<lparr>wa_endTime := e\<rparr>"
| "event_auction (AuctionSettled i w v) a = a\<lparr>wa_settled := True\<rparr>"
| "event_auction (AuctionCreated i t e) a =
     \<lparr>wa_amount = 0, wa_bidder = no_address, wa_startTime = t, wa_endTime = e, wa_tokenId = i, wa_settled = False\<rparr>"

text \<open>An event a call can emit in a state.\<close>

fun event_ok :: "Auction \<Rightarrow> BidEvent list \<Rightarrow> BidEvent list \<Rightarrow> house_event \<Rightarrow> bool" where
  "event_ok a log hist (AuctionBid b) \<longleftrightarrow> be_tokenId b = wa_tokenId a \<and> (0 \<le> wa_amount a \<longrightarrow> wa_amount a \<le> be_value b) \<and>
     be_transactionHash b \<notin> set (map be_transactionHash log)"
| "event_ok a log hist (AuctionExtended i e) \<longleftrightarrow> i = wa_tokenId a"
| "event_ok a log hist (AuctionSettled i w v) \<longleftrightarrow> i = wa_tokenId a \<and> w = wa_bidder a \<and> v = wa_amount a"
| "event_ok a log hist (AuctionCreated i t e) \<longleftrightarrow> i \<notin> set (map be_tokenId hist)"

fun events_ok :: "Auction \<Rightarrow> BidEvent list \<Rightarrow> BidEvent list \<Rightarrow> house_event list \<Rightarrow> bool" where
  "events_ok a log hist [] \<longleftrightarrow> True"
| "events_ok a log hist (e # evs) \<longleftrightarrow> event_ok a log hist e \<and>
     events_ok (event_auction e a) (log_event e log) (history_event e hist) evs"

lemmas house_defs = createBid_def settleAuction_internal_def createAuction_internal_def settleCurrentAndCreateNewAuction_def
  settleAuction_def pause_def unpause_def setTimeBuffer_def setReservePrice_def setMinBidIncrementPercentage_def

lemma call_events:
  assumes "call c h = Some (h', evs)" and "fresh_call c log hist"
  shows "ho_auction h' = fold event_auction evs (ho_auction h) \<and> events_ok (ho_auction h) log hist evs"
proof (cases c)
  case (CreateBid tx now sender v i)
  have "x \<le> v" if "0 \<le> x" "\<not> v < x + x * int p div 100" for x p
    using that by (smt (verit) mult_nonneg_nonneg of_nat_0_le_iff pos_imp_zdiv_nonneg_iff)
  then show ?thesis using assms CreateBid by (auto simp: createBid_def Let_def split: if_splits)
next
  case (SettleCurrentAndCreateNewAuction now mint)
  then show ?thesis using assms
    by (cases mint) (auto simp: house_defs Let_def split: if_splits)
next
  case (Unpause now mint)
  then show ?thesis using assms by (cases mint) (auto simp: house_defs Let_def split: if_splits)
qed (use assms in \<open>auto simp: house_defs Let_def split: if_splits\<close>)

definition chain_ok :: "Auction \<Rightarrow> BidEvent list \<Rightarrow> BidEvent list \<Rightarrow> bool" where
  "chain_ok a log hist \<longleftrightarrow>
     0 \<le> wa_amount a \<and> (\<forall>b \<in> set log. be_value b \<le> wa_amount a) \<and> distinct (map be_transactionHash log) \<and>
     filter (\<lambda>b. be_tokenId b = wa_tokenId a) hist = log \<and>
     (if log = [] then wa_amount a = 0 \<and> wa_bidder a = no_address
      else wa_amount a = be_value (last log) \<and> wa_bidder a = be_sender (last log))"

lemma chain_ok_event:
  assumes "chain_ok a log hist" and "event_ok a log hist e"
  shows "chain_ok (event_auction e a) (log_event e log) (history_event e hist)"
  using assms by (cases e) (auto simp: chain_ok_def filter_empty_conv split: if_splits)

lemma chain_ok_events:
  "chain_ok a log hist \<Longrightarrow> events_ok a log hist evs \<Longrightarrow>
     chain_ok (fold event_auction evs a) (fold log_event evs log) (fold history_event evs hist)"
  by (induction evs arbitrary: a log hist) (auto intro: chain_ok_event)

lemma chain_chain_ok: "chain h log hist \<Longrightarrow> chain_ok (ho_auction h) log hist"
proof (induction rule: chain.induct)
  case (start timeBuffer reservePrice pct duration)
  then show ?case by (simp add: chain_ok_def initial_house_def)
next
  case (step h log hist c h' evs)
  then show ?case using call_events [OF step.hyps(2,3)] chain_ok_events by simp
qed

section \<open>What the application keeps of them\<close>

lemma redux_identities [simp]:
  "reduxSafeBid b = b" "reduxSafeAuction a = a" "deserializeBid b = b"
  by (simp_all add: reduxSafeBid_def reduxSafeAuction_def deserializeBid_def)

lemma foldl_higher_bid:
  "foldl higher_bid b bs \<in> set (b # bs) \<and> (\<forall>c \<in> set (b # bs). be_value c \<le> be_value (foldl higher_bid b bs))"
proof (induction bs arbitrary: b)
  case (Cons c bs)
  let ?h = "higher_bid b c"
  have "?h \<in> {b, c}" "be_value b \<le> be_value ?h" "be_value c \<le> be_value ?h" by (auto simp: higher_bid_def)
  with Cons [of ?h] show ?case by fastforce
qed simp

lemma maxBid_max:
  assumes "maxBid bs = Inr m"
  shows "m \<in> set bs" and "\<forall>c \<in> set bs. be_value c \<le> be_value m"
  using assms foldl_higher_bid by (cases bs; auto)+

lemma maxBid_defined: "bs \<noteq> [] \<Longrightarrow> \<exists>m. maxBid bs = Inr m"
  by (cases bs) auto

text \<open>No bidder is the empty text in the application and the zero address in the contract.\<close>

definition same_bidder :: "Auction \<Rightarrow> Auction \<Rightarrow> bool" where
  "same_bidder x a \<longleftrightarrow> wa_bidder x = wa_bidder a \<or> wa_bidder x = [] \<and> wa_bidder a = no_address"

definition same_frame :: "Auction \<Rightarrow> Auction \<Rightarrow> bool" where
  "same_frame x a \<longleftrightarrow> wa_tokenId x = wa_tokenId a \<and> wa_startTime x = wa_startTime a \<and> wa_endTime x = wa_endTime a \<and>
     wa_settled x = wa_settled a"

definition same_bid :: "Auction \<Rightarrow> Auction \<Rightarrow> BidEvent list \<Rightarrow> bool" where
  "same_bid x a log \<longleftrightarrow> wa_amount x = wa_amount a \<and> (distinct (map be_value log) \<longrightarrow> same_bidder x a)"

abbreviation on_auction :: "Auction \<Rightarrow> BidEvent list \<Rightarrow> BidEvent list" where
  "on_auction a \<equiv> filter (\<lambda>b. be_tokenId b = wa_tokenId a)"

definition watch_ok :: "Auction \<Rightarrow> BidEvent list \<Rightarrow> BidEvent list \<Rightarrow> BidEvent list \<Rightarrow> AuctionState \<Rightarrow> bool" where
  "watch_ok a log hist pend st \<longleftrightarrow>
     chain_ok a log hist \<and> set pend \<subseteq> set hist \<and> set (as_bids st) \<subseteq> set log \<and>
     distinct (as_bids st @ on_auction a pend) \<and>
     (as_bids st \<noteq> [] \<or> on_auction a pend \<noteq> [] \<longrightarrow> last log \<in> set (as_bids st) \<union> set pend) \<and>
     (\<exists>x. as_activeAuction st = Some x \<and> same_frame x a \<and> (on_auction a pend = [] \<longrightarrow> same_bid x a log))"

lemma pend_on_log: "chain_ok a log hist \<Longrightarrow> set pend \<subseteq> set hist \<Longrightarrow> set (on_auction a pend) \<subseteq> set log"
  unfolding chain_ok_def by fastforce

lemma same_bid_max:
  assumes ok: "chain_ok a log hist" and bids: "set bs \<subseteq> set log" "last log \<in> set bs" and m: "maxBid bs = Inr m"
  shows "be_value m = wa_amount a" and "distinct (map be_value log) \<Longrightarrow> be_sender m = wa_bidder a"
proof -
  have ne: "log \<noteq> []" using bids maxBid_max(1) [OF m] by auto
  with ok have last: "wa_amount a = be_value (last log)" "wa_bidder a = be_sender (last log)"
    by (simp_all add: chain_ok_def)
  have le: "\<forall>b \<in> set log. be_value b \<le> wa_amount a" using ok unfolding chain_ok_def by blast
  show v: "be_value m = wa_amount a"
    using maxBid_max [OF m] bids le last(1) by (metis order_antisym subsetD)
  assume "distinct (map be_value log)"
  then have "m = last log"
    using v last(1) maxBid_max(1) [OF m] bids(1) last_in_set [OF ne] by (metis distinct_map inj_onD subsetD)
  then show "be_sender m = wa_bidder a" using last(2) by simp
qed

lemma contains_own_bid:
  assumes "chain_ok a log hist" and "set bids \<subseteq> set log" and "b \<in> set log"
  shows "containsBid bids b \<longleftrightarrow> b \<in> set bids"
  using assms by (auto simp: containsBid_def chain_ok_def distinct_map dest!: inj_onD)

lemma watch_ok_other:
  assumes "watch_ok a log hist pend (ap_auction s)" and "b \<in> set pend" and "be_tokenId b \<noteq> wa_tokenId a"
  shows "watch_ok a log hist (remove1 b pend) (ap_auction (processBid b s))"
proof -
  from assms(1) obtain x where x: "as_activeAuction (ap_auction s) = Some x" "wa_tokenId x = wa_tokenId a"
    by (auto simp: watch_ok_def same_frame_def)
  have "ap_auction (processBid b s) = ap_auction s"
    using x assms(3) by (simp add: processBid_def appendBid_def auctionsEqual_def)
  moreover have "on_auction a (remove1 b pend) = on_auction a pend"
    using assms(3) by (simp add: filter_remove1)
  moreover have "last log \<noteq> b" if "as_bids (ap_auction s) \<noteq> [] \<or> on_auction a pend \<noteq> []"
  proof -
    have "log \<noteq> []" using that assms(1) pend_on_log [of a log hist pend] by (auto simp: watch_ok_def)
    then have "last log \<in> set (on_auction a hist)" using assms(1) by (simp add: watch_ok_def chain_ok_def)
    then show ?thesis using assms(3) by auto
  qed
  ultimately show ?thesis
    using assms(1) by (auto simp: watch_ok_def dest: notin_set_remove1 intro: in_set_remove1 [THEN iffD2])
qed

lemma watch_ok_own:
  assumes ok: "watch_ok a log hist pend (ap_auction s)" and b: "b \<in> set pend" and own: "be_tokenId b = wa_tokenId a"
  shows "watch_ok a log hist (remove1 b pend) (ap_auction (processBid b s))"
proof -
  let ?st = "ap_auction s"
  from ok have c: "chain_ok a log hist" and p: "set pend \<subseteq> set hist" and bs: "set (as_bids ?st) \<subseteq> set log"
    and d: "distinct (as_bids ?st @ on_auction a pend)"
    and l: "as_bids ?st \<noteq> [] \<or> on_auction a pend \<noteq> [] \<longrightarrow> last log \<in> set (as_bids ?st) \<union> set pend"
    by (auto simp: watch_ok_def)
  from ok obtain x where x: "as_activeAuction ?st = Some x" "same_frame x a" by (auto simp: watch_ok_def)
  have bp: "b \<in> set (on_auction a pend)" using b own by simp
  then have bl: "b \<in> set log" using pend_on_log [OF c p] by blast
  have new: "\<not> containsBid (as_bids ?st) b" using contains_own_bid [OF c bs bl] d bp by auto
  obtain m where m: "maxBid (b # as_bids ?st) = Inr m" using maxBid_defined by blast
  let ?x = "x\<lparr>wa_amount := be_value m, wa_bidder := be_sender m\<rparr>"
  have st': "ap_auction (processBid b s) = ?st\<lparr>as_bids := b # as_bids ?st, as_activeAuction := Some ?x\<rparr>"
    using x own new m by (simp add: processBid_def appendBid_def auctionsEqual_def same_frame_def)
  have l': "last log \<in> set (b # as_bids ?st) \<union> set (remove1 b pend)"
  proof -
    have "on_auction a pend \<noteq> []" using bp by (metis empty_iff empty_set)
    then show ?thesis using l by (auto simp: in_set_remove1)
  qed
  have last_here: "last log \<in> set (b # as_bids ?st)" if "on_auction a (remove1 b pend) = []"
  proof -
    have "log \<noteq> []" using bl by auto
    then have "last log \<in> set (on_auction a hist)" using c by (simp add: chain_ok_def)
    then have "last log \<notin> set (remove1 b pend)" using that by (auto simp: filter_empty_conv)
    then show ?thesis using l' by blast
  qed
  have "same_bid ?x a log" if "on_auction a (remove1 b pend) = []"
    using same_bid_max [OF c _ last_here [OF that] m] bs bl by (simp add: same_bid_def same_bidder_def)
  moreover have "distinct (b # as_bids ?st @ on_auction a (remove1 b pend))"
    using d bp own by (auto simp: filter_remove1 distinct_remove1)
  ultimately show ?thesis
    using c p bs bl x l' unfolding watch_ok_def st'
    by (auto simp: same_frame_def dest: notin_set_remove1)
qed

lemma watch_ok_frame:
  assumes "watch_ok a log hist pend st" and "chain_ok a' log hist" and "wa_tokenId a' = wa_tokenId a"
    and "as_bids st' = as_bids st" and "as_activeAuction st' = Some x'" and "same_frame x' a'"
    and "on_auction a pend = [] \<longrightarrow> same_bid x' a' log"
  shows "watch_ok a' log hist pend st'"
  using assms unfolding watch_ok_def by simp

lemma watch_ok_event:
  assumes ok: "watch_ok a log hist pend (ap_auction s)" and e: "event_ok a log hist e"
    and r: "receive_event e (pend, s) = (pend', s')"
  shows "watch_ok (event_auction e a) (log_event e log) (history_event e hist) pend' (ap_auction s')"
proof -
  from ok have c: "chain_ok a log hist" and p: "set pend \<subseteq> set hist" by (simp_all add: watch_ok_def)
  from ok obtain x where x: "as_activeAuction (ap_auction s) = Some x" "same_frame x a"
    "on_auction a pend = [] \<longrightarrow> same_bid x a log" by (auto simp: watch_ok_def)
  note c' = chain_ok_event [OF c e]
  show ?thesis
  proof (cases e)
    case (AuctionBid b)
    have "b \<notin> set log" using e AuctionBid by auto
    moreover have "set (on_auction a pend) \<subseteq> set log" by (rule pend_on_log [OF c p])
    moreover have "set (as_bids (ap_auction s)) \<subseteq> set log" "distinct (as_bids (ap_auction s) @ on_auction a pend)"
      using ok by (simp_all add: watch_ok_def)
    ultimately have d: "distinct (as_bids (ap_auction s) @ on_auction a (pend @ [b]))" by auto
    have new: "pend' = pend @ [b]" "s' = s" and own: "be_tokenId b = wa_tokenId a" using r e AuctionBid by simp_all
    let ?a = "a\<lparr>wa_amount := be_value b, wa_bidder := be_sender b\<rparr>"
    have "chain_ok ?a (log @ [b]) (hist @ [b])" using c' AuctionBid by simp
    moreover have "set (pend @ [b]) \<subseteq> set (hist @ [b])" "set (as_bids (ap_auction s)) \<subseteq> set (log @ [b])"
      using p ok by (auto simp: watch_ok_def)
    moreover have "same_frame x ?a" using x(2) by (simp add: same_frame_def)
    moreover have "distinct (as_bids (ap_auction s) @ on_auction ?a (pend @ [b]))" using d by simp
    moreover have "on_auction ?a (pend @ [b]) = [] \<longrightarrow> same_bid x ?a (log @ [b])" using own by simp
    moreover have "last (log @ [b]) \<in> set (as_bids (ap_auction s)) \<union> set (pend @ [b])" by simp
    ultimately show ?thesis using x(1)
      unfolding AuctionBid new watch_ok_def event_auction.simps log_event.simps history_event.simps by blast
  next
    case (AuctionExtended i t)
    have act: "ap_auction s' = (ap_auction s)\<lparr>as_activeAuction := Some (x\<lparr>wa_endTime := t\<rparr>)\<rparr>" "pend' = pend" "i = wa_tokenId a"
      using r e x(1,2) AuctionExtended
      by (auto simp: processAuctionExtended_def setAuctionExtended_def auctionsEqual_def same_frame_def)
    show ?thesis unfolding AuctionExtended event_auction.simps log_event.simps history_event.simps act(2)
      by (rule watch_ok_frame [OF ok, of _ _ "x\<lparr>wa_endTime := t\<rparr>"])
        (use c' x(2,3) in \<open>simp_all add: AuctionExtended act same_frame_def same_bid_def same_bidder_def\<close>)
  next
    case (AuctionSettled i w v)
    have act: "ap_auction s' = (ap_auction s)\<lparr>as_activeAuction :=
        Some (x\<lparr>wa_settled := True, wa_bidder := wa_bidder a, wa_amount := wa_amount a\<rparr>)\<rparr>" "pend' = pend"
      using r e x(1,2) AuctionSettled
      by (auto simp: processAuctionSettled_def setAuctionSettled_def auctionsEqual_def same_frame_def)
    show ?thesis unfolding AuctionSettled event_auction.simps log_event.simps history_event.simps act(2)
      by (rule watch_ok_frame [OF ok, of _ _ "x\<lparr>wa_settled := True, wa_bidder := wa_bidder a, wa_amount := wa_amount a\<rparr>"])
        (use c' x(2) in \<open>simp_all add: AuctionSettled act same_frame_def same_bid_def same_bidder_def\<close>)
  next
    case (AuctionCreated i t u)
    have "filter (\<lambda>b. be_tokenId b = i) pend = []" using e p AuctionCreated by (force simp: filter_empty_conv)
    moreover have "ap_auction s' = \<lparr>as_activeAuction = Some (reduxSafeNewAuction \<lparr>ce_tokenId = i, ce_startTime = t, ce_endTime = u\<rparr>),
        as_bids = []\<rparr>" "pend' = pend"
      using r AuctionCreated
      by (auto simp: processAuctionCreated_def Let_def setActiveAuction_def reduxSafeNewAuction_def split: sum.splits)
    ultimately show ?thesis using c' p AuctionCreated
      by (simp add: watch_ok_def same_frame_def same_bid_def same_bidder_def reduxSafeNewAuction_def)
  qed
qed

lemma watch_ok_events:
  assumes "watch_ok a log hist pend (ap_auction s)" and "events_ok a log hist evs"
    and "fold receive_event evs (pend, s) = (pend', s')"
  shows "watch_ok (fold event_auction evs a) (fold log_event evs log) (fold history_event evs hist) pend' (ap_auction s')"
  using assms
proof (induction evs arbitrary: a log hist pend s)
  case (Cons e evs)
  obtain pend1 s1 where r: "receive_event e (pend, s) = (pend1, s1)" by (cases "receive_event e (pend, s)")
  from watch_ok_event [OF Cons.prems(1) _ r] Cons show ?case by (simp add: r)
qed simp

lemma watch_ok_connect:
  assumes "chain_ok a log hist" and "suffix recent hist" and "distinct (on_auction a hist)"
    and "loadState a (map Some recent) (initial_app path) = (s, pend, True)"
  shows "watch_ok a log hist pend (ap_auction s)"
proof -
  have take: "takeWhile (\<lambda>b. \<exists>y. b = Some y) (map Some recent) = map Some recent" by (simp add: takeWhile_eq_all_conv)
  from assms(4) have pend: "pend = recent"
    and st: "ap_auction s = setFullAuction (reduxSafeAuction a) (ap_auction (initial_app path))"
    by (auto simp: loadState_def Let_def take comp_def split: sum.splits)
  obtain before where hist: "hist = before @ recent" using assms(2) by (auto simp: suffix_def)
  have log: "log = on_auction a before @ on_auction a recent" using assms(1) by (simp add: chain_ok_def hist)
  show ?thesis
    using assms(1,3) by (auto simp: watch_ok_def pend st setFullAuction_def initial_app_def initial_auction_def hist log
        same_frame_def same_bid_def same_bidder_def dest: last_in_set)
qed

lemma watching_watch_ok: "watching h log hist pend s \<Longrightarrow> watch_ok (ho_auction h) log hist pend (ap_auction s)"
proof (induction rule: watching.induct)
  case (connect h log hist recent path s pend)
  note c = chain_chain_ok [OF connect.hyps(1)]
  then have "distinct (on_auction (ho_auction h) hist)" by (simp add: chain_ok_def distinct_map)
  from watch_ok_connect [OF c connect.hyps(2) this connect.hyps(3)] show ?case .
next
  case (on_call h log hist pend s c h' evs pend' s')
  then show ?case using call_events [OF on_call.hyps(2,3)] watch_ok_events by metis
next
  case (arrive h log hist pend s b)
  then show ?case using watch_ok_own watch_ok_other by blast
qed


definition demo_bid :: "string \<Rightarrow> string \<Rightarrow> int \<Rightarrow> BidEvent" where
  "demo_bid tx sender v =
     \<lparr>be_tokenId = 4, be_sender = sender, be_value = v, be_extended = False, be_transactionHash = tx, be_timestamp = 2\<rparr>"

definition demo_house :: house where
  "demo_house = (initial_house 5 1 5 100)\<lparr>ho_paused := False, ho_auction :=
     \<lparr>wa_amount = 0, wa_bidder = no_address, wa_startTime = 1, wa_endTime = 101, wa_tokenId = 4, wa_settled = False\<rparr>\<rparr>"

definition demo_bids :: "int \<Rightarrow> int \<Rightarrow> house \<Rightarrow> (house \<times> house_event list) option" where
  "demo_bids v w h = Option.bind (call (CreateBid ''t1'' 2 ''a'' v 4) h) (\<lambda>(h1, evs1).
     map_option (\<lambda>(h2, evs2). (h2, evs1 @ evs2)) (call (CreateBid ''t2'' 2 ''b'' w 4) h1))"

text \<open>The application connects to the new auction, two bids follow, and they arrive in the wrong order.\<close>

lemma demo_watching:
  assumes "1 \<le> v" and "v + v * 5 div 100 \<le> w"
  shows "\<exists>h s. watching h [demo_bid ''t1'' ''a'' v, demo_bid ''t2'' ''b'' w] [demo_bid ''t1'' ''a'' v, demo_bid ''t2'' ''b'' w] [] s \<and>
    wa_amount (ho_auction h) = w \<and> wa_bidder (ho_auction h) = ''b'' \<and>
    as_bids (ap_auction s) = [demo_bid ''t1'' ''a'' v, demo_bid ''t2'' ''b'' w]"
proof -
  let ?a = "ho_auction demo_house"
  let ?b1 = "demo_bid ''t1'' ''a'' v" and ?b2 = "demo_bid ''t2'' ''b'' w"
  let ?h1 = "demo_house\<lparr>ho_auction := ?a\<lparr>wa_amount := v, wa_bidder := ''a''\<rparr>\<rparr>"
  let ?h2 = "demo_house\<lparr>ho_auction := ?a\<lparr>wa_amount := w, wa_bidder := ''b''\<rparr>\<rparr>"
  let ?s0 = "dispatch_action (SetLastAuctionTokenId 4) (dispatch_action (SetFullAuction ?a) (initial_app []))"
  have "chain demo_house [] []"
    using chain.step [OF chain.start [of 5 1 5 100], of "Unpause 1 (Some 4)" demo_house "[AuctionCreated 4 1 101]"]
    by (simp add: unpause_def initial_house_def createAuction_internal_def demo_house_def)
  then have w0: "watching demo_house [] [] [] ?s0"
    by (rule watching.connect [of _ _ _ "[]" "[]"]) (simp_all add: loadState_def toNumber_def demo_house_def)
  have w1: "watching ?h1 [?b1] [?b1] [?b1] ?s0"
    using watching.on_call [OF w0, of "CreateBid ''t1'' 2 ''a'' v 4" ?h1 "[AuctionBid ?b1]"] assms
    by (simp add: createBid_def Let_def demo_house_def demo_bid_def initial_house_def)
  have w2: "watching ?h2 [?b1, ?b2] [?b1, ?b2] [?b1, ?b2] ?s0"
    using watching.on_call [OF w1, of "CreateBid ''t2'' 2 ''b'' w 4" ?h2 "[AuctionBid ?b2]"] assms
    by (simp add: createBid_def Let_def demo_house_def demo_bid_def initial_house_def)
  have ne: "?b1 \<noteq> ?b2" by (simp add: demo_bid_def)
  from watching.arrive [OF watching.arrive [OF w2, of ?b2], of ?b1] ne
  have "watching ?h2 [?b1, ?b2] [?b1, ?b2] [] (processBid ?b1 (processBid ?b2 ?s0))" by simp
  moreover have "as_bids (ap_auction (processBid ?b1 (processBid ?b2 ?s0))) = [?b1, ?b2]"
    by (simp add: processBid_def appendBid_def setFullAuction_def initial_app_def initial_auction_def auctionsEqual_def
        containsBid_def demo_bid_def demo_house_def)
  ultimately show ?thesis by (intro exI [of _ ?h2]) (auto simp: exI)
qed


text \<open>A tie: with a tiny value the increment is rounded to 0, the contract accepts an equal bid, and the
  application goes on showing the first bidder.\<close>

lemma tie_shows_first_bidder:
  "maxBid [demo_bid ''t2'' ''b'' 1, demo_bid ''t1'' ''a'' 1] = Inr (demo_bid ''t1'' ''a'' 1)"
  by (simp add: higher_bid_def demo_bid_def)

section \<open>The auction on display\<close>

text \<open>What the subscriber, the auction page and its arrows do, in any order.\<close>

datatype page_event =
    BidArrived BidEvent
  | Created nat int int
  | Extended int int
  | Settled int string int
  | PastLoaded "past_auction list"
  | PageEffect "int option" bool
  | PrevClicked "Auction option"
  | NextClicked "Auction option"

fun page_step :: "page_event \<Rightarrow> app \<Rightarrow> app" where
  "page_step (BidArrived b) s = processBid b s"
| "page_step (Created i t e) s = processAuctionCreated (int i) t e s"
| "page_step (Extended i e) s = processAuctionExtended i e s"
| "page_step (Settled i w v) s = processAuctionSettled i w v s"
| "page_step (PastLoaded l) s = dispatch_action (AddPastAuctions l) s"
| "page_step (PageEffect i shown) s = auction_page_effect i shown s"
| "page_step (PrevClicked a) s = prevAuctionHandler a s"
| "page_step (NextClicked a) s = nextAuctionHandler a s"

definition display_ok :: "display_state \<Rightarrow> bool" where
  "display_ok d \<longleftrightarrow>
     (case ds_onDisplayAuctionTokenId d of
        None \<Rightarrow> True
      | Some i \<Rightarrow> (\<exists>l. ds_lastAuctionTokenId d = Some l \<and> 0 \<le> i \<and> i \<le> l)) \<and>
     pred_option (\<lambda>l. 0 \<le> l) (ds_lastAuctionTokenId d)"

lemmas display_defs = display_ok_def setLastAuctionTokenId_def setOnDisplayAuctionTokenId_def
  setPrevOnDisplayAuctionTokenId_def setNextOnDisplayAuctionTokenId_def

lemma display_ok_step: "display_ok (ap_display s) \<Longrightarrow> display_ok (ap_display (page_step x s))"
proof (cases x)
  case (Created i t e)
  then show "display_ok (ap_display s) \<Longrightarrow> ?thesis"
    by (cases "toNumber (int i)") (auto simp: processAuctionCreated_def Let_def display_defs toNumber_def split: if_splits)
next
  case (PageEffect i shown)
  then show "display_ok (ap_display s) \<Longrightarrow> ?thesis"
    by (auto simp: auction_page_effect_def display_defs split: option.splits)
next
  case (PrevClicked a)
  then show "display_ok (ap_display s) \<Longrightarrow> ?thesis"
    by (auto simp: prevAuctionHandler_def Let_def display_defs split: option.splits sum.splits)
next
  case (NextClicked a)
  then show "display_ok (ap_display s) \<Longrightarrow> ?thesis"
    by (auto simp: nextAuctionHandler_def Let_def display_defs split: option.splits sum.splits)
qed (auto simp: processBid_def processAuctionExtended_def processAuctionSettled_def split: sum.splits)

lemma display_ok_load:
  "0 \<le> wa_tokenId a \<Longrightarrow> loadState a bids (initial_app path) = (s, pend, sub) \<Longrightarrow> display_ok (ap_display s)"
  by (auto simp: loadState_def Let_def initial_app_def initial_display_def display_defs toNumber_def split: if_splits)

lemma find_r_hit: "find_r P xs = Inr (Some x) \<Longrightarrow> x \<in> set xs \<and> P x = Inr True"
  by (induction xs) (auto split: if_splits)

lemma displayed_auction:
  assumes "useOnDisplayAuction s = Inr (Some d)"
  shows "ds_onDisplayAuctionTokenId (ap_display s) = Some (wa_tokenId d)" and "\<not> wa_settled d"
proof -
  from assms obtain i c where ic: "ds_onDisplayAuctionTokenId (ap_display s) = Some i" "as_activeAuction (ap_auction s) = Some c"
    by (auto simp: useOnDisplayAuction_def split: option.splits)
  consider "i = wa_tokenId c" | "i \<noteq> wa_tokenId c" "isNounderNoun i" | "i \<noteq> wa_tokenId c" "\<not> isNounderNoun i" by blast
  then have "wa_tokenId d = i \<and> \<not> wa_settled d"
  proof cases
    case 1
    then show ?thesis using assms ic by (auto simp: useOnDisplayAuction_def deserializeAuction_def)
  next
    case 2
    then show ?thesis using assms ic
      by (auto simp: useOnDisplayAuction_def deserializeAuction_def generateEmptyNounderAuction_def emptyNounderAuction_def
          toNumber_def split: if_splits option.splits)
  next
    case 3
    then show ?thesis using assms ic
      by (auto simp: useOnDisplayAuction_def deserializeAuction_def toNumber_def Option.bind_eq_Some_conv
          dest!: find_r_hit split: if_splits option.splits)
  qed
  then show "ds_onDisplayAuctionTokenId (ap_display s) = Some (wa_tokenId d)" "\<not> wa_settled d" using ic by simp_all
qed

text \<open>The auction on display: after loading and any steps of the subscriber, the page and its arrows, the
  auction the page shows is the one asked for, its punk is between 0 and the last one on auction, and it is
  never shown as settled, even after the settlement has been received.\<close>

lemma auction_on_display:
  assumes "loadState a bids (initial_app path) = (s0, pend, sub)" and "0 \<le> wa_tokenId a"
    and "useOnDisplayAuction (fold page_step xs s0) = Inr (Some d)"
  shows "ds_onDisplayAuctionTokenId (ap_display (fold page_step xs s0)) = Some (wa_tokenId d) \<and> \<not> wa_settled d \<and>
    0 \<le> wa_tokenId d \<and> (\<exists>l. ds_lastAuctionTokenId (ap_display (fold page_step xs s0)) = Some l \<and> wa_tokenId d \<le> l)"
proof -
  have "display_ok (ap_display s) \<Longrightarrow> display_ok (ap_display (fold page_step xs s))" for s
    by (induction xs arbitrary: s) (simp_all add: display_ok_step)
  then have "display_ok (ap_display (fold page_step xs s0))" using display_ok_load [OF assms(2,1)] by blast
  then show ?thesis using displayed_auction [OF assms(3)] by (auto simp: display_ok_def)
qed

end
