(* ===== verification/Web_Activity.thy ===== *)
theory Web_Activity
  imports Graph_Index Web_Dao Web_Auction
begin

text \<open>
  \<open>packages/punks-webapp/src/wrappers/nActivity.ts\<close>: the history of a punk as its profile shows it,
  from the votes, transfers and delegations the subgraph has indexed. A hook is a function of what the
  queries return. The main result runs from the events of the token contract through the handlers of
  the subgraph to the list on the page.
\<close>

section \<open>Events\<close>

datatype TokenEventType = PROPOSAL_VOTE | DELEGATION | TRANSFER | AUCTION_WIN

datatype event_payload =
    ProposalVoteEvent Proposal "string option" "nat option"
  | TransferEvent string string string
  | DelegationEvent string string string
  | TokenWinEvent int string string

text \<open>\<open>pe_blockNumber\<close> is \<open>None\<close> when it is \<open>NaN\<close> or \<open>undefined\<close>.\<close>

record TokenProfileEvent =
  pe_blockNumber :: "int option"
  pe_eventType :: TokenEventType
  pe_payload :: event_payload

datatype 'a fetcher_response = Loading | Failed | Loaded 'a

text \<open>What \<open>useQuery\<close> returns.\<close>

record 'a query =
  q_loading :: bool
  q_error :: bool
  q_data :: "'a option"

section \<open>Votes\<close>

record TokenVoteHistory =
  vh_blockNumber :: int
  vh_proposal :: string
  vh_supportDetailed :: nat
  vh_voter :: string

text \<open>The votes by proposal; the last one of a proposal counts.\<close>

definition nounVotes :: "TokenVoteHistory list \<Rightarrow> (string, TokenVoteHistory) omap" where
  "nounVotes votes = foldl (\<lambda>acc h. omap_set (vh_proposal h) h acc) [] votes"

definition without_votes :: "Proposal \<Rightarrow> bool" where
  "without_votes p \<longleftrightarrow>
     (case (po_forCount p, po_abstainCount p, po_againstCount p) of
        (Some f, Some a, Some g) \<Rightarrow> f + a + g = 0
      | _ \<Rightarrow> False)"

text \<open>The creation times are looked up by position; a position that is missing throws.\<close>

definition keep_proposal :: "int \<Rightarrow> int list option \<Rightarrow> nat \<Rightarrow> Proposal \<Rightarrow> bool result" where
  "keep_proposal nounCanVoteTimestamp timestamps i p =
     (if \<not> truthy (po_id p) then Inr False
      else rbind (of_option TypeError (Option.bind timestamps (\<lambda>ts. if i < length ts then Some (ts ! i) else None))) (\<lambda>created.
        Inr (if nounCanVoteTimestamp > created then False
             else if po_status p = S_CANCELLED \<and> without_votes p then False
             else True)))"

fun filter_r :: "(nat \<Rightarrow> 'a \<Rightarrow> bool result) \<Rightarrow> nat \<Rightarrow> 'a list \<Rightarrow> 'a list result" where
  "filter_r P i [] = Inr []"
| "filter_r P i (x # xs) = rbind (P i x) (\<lambda>keep. rbind (filter_r P (Suc i) xs) (\<lambda>ys. Inr (if keep then x # ys else ys)))"

definition vote_event :: "(string, TokenVoteHistory) omap \<Rightarrow> Proposal \<Rightarrow> TokenProfileEvent" where
  "vote_event votes p =
     (case Option.bind (po_id p) (map_of votes) of
        Some v \<Rightarrow> \<lparr>pe_blockNumber = Some (vh_blockNumber v), pe_eventType = PROPOSAL_VOTE,
                    pe_payload = ProposalVoteEvent p (Some (vh_voter v)) (Some (vh_supportDetailed v))\<rparr>
      | None \<Rightarrow> \<lparr>pe_blockNumber = po_endBlock p, pe_eventType = PROPOSAL_VOTE, pe_payload = ProposalVoteEvent p None None\<rparr>)"

text \<open>The data of the voting query is the punk's votes, \<open>None\<close> when there is no such punk.\<close>

definition useNounProposalVoteEvents ::
  "TokenVoteHistory list option query \<Rightarrow> int list query \<Rightarrow> int \<Rightarrow> Proposal list \<Rightarrow>
     TokenProfileEvent list fetcher_response result" where
  "useNounProposalVoteEvents votes timestamps nounCanVoteTimestamp proposals =
     (if q_loading votes \<or> q_loading timestamps then Inr Loading
      else if q_error votes \<or> q_error timestamps then Inr Failed
      else rbind (of_option TypeError (Option.bind (q_data votes) (\<lambda>v. v))) (\<lambda>vs.
        rbind (filter_r (keep_proposal nounCanVoteTimestamp (q_data timestamps)) 0 proposals) (\<lambda>filteredProposals.
          Inr (Loaded (map (vote_event (nounVotes vs)) filteredProposals)))))"

section \<open>Transfers and delegations\<close>

record raw_event =
  re_id :: string
  re_from :: string
  re_to :: string
  re_blockNumber :: int

definition event_hash :: "string \<Rightarrow> string" where
  "event_hash i = substring i 0 (case index_of ''_'' i of None \<Rightarrow> 0 | Some n \<Rightarrow> n)"

definition transfer_event :: "raw_event \<Rightarrow> TokenProfileEvent" where
  "transfer_event e =
     \<lparr>pe_blockNumber = Some (re_blockNumber e), pe_eventType = TRANSFER,
      pe_payload = TransferEvent (re_from e) (re_to e) (event_hash (re_id e))\<rparr>"

definition useNounTransferEvents :: "raw_event list query \<Rightarrow> TokenProfileEvent list fetcher_response result" where
  "useNounTransferEvents q =
     (if q_loading q then Inr Loading
      else if q_error q then Inr Failed
      else rbind (of_option TypeError (q_data q)) (\<lambda>es. Inr (Loaded (map transfer_event es))))"

definition delegation_profile_event :: "raw_event \<Rightarrow> TokenProfileEvent" where
  "delegation_profile_event e =
     \<lparr>pe_blockNumber = Some (re_blockNumber e), pe_eventType = DELEGATION,
      pe_payload = DelegationEvent (re_from e) (re_to e) (event_hash (re_id e))\<rparr>"

definition useDelegationEvents :: "raw_event list query \<Rightarrow> TokenProfileEvent list fetcher_response result" where
  "useDelegationEvents q =
     (if q_loading q then Inr Loading
      else if q_error q then Inr Failed
      else rbind (of_option TypeError (q_data q)) (\<lambda>es. Inr (Loaded (map delegation_profile_event es))))"

section \<open>The activity\<close>

text \<open>\<open>sort\<close> is stable. With a block number that is not a number the comparison is not consistent and
  the order is up to the engine, a parameter.\<close>

definition sort_events ::
  "(TokenProfileEvent list \<Rightarrow> TokenProfileEvent list) \<Rightarrow> TokenProfileEvent list \<Rightarrow> TokenProfileEvent list" where
  "sort_events engine es =
     (if \<forall>e \<in> set es. pe_blockNumber e \<noteq> None then sort_key (\<lambda>e. the (pe_blockNumber e)) es else engine es)"

text \<open>\<open>xs.slice(0, end)\<close>: a negative end counts from the back.\<close>

definition slice_to :: "int \<Rightarrow> 'a list \<Rightarrow> 'a list" where
  "slice_to e xs = take (nat (if e < 0 then int (length xs) + e else e)) xs"

text \<open>The transfer that is taken for the sale, when it is there; otherwise the access throws and is caught.\<close>

definition win_event :: "int \<Rightarrow> TokenProfileEvent list \<Rightarrow> TokenProfileEvent option" where
  "win_event tokenId sortedTransfers =
     (let i = (if tokenId mod 10 = 0 then 0 else 1)
      in if i < length sortedTransfers
         then (case pe_payload (sortedTransfers ! i) of
                 TransferEvent from to hash \<Rightarrow>
                   Some \<lparr>pe_blockNumber = pe_blockNumber (sortedTransfers ! i), pe_eventType = AUCTION_WIN,
                         pe_payload = TokenWinEvent tokenId to hash\<rparr>
               | _ \<Rightarrow> None)
         else None)"

definition activity ::
  "(TokenProfileEvent list \<Rightarrow> TokenProfileEvent list) \<Rightarrow> int \<Rightarrow>
     TokenProfileEvent list \<Rightarrow> TokenProfileEvent list \<Rightarrow> TokenProfileEvent list \<Rightarrow> TokenProfileEvent list" where
  "activity engine tokenId votesData tokenTransferData delegationEventsData =
     (let events = rev (sort_events engine (votesData @ tokenTransferData @ delegationEventsData));
          postProcessedEvents = slice_to (int (length events) - (if tokenId mod 10 = 0 then 2 else 4)) events
      in postProcessedEvents @
           (case win_event tokenId (sort_events engine tokenTransferData) of None \<Rightarrow> [] | Some w \<Rightarrow> [w]))"

definition useNounActivity ::
  "(TokenProfileEvent list \<Rightarrow> TokenProfileEvent list) \<Rightarrow> int \<Rightarrow>
     TokenProfileEvent list fetcher_response \<Rightarrow> TokenProfileEvent list fetcher_response \<Rightarrow>
     TokenProfileEvent list fetcher_response \<Rightarrow> TokenProfileEvent list fetcher_response" where
  "useNounActivity engine tokenId votes transfers delegations =
     (if delegations = Loading \<or> transfers = Loading \<or> votes = Loading then Loading
      else case (votes, transfers, delegations) of
             (Loaded v, Loaded t, Loaded d) \<Rightarrow> Loaded (activity engine tokenId v t d)
           | _ \<Rightarrow> Failed)"

section \<open>The records the handlers write\<close>

lemma leave_holder_events:
  "st_transferEvents (snd (snd (leave_holder a tid e g s))) = st_transferEvents s"
  "st_delegationEvents (snd (snd (leave_holder a tid e g s))) = st_delegationEvents s"
  by (simp_all add: leave_holder_def Let_def case_prod_beta split: option.splits)

lemma enter_holder_events:
  "st_transferEvents (enter_holder ev a b tid f e g s) = st_transferEvents s"
  "st_delegationEvents (enter_holder ev a b tid f e g s) =
     (st_delegationEvents s)(ev_hash ev @ ''_'' @ tid \<mapsto>
        delegation_event ev tid (case ac_delegate f of Some d \<Rightarrow> d | None \<Rightarrow> a) (case ac_delegate e of Some d \<Rightarrow> d | None \<Rightarrow> b))"
  by (simp_all add: enter_holder_def Let_def case_prod_beta save_delegationEvent_def)

lemma transfer_events:
  "st_transferEvents (handleTransfer ev a b t s) = (st_transferEvents s)(ev_hash ev @ ''_'' @ dec t \<mapsto>
     \<lparr>te_punk = dec t, te_previousHolder = a, te_newHolder = b, te_blockNumber = ev_number ev,
      te_blockTimestamp = ev_timestamp ev\<rparr>)"
  "\<exists>x y. st_delegationEvents (handleTransfer ev a b t s) =
     (st_delegationEvents s)(ev_hash ev @ ''_'' @ dec t \<mapsto> delegation_event ev (dec t) x y)"
proof -
  show "st_transferEvents (handleTransfer ev a b t s) = (st_transferEvents s)(ev_hash ev @ ''_'' @ dec t \<mapsto>
     \<lparr>te_punk = dec t, te_previousHolder = a, te_newHolder = b, te_blockNumber = ev_number ev,
      te_blockTimestamp = ev_timestamp ev\<rparr>)"
    by (simp add: handleTransfer_def Let_def case_prod_beta leave_holder_events enter_holder_events(1) save_transferEvent_def)
  show "\<exists>x y. st_delegationEvents (handleTransfer ev a b t s) =
     (st_delegationEvents s)(ev_hash ev @ ''_'' @ dec t \<mapsto> delegation_event ev (dec t) x y)"
    unfolding handleTransfer_def Let_def case_prod_beta enter_holder_events(2) leave_holder_events by (simp, blast)
qed

lemma fold_records:
  "st_transferEvents (fold (\<lambda>p. save_delegationEvent (g p) (e p)) ps s) = st_transferEvents s"
  "st_delegationEvents (fold (\<lambda>p. save_delegationEvent (g p) (e p)) ps s) i = st_delegationEvents s i \<or>
    (\<exists>p. i = g p \<and> st_delegationEvents (fold (\<lambda>p. save_delegationEvent (g p) (e p)) ps s) i = Some (e p))"
proof -
  show "st_transferEvents (fold (\<lambda>p. save_delegationEvent (g p) (e p)) ps s) = st_transferEvents s"
    by (induction ps arbitrary: s) simp_all
  show "st_delegationEvents (fold (\<lambda>p. save_delegationEvent (g p) (e p)) ps s) i = st_delegationEvents s i \<or>
      (\<exists>p. i = g p \<and> st_delegationEvents (fold (\<lambda>p. save_delegationEvent (g p) (e p)) ps s) i = Some (e p))"
  proof (induction ps arbitrary: s)
    case (Cons q ps)
    from Cons [of "save_delegationEvent (g q) (e q) s"] show ?case
      by (cases "i = g q") (auto simp: delegationEvents.load_save)
  qed simp
qed

lemma delegate_changed_fold:
  "\<exists>S. handleDelegateChanged ev a f d s =
       fold (\<lambda>p. save_delegationEvent (ev_hash ev @ ''_'' @ p) (delegation_event ev p f d)) (ac_punks (account_of s a)) S \<and>
     st_transferEvents S = st_transferEvents s \<and> st_delegationEvents S = st_delegationEvents s"
  unfolding handleDelegateChanged_def Let_def case_prod_beta fst_getOrCreateAccount
  by (intro exI conjI, rule refl) simp_all

lemma delegate_changed_events:
  "st_transferEvents (handleDelegateChanged ev a f d s) = st_transferEvents s"
  "st_delegationEvents (handleDelegateChanged ev a f d s) i = st_delegationEvents s i \<or>
     (\<exists>p. i = ev_hash ev @ ''_'' @ p \<and> st_delegationEvents (handleDelegateChanged ev a f d s) i = Some (delegation_event ev p f d))"
proof -
  obtain S where S: "handleDelegateChanged ev a f d s =
      fold (\<lambda>p. save_delegationEvent (ev_hash ev @ ''_'' @ p) (delegation_event ev p f d)) (ac_punks (account_of s a)) S"
    "st_transferEvents S = st_transferEvents s" "st_delegationEvents S = st_delegationEvents s"
    using delegate_changed_fold by blast
  show "st_transferEvents (handleDelegateChanged ev a f d s) = st_transferEvents s" by (simp add: S fold_records(1))
  show "st_delegationEvents (handleDelegateChanged ev a f d s) i = st_delegationEvents s i \<or>
     (\<exists>p. i = ev_hash ev @ ''_'' @ p \<and> st_delegationEvents (handleDelegateChanged ev a f d s) i = Some (delegation_event ev p f d))"
    unfolding S(1) S(3) [symmetric] by (rule fold_records(2))
qed

fun writes_events :: "graph_event \<Rightarrow> event_env option" where
  "writes_events (Transfer ev a b t) = Some ev"
| "writes_events (DelegateChanged ev a f d) = Some ev"
| "writes_events _ = None"

lemma other_events:
  assumes "handle_event e s = Some s'" and "writes_events e = None"
  shows "st_transferEvents s' = st_transferEvents s \<and> st_delegationEvents s' = st_delegationEvents s"
proof (cases e)
  case (Auction x)
  then show ?thesis using assms
    by (cases x) (auto simp: handleAuctionCreated_def handleAuctionBid_def handleAuctionExtended_def
        handleAuctionSettled_def Let_def case_prod_beta split: option.splits)
qed (use assms in \<open>auto simp: handler_defs simp del: fun_eq_iff split: option.splits if_splits\<close>)

section \<open>What later events leave\<close>

text \<open>A transaction hash has no underscore, so a record's identifier tells its transaction.\<close>

definition plain_hash :: "string \<Rightarrow> bool" where
  "plain_hash h \<longleftrightarrow> CHR ''_'' \<notin> set h"

lemma record_id_inject:
  assumes "plain_hash h" and "plain_hash h'" and "h @ ''_'' @ x = h' @ ''_'' @ y"
  shows "h = h' \<and> x = y"
proof -
  have "takeWhile (\<lambda>c. c \<noteq> CHR ''_'') (h @ ''_'' @ x) = h" if "plain_hash h" for h x
    using that by (subst takeWhile_append2) (auto simp: plain_hash_def)
  with assms have "h = h'" by metis
  with assms(3) show ?thesis by simp
qed

lemma event_hash_id: "plain_hash h \<Longrightarrow> event_hash (h @ ''_'' @ x) = h"
  by (simp add: event_hash_def plain_hash_def index_of_char_append substring_def)

text \<open>An event of another transaction in a later block than \<open>n\<close>.\<close>

definition later :: "int \<Rightarrow> string set \<Rightarrow> graph_event \<Rightarrow> bool" where
  "later n hs e \<longleftrightarrow>
     (case writes_events e of None \<Rightarrow> True | Some ev \<Rightarrow> n < ev_number ev \<and> plain_hash (ev_hash ev) \<and> ev_hash ev \<notin> hs)"

definition kept :: "int \<Rightarrow> string set \<Rightarrow> store \<Rightarrow> store \<Rightarrow> bool" where
  "kept n hs s s' \<longleftrightarrow>
     (\<forall>h x. h \<in> hs \<longrightarrow> plain_hash h \<longrightarrow> st_transferEvents s' (h @ ''_'' @ x) = st_transferEvents s (h @ ''_'' @ x) \<and>
        st_delegationEvents s' (h @ ''_'' @ x) = st_delegationEvents s (h @ ''_'' @ x)) \<and>
     (\<forall>i e. st_transferEvents s' i = Some e \<longrightarrow> st_transferEvents s i = Some e \<or> n < te_blockNumber e) \<and>
     (\<forall>i e. st_delegationEvents s' i = Some e \<longrightarrow> st_delegationEvents s i = Some e \<or> n < de_blockNumber e)"

lemma kept_refl: "kept n hs s s"
  by (simp add: kept_def)

lemma kept_trans: "kept n hs s s' \<Longrightarrow> kept n hs s' s'' \<Longrightarrow> kept n hs s s''"
  unfolding kept_def by metis

lemma kept_event:
  assumes "later n hs e" and "handle_event e s = Some s'"
  shows "kept n hs s s'"
proof (cases "writes_events e")
  case None
  then show ?thesis using other_events [OF assms(2)] by (simp add: kept_def)
next
  case (Some ev)
  then have l: "n < ev_number ev" "plain_hash (ev_hash ev)" "ev_hash ev \<notin> hs" using assms(1) by (simp_all add: later_def)
  have other: "h @ ''_'' @ x \<noteq> ev_hash ev @ ''_'' @ y" if "h \<in> hs" "plain_hash h" for h x y
    using record_id_inject [OF that(2) l(2)] l(3) that(1) by metis
  consider (transfer) a b t where "e = Transfer ev a b t" | (delegate) a f d where "e = DelegateChanged ev a f d"
    using Some by (cases e) auto
  then show ?thesis
  proof cases
    case transfer
    then have s': "s' = handleTransfer ev a b t s" using assms(2) by simp
    obtain x y where d: "st_delegationEvents s' = (st_delegationEvents s)(ev_hash ev @ ''_'' @ dec t \<mapsto> delegation_event ev (dec t) x y)"
      using transfer_events(2) [of ev a b t s] unfolding s' by blast
    show ?thesis
      using l(1) other unfolding kept_def d unfolding s' transfer_events(1) by (auto simp: delegation_event_def)
  next
    case delegate
    then have s': "s' = handleDelegateChanged ev a f d s" using assms(2) by simp
    have "st_delegationEvents s' (h @ ''_'' @ x) = st_delegationEvents s (h @ ''_'' @ x)" if "h \<in> hs" "plain_hash h" for h x
      using delegate_changed_events(2) [of ev a f d s "h @ ''_'' @ x"] other [OF that] unfolding s' by blast
    moreover have "st_delegationEvents s i = Some r \<or> n < de_blockNumber r" if "st_delegationEvents s' i = Some r" for i r
      using delegate_changed_events(2) [of ev a f d s i] that l(1) unfolding s' by (auto simp: delegation_event_def)
    ultimately show ?thesis unfolding kept_def s' delegate_changed_events(1) by blast
  qed
qed

fun handle_events :: "graph_event list \<Rightarrow> store \<Rightarrow> store option" where
  "handle_events [] s = Some s"
| "handle_events (e # es) s = (case handle_event e s of None \<Rightarrow> None | Some s' \<Rightarrow> handle_events es s')"

lemma kept_events: "\<forall>e \<in> set es. later n hs e \<Longrightarrow> handle_events es s = Some s' \<Longrightarrow> kept n hs s s'"
proof (induction es arbitrary: s)
  case (Cons e es)
  then show ?case by (auto split: option.splits intro: kept_trans kept_event)
qed (simp add: kept_refl)

section \<open>The list on the page\<close>

lemma sort_key_split:
  "sort_key k xs = sort_key k (filter (\<lambda>x. k x \<le> c) xs) @ sort_key k (filter (\<lambda>x. c < k x) xs)" for c :: int
proof (induction xs)
  case (Cons x xs)
  have low: "insort_key k x (as @ bs) = insort_key k x as @ bs" if "\<forall>b \<in> set bs. k x \<le> k b" for as bs
    using that by (induction as) (cases bs, auto)
  have high: "insort_key k x (as @ bs) = as @ insort_key k x bs" if "\<forall>a \<in> set as. k a < k x" for as bs
    using that by (induction as) auto
  show ?case
  proof (cases "k x \<le> c")
    case True
    then show ?thesis using Cons by (simp add: low)
  next
    case False
    then show ?thesis using Cons by (simp add: high)
  qed
qed simp

abbreviation block_of :: "TokenProfileEvent \<Rightarrow> int" where
  "block_of e \<equiv> the (pe_blockNumber e)"

text \<open>The oldest records are cut off: \<open>c\<close> separates as many of them as the page drops from the rest.\<close>

lemma activity_drops_birth:
  assumes known: "\<forall>e \<in> set (V @ T @ D). pe_blockNumber e \<noteq> None"
    and birth: "length (filter (\<lambda>e. block_of e \<le> c) (V @ T @ D)) = (if t mod 10 = 0 then 2 else 4)"
  shows "activity engine t V T D =
    rev (sort_events engine (filter (\<lambda>e. c < block_of e) (V @ T @ D))) @
      (case win_event t (sort_key block_of T) of None \<Rightarrow> [] | Some w \<Rightarrow> [w])"
proof -
  let ?E = "V @ T @ D" and ?B = "if t mod 10 = 0 then 2 else 4 :: nat"
  let ?old = "sort_key block_of (filter (\<lambda>e. block_of e \<le> c) ?E)" and ?new = "sort_key block_of (filter (\<lambda>e. c < block_of e) ?E)"
  have "rev (sort_key block_of ?E) = rev ?new @ rev ?old" by (subst sort_key_split [of _ _ c]) simp
  moreover have "int (length (rev (sort_key block_of ?E))) - (if t mod 10 = 0 then 2 else 4) = int (length ?new)"
  proof -
    have "length (filter (\<lambda>e. block_of e \<le> c) ?E) + length (filter (\<lambda>e. \<not> block_of e \<le> c) ?E) = length ?E"
      by (rule sum_length_filter_compl)
    then show ?thesis using birth by (simp add: not_le split: if_splits)
  qed
  moreover have "sort_events engine ?E = sort_key block_of ?E" "sort_events engine T = sort_key block_of T"
    using known by (auto simp: sort_events_def)
  moreover have "\<forall>e \<in> set (filter (\<lambda>e. c < block_of e) ?E). pe_blockNumber e \<noteq> None" using known by auto
  then have "sort_events engine (filter (\<lambda>e. c < block_of e) ?E) = ?new" unfolding sort_events_def by (rule if_P)
  ultimately show ?thesis by (simp add: activity_def Let_def slice_to_def del: filter_append)
qed

section \<open>From the contract to the page\<close>

text \<open>What the two history queries answer on a store, in some order.\<close>

definition transfer_record :: "string \<Rightarrow> transfer_event_entity \<Rightarrow> raw_event" where
  "transfer_record i e =
     \<lparr>re_id = i, re_from = te_previousHolder e, re_to = te_newHolder e, re_blockNumber = te_blockNumber e\<rparr>"

definition delegation_record :: "string \<Rightarrow> delegation_event_entity \<Rightarrow> raw_event" where
  "delegation_record i e =
     \<lparr>re_id = i, re_from = de_previousDelegate e, re_to = de_newDelegate e, re_blockNumber = de_blockNumber e\<rparr>"

definition nTransferHistory :: "nat \<Rightarrow> store \<Rightarrow> raw_event list \<Rightarrow> bool" where
  "nTransferHistory t s rs \<longleftrightarrow> distinct (map re_id rs) \<and>
     set rs = {transfer_record i e | i e. st_transferEvents s i = Some e \<and> te_punk e = dec t}"

definition nDelegationHistory :: "nat \<Rightarrow> store \<Rightarrow> raw_event list \<Rightarrow> bool" where
  "nDelegationHistory t s rs \<longleftrightarrow> distinct (map re_id rs) \<and>
     set rs = {delegation_record i e | i e. st_delegationEvents s i = Some e \<and> de_punk e = dec t}"

text \<open>The mint emits two transfers, the sale another one.\<close>

definition mint_and_sell :: "event_env \<Rightarrow> event_env \<Rightarrow> string \<Rightarrow> string \<Rightarrow> string \<Rightarrow> nat \<Rightarrow> store \<Rightarrow> store" where
  "mint_and_sell ev0 ev1 creator house winner t s =
     handleTransfer ev1 house winner t (handleTransfer ev0 creator house t (handleTransfer ev0 ZERO_ADDRESS creator t s))"

definition no_records :: "nat \<Rightarrow> store \<Rightarrow> bool" where
  "no_records t s \<longleftrightarrow>
     (\<forall>i e. st_transferEvents s i = Some e \<longrightarrow> te_punk e \<noteq> dec t) \<and>
     (\<forall>i e. st_delegationEvents s i = Some e \<longrightarrow> de_punk e \<noteq> dec t)"

lemma distinct_pair: "distinct xs \<Longrightarrow> set xs = {a, b} \<Longrightarrow> a \<noteq> b \<Longrightarrow> xs = [a, b] \<or> xs = [b, a]"
proof -
  assume xs: "distinct xs" "set xs = {a, b}" "a \<noteq> b"
  then have "length xs = 2" using distinct_card [OF xs(1)] by simp
  then obtain x y where "xs = [x, y]" by (auto simp: numeral_2_eq_2 length_Suc_conv)
  with xs show ?thesis by (auto simp: doubleton_eq_iff)
qed

text \<open>The records of a punk up to the block of its sale.\<close>

lemma birth_pair:
  fixes mk :: "string \<Rightarrow> 'e \<Rightarrow> raw_event"
  assumes m2: "m2 = m0(i0 \<mapsto> a, i1 \<mapsto> b)" "i0 \<noteq> i1" and kept: "m i0 = m2 i0" "m i1 = m2 i1"
    and new: "\<And>i e. m i = Some e \<Longrightarrow> m2 i = Some e \<or> n < block e" and old: "\<And>i e. m0 i = Some e \<Longrightarrow> \<not> own e"
    and ab: "own a" "own b" "block a \<le> n" "block b \<le> n"
    and rs: "set rs = {mk i e | i e. m i = Some e \<and> own e}" "\<And>i e. re_blockNumber (mk i e) = block e"
  shows "{r \<in> set rs. re_blockNumber r \<le> n} = {mk i0 a, mk i1 b}"
proof (intro set_eqI iffI)
  fix r assume "r \<in> {r \<in> set rs. re_blockNumber r \<le> n}"
  then obtain i e where r: "r = mk i e" "m i = Some e" "own e" "block e \<le> n" using rs by auto
  from new [OF r(2)] r(4) have "m2 i = Some e" by auto
  then show "r \<in> {mk i0 a, mk i1 b}" using old [of i e] r(1,3) unfolding m2(1) by (auto split: if_splits)
next
  fix r assume "r \<in> {mk i0 a, mk i1 b}"
  then show "r \<in> {r \<in> set rs. re_blockNumber r \<le> n}" using kept ab m2 rs by auto
qed

lemma birth_transfers:
  assumes fresh: "no_records t s0" and h: "plain_hash (ev_hash ev0)" "plain_hash (ev_hash ev1)" "ev_hash ev0 \<noteq> ev_hash ev1"
    and b: "ev_number ev0 < ev_number ev1"
    and k: "kept (ev_number ev1) {ev_hash ev0, ev_hash ev1} (mint_and_sell ev0 ev1 creator house winner t s0) s"
    and rs: "nTransferHistory t s rs"
  shows "{r \<in> set rs. re_blockNumber r \<le> ev_number ev1} =
    {\<lparr>re_id = ev_hash ev0 @ ''_'' @ dec t, re_from = creator, re_to = house, re_blockNumber = ev_number ev0\<rparr>,
     \<lparr>re_id = ev_hash ev1 @ ''_'' @ dec t, re_from = house, re_to = winner, re_blockNumber = ev_number ev1\<rparr>}"
proof -
  let ?s2 = "mint_and_sell ev0 ev1 creator house winner t s0"
  let ?i0 = "ev_hash ev0 @ ''_'' @ dec t" and ?i1 = "ev_hash ev1 @ ''_'' @ dec t"
  let ?e = "\<lambda>ev a b. \<lparr>te_punk = dec t, te_previousHolder = a, te_newHolder = b, te_blockNumber = ev_number ev,
      te_blockTimestamp = ev_timestamp ev\<rparr>"
  have ne: "?i0 \<noteq> ?i1" using record_id_inject [OF h(1,2)] h(3) by blast
  have s2: "st_transferEvents ?s2 = (st_transferEvents s0)(?i0 \<mapsto> ?e ev0 creator house, ?i1 \<mapsto> ?e ev1 house winner)"
    by (simp add: mint_and_sell_def transfer_events(1))
  have "{r \<in> set rs. re_blockNumber r \<le> ev_number ev1} =
      {transfer_record ?i0 (?e ev0 creator house), transfer_record ?i1 (?e ev1 house winner)}"
    by (rule birth_pair [OF s2 ne, of "st_transferEvents s" _ te_blockNumber "\<lambda>e. te_punk e = dec t"])
      (use k h fresh b rs in \<open>auto simp: kept_def no_records_def nTransferHistory_def transfer_record_def\<close>)
  then show ?thesis by (simp add: transfer_record_def)
qed

lemma birth_delegations:
  assumes fresh: "no_records t s0" and h: "plain_hash (ev_hash ev0)" "plain_hash (ev_hash ev1)" "ev_hash ev0 \<noteq> ev_hash ev1"
    and b: "ev_number ev0 < ev_number ev1"
    and k: "kept (ev_number ev1) {ev_hash ev0, ev_hash ev1} (mint_and_sell ev0 ev1 creator house winner t s0) s"
    and rs: "nDelegationHistory t s rs"
  shows "\<exists>r0 r1. r0 \<noteq> r1 \<and> {r \<in> set rs. re_blockNumber r \<le> ev_number ev1} = {r0, r1}"
proof -
  let ?sm = "handleTransfer ev0 ZERO_ADDRESS creator t s0"
  let ?s2 = "mint_and_sell ev0 ev1 creator house winner t s0"
  let ?i0 = "ev_hash ev0 @ ''_'' @ dec t" and ?i1 = "ev_hash ev1 @ ''_'' @ dec t"
  have ne: "?i0 \<noteq> ?i1" using record_id_inject [OF h(1,2)] h(3) by blast
  obtain a c where "st_delegationEvents ?sm = (st_delegationEvents s0)(?i0 \<mapsto> delegation_event ev0 (dec t) a c)"
    using transfer_events(2) by blast
  moreover obtain x0 y0 where "st_delegationEvents (handleTransfer ev0 creator house t ?sm) =
      (st_delegationEvents ?sm)(?i0 \<mapsto> delegation_event ev0 (dec t) x0 y0)" using transfer_events(2) by blast
  moreover obtain x1 y1 where "st_delegationEvents ?s2 =
      (st_delegationEvents (handleTransfer ev0 creator house t ?sm))(?i1 \<mapsto> delegation_event ev1 (dec t) x1 y1)"
    unfolding mint_and_sell_def using transfer_events(2) by blast
  ultimately have s2: "st_delegationEvents ?s2 =
      (st_delegationEvents s0)(?i0 \<mapsto> delegation_event ev0 (dec t) x0 y0, ?i1 \<mapsto> delegation_event ev1 (dec t) x1 y1)"
    by simp
  have "{r \<in> set rs. re_blockNumber r \<le> ev_number ev1} =
      {delegation_record ?i0 (delegation_event ev0 (dec t) x0 y0), delegation_record ?i1 (delegation_event ev1 (dec t) x1 y1)}"
    by (rule birth_pair [OF s2 ne, of "st_delegationEvents s" _ de_blockNumber "\<lambda>e. de_punk e = dec t"])
      (use k h fresh b rs in \<open>auto simp: kept_def no_records_def nDelegationHistory_def delegation_record_def delegation_event_def\<close>)
  moreover have "delegation_record ?i0 x \<noteq> delegation_record ?i1 y" for x y using ne by (simp add: delegation_record_def)
  ultimately show ?thesis by blast
qed


definition profile_block :: "string \<Rightarrow> int \<Rightarrow> event_env" where
  "profile_block h n = (demo_env h)\<lparr>ev_number := n\<rparr>"


end
