(* ===== verification/Chain_Votes.thy ===== *)
theory Chain_Votes
  imports Graph_Index
begin

text \<open>
  The votes of the token contract: \<open>packages/punks-contracts/contracts/base/ERC721Checkpointable.sol\<close>
  with the minting, burning and transferring of \<open>base/ERC721.sol\<close> and \<open>NToken.sol\<close> that call its hook.
  An account's votes are a list of checkpoints; \<open>getPriorVotes\<close> searches it by bisection. A call
  returns \<open>None\<close> when the contract reverts, and otherwise the new state with the logs it emits, as the
  events of \<open>Graph_Index\<close>, so that the subgraph can be run on them. Approvals, the enumeration of
  tokens, the search for a fresh seed and the recovery of a signer are left out: who may call what is decided
  before these functions, the signer is an argument.
\<close>

section \<open>Checkpoints\<close>

record Checkpoint =
  ck_fromBlock :: nat
  ck_votes :: nat

definition getCurrentVotes :: "Checkpoint list \<Rightarrow> nat" where
  "getCurrentVotes cks = (if cks \<noteq> [] then ck_votes (last cks) else 0)"

function search_votes :: "Checkpoint list \<Rightarrow> nat \<Rightarrow> nat \<Rightarrow> nat \<Rightarrow> nat" where
  "search_votes cks blockNumber lower upper =
     (if upper > lower then
        (let center = upper - (upper - lower) div 2;
             cp = cks ! center
         in if ck_fromBlock cp = blockNumber then ck_votes cp
            else if ck_fromBlock cp < blockNumber then search_votes cks blockNumber center upper
            else search_votes cks blockNumber lower (center - 1))
      else ck_votes (cks ! lower))"
  by pat_completeness auto
termination
proof (relation "measure (\<lambda>(cks, b, lower, upper). upper - lower)")
  fix cks :: "Checkpoint list" and b lower upper center :: nat
  assume less: "upper > lower" and center: "center = upper - (upper - lower) div 2"
  have "lower < center" "center \<le> upper" using less center by linarith+
  then show "((cks, b, center, upper), cks, b, lower, upper) \<in> measure (\<lambda>(cks, b, lower, upper). upper - lower)"
    and "((cks, b, lower, center - 1), cks, b, lower, upper) \<in> measure (\<lambda>(cks, b, lower, upper). upper - lower)"
    using less by auto
qed simp

declare search_votes.simps [simp del]

definition getPriorVotes :: "nat \<Rightarrow> Checkpoint list \<Rightarrow> nat \<Rightarrow> nat option" where
  "getPriorVotes block cks blockNumber =
     (if \<not> blockNumber < block then None
      else Some (if cks = [] then 0
                 else if ck_fromBlock (last cks) \<le> blockNumber then ck_votes (last cks)
                 else if ck_fromBlock (hd cks) > blockNumber then 0
                 else search_votes cks blockNumber 0 (length cks - 1)))"

text \<open>The new list of checkpoints; the widths of a block number, of the number of checkpoints and of
  votes are checked where the contract checks them.\<close>

definition writeCheckpoint :: "nat \<Rightarrow> Checkpoint list \<Rightarrow> nat \<Rightarrow> Checkpoint list option" where
  "writeCheckpoint block cks newVotes =
     (if \<not> block < 2 ^ 32 then None
      else if cks \<noteq> [] \<and> ck_fromBlock (last cks) = block then Some (butlast cks @ [(last cks)\<lparr>ck_votes := newVotes\<rparr>])
      else if \<not> Suc (length cks) < 2 ^ 32 then None
      else Some (cks @ [\<lparr>ck_fromBlock = block, ck_votes = newVotes\<rparr>]))"

section \<open>The state of the token\<close>

text \<open>A mapping of the contract is a total function; the zero address stands for a missing entry.
  \<open>nt_idShift\<close> is added to the number of a token in every log.\<close>

record ntoken =
  nt_owners :: "nat \<Rightarrow> string"
  nt_balances :: "string \<Rightarrow> nat"
  nt_delegates :: "string \<Rightarrow> string"
  nt_checkpoints :: "string \<Rightarrow> Checkpoint list"
  nt_nonces :: "string \<Rightarrow> nat"
  nt_currentPunkId :: nat
  nt_idShift :: nat

definition deployed_token :: "nat \<Rightarrow> ntoken" where
  "deployed_token shift =
     \<lparr>nt_owners = (\<lambda>_. ZERO_ADDRESS), nt_balances = (\<lambda>_. 0), nt_delegates = (\<lambda>_. ZERO_ADDRESS),
      nt_checkpoints = (\<lambda>_. []), nt_nonces = (\<lambda>_. 0), nt_currentPunkId = 0, nt_idShift = shift\<rparr>"

definition delegates :: "ntoken \<Rightarrow> string \<Rightarrow> string" where
  "delegates T a = (if nt_delegates T a = ZERO_ADDRESS then a else nt_delegates T a)"

abbreviation current_votes :: "ntoken \<Rightarrow> string \<Rightarrow> nat" where
  "current_votes T d \<equiv> getCurrentVotes (nt_checkpoints T d)"

type_synonym 'a tx = "('a \<times> graph_event list) option"

definition set_votes ::
  "nat \<Rightarrow> string \<Rightarrow> nat \<Rightarrow> (string \<Rightarrow> Checkpoint list) \<Rightarrow> (string \<Rightarrow> Checkpoint list) tx" where
  "set_votes block d newVotes C =
     map_option (\<lambda>cks. (C(d := cks), [DelegateVotesChanged d (int (getCurrentVotes (C d))) (int newVotes)]))
       (writeCheckpoint block (C d) newVotes)"

definition moveDelegates ::
  "nat \<Rightarrow> string \<Rightarrow> string \<Rightarrow> nat \<Rightarrow> (string \<Rightarrow> Checkpoint list) \<Rightarrow> (string \<Rightarrow> Checkpoint list) tx" where
  "moveDelegates block srcRep dstRep amount C =
     (if \<not> (srcRep \<noteq> dstRep \<and> amount > 0) then Some (C, [])
      else Option.bind
        (if srcRep = ZERO_ADDRESS then Some (C, [])
         else if \<not> amount \<le> getCurrentVotes (C srcRep) then None
         else set_votes block srcRep (getCurrentVotes (C srcRep) - amount) C)
        (\<lambda>(C1, es1).
      map_option (\<lambda>(C2, es2). (C2, es1 @ es2))
        (if dstRep = ZERO_ADDRESS then Some (C1, [])
         else if \<not> getCurrentVotes (C1 dstRep) + amount < 2 ^ 96 then None
         else set_votes block dstRep (getCurrentVotes (C1 dstRep) + amount) C1)))"

definition beforeTokenTransfer :: "nat \<Rightarrow> string \<Rightarrow> string \<Rightarrow> ntoken \<Rightarrow> (string \<Rightarrow> Checkpoint list) tx" where
  "beforeTokenTransfer block a b T =
     moveDelegates block (delegates T a) (delegates T b) 1 (nt_checkpoints T)"

section \<open>The calls\<close>

text \<open>\<open>ev i\<close> describes the place of log \<open>i\<close> of the transaction.\<close>

abbreviation block_of :: "event_env \<Rightarrow> nat" where
  "block_of ev \<equiv> nat (ev_number ev)"

definition mint_token :: "(nat \<Rightarrow> event_env) \<Rightarrow> string \<Rightarrow> string \<Rightarrow> nat \<Rightarrow> ntoken \<Rightarrow> ntoken tx" where
  "mint_token ev creator b t T =
     (if b = ZERO_ADDRESS \<or> nt_owners T t \<noteq> ZERO_ADDRESS then None
      else map_option (\<lambda>(C, es).
        (T\<lparr>nt_checkpoints := C, nt_balances := (nt_balances T)(b := nt_balances T b + 1),
           nt_owners := (nt_owners T)(t := b)\<rparr>,
         es @ [Transfer (ev 0) ZERO_ADDRESS creator (t + nt_idShift T), Transfer (ev 1) creator b (t + nt_idShift T)]))
        (beforeTokenTransfer (block_of (ev 0)) ZERO_ADDRESS b T))"

text \<open>\<open>seed\<close> gives the type, the skin and the accessories drawn for a token.\<close>

type_synonym seed_of = "nat \<Rightarrow> nat \<times> nat \<times> (nat \<times> nat) list"

definition mintTo :: "(nat \<Rightarrow> event_env) \<Rightarrow> string \<Rightarrow> seed_of \<Rightarrow> string \<Rightarrow> ntoken \<Rightarrow> ntoken tx" where
  "mintTo ev creator seed b T =
     (let t = nt_currentPunkId T;
          T1 = T\<lparr>nt_currentPunkId := t + 1\<rparr>;
          (punkType, skinTone, accessories) = seed (t + nt_idShift T)
      in map_option (\<lambda>(T2, es). (T2, es @ [PunkCreated (t + nt_idShift T) punkType skinTone accessories]))
           (mint_token ev creator b t T1))"

definition mint :: "(nat \<Rightarrow> event_env) \<Rightarrow> string \<Rightarrow> seed_of \<Rightarrow> string \<Rightarrow> string \<Rightarrow> ntoken \<Rightarrow> ntoken tx" where
  "mint ev creator seed punkers minter T =
     Option.bind
       (if nt_currentPunkId T \<le> 1820 \<and> nt_currentPunkId T mod 10 = 0
        then mintTo ev creator seed punkers T else Some (T, []))
       (\<lambda>(T1, es1). map_option (\<lambda>(T2, es2). (T2, es1 @ es2)) (mintTo (\<lambda>i. ev (i + 2)) creator seed minter T1))"

definition burn_token :: "(nat \<Rightarrow> event_env) \<Rightarrow> nat \<Rightarrow> ntoken \<Rightarrow> ntoken tx" where
  "burn_token ev t T =
     (let a = nt_owners T t
      in if a = ZERO_ADDRESS then None
         else Option.bind (beforeTokenTransfer (block_of (ev 0)) a ZERO_ADDRESS T) (\<lambda>(C, es).
           if nt_balances T a = 0 then None
           else Some (T\<lparr>nt_checkpoints := C, nt_balances := (nt_balances T)(a := nt_balances T a - 1),
                        nt_owners := (nt_owners T)(t := ZERO_ADDRESS)\<rparr>,
                      es @ [Transfer (ev 0) a ZERO_ADDRESS (t + nt_idShift T)])))"

definition transfer_token :: "(nat \<Rightarrow> event_env) \<Rightarrow> string \<Rightarrow> string \<Rightarrow> nat \<Rightarrow> ntoken \<Rightarrow> ntoken tx" where
  "transfer_token ev a b t T =
     (if nt_owners T t \<noteq> a \<or> a = ZERO_ADDRESS \<or> b = ZERO_ADDRESS then None
      else Option.bind (beforeTokenTransfer (block_of (ev 0)) a b T) (\<lambda>(C, es).
        if nt_balances T a = 0 then None
        else let B = (nt_balances T)(a := nt_balances T a - 1)
             in Some (T\<lparr>nt_checkpoints := C, nt_balances := B(b := B b + 1), nt_owners := (nt_owners T)(t := b)\<rparr>,
                      es @ [Transfer (ev 0) a b (t + nt_idShift T)])))"

definition delegate_from :: "(nat \<Rightarrow> event_env) \<Rightarrow> string \<Rightarrow> string \<Rightarrow> ntoken \<Rightarrow> ntoken tx" where
  "delegate_from ev delegator delegatee T =
     (let currentDelegate = delegates T delegator;
          amount = nt_balances T delegator
      in if \<not> amount < 2 ^ 96 \<or> delegator = ZERO_ADDRESS then None
         else map_option (\<lambda>(C, es).
           (T\<lparr>nt_delegates := (nt_delegates T)(delegator := delegatee), nt_checkpoints := C\<rparr>,
            DelegateChanged (ev 0) delegator currentDelegate delegatee # es))
           (moveDelegates (block_of (ev 0)) currentDelegate delegatee amount (nt_checkpoints T)))"

definition delegate_call :: "(nat \<Rightarrow> event_env) \<Rightarrow> string \<Rightarrow> string \<Rightarrow> ntoken \<Rightarrow> ntoken tx" where
  "delegate_call ev sender delegatee T =
     delegate_from ev sender (if delegatee = ZERO_ADDRESS then sender else delegatee) T"

text \<open>\<open>signatory\<close> is what \<open>ecrecover\<close> returns.\<close>

definition delegateBySig ::
  "(nat \<Rightarrow> event_env) \<Rightarrow> string \<Rightarrow> string \<Rightarrow> nat \<Rightarrow> int \<Rightarrow> ntoken \<Rightarrow> ntoken tx" where
  "delegateBySig ev signatory delegatee nonce expiry T =
     (if signatory = ZERO_ADDRESS \<or> nonce \<noteq> nt_nonces T signatory \<or> ev_timestamp (ev 0) > expiry then None
      else delegate_from ev signatory delegatee
             (T\<lparr>nt_nonces := (nt_nonces T)(signatory := nt_nonces T signatory + 1)\<rparr>))"

datatype token_call =
    Mint string seed_of string string
  | Burn nat
  | TransferToken string string nat
  | Delegate string string
  | DelegateBySig string string nat int

fun token_step :: "(nat \<Rightarrow> event_env) \<Rightarrow> token_call \<Rightarrow> ntoken \<Rightarrow> ntoken tx" where
  "token_step ev (Mint creator seed punkers minter) T = mint ev creator seed punkers minter T"
| "token_step ev (Burn t) T = burn_token ev t T"
| "token_step ev (TransferToken a b t) T = transfer_token ev a b t T"
| "token_step ev (Delegate a d) T = delegate_call ev a d T"
| "token_step ev (DelegateBySig a d nonce expiry) T = delegateBySig ev a d nonce expiry T"

section \<open>Prior votes\<close>

definition checkpoints_ok :: "nat \<Rightarrow> Checkpoint list \<Rightarrow> bool" where
  "checkpoints_ok block cks \<longleftrightarrow>
     sorted_wrt (<) (map ck_fromBlock cks) \<and> (\<forall>c \<in> set cks. ck_fromBlock c \<le> block)"

text \<open>The votes at the end of a block, read off the list.\<close>

definition votes_at :: "Checkpoint list \<Rightarrow> nat \<Rightarrow> nat" where
  "votes_at cks b = getCurrentVotes (filter (\<lambda>c. ck_fromBlock c \<le> b) cks)"

lemma blocks_less:
  "sorted_wrt (<) (map ck_fromBlock cks) \<Longrightarrow> i < j \<Longrightarrow> j < length cks \<Longrightarrow>
    ck_fromBlock (cks ! i) < ck_fromBlock (cks ! j)"
  by (auto simp: sorted_wrt_iff_nth_less)

lemma blocks_mono:
  "sorted_wrt (<) (map ck_fromBlock cks) \<Longrightarrow> i \<le> j \<Longrightarrow> j < length cks \<Longrightarrow>
    ck_fromBlock (cks ! i) \<le> ck_fromBlock (cks ! j)"
  using blocks_less [of cks i j] by (cases "i = j") auto

lemma votes_at_nth:
  assumes "sorted_wrt (<) (map ck_fromBlock cks)" and "k < length cks" and "ck_fromBlock (cks ! k) \<le> b"
    and "Suc k < length cks \<Longrightarrow> b < ck_fromBlock (cks ! Suc k)"
  shows "votes_at cks b = ck_votes (cks ! k)"
proof -
  have low: "ck_fromBlock c \<le> b" if c: "c \<in> set (take (Suc k) cks)" for c
  proof -
    obtain i where "i \<le> k" "c = cks ! i"
      using c assms(2) by (auto simp: in_set_conv_nth less_Suc_eq_le)
    then show ?thesis using blocks_mono [OF assms(1), of i k] assms(2,3) by simp
  qed
  have high: "b < ck_fromBlock c" if c: "c \<in> set (drop (Suc k) cks)" for c
  proof -
    obtain i where "i < length (drop (Suc k) cks)" "drop (Suc k) cks ! i = c" using c by (metis in_set_conv_nth)
    then have i: "Suc k + i < length cks" "c = cks ! (Suc k + i)" by auto
    then have "ck_fromBlock (cks ! Suc k) \<le> ck_fromBlock c"
      using blocks_mono [OF assms(1), of "Suc k" "Suc k + i"] by simp
    then show ?thesis using assms(4) i(1) by simp
  qed
  have "filter (\<lambda>c. ck_fromBlock c \<le> b) (take (Suc k) cks) = take (Suc k) cks"
    "filter (\<lambda>c. ck_fromBlock c \<le> b) (drop (Suc k) cks) = []"
    using low high by (fastforce simp: filter_id_conv filter_empty_conv)+
  then have "filter (\<lambda>c. ck_fromBlock c \<le> b) cks = take (Suc k) cks"
    by (metis append_Nil2 append_take_drop_id filter_append)
  then show ?thesis using assms(2) by (auto simp: votes_at_def getCurrentVotes_def take_Suc_conv_app_nth)
qed

lemma search_votes_correct:
  assumes "sorted_wrt (<) (map ck_fromBlock cks)" and "lower \<le> upper" and "upper < length cks"
    and "ck_fromBlock (cks ! lower) \<le> b" and "Suc upper < length cks \<Longrightarrow> b < ck_fromBlock (cks ! Suc upper)"
  shows "search_votes cks b lower upper = votes_at cks b"
  using assms
proof (induction cks b lower upper rule: search_votes.induct)
  case (1 cks b lower upper)
  define center where "center = upper - (upper - lower) div 2"
  note sorted = 1(3) and IH = 1(1,2) [OF _ center_def refl]
  show ?case
  proof (cases "lower < upper")
    case True
    then have c: "lower < center" "center \<le> upper" by (auto simp: center_def)
    then have in_range: "center < length cks" using 1(5) by simp
    consider "ck_fromBlock (cks ! center) = b" | "ck_fromBlock (cks ! center) < b" | "b < ck_fromBlock (cks ! center)"
      by linarith
    then show ?thesis
    proof cases
      case 1
      then have "votes_at cks b = ck_votes (cks ! center)"
        using blocks_less [OF sorted, of center "Suc center"] in_range by (intro votes_at_nth [OF sorted]) auto
      then show ?thesis using 1 True by (subst search_votes.simps) (simp add: center_def Let_def)
    next
      case 2
      then show ?thesis
        using IH(1) [OF True] c 1(5,7) sorted True
        by (subst search_votes.simps) (simp add: center_def [symmetric] Let_def)
    next
      case 3
      then show ?thesis
        using IH(2) [OF True] c 1(5,6) sorted True in_range
        by (subst search_votes.simps) (simp add: center_def [symmetric] Let_def)
    qed
  next
    case False
    then have "lower = upper" using 1(4) by simp
    then show ?thesis
      using votes_at_nth [OF sorted, of lower b] 1(5,6,7) by (subst search_votes.simps) simp
  qed
qed

lemma getPriorVotes_at:
  assumes "sorted_wrt (<) (map ck_fromBlock cks)" and "b < block"
  shows "getPriorVotes block cks b = Some (votes_at cks b)"
proof -
  consider "cks = []" | "cks \<noteq> []" "ck_fromBlock (last cks) \<le> b" | "cks \<noteq> []" "b < ck_fromBlock (hd cks)"
    | "cks \<noteq> []" "b < ck_fromBlock (last cks)" "ck_fromBlock (hd cks) \<le> b"
    by (meson not_le)
  then show ?thesis
  proof cases
    case 2
    then show ?thesis
      using votes_at_nth [OF assms(1), of "length cks - 1" b] assms(2) by (simp add: getPriorVotes_def last_conv_nth)
  next
    case 3
    have "b < ck_fromBlock c" if "c \<in> set cks" for c
      using 3 that blocks_mono [OF assms(1), of 0] by (fastforce simp: in_set_conv_nth hd_conv_nth)
    then have "filter (\<lambda>c. ck_fromBlock c \<le> b) cks = []" by (fastforce simp: filter_empty_conv)
    moreover have "ck_fromBlock (hd cks) \<le> ck_fromBlock (last cks)"
      using 3 blocks_mono [OF assms(1), of 0 "length cks - 1"] by (simp add: hd_conv_nth last_conv_nth)
    ultimately show ?thesis using 3 assms(2) by (simp add: getPriorVotes_def votes_at_def getCurrentVotes_def)
  next
    case 4
    then show ?thesis
      using search_votes_correct [OF assms(1), of 0 "length cks - 1" b] assms(2)
      by (simp add: getPriorVotes_def hd_conv_nth last_conv_nth)
  qed (use assms(2) in \<open>simp add: getPriorVotes_def votes_at_def getCurrentVotes_def\<close>)
qed

lemma writeCheckpoint_effect:
  assumes "checkpoints_ok b0 cks" and "b0 \<le> block" and "writeCheckpoint block cks v = Some cks'"
  shows "checkpoints_ok block cks'" and "getCurrentVotes cks' = v"
    and "b < block \<Longrightarrow> votes_at cks' b = votes_at cks b"
proof -
  have *: "checkpoints_ok block cks' \<and> getCurrentVotes cks' = v \<and> (b < block \<longrightarrow> votes_at cks' b = votes_at cks b)"
  proof (cases "cks \<noteq> [] \<and> ck_fromBlock (last cks) = block")
    case True
    then obtain cs c where cks: "cks = cs @ [c]" "ck_fromBlock c = block" by (cases cks rule: rev_cases) auto
    then have "cks' = cs @ [c\<lparr>ck_votes := v\<rparr>]" using assms(3) by (simp add: writeCheckpoint_def split: if_splits)
    then show ?thesis
      using assms(1,2) cks by (auto simp: checkpoints_ok_def getCurrentVotes_def votes_at_def sorted_wrt_append)
  next
    case False
    then have cks': "cks' = cks @ [\<lparr>ck_fromBlock = block, ck_votes = v\<rparr>]"
      using assms(3) by (auto simp: writeCheckpoint_def split: if_splits)
    have "ck_fromBlock c < block" if c: "c \<in> set cks" for c
    proof -
      obtain cs l where cks: "cks = cs @ [l]" using c by (cases cks rule: rev_cases) auto
      have "ck_fromBlock l < block" using False assms(1,2) cks by (auto simp: checkpoints_ok_def)
      moreover have "ck_fromBlock c \<le> ck_fromBlock l"
        using assms(1) c cks by (auto simp: checkpoints_ok_def sorted_wrt_append)
      ultimately show ?thesis by simp
    qed
    then show ?thesis
      using assms(1) cks' by (auto simp: checkpoints_ok_def getCurrentVotes_def votes_at_def sorted_wrt_append less_imp_le)
  qed
  then show "checkpoints_ok block cks'" "getCurrentVotes cks' = v" "b < block \<Longrightarrow> votes_at cks' b = votes_at cks b" by auto
qed

section \<open>Moving votes\<close>

text \<open>Between two blocks: the lists stay in order and what they say of earlier blocks stays.\<close>

definition extends_votes :: "nat \<Rightarrow> (string \<Rightarrow> Checkpoint list) \<Rightarrow> (string \<Rightarrow> Checkpoint list) \<Rightarrow> bool" where
  "extends_votes block C C' \<longleftrightarrow>
     (\<forall>a. checkpoints_ok block (C' a)) \<and> (\<forall>a b. b < block \<longrightarrow> votes_at (C' a) b = votes_at (C a) b)"

lemma checkpoints_ok_mono: "checkpoints_ok b cks \<Longrightarrow> b \<le> b' \<Longrightarrow> checkpoints_ok b' cks"
  by (auto simp: checkpoints_ok_def)

lemma extends_votes_refl: "(\<And>a. checkpoints_ok b0 (C a)) \<Longrightarrow> b0 \<le> block \<Longrightarrow> extends_votes block C C"
  by (auto simp: extends_votes_def intro: checkpoints_ok_mono)

lemma extends_votes_trans: "extends_votes block C C1 \<Longrightarrow> extends_votes block C1 C2 \<Longrightarrow> extends_votes block C C2"
  by (simp add: extends_votes_def)

lemma set_votes_effect:
  assumes "\<And>a. checkpoints_ok b0 (C a)" and "b0 \<le> block" and "set_votes block d v C = Some (C', es)"
  shows "extends_votes block C C'" and "getCurrentVotes (C' a) = (if a = d then v else getCurrentVotes (C a))"
    and "es = [DelegateVotesChanged d (int (getCurrentVotes (C d))) (int v)]"
proof -
  obtain cks where "writeCheckpoint block (C d) v = Some cks" "C' = C(d := cks)"
    and es: "es = [DelegateVotesChanged d (int (getCurrentVotes (C d))) (int v)]"
    using assms(3) by (auto simp: set_votes_def)
  then show "extends_votes block C C'" "getCurrentVotes (C' a) = (if a = d then v else getCurrentVotes (C a))"
    using writeCheckpoint_effect [OF assms(1) [of d] assms(2)] checkpoints_ok_mono [OF assms(1) assms(2)]
    by (auto simp: extends_votes_def)
  show "es = [DelegateVotesChanged d (int (getCurrentVotes (C d))) (int v)]" by (rule es)
qed

text \<open>A run of logs from one ledger and its votes to another: votes start from what they were and
  change, a token is moved by its owner to another address.\<close>

fun chain_logs :: "ledger \<Rightarrow> (string \<Rightarrow> nat) \<Rightarrow> graph_event list \<Rightarrow> ledger \<Rightarrow> (string \<Rightarrow> nat) \<Rightarrow> bool" where
  "chain_logs L f [] L' g \<longleftrightarrow> L' = L \<and> g = f"
| "chain_logs L f (DelegateVotesChanged d old new # es) L' g \<longleftrightarrow>
     old = int (f d) \<and> 0 \<le> new \<and> new \<noteq> old \<and> chain_logs L (f(d := nat new)) es L' g"
| "chain_logs L f (Transfer ev a b t # es) L' g \<longleftrightarrow> valid_transfer L a b t \<and> chain_logs (L(t \<mapsto> b)) f es L' g"
| "chain_logs L f (DelegateChanged ev a c d # es) L' g \<longleftrightarrow> chain_logs L f es L' g"
| "chain_logs L f (PunkCreated t pt sk accs # es) L' g \<longleftrightarrow> chain_logs L f es L' g"
| "chain_logs L f (_ # es) L' g \<longleftrightarrow> False"

lemma chain_logs_append: "chain_logs L f es L' g \<Longrightarrow> chain_logs L' g es' L'' h \<Longrightarrow> chain_logs L f (es @ es') L'' h"
  by (induction L f es L' g rule: chain_logs.induct) auto

lemma set_votes_logs:
  assumes "set_votes block d v C = Some (C', es)" and "v \<noteq> getCurrentVotes (C d)" and "\<And>a. checkpoints_ok b0 (C a)"
    and "b0 \<le> block"
  shows "chain_logs L (\<lambda>a. getCurrentVotes (C a)) es L (\<lambda>a. getCurrentVotes (C' a))"
  using assms(2) set_votes_effect [OF assms(3,4,1)] by (auto simp: fun_eq_iff)

lemma moveDelegates_effect:
  assumes ok: "\<And>a. checkpoints_ok b0 (C a)" and block: "b0 \<le> block"
    and "moveDelegates block s d n C = Some (C', es)"
  shows "extends_votes block C C'"
    and "chain_logs L (\<lambda>a. getCurrentVotes (C a)) es L (\<lambda>a. getCurrentVotes (C' a))"
    and "a \<noteq> ZERO_ADDRESS \<Longrightarrow> getCurrentVotes (C' a) + (if a = s then n else 0) = getCurrentVotes (C a) + (if a = d then n else 0)"
proof -
  have "extends_votes block C C' \<and> chain_logs L (\<lambda>a. getCurrentVotes (C a)) es L (\<lambda>a. getCurrentVotes (C' a)) \<and>
    (a \<noteq> ZERO_ADDRESS \<longrightarrow> getCurrentVotes (C' a) + (if a = s then n else 0) = getCurrentVotes (C a) + (if a = d then n else 0))"
  proof (cases "s \<noteq> d \<and> 0 < n")
    case False
    then show ?thesis using assms(3) extends_votes_refl [OF ok block] by (auto simp: moveDelegates_def)
  next
    case True
    obtain C1 es1 es2 where src: "(if s = ZERO_ADDRESS then Some (C, [])
         else if \<not> n \<le> getCurrentVotes (C s) then None
         else set_votes block s (getCurrentVotes (C s) - n) C) = Some (C1, es1)"
      and dst: "(if d = ZERO_ADDRESS then Some (C1, [])
         else if \<not> getCurrentVotes (C1 d) + n < 2 ^ 96 then None
         else set_votes block d (getCurrentVotes (C1 d) + n) C1) = Some (C', es2)" and es: "es = es1 @ es2"
      using assms(3) True by (auto simp: moveDelegates_def bind_eq_Some_conv)
    have 1: "extends_votes block C C1 \<and> chain_logs L (\<lambda>a. getCurrentVotes (C a)) es1 L (\<lambda>a. getCurrentVotes (C1 a)) \<and>
      (\<forall>a. a \<noteq> ZERO_ADDRESS \<longrightarrow> getCurrentVotes (C1 a) + (if a = s then n else 0) = getCurrentVotes (C a))"
    proof (cases "s = ZERO_ADDRESS")
      case False
      then have v: "set_votes block s (getCurrentVotes (C s) - n) C = Some (C1, es1)" "n \<le> getCurrentVotes (C s)"
        using src by (auto split: if_splits)
      then have "getCurrentVotes (C s) - n \<noteq> getCurrentVotes (C s)" using v(2) True by linarith
      from set_votes_effect [OF ok block v(1)] set_votes_logs [OF v(1) this ok block] v(2) show ?thesis by auto
    qed (use src extends_votes_refl [OF ok block] in auto)
    then have ok1: "\<And>a. checkpoints_ok block (C1 a)" by (simp add: extends_votes_def)
    have 2: "extends_votes block C1 C' \<and> chain_logs L (\<lambda>a. getCurrentVotes (C1 a)) es2 L (\<lambda>a. getCurrentVotes (C' a)) \<and>
      (\<forall>a. a \<noteq> ZERO_ADDRESS \<longrightarrow> getCurrentVotes (C' a) = getCurrentVotes (C1 a) + (if a = d then n else 0))"
    proof (cases "d = ZERO_ADDRESS")
      case False
      then have v: "set_votes block d (getCurrentVotes (C1 d) + n) C1 = Some (C', es2)"
        using dst by (auto split: if_splits)
      have "getCurrentVotes (C1 d) + n \<noteq> getCurrentVotes (C1 d)" using True by simp
      from set_votes_effect [OF ok1 le_refl v] set_votes_logs [OF v this ok1 le_refl] show ?thesis by auto
    qed (use dst extends_votes_refl [OF ok1 le_refl] in auto)
    show ?thesis using 1 2 es by (auto intro: extends_votes_trans chain_logs_append)
  qed
  then show "extends_votes block C C'" "chain_logs L (\<lambda>a. getCurrentVotes (C a)) es L (\<lambda>a. getCurrentVotes (C' a))"
    "a \<noteq> ZERO_ADDRESS \<Longrightarrow> getCurrentVotes (C' a) + (if a = s then n else 0) = getCurrentVotes (C a) + (if a = d then n else 0)"
    by auto
qed

section \<open>Votes are tokens\<close>

text \<open>The tokens whose owner delegates to \<open>d\<close>.\<close>

definition represented :: "ntoken \<Rightarrow> string \<Rightarrow> nat set" where
  "represented T d = {t. nt_owners T t \<noteq> ZERO_ADDRESS \<and> delegates T (nt_owners T t) = d}"

definition owned :: "ntoken \<Rightarrow> string \<Rightarrow> nat set" where
  "owned T a = {t. nt_owners T t = a}"

definition token_ok :: "nat \<Rightarrow> ntoken \<Rightarrow> bool" where
  "token_ok block T \<longleftrightarrow>
     (\<forall>t \<ge> nt_currentPunkId T. nt_owners T t = ZERO_ADDRESS) \<and>
     nt_delegates T ZERO_ADDRESS = ZERO_ADDRESS \<and>
     (\<forall>a. checkpoints_ok block (nt_checkpoints T a)) \<and>
     (\<forall>a. a \<noteq> ZERO_ADDRESS \<longrightarrow> nt_balances T a = card (owned T a)) \<and>
     (\<forall>d. d \<noteq> ZERO_ADDRESS \<longrightarrow> current_votes T d = card (represented T d))"

lemma delegates_zero: "nt_delegates T ZERO_ADDRESS = ZERO_ADDRESS \<Longrightarrow> delegates T a = ZERO_ADDRESS \<longleftrightarrow> a = ZERO_ADDRESS"
  by (auto simp: delegates_def)

lemma finite_owned:
  fixes f :: "nat \<Rightarrow> string"
  assumes "\<forall>t \<ge> n. f t = ZERO_ADDRESS"
  shows "finite {t. f t \<noteq> ZERO_ADDRESS \<and> P t}"
proof (rule finite_subset)
  show "{t. f t \<noteq> ZERO_ADDRESS \<and> P t} \<subseteq> {..<n}"
  proof
    fix t assume "t \<in> {t. f t \<noteq> ZERO_ADDRESS \<and> P t}"
    then have "\<not> n \<le> t" using assms by auto
    then show "t \<in> {..<n}" by simp
  qed
qed simp

lemma card_without:
  assumes "finite A"
  shows "card A = card (A - {t}) + (if t \<in> A then 1 else 0)"
proof (cases "t \<in> A")
  case True
  from card_Suc_Diff1 [OF assms True] show ?thesis unfolding if_P [OF True] by linarith
next
  case False
  then show ?thesis by simp
qed

lemma card_owner_update:
  fixes f :: "nat \<Rightarrow> string"
  assumes "finite {i. f i \<in> S}"
  shows "card {i. (f(t := b)) i \<in> S} + (if f t \<in> S then 1 else 0) = card {i. f i \<in> S} + (if b \<in> S then 1 else 0)"
proof -
  have same: "{i. (f(t := b)) i \<in> S} - {t} = {i. f i \<in> S} - {t}" by auto
  have "finite {i. (f(t := b)) i \<in> S}" by (rule finite_subset [OF _ finite.insertI [OF assms, of t]]) auto
  from card_without [OF this, of t, unfolded same mem_Collect_eq fun_upd_same]
    card_without [OF assms, of t, unfolded mem_Collect_eq]
  show ?thesis by linarith
qed

text \<open>A token changes hands and one vote follows it: the change that minting, burning and transferring
  make to the owners, the balances and the votes.\<close>

lemma hand_over:
  assumes ok: "token_ok b0 T" and block: "b0 \<le> block"
    and before: "beforeTokenTransfer block a b T = Some (C, es)" and owner: "nt_owners T t = a"
    and fresh: "\<forall>i \<ge> n. nt_owners T i = ZERO_ADDRESS" and t: "t < n"
    and balances: "\<And>c. c \<noteq> ZERO_ADDRESS \<Longrightarrow> B c + (if c = a then 1 else 0) = nt_balances T c + (if c = b then 1 else 0)"
    and T': "nt_owners T' = (nt_owners T)(t := b)" "nt_balances T' = B" "nt_checkpoints T' = C"
      "nt_delegates T' = nt_delegates T" "nt_currentPunkId T' = n"
  shows "token_ok block T'"
proof -
  have zero: "nt_delegates T ZERO_ADDRESS = ZERO_ADDRESS" using ok by (simp add: token_ok_def)
  note z = delegates_zero [OF zero]
  have same: "delegates T' x = delegates T x" for x by (simp add: delegates_def T')
  note mv = moveDelegates_effect [OF _ block before [unfolded beforeTokenTransfer_def]]
  have ck: "\<And>c. checkpoints_ok b0 (nt_checkpoints T c)" using ok by (simp add: token_ok_def)
  have "nt_balances T' c = card (owned T' c)" if "c \<noteq> ZERO_ADDRESS" for c
  proof -
    have set: "owned T' c = {i. ((nt_owners T)(t := b)) i \<in> {c}}" "owned T c = {i. nt_owners T i \<in> {c}}"
      by (auto simp: owned_def T')
    have "finite {i. nt_owners T i \<in> {c}}" using finite_owned [OF fresh, of "\<lambda>i. nt_owners T i = c"] that
      by (auto elim: rev_finite_subset)
    from card_owner_update [OF this, of t b] balances [OF that] that ok owner show ?thesis
      unfolding set [symmetric] by (simp add: T' token_ok_def split: if_splits)
  qed
  moreover have "current_votes T' d = card (represented T' d)" if "d \<noteq> ZERO_ADDRESS" for d
  proof -
    let ?S = "{x. x \<noteq> ZERO_ADDRESS \<and> delegates T x = d}"
    have set: "represented T' d = {i. ((nt_owners T)(t := b)) i \<in> ?S}" "represented T d = {i. nt_owners T i \<in> ?S}"
      by (auto simp: represented_def same T')
    have "finite {i. nt_owners T i \<in> ?S}" using finite_owned [OF fresh] by (auto elim: rev_finite_subset)
    from card_owner_update [OF this, of t b]
    have c: "card {i. ((nt_owners T)(t := b)) i \<in> ?S} + (if a \<in> ?S then 1 else 0)
        = card {i. nt_owners T i \<in> ?S} + (if b \<in> ?S then 1 else 0)" unfolding owner .
    have member: "x \<in> ?S \<longleftrightarrow> d = delegates T x" for x using that z [of x] by auto
    have "card (represented T' d) + (if d = delegates T a then 1 else 0)
        = card (represented T d) + (if d = delegates T b then 1 else 0)"
      using c unfolding set member [symmetric] .
    moreover have "current_votes T d = card (represented T d)" using ok that by (simp add: token_ok_def)
    ultimately show ?thesis using mv(3) [OF ck that] T'(3) by (simp split: if_splits)
  qed
  moreover have "checkpoints_ok block (nt_checkpoints T' c)" for c
    using mv(1) [OF ck] by (simp add: extends_votes_def T')
  ultimately show ?thesis using zero fresh t by (auto simp: token_ok_def T')
qed

lemma token_ok_mono: "token_ok b T \<Longrightarrow> b \<le> b' \<Longrightarrow> token_ok b' T"
  by (auto simp: token_ok_def intro: checkpoints_ok_mono)

lemma balance_positive:
  assumes "token_ok b T" and "nt_owners T t = a" and "a \<noteq> ZERO_ADDRESS"
  shows "0 < nt_balances T a"
proof -
  have "\<forall>i \<ge> nt_currentPunkId T. nt_owners T i = ZERO_ADDRESS" using assms(1) by (simp add: token_ok_def)
  from finite_owned [OF this, of "\<lambda>i. nt_owners T i = a"] have "finite (owned T a)"
    using assms(3) by (auto simp: owned_def elim: rev_finite_subset)
  then have "0 < card (owned T a)" using assms(2) by (auto simp: card_gt_0_iff owned_def)
  then show ?thesis using assms by (simp add: token_ok_def)
qed

lemma minted_before: "token_ok b T \<Longrightarrow> nt_owners T t \<noteq> ZERO_ADDRESS \<Longrightarrow> t < nt_currentPunkId T"
  by (meson leI token_ok_def)

lemma mintTo_ok:
  assumes ok: "token_ok b0 T" and "b0 \<le> block_of (ev 0)" and "mintTo ev creator seed b T = Some (T', es)"
  shows "token_ok (block_of (ev 0)) T'"
proof -
  let ?t = "nt_currentPunkId T"
  obtain C cs where C: "beforeTokenTransfer (block_of (ev 0)) ZERO_ADDRESS b (T\<lparr>nt_currentPunkId := ?t + 1\<rparr>) = Some (C, cs)"
    and T': "T' = T\<lparr>nt_currentPunkId := ?t + 1, nt_checkpoints := C,
      nt_balances := (nt_balances T)(b := nt_balances T b + 1), nt_owners := (nt_owners T)(?t := b)\<rparr>" and b: "b \<noteq> ZERO_ADDRESS"
    using assms(3) by (auto simp: mintTo_def mint_token_def Let_def split: prod.splits if_splits)
  have "beforeTokenTransfer (block_of (ev 0)) ZERO_ADDRESS b T = Some (C, cs)"
    using C by (simp add: beforeTokenTransfer_def delegates_def cong: if_cong)
  then show ?thesis
    by (rule hand_over [OF ok assms(2), where t = ?t and n = "Suc ?t" and B = "nt_balances T'"])
      (use ok b in \<open>simp_all add: T' token_ok_def\<close>)
qed

lemma burn_ok:
  assumes ok: "token_ok b0 T" and "b0 \<le> block_of (ev 0)" and "burn_token ev t T = Some (T', es)"
  shows "token_ok (block_of (ev 0)) T'"
proof -
  let ?a = "nt_owners T t"
  obtain C cs where C: "beforeTokenTransfer (block_of (ev 0)) ?a ZERO_ADDRESS T = Some (C, cs)" "?a \<noteq> ZERO_ADDRESS"
    and T': "T' = T\<lparr>nt_checkpoints := C, nt_balances := (nt_balances T)(?a := nt_balances T ?a - 1),
      nt_owners := (nt_owners T)(t := ZERO_ADDRESS)\<rparr>" and pos: "nt_balances T ?a \<noteq> 0"
    using assms(3) by (auto simp: burn_token_def Let_def bind_eq_Some_conv split: if_splits)
  have fresh: "\<forall>i \<ge> nt_currentPunkId T. nt_owners T i = ZERO_ADDRESS" using ok by (simp add: token_ok_def)
  show ?thesis
    by (rule hand_over [OF ok assms(2) C(1) refl fresh minted_before [OF ok C(2)], where B = "nt_balances T'"])
      (use pos C(2) in \<open>simp_all add: T'\<close>)
qed

lemma transfer_ok:
  assumes ok: "token_ok b0 T" and "b0 \<le> block_of (ev 0)" and "transfer_token ev a b t T = Some (T', es)"
  shows "token_ok (block_of (ev 0)) T'"
proof -
  let ?B = "(nt_balances T)(a := nt_balances T a - 1)"
  obtain C cs where C: "beforeTokenTransfer (block_of (ev 0)) a b T = Some (C, cs)" "nt_owners T t = a" "a \<noteq> ZERO_ADDRESS"
    and T': "T' = T\<lparr>nt_checkpoints := C, nt_balances := ?B(b := ?B b + 1), nt_owners := (nt_owners T)(t := b)\<rparr>"
    and pos: "nt_balances T a \<noteq> 0"
    using assms(3) by (auto simp: transfer_token_def Let_def bind_eq_Some_conv split: if_splits)
  have fresh: "\<forall>i \<ge> nt_currentPunkId T. nt_owners T i = ZERO_ADDRESS" using ok by (simp add: token_ok_def)
  have "t < nt_currentPunkId T" using minted_before [OF ok] C(2,3) by simp
  then show ?thesis
    by (rule hand_over [OF ok assms(2) C(1,2) fresh, where B = "nt_balances T'"]) (use pos in \<open>simp_all add: T'\<close>)
qed

text \<open>All the tokens of an account change their delegate at once.\<close>

lemma card_represented_delegate:
  assumes ok: "token_ok b T" and "a \<noteq> ZERO_ADDRESS" and "d \<noteq> ZERO_ADDRESS"
    and T': "nt_owners T' = nt_owners T" "nt_delegates T' = (nt_delegates T)(a := d)"
  shows "card (represented T' e) + (if e = delegates T a then nt_balances T a else 0)
    = card (represented T e) + (if e = d then nt_balances T a else 0)"
proof -
  let ?A = "{t. nt_owners T t \<noteq> ZERO_ADDRESS \<and> nt_owners T t \<noteq> a \<and> delegates T (nt_owners T t) = e}"
  have "\<forall>i \<ge> nt_currentPunkId T. nt_owners T i = ZERO_ADDRESS" using ok by (simp add: token_ok_def)
  note fin = finite_owned [OF this]
  have own: "finite (owned T a)" using fin [of "\<lambda>t. nt_owners T t = a"] assms(2)
    by (auto simp: owned_def elim: rev_finite_subset)
  have bal: "nt_balances T a = card (owned T a)" using ok assms(2) by (simp add: token_ok_def)
  have split: "card (?A \<union> (if P then owned T a else {})) = card ?A + (if P then nt_balances T a else 0)" for P
    using own fin bal by (subst card_Un_disjoint) (auto simp: owned_def)
  have "represented T e = ?A \<union> (if e = delegates T a then owned T a else {})"
    using assms(2) by (auto simp: represented_def owned_def)
  moreover have "represented T' e = ?A \<union> (if e = d then owned T a else {})"
    using assms(2,3) by (auto simp: represented_def owned_def T' delegates_def split: if_splits)
  ultimately show ?thesis by (simp add: split)
qed

lemma delegate_from_ok:
  assumes ok: "token_ok b0 T" and block: "b0 \<le> block_of (ev 0)" and d: "d \<noteq> ZERO_ADDRESS"
    and "delegate_from ev a d T = Some (T', es)"
  shows "token_ok (block_of (ev 0)) T'"
proof -
  obtain C cs where mv: "moveDelegates (block_of (ev 0)) (delegates T a) d (nt_balances T a) (nt_checkpoints T) = Some (C, cs)"
    and T': "T' = T\<lparr>nt_delegates := (nt_delegates T)(a := d), nt_checkpoints := C\<rparr>" and a: "a \<noteq> ZERO_ADDRESS"
    using assms(4) by (auto simp: delegate_from_def Let_def split: if_splits)
  have ck: "\<And>c. checkpoints_ok b0 (nt_checkpoints T c)" using ok by (simp add: token_ok_def)
  note eff = moveDelegates_effect [OF ck block mv]
  have "current_votes T' e = card (represented T' e)" if "e \<noteq> ZERO_ADDRESS" for e
    using card_represented_delegate [OF ok a d, of T' e] eff(3) [OF that] ok that T'
    by (simp add: token_ok_def split: if_splits)
  moreover have "owned T' c = owned T c" for c by (simp add: owned_def T')
  ultimately show ?thesis using ok eff(1) a T' by (simp add: token_ok_def extends_votes_def)
qed

section \<open>Runs of the token\<close>

inductive token_run :: "nat \<Rightarrow> ntoken \<Rightarrow> token_call list \<Rightarrow> graph_event list \<Rightarrow> bool" where
  deployed: "token_run b (deployed_token shift) [] []"
| call: "token_run b T cs es \<Longrightarrow> b \<le> b' \<Longrightarrow> \<forall>i. ev_number (ev i) = int b' \<Longrightarrow>
    token_step ev c T = Some (T', es') \<Longrightarrow> token_run b' T' (cs @ [c]) (es @ es')"

text \<open>A signature that names the zero address as the delegate is accepted; the theorems on votes
  exclude it. The theorem on the subgraph also excludes transfers to oneself and minting to the owner of
  the contract.\<close>

fun names_delegate :: "token_call \<Rightarrow> bool" where
  "names_delegate (DelegateBySig a d nonce expiry) \<longleftrightarrow> d \<noteq> ZERO_ADDRESS"
| "names_delegate _ \<longleftrightarrow> True"

fun regular_call :: "token_call \<Rightarrow> bool" where
  "regular_call (Mint creator seed punkers minter) \<longleftrightarrow> creator \<notin> {ZERO_ADDRESS, punkers, minter}"
| "regular_call (TransferToken a b t) \<longleftrightarrow> a \<noteq> b"
| "regular_call (DelegateBySig a d nonce expiry) \<longleftrightarrow> d \<noteq> ZERO_ADDRESS"
| "regular_call _ \<longleftrightarrow> True"

lemma regular_names: "regular_call c \<Longrightarrow> names_delegate c"
  by (cases c) auto

lemma mint_cases:
  assumes "mint ev creator seed punkers minter T = Some (T', es)"
  obtains (one) "mintTo (\<lambda>i. ev (i + 2)) creator seed minter T = Some (T', es)"
  | (two) T1 es1 es2 where "mintTo ev creator seed punkers T = Some (T1, es1)"
      "mintTo (\<lambda>i. ev (i + 2)) creator seed minter T1 = Some (T', es2)" "es = es1 @ es2"
  using assms by (auto simp: mint_def bind_eq_Some_conv split: if_splits)

lemma token_ok_nonces [simp]: "token_ok b (T\<lparr>nt_nonces := N\<rparr>) \<longleftrightarrow> token_ok b T"
  by (simp add: token_ok_def owned_def represented_def delegates_def cong: if_cong)

lemma token_step_ok:
  assumes ok: "token_ok b0 T" and "b0 \<le> block" and ev: "\<forall>i. ev_number (ev i) = int block" and "names_delegate c"
    and step: "token_step ev c T = Some (T', es)"
  shows "token_ok block T'"
proof -
  have block: "block_of (ev i) = block" for i using ev by simp
  have le: "b0 \<le> block_of (ev i)" for i using assms(2) block by simp
  show ?thesis
  proof (cases c)
    case (Mint creator seed punkers minter)
    with step have "mint ev creator seed punkers minter T = Some (T', es)" by simp
    then show ?thesis
    proof (cases rule: mint_cases)
      case one
      from mintTo_ok [OF ok _ one] le block show ?thesis by simp
    next
      case (two T1 es1 es2)
      from mintTo_ok [OF mintTo_ok [OF ok le two(1)] _ two(2)] block show ?thesis by simp
    qed
  next
    case (Burn t)
    with step burn_ok [OF ok le] block show ?thesis by simp
  next
    case (TransferToken a b t)
    with step transfer_ok [OF ok le] block show ?thesis by simp
  next
    case (Delegate a d)
    define d1 where "d1 = (if d = ZERO_ADDRESS then a else d)"
    have d1: "delegate_from ev a d1 T = Some (T', es)" using step Delegate by (simp add: delegate_call_def d1_def)
    then have "a \<noteq> ZERO_ADDRESS" by (simp add: delegate_from_def Let_def split: if_splits)
    then have "d1 \<noteq> ZERO_ADDRESS" by (simp add: d1_def)
    from delegate_from_ok [OF ok le this d1] block show ?thesis by simp
  next
    case (DelegateBySig a d nonce expiry)
    with step assms(4) have "d \<noteq> ZERO_ADDRESS"
      "delegate_from ev a d (T\<lparr>nt_nonces := (nt_nonces T)(a := nt_nonces T a + 1)\<rparr>) = Some (T', es)"
      by (auto simp: delegateBySig_def split: if_splits)
    with delegate_from_ok [of b0 "T\<lparr>nt_nonces := (nt_nonces T)(a := nt_nonces T a + 1)\<rparr>" ev d a T' es] ok le block
    show ?thesis by simp
  qed
qed

lemma deployed_ok: "token_ok b (deployed_token shift)"
  by (auto simp: token_ok_def deployed_token_def checkpoints_ok_def owned_def represented_def getCurrentVotes_def)

lemma token_run_ok:
  assumes "token_run b T cs es" and "\<forall>c \<in> set cs. names_delegate c"
  shows "token_ok b T"
  using assms
proof (induction rule: token_run.induct)
  case (call b T cs es b' ev c T' es')
  then show ?case using token_step_ok [of b T b' ev c T' es'] by simp
qed (rule deployed_ok)


section \<open>Votes of the past\<close>

lemma moved_extends:
  assumes "\<And>a. checkpoints_ok b0 (C a)" and "b0 \<le> block" and "moveDelegates block s d n C = Some (C', es)"
  shows "extends_votes block C C'"
  by (rule moveDelegates_effect(1) [OF assms])

lemma mintTo_moves:
  "mintTo ev creator seed b T = Some (T', es) \<Longrightarrow>
    \<exists>s d es1. moveDelegates (block_of (ev 0)) s d 1 (nt_checkpoints T) = Some (nt_checkpoints T', es1)"
  by (fastforce simp: mintTo_def mint_token_def beforeTokenTransfer_def Let_def split: prod.splits if_splits)

lemma delegate_from_moves:
  "delegate_from ev a d T = Some (T', es) \<Longrightarrow>
    \<exists>s n es1. moveDelegates (block_of (ev 0)) s d n (nt_checkpoints T) = Some (nt_checkpoints T', es1)"
  by (fastforce simp: delegate_from_def Let_def split: if_splits)

lemma burn_moves:
  "burn_token ev t T = Some (T', es) \<Longrightarrow>
    \<exists>s d es1. moveDelegates (block_of (ev 0)) s d 1 (nt_checkpoints T) = Some (nt_checkpoints T', es1)"
  by (fastforce simp: burn_token_def beforeTokenTransfer_def Let_def bind_eq_Some_conv split: if_splits)

lemma transfer_moves:
  "transfer_token ev a b t T = Some (T', es) \<Longrightarrow>
    \<exists>s d es1. moveDelegates (block_of (ev 0)) s d 1 (nt_checkpoints T) = Some (nt_checkpoints T', es1)"
  by (fastforce simp: transfer_token_def beforeTokenTransfer_def Let_def bind_eq_Some_conv split: if_splits)

lemma token_step_extends:
  assumes ok: "\<And>a. checkpoints_ok b0 (nt_checkpoints T a)" and "b0 \<le> block" and "\<forall>i. ev_number (ev i) = int block"
    and step: "token_step ev c T = Some (T', es)"
  shows "extends_votes block (nt_checkpoints T) (nt_checkpoints T')"
proof -
  have block: "block_of (ev i) = block" for i using assms(3) by simp
  note moved = moved_extends [OF ok assms(2)]
  show ?thesis
  proof (cases c)
    case (Mint creator seed punkers minter)
    with step have "mint ev creator seed punkers minter T = Some (T', es)" by simp
    then show ?thesis
    proof (cases rule: mint_cases)
      case one
      from mintTo_moves [OF one] moved block show ?thesis by fastforce
    next
      case (two T1 es1 es2)
      from mintTo_moves [OF two(1)] moved block have 1: "extends_votes block (nt_checkpoints T) (nt_checkpoints T1)" by fastforce
      then have "\<And>a. checkpoints_ok block (nt_checkpoints T1 a)" by (simp add: extends_votes_def)
      from mintTo_moves [OF two(2)] moved_extends [OF this le_refl] block
      have "extends_votes block (nt_checkpoints T1) (nt_checkpoints T')" by fastforce
      with 1 show ?thesis by (rule extends_votes_trans)
    qed
  next
    case (Burn t)
    with step burn_moves [of ev t T T' es] moved block show ?thesis by fastforce
  next
    case (TransferToken a b t)
    with step transfer_moves [of ev a b t T T' es] moved block show ?thesis by fastforce
  next
    case (Delegate a d)
    with step have "delegate_from ev a (if d = ZERO_ADDRESS then a else d) T = Some (T', es)" by (simp add: delegate_call_def)
    from delegate_from_moves [OF this] moved block show ?thesis by fastforce
  next
    case (DelegateBySig a d nonce expiry)
    with step have "delegate_from ev a d (T\<lparr>nt_nonces := (nt_nonces T)(a := nt_nonces T a + 1)\<rparr>) = Some (T', es)"
      by (simp add: delegateBySig_def split: if_splits)
    from delegate_from_moves [OF this] moved block show ?thesis by fastforce
  qed
qed

text \<open>What may follow once a block is over.\<close>

inductive later :: "nat \<Rightarrow> ntoken \<Rightarrow> nat \<Rightarrow> ntoken \<Rightarrow> bool" for b T where
  now: "later b T b T"
| next_call: "later b T b1 T1 \<Longrightarrow> b1 \<le> b2 \<Longrightarrow> b < b2 \<Longrightarrow> \<forall>i. ev_number (ev i) = int b2 \<Longrightarrow>
    token_step ev c T1 = Some (T2, es) \<Longrightarrow> later b T b2 T2"

lemma token_run_checkpoints: "token_run b T cs es \<Longrightarrow> checkpoints_ok b (nt_checkpoints T a)"
proof (induction arbitrary: a rule: token_run.induct)
  case (call b T cs es b' ev c T' es')
  from token_step_extends [OF call.IH call.hyps(2,3,4)] show ?case by (simp add: extends_votes_def)
qed (simp add: checkpoints_ok_def deployed_token_def)

lemma later_extends:
  assumes "later b T b' T'" and "\<And>a. checkpoints_ok b (nt_checkpoints T a)"
  shows "(\<forall>a. checkpoints_ok b' (nt_checkpoints T' a)) \<and> (\<forall>a. votes_at (nt_checkpoints T' a) b = votes_at (nt_checkpoints T a) b)"
  using assms(1)
proof induction
  case (next_call b1 T1 b2 ev c T2 es)
  from token_step_extends [of b1 T1 b2 ev c T2 es] next_call show ?case by (auto simp: extends_votes_def)
qed (simp add: assms(2))

lemma votes_at_end: "checkpoints_ok b cks \<Longrightarrow> votes_at cks b = getCurrentVotes cks"
  by (simp add: votes_at_def checkpoints_ok_def filter_id_conv)

text \<open>C4. The snapshot: the bisection of \<open>getPriorVotes\<close> ends and returns, for a block that is over, exactly the
  votes that the account had when the block ended, whatever mints, transfers, burns and delegations
  followed in later blocks.\<close>

theorem prior_votes_exact:
  assumes "token_run b T cs es" and "later b T b' T'" and "b < block"
  shows "getPriorVotes block (nt_checkpoints T' a) b = Some (getCurrentVotes (nt_checkpoints T a))"
proof -
  have ok: "\<And>a. checkpoints_ok b (nt_checkpoints T a)" by (rule token_run_checkpoints [OF assms(1)])
  from later_extends [OF assms(2) ok] have "checkpoints_ok b' (nt_checkpoints T' a)"
    and "votes_at (nt_checkpoints T' a) b = getCurrentVotes (nt_checkpoints T a)"
    using votes_at_end [OF ok] by auto
  with getPriorVotes_at [OF _ assms(3), of "nt_checkpoints T' a"] show ?thesis by (simp add: checkpoints_ok_def)
qed

section \<open>The subgraph behind the token\<close>

text \<open>The ledger in the numbers that the logs use: the tokens minted so far, the burnt ones with the
  zero address.\<close>

definition shown_ledger :: "ntoken \<Rightarrow> ledger" where
  "shown_ledger T i =
     (if nt_idShift T \<le> i \<and> i < nt_idShift T + nt_currentPunkId T then Some (nt_owners T (i - nt_idShift T)) else None)"

lemma shown_owner: "t < nt_currentPunkId T \<Longrightarrow> shown_ledger T (t + nt_idShift T) = Some (nt_owners T t)"
  by (simp add: shown_ledger_def)

lemma shown_update:
  assumes "nt_owners T' = (nt_owners T)(t := b)" and "nt_idShift T' = nt_idShift T" and "t < nt_currentPunkId T'"
    and "nt_currentPunkId T' = nt_currentPunkId T \<or> nt_currentPunkId T' = Suc t \<and> nt_currentPunkId T = t"
  shows "shown_ledger T' = (shown_ledger T)(t + nt_idShift T \<mapsto> b)"
  using assms by (auto simp: shown_ledger_def fun_eq_iff)

lemma before_logs:
  assumes "token_ok b0 T" and "b0 \<le> block" and "beforeTokenTransfer block a b T = Some (C, es)"
  shows "chain_logs L (current_votes T) es L (\<lambda>a. getCurrentVotes (C a))"
  using moveDelegates_effect(2) [OF _ assms(2) assms(3) [unfolded beforeTokenTransfer_def], of L] assms(1)
  by (simp add: token_ok_def)

lemma mintTo_logs:
  assumes ok: "token_ok b0 T" and "b0 \<le> block_of (ev 0)" and "mintTo ev creator seed b T = Some (T', es)"
    and "creator \<noteq> ZERO_ADDRESS" and "creator \<noteq> b"
  shows "chain_logs (shown_ledger T) (current_votes T) es (shown_ledger T') (current_votes T')"
proof -
  let ?t = "nt_currentPunkId T" and ?i = "nt_currentPunkId T + nt_idShift T"
  obtain C cs where "beforeTokenTransfer (block_of (ev 0)) ZERO_ADDRESS b (T\<lparr>nt_currentPunkId := ?t + 1\<rparr>) = Some (C, cs)"
    and T': "T' = T\<lparr>nt_currentPunkId := ?t + 1, nt_checkpoints := C,
      nt_balances := (nt_balances T)(b := nt_balances T b + 1), nt_owners := (nt_owners T)(?t := b)\<rparr>"
    and es: "\<exists>pt sk accs. es = (cs @ [Transfer (ev 0) ZERO_ADDRESS creator ?i, Transfer (ev 1) creator b ?i]) @ [PunkCreated ?i pt sk accs]"
    using assms(3) by (auto simp: mintTo_def mint_token_def Let_def split: prod.splits if_splits)
  then have "beforeTokenTransfer (block_of (ev 0)) ZERO_ADDRESS b T = Some (C, cs)"
    by (simp add: beforeTokenTransfer_def delegates_def cong: if_cong)
  note votes = before_logs [OF ok assms(2) this, of "shown_ledger T"]
  have "shown_ledger T ?i = None" by (simp add: shown_ledger_def)
  moreover have "shown_ledger T' = (shown_ledger T)(?i \<mapsto> b)" by (rule shown_update) (simp_all add: T')
  ultimately show ?thesis
    using es assms(4,5) chain_logs_append [OF votes] T' by (auto simp: valid_transfer_def)
qed

lemma burn_logs:
  assumes ok: "token_ok b0 T" and "b0 \<le> block_of (ev 0)" and "burn_token ev t T = Some (T', es)"
  shows "chain_logs (shown_ledger T) (current_votes T) es (shown_ledger T') (current_votes T')"
proof -
  let ?a = "nt_owners T t" and ?i = "t + nt_idShift T"
  obtain C cs where C: "beforeTokenTransfer (block_of (ev 0)) ?a ZERO_ADDRESS T = Some (C, cs)" "?a \<noteq> ZERO_ADDRESS"
    and T': "T' = T\<lparr>nt_checkpoints := C, nt_balances := (nt_balances T)(?a := nt_balances T ?a - 1),
      nt_owners := (nt_owners T)(t := ZERO_ADDRESS)\<rparr>" and es: "es = cs @ [Transfer (ev 0) ?a ZERO_ADDRESS ?i]"
    using assms(3) by (auto simp: burn_token_def Let_def bind_eq_Some_conv split: if_splits)
  have t: "t < nt_currentPunkId T" by (rule minted_before [OF ok C(2)])
  have "shown_ledger T' = (shown_ledger T)(?i \<mapsto> ZERO_ADDRESS)" by (rule shown_update) (simp_all add: T' t)
  then show ?thesis
    using chain_logs_append [OF before_logs [OF ok assms(2) C(1), of "shown_ledger T"]] shown_owner [OF t] C(2) es T'
    by (simp add: valid_transfer_def)
qed

lemma transfer_logs:
  assumes ok: "token_ok b0 T" and "b0 \<le> block_of (ev 0)" and "transfer_token ev a b t T = Some (T', es)" and "a \<noteq> b"
  shows "chain_logs (shown_ledger T) (current_votes T) es (shown_ledger T') (current_votes T')"
proof -
  let ?B = "(nt_balances T)(a := nt_balances T a - 1)" and ?i = "t + nt_idShift T"
  obtain C cs where C: "beforeTokenTransfer (block_of (ev 0)) a b T = Some (C, cs)" "nt_owners T t = a" "a \<noteq> ZERO_ADDRESS"
    and T': "T' = T\<lparr>nt_checkpoints := C, nt_balances := ?B(b := ?B b + 1), nt_owners := (nt_owners T)(t := b)\<rparr>"
    and es: "es = cs @ [Transfer (ev 0) a b ?i]"
    using assms(3) by (auto simp: transfer_token_def Let_def bind_eq_Some_conv split: if_splits)
  have t: "t < nt_currentPunkId T" using minted_before [OF ok] C(2,3) by simp
  have "shown_ledger T' = (shown_ledger T)(?i \<mapsto> b)" by (rule shown_update) (simp_all add: T' t)
  then show ?thesis
    using chain_logs_append [OF before_logs [OF ok assms(2) C(1), of "shown_ledger T"]] shown_owner [OF t] C(2,3) es T' assms(4)
    by (simp add: valid_transfer_def)
qed

lemma delegate_from_logs:
  assumes ok: "token_ok b0 T" and "b0 \<le> block_of (ev 0)" and "delegate_from ev a d T = Some (T', es)"
  shows "chain_logs (shown_ledger T) (current_votes T) es (shown_ledger T') (current_votes T')"
proof -
  have ck: "\<And>c. checkpoints_ok b0 (nt_checkpoints T c)" using ok by (simp add: token_ok_def)
  obtain C cs where mv: "moveDelegates (block_of (ev 0)) (delegates T a) d (nt_balances T a) (nt_checkpoints T) = Some (C, cs)"
    and T': "T' = T\<lparr>nt_delegates := (nt_delegates T)(a := d), nt_checkpoints := C\<rparr>"
    and es: "es = DelegateChanged (ev 0) a (delegates T a) d # cs"
    using assms(3) by (auto simp: delegate_from_def Let_def split: if_splits)
  have "shown_ledger T' = shown_ledger T" by (simp add: shown_ledger_def fun_eq_iff T')
  then show ?thesis using moveDelegates_effect(2) [OF ck assms(2) mv, of "shown_ledger T"] es T' by simp
qed

lemma token_step_logs:
  assumes ok: "token_ok b0 T" and "b0 \<le> block" and ev: "\<forall>i. ev_number (ev i) = int block" and reg: "regular_call c"
    and step: "token_step ev c T = Some (T', es)"
  shows "chain_logs (shown_ledger T) (current_votes T) es (shown_ledger T') (current_votes T')"
proof -
  have le: "b0 \<le> block_of (ev i)" for i using assms(2) ev by simp
  show ?thesis
  proof (cases c)
    case (Mint creator seed punkers minter)
    then have c: "creator \<noteq> ZERO_ADDRESS" "creator \<noteq> punkers" "creator \<noteq> minter" using reg by auto
    from Mint step have "mint ev creator seed punkers minter T = Some (T', es)" by simp
    then show ?thesis
    proof (cases rule: mint_cases)
      case one
      from mintTo_logs [OF ok _ one c(1,3)] le show ?thesis by simp
    next
      case (two T1 es1 es2)
      have "chain_logs (shown_ledger T1) (current_votes T1) es2 (shown_ledger T') (current_votes T')"
        by (rule mintTo_logs [OF mintTo_ok [OF ok le two(1)] _ two(2) c(1,3)]) (simp add: ev)
      from chain_logs_append [OF mintTo_logs [OF ok le two(1) c(1,2)] this] two(3) show ?thesis by simp
    qed
  next
    case (Burn t)
    with step burn_logs [OF ok le] show ?thesis by simp
  next
    case (TransferToken a b t)
    with step reg transfer_logs [OF ok le] show ?thesis by simp
  next
    case (Delegate a d)
    with step delegate_from_logs [OF ok le] show ?thesis by (simp add: delegate_call_def)
  next
    case (DelegateBySig a d nonce expiry)
    let ?T = "T\<lparr>nt_nonces := (nt_nonces T)(a := nt_nonces T a + 1)\<rparr>"
    have "delegate_from ev a d ?T = Some (T', es)"
      using step DelegateBySig by (simp add: delegateBySig_def split: if_splits)
    moreover have "shown_ledger ?T = shown_ledger T" by (simp add: shown_ledger_def fun_eq_iff)
    ultimately show ?thesis using delegate_from_logs [of b0 ?T ev a d T' es] ok le by simp
  qed
qed

fun handle_events :: "graph_event list \<Rightarrow> store \<Rightarrow> store option" where
  "handle_events [] s = Some s"
| "handle_events (e # es) s = Option.bind (handle_event e s) (handle_events es)"

lemma handle_events_append: "handle_events (es @ es') s = Option.bind (handle_events es s) (handle_events es')"
  by (induction es arbitrary: s) (auto split: bind_splits)

text \<open>Logs of the token are a history for the subgraph, which ends with the votes of the token.\<close>

lemma logs_indexed:
  assumes "chain_logs L f es L' g" and "history L M s" and "\<And>d. votes_of s d = int (f d)"
  shows "\<exists>s'. handle_events es s = Some s' \<and> history L' M s' \<and> (\<forall>d. votes_of s' d = int (g d))"
  using assms
proof (induction L f es L' g arbitrary: s rule: chain_logs.induct)
  case (2 L f d old new es L' g)
  have p: "possible L M s (DelegateVotesChanged d old new)" using 2(2,4) by simp
  from history.event [OF 2(3) p] have h: "history L M (handleDelegateVotesChanged d old new s)" by simp
  have votes: "votes_of (handleDelegateVotesChanged d old new s) e = int ((f(d := nat new)) e)" for e
    using 2(2,4) by (simp add: votes_changed_effect)
  have "chain_logs L (f(d := nat new)) es L' g" using 2(2) by simp
  from 2(1) [OF this h votes] show ?case by simp
next
  case (3 L f ev a b t es L' g)
  have p: "possible L M s (Transfer ev a b t)" using 3(2) by simp
  from history.event [OF 3(3) p] have h: "history (L(t \<mapsto> b)) M (handleTransfer ev a b t s)" by simp
  have votes: "votes_of (handleTransfer ev a b t s) d = int (f d)" for d
    using votes_frame [of "Transfer ev a b t" s] 3(4) by (simp add: same_votes_def)
  have "chain_logs (L(t \<mapsto> b)) f es L' g" using 3(2) by simp
  from 3(1) [OF this h votes] show ?case by simp
next
  case (4 L f ev a c d es L' g)
  from history.event [OF 4(3), of "DelegateChanged ev a c d"] have h: "history L M (handleDelegateChanged ev a c d s)" by simp
  have votes: "votes_of (handleDelegateChanged ev a c d s) e = int (f e)" for e
    using delegate_changed_frame(3) [of s ev a c d] 4(4) by (simp add: same_votes_def)
  have "chain_logs L f es L' g" using 4(2) by simp
  from 4(1) [OF this h votes] show ?case by simp
next
  case (5 L f t pt sk accs es L' g)
  from history.event [OF 5(3), of "PunkCreated t pt sk accs"] have h: "history L M (handlePunkCreated t pt sk accs s)" by simp
  have votes: "votes_of (handlePunkCreated t pt sk accs s) d = int (f d)" for d
    using votes_frame [of "PunkCreated t pt sk accs" s] 5(4) by (simp add: same_votes_def)
  have "chain_logs L f es L' g" using 5(2) by simp
  from 5(1) [OF this h votes] show ?case by simp
qed auto

lemma token_run_indexed:
  assumes "token_run b T cs es" and "\<forall>c \<in> set cs. regular_call c"
  shows "\<exists>s. handle_events es empty_store = Some s \<and> history (shown_ledger T) Map.empty s \<and>
    (\<forall>d. votes_of s d = int (current_votes T d))"
  using assms
proof (induction rule: token_run.induct)
  case (deployed b shift)
  have "shown_ledger (deployed_token shift) = Map.empty" by (simp add: shown_ledger_def deployed_token_def fun_eq_iff)
  then show ?case
    using history.start by (simp add: deployed_token_def getCurrentVotes_def delegate_of_def new_delegate_def empty_store_def)
next
  case (call b T cs es b' ev c T' es')
  then have reg: "\<forall>c \<in> set cs. regular_call c" "regular_call c" by auto
  then have ok: "token_ok b T" using token_run_ok [OF call.hyps(1)] regular_names by blast
  note logs = token_step_logs [OF ok call.hyps(2,3) reg(2) call.hyps(4)]
  obtain s where s: "handle_events es empty_store = Some s" "history (shown_ledger T) Map.empty s"
    "\<And>d. votes_of s d = int (current_votes T d)" using call.IH [OF reg(1)] by blast
  from logs_indexed [OF logs s(2,3)] s(1) show ?case by (auto simp: handle_events_append)
qed

lemma holds_shown:
  assumes "\<forall>t \<ge> nt_currentPunkId T. nt_owners T t = ZERO_ADDRESS" and "a \<noteq> ZERO_ADDRESS"
  shows "holds (shown_ledger T) a = (\<lambda>t. t + nt_idShift T) ` owned T a"
proof -
  have "t < nt_currentPunkId T" if "nt_owners T t = a" for t using assms that by (meson leI)
  then show ?thesis
    by (auto simp: holds_def shown_ledger_def owned_def image_iff split: if_splits)
      (metis le_add_diff_inverse2)
qed


section \<open>Transfers are never held up\<close>

lemma writeCheckpoint_some:
  assumes "checkpoints_ok b0 cks" and "b0 \<le> block" and "Suc block < 2 ^ 32"
  shows "\<exists>cks'. writeCheckpoint block cks v = Some cks'"
proof (cases "cks \<noteq> [] \<and> ck_fromBlock (last cks) = block")
  case True
  then show ?thesis using assms(3) by (simp add: writeCheckpoint_def)
next
  case False
  have sorted: "sorted_wrt (<) (map ck_fromBlock cks)" using assms(1) by (simp add: checkpoints_ok_def)
  have "ck_fromBlock c < block" if c: "c \<in> set cks" for c
  proof -
    obtain i where i: "i < length cks" "c = cks ! i" using c by (metis in_set_conv_nth)
    have ne: "cks \<noteq> []" using c by auto
    then have "last cks \<in> set cks" by simp
    then have "ck_fromBlock (last cks) < block" 
      using False ne assms(1,2) unfolding checkpoints_ok_def by (metis le_neq_implies_less le_trans)
    moreover have "i \<le> length cks - 1" "length cks - 1 < length cks" using i(1) by linarith+
    ultimately show ?thesis using blocks_mono [OF sorted, of i "length cks - 1"] i(2) last_conv_nth [OF ne] by simp
  qed
  then have "set (map ck_fromBlock cks) \<subseteq> {..<block}" by auto
  then have "card (set (map ck_fromBlock cks)) \<le> block" using card_mono [of "{..<block}"] by fastforce
  moreover have "distinct (map ck_fromBlock cks)" using sorted by (simp add: strict_sorted_iff)
  then have "card (set (map ck_fromBlock cks)) = length cks" by (metis distinct_card length_map)
  ultimately have "Suc (length cks) < 2 ^ 32" using assms(3) by simp
  then show ?thesis using False assms(3) by (auto simp: writeCheckpoint_def)
qed

lemma set_votes_some:
  assumes "\<And>a. checkpoints_ok b0 (C a)" and "b0 \<le> block" and "Suc block < 2 ^ 32"
  shows "\<exists>C' es. set_votes block d v C = Some (C', es)"
  using writeCheckpoint_some [OF assms(1) assms(2,3), of d v] by (auto simp: set_votes_def)

lemma moveDelegates_some:
  assumes ok: "\<And>a. checkpoints_ok b0 (C a)" and block: "b0 \<le> block" "Suc block < 2 ^ 32"
    and "s \<noteq> ZERO_ADDRESS \<Longrightarrow> n \<le> getCurrentVotes (C s)"
    and "d \<noteq> ZERO_ADDRESS \<Longrightarrow> getCurrentVotes (C d) + n < 2 ^ 96"
  shows "\<exists>C' es. moveDelegates block s d n C = Some (C', es)"
proof (cases "s \<noteq> d \<and> 0 < n")
  case True
  have "\<exists>C1 es1. (if s = ZERO_ADDRESS then Some (C, []) else if \<not> n \<le> getCurrentVotes (C s) then None
      else set_votes block s (getCurrentVotes (C s) - n) C) = Some (C1, es1) \<and>
      (\<forall>a. checkpoints_ok block (C1 a)) \<and> getCurrentVotes (C1 d) = getCurrentVotes (C d)"
  proof (cases "s = ZERO_ADDRESS")
    case False
    obtain C1 es1 where 1: "set_votes block s (getCurrentVotes (C s) - n) C = Some (C1, es1)"
      using set_votes_some [of b0 C block s "getCurrentVotes (C s) - n"] ok block by blast
    from set_votes_effect [OF ok block(1) 1] True have "\<forall>a. checkpoints_ok block (C1 a)"
      "getCurrentVotes (C1 d) = getCurrentVotes (C d)" by (auto simp: extends_votes_def)
    with 1 False assms(4) show ?thesis by auto
  qed (use ok block checkpoints_ok_mono in auto)
  then obtain C1 es1 where 1: "(if s = ZERO_ADDRESS then Some (C, []) else if \<not> n \<le> getCurrentVotes (C s) then None
      else set_votes block s (getCurrentVotes (C s) - n) C) = Some (C1, es1)"
    and C1: "\<And>a. checkpoints_ok block (C1 a)" "getCurrentVotes (C1 d) = getCurrentVotes (C d)" by blast
  have "\<exists>C' es2. (if d = ZERO_ADDRESS then Some (C1, []) else if \<not> getCurrentVotes (C1 d) + n < 2 ^ 96 then None
      else set_votes block d (getCurrentVotes (C1 d) + n) C1) = Some (C', es2)"
    using set_votes_some [of block C1 block d "getCurrentVotes (C1 d) + n"] C1 block(2) assms(5) by auto
  with 1 True show ?thesis by (auto simp: moveDelegates_def)
qed (auto simp: moveDelegates_def)

lemma card_represented_le: "token_ok b T \<Longrightarrow> card (represented T d) \<le> nt_currentPunkId T"
  using card_mono [of "{..<nt_currentPunkId T}" "represented T d"] minted_before [of b T]
  by (fastforce simp: represented_def)

lemma transfer_some:
  assumes ok: "token_ok b T" and owner: "nt_owners T t = a" "a \<noteq> ZERO_ADDRESS" and r: "r \<noteq> ZERO_ADDRESS"
    and block: "b \<le> block_of (ev 0)" "Suc (block_of (ev 0)) < 2 ^ 32" and few: "Suc (nt_currentPunkId T) < 2 ^ 96"
  shows "\<exists>T' es'. transfer_token ev a r t T = Some (T', es')"
proof -
  have z: "nt_delegates T ZERO_ADDRESS = ZERO_ADDRESS" using ok by (simp add: token_ok_def)
  have fresh: "\<forall>i \<ge> nt_currentPunkId T. nt_owners T i = ZERO_ADDRESS" using ok by (simp add: token_ok_def)
  have votes: "current_votes T d = card (represented T d)" if "d \<noteq> ZERO_ADDRESS" for d using ok that by (simp add: token_ok_def)
  have "t \<in> represented T (delegates T a)" using owner by (simp add: represented_def)
  moreover have "finite (represented T (delegates T a))"
    using finite_owned [OF fresh] by (simp add: represented_def)
  ultimately have "1 \<le> card (represented T (delegates T a))" by (auto simp: Suc_le_eq card_gt_0_iff)
  moreover have "card (represented T (delegates T r)) + 1 < 2 ^ 96"
    using card_represented_le [OF ok, of "delegates T r"] few by linarith
  ultimately have "\<exists>C es. beforeTokenTransfer (block_of (ev 0)) a r T = Some (C, es)"
    unfolding beforeTokenTransfer_def
    by (intro moveDelegates_some [of b]) (use ok block votes in \<open>simp_all add: token_ok_def\<close>)
  with balance_positive [OF ok owner] owner r show ?thesis
    by (auto simp: transfer_token_def Let_def)
qed

text \<open>Liveness of transfers: after every run without signatures for the zero address, the owner of a token
  can transfer it to any address: the bookkeeping of votes never underflows, and it does not
  overflow before block 2^32 - 1 and 2^96 - 1 tokens.\<close>

lemma transfers_go_through:
  assumes "token_run b T cs es" and "\<forall>c \<in> set cs. names_delegate c"
    and "nt_owners T t = a" and "a \<noteq> ZERO_ADDRESS" and "r \<noteq> ZERO_ADDRESS"
    and "b \<le> block_of (ev 0)" and "block_of (ev 0) < 2 ^ 32 - 1" and "nt_currentPunkId T < 2 ^ 96 - 1"
  shows "\<exists>T' es'. transfer_token ev a r t T = Some (T', es')"
  by (rule transfer_some [where ev = ev, OF token_run_ok [OF assms(1,2)] assms(3-6)]) (use assms(7,8) in simp_all)

section \<open>A signature for the zero address\<close>

lemma moveDelegates_none:
  "s \<noteq> ZERO_ADDRESS \<Longrightarrow> s \<noteq> d \<Longrightarrow> getCurrentVotes (C s) < n \<Longrightarrow> moveDelegates block s d n C = None"
  by (simp add: moveDelegates_def)

text \<open>C28. A signed delegation to the zero address locks tokens: \<open>delegate\<close> replaces the zero address by the sender,
  \<open>delegateBySig\<close> does not. When an account that represents exactly its own tokens
  signs it, its votes are taken away and given to nobody, and transferring or burning any of its
  tokens, and delegating to anybody else, reverts for want of votes.\<close>

theorem zero_delegation_locks:
  assumes "token_run b T cs es" and "\<forall>c \<in> set cs. names_delegate c"
    and "represented T a = owned T a" and "delegates T a = a" and "b \<le> block_of (ev 0)"
    and "delegateBySig ev a ZERO_ADDRESS nonce expiry T = Some (T', es')"
  shows "current_votes T' a = 0 \<and>
    (\<forall>t \<in> owned T' a. \<forall>ev' r d.
      (delegates T' r \<noteq> a \<longrightarrow> transfer_token ev' a r t T' = None) \<and> burn_token ev' t T' = None \<and>
      (d \<noteq> a \<and> d \<noteq> ZERO_ADDRESS \<longrightarrow> delegate_call ev' a d T' = None))"
proof -
  have ok: "token_ok b T" by (rule token_run_ok [OF assms(1,2)])
  then have z: "nt_delegates T ZERO_ADDRESS = ZERO_ADDRESS" by (simp add: token_ok_def)
  have ck: "\<And>c. checkpoints_ok b (nt_checkpoints T c)" using ok by (simp add: token_ok_def)
  obtain C cs1 where mv: "moveDelegates (block_of (ev 0)) a ZERO_ADDRESS (nt_balances T a) (nt_checkpoints T) = Some (C, cs1)"
    and T': "T' = T\<lparr>nt_nonces := (nt_nonces T)(a := nt_nonces T a + 1),
      nt_delegates := (nt_delegates T)(a := ZERO_ADDRESS), nt_checkpoints := C\<rparr>" and a: "a \<noteq> ZERO_ADDRESS"
    using assms(4,6) by (auto simp: delegateBySig_def delegate_from_def Let_def delegates_def cong: if_cong split: if_splits)
  have "current_votes T a = nt_balances T a" using ok a assms(3) by (simp add: token_ok_def)
  then have votes: "getCurrentVotes (C a) = 0" using moveDelegates_effect(3) [OF ck assms(5) mv a] a by simp
  have self: "delegates T' a = a" "delegates T' ZERO_ADDRESS = ZERO_ADDRESS" using z a by (simp_all add: delegates_def T')
  have none: "moveDelegates block a x n C = None" if "x \<noteq> a" "0 < n" for block x n
    using moveDelegates_none [of a x C n] a that votes by simp
  have "nt_balances T' a > 0" if "t \<in> owned T' a" for t
    using balance_positive [OF ok _ a, of t] that by (simp add: T' owned_def)
  then show ?thesis
    using votes none self a
    by (auto simp: T' owned_def transfer_token_def burn_token_def delegate_call_def delegate_from_def beforeTokenTransfer_def
        Let_def delegates_def cong: if_cong)
qed

section \<open>A run\<close>

text \<open>Two tokens are minted, one for the founders and one for the auction house, which hands it on; its owner then
  delegates.\<close>

definition demo_log :: "nat \<Rightarrow> nat \<Rightarrow> event_env" where
  "demo_log block i =
     \<lparr>ev_hash = ''0x'' @ dec block, ev_index = int i, ev_number = int block, ev_timestamp = 12 * int block, ev_address = ''0xt''\<rparr>"

definition demo_mint :: token_call where
  "demo_mint = Mint ''0xdao'' (\<lambda>_. (1, 2, [])) ''0xf'' ''0xm''"

fun run_calls :: "(nat \<times> token_call) list \<Rightarrow> ntoken \<Rightarrow> ntoken tx" where
  "run_calls [] T = Some (T, [])"
| "run_calls ((block, c) # calls) T =
     Option.bind (token_step (demo_log block) c T) (\<lambda>(T1, es1).
       map_option (\<lambda>(T2, es2). (T2, es1 @ es2)) (run_calls calls T1))"

lemma run_calls_run:
  assumes "run_calls calls T = Some (T', es')" and "token_run b T cs es" and "sorted (b # map fst calls)"
  shows "token_run (last (b # map fst calls)) T' (cs @ map snd calls) (es @ es')"
  using assms
proof (induction calls arbitrary: T b cs es es')
  case (Cons bc calls)
  obtain block c where bc: "bc = (block, c)" by force
  obtain T1 es1 es2 where 1: "token_step (demo_log block) c T = Some (T1, es1)" "run_calls calls T1 = Some (T', es2)"
    and es': "es' = es1 @ es2" using Cons.prems(1) bc by (auto simp: bind_eq_Some_conv)
  have "token_run block T1 (cs @ [c]) (es @ es1)"
    by (rule token_run.call [OF Cons.prems(2) _ _ 1(1)]) (use Cons.prems(3) bc in \<open>simp_all add: demo_log_def\<close>)
  from Cons.IH [OF 1(2) this] Cons.prems(3) show ?case by (simp add: bc es' split: if_splits)
qed simp

definition demo_calls :: "(nat \<times> token_call) list" where
  "demo_calls = [(5, demo_mint), (6, TransferToken ''0xm'' ''0xa'' 1)]"

lemmas token_ops = mint_def mintTo_def mint_token_def transfer_token_def delegate_call_def delegate_from_def
  delegateBySig_def beforeTokenTransfer_def moveDelegates_def set_votes_def writeCheckpoint_def getCurrentVotes_def
  delegates_def deployed_token_def demo_log_def demo_mint_def ZERO_ADDRESS_def Let_def

definition demo_token :: ntoken where
  "demo_token =
     \<lparr>nt_owners = (\<lambda>_. ZERO_ADDRESS)(0 := ''0xf'', 1 := ''0xa''),
      nt_balances = (\<lambda>_. 0)(''0xf'' := 1, ''0xm'' := 0, ''0xa'' := 1), nt_delegates = (\<lambda>_. ZERO_ADDRESS),
      nt_checkpoints = (\<lambda>_. [])(''0xf'' := [\<lparr>ck_fromBlock = 5, ck_votes = 1\<rparr>],
        ''0xm'' := [\<lparr>ck_fromBlock = 5, ck_votes = 1\<rparr>, \<lparr>ck_fromBlock = 6, ck_votes = 0\<rparr>],
        ''0xa'' := [\<lparr>ck_fromBlock = 6, ck_votes = 1\<rparr>]),
      nt_nonces = (\<lambda>_. 0), nt_currentPunkId = 2, nt_idShift = 10000\<rparr>"

lemma demo_token_state:
  "\<exists>es. run_calls demo_calls (deployed_token 10000) = Some (demo_token, es)"
  by (simp add: demo_token_def demo_calls_def token_ops fun_eq_iff cong: if_cong)

lemma demo_token_run: "\<exists>es. token_run 6 demo_token (map snd demo_calls) es"
  using demo_token_state run_calls_run [OF _ token_run.deployed [of 0 10000], of demo_calls demo_token]
  by (fastforce simp: demo_calls_def)

lemma demo_calls_regular: "\<forall>c \<in> set (map snd demo_calls). regular_call c" "\<forall>c \<in> set (map snd demo_calls). names_delegate c"
  by (simp_all add: demo_calls_def demo_mint_def ZERO_ADDRESS_def)

lemma demo_represented: "represented demo_token ''0xa'' = {1}" "owned demo_token ''0xa'' = {1}"
  by (auto simp: represented_def owned_def demo_token_def delegates_def ZERO_ADDRESS_def)

lemma demo_delegates: "delegates demo_token a = a"
  by (simp add: delegates_def demo_token_def)


lemma demo_votes: "current_votes demo_token ''0xa'' = 1"
  by (simp add: demo_token_def getCurrentVotes_def)

theorem prior_votes_exact_witness:
  "\<exists>T' es'. delegate_call (demo_log 7) ''0xa'' ''0xb'' demo_token = Some (T', es') \<and>
    getPriorVotes 8 (nt_checkpoints T' ''0xa'') 6 = Some 1 \<and> current_votes T' ''0xa'' = 0"
proof -
  obtain es where run: "token_run 6 demo_token (map snd demo_calls) es" using demo_token_run by blast
  obtain T' es' where step: "delegate_call (demo_log 7) ''0xa'' ''0xb'' demo_token = Some (T', es')"
    and votes: "current_votes T' ''0xa'' = 0"
    by (simp add: demo_token_def token_ops cong: if_cong)
  have "later 6 demo_token 7 T'"
    by (rule later.next_call [OF later.now, where ev = "demo_log 7" and c = "Delegate ''0xa'' ''0xb''" and es = es'])
      (simp_all add: step demo_log_def)
  from prior_votes_exact [OF run this, of 8 "''0xa''"] step votes demo_votes show ?thesis by simp
qed


theorem zero_delegation_locks_witness:
  "\<exists>T' es'. delegateBySig (demo_log 8) ''0xa'' ZERO_ADDRESS 0 1000 demo_token = Some (T', es') \<and>
    nt_owners T' 1 = ''0xa'' \<and> transfer_token (demo_log 9) ''0xa'' ''0xc'' 1 T' = None"
proof -
  obtain es where run: "token_run 6 demo_token (map snd demo_calls) es" using demo_token_run by blast
  obtain T' es' where step: "delegateBySig (demo_log 8) ''0xa'' ZERO_ADDRESS 0 1000 demo_token = Some (T', es')"
    and T': "nt_owners T' = nt_owners demo_token" "nt_delegates T' ''0xc'' = ZERO_ADDRESS"
    by (simp add: demo_token_def token_ops cong: if_cong)
  have "1 \<in> owned T' ''0xa''" by (simp add: owned_def T' demo_token_def)
  with zero_delegation_locks [OF run demo_calls_regular(2) _ demo_delegates _ step]
  have "delegates T' ''0xc'' \<noteq> ''0xa'' \<longrightarrow> transfer_token (demo_log 9) ''0xa'' ''0xc'' 1 T' = None"
    by (simp add: demo_represented demo_log_def)
  then show ?thesis using step T' by (simp add: delegates_def demo_token_def)
qed

end
