(* ===== verification/Chain_Registry.thy ===== *)
theory Chain_Registry
  imports Chain_Votes
begin

text \<open>
  The registry of delegations of the original CryptoPunks:
  \<open>packages/punks-contracts/contracts/CryptopunksVote.sol\<close>. Who owns a punk is asked of the two
  CryptoPunks contracts, which are not part of the repository: they are the record \<open>punk_contracts\<close>.
  The invariant relates the votes to the delegated punks; with it a delegation by the owner of a punk
  never reverts. Signed delegations and batches call the same function once for each punk; the
  recovery of the signer is left out.
\<close>

section \<open>The registry\<close>

text \<open>\<open>pc_approved\<close> says whether the wrapper's \<open>getApproved\<close> or \<open>isApprovedForAll\<close> names an account.\<close>

record punk_contracts =
  pc_owner :: "nat \<Rightarrow> string"
  pc_wrapper :: string
  pc_wrappedOwner :: "nat \<Rightarrow> string option"
  pc_approved :: "nat \<Rightarrow> string \<Rightarrow> bool"

record og_registry =
  or_delegates :: "nat \<Rightarrow> string"
  or_checkpoints :: "string \<Rightarrow> Checkpoint list"

definition deployed_registry :: og_registry where
  "deployed_registry = \<lparr>or_delegates = (\<lambda>_. ZERO_ADDRESS), or_checkpoints = (\<lambda>_. [])\<rparr>"

abbreviation og_votes :: "og_registry \<Rightarrow> string \<Rightarrow> nat" where
  "og_votes R d \<equiv> getCurrentVotes (or_checkpoints R d)"

definition CRYPTOPUNKS_TOTAL_SUPPLY :: nat where
  "CRYPTOPUNKS_TOTAL_SUPPLY = 10000"

definition write_og_checkpoint :: "nat \<Rightarrow> Checkpoint list \<Rightarrow> nat \<Rightarrow> Checkpoint list" where
  "write_og_checkpoint block cks newVotes =
     (if cks \<noteq> [] \<and> ck_fromBlock (last cks) = block then butlast cks @ [(last cks)\<lparr>ck_votes := newVotes\<rparr>]
      else cks @ [\<lparr>ck_fromBlock = block, ck_votes = newVotes\<rparr>])"

text \<open>Without checkpoints the index of the last one underflows, as does a subtraction from zero votes.\<close>

definition og_less :: "Checkpoint list \<Rightarrow> nat option" where
  "og_less cks = (if cks = [] \<or> ck_votes (last cks) = 0 then None else Some (ck_votes (last cks) - 1))"

definition og_more :: "Checkpoint list \<Rightarrow> nat option" where
  "og_more cks =
     (if cks = [] then Some 1
      else if ck_votes (last cks) + 1 < 2 ^ 96 then Some (ck_votes (last cks) + 1) else None)"

definition may_delegate :: "punk_contracts \<Rightarrow> string \<Rightarrow> string \<Rightarrow> nat \<Rightarrow> bool" where
  "may_delegate P delegator prevDelegatee t \<longleftrightarrow>
     (if pc_owner P t = pc_wrapper P
      then (case pc_wrappedOwner P t of
              None \<Rightarrow> False
            | Some owner \<Rightarrow> delegator = prevDelegatee \<or> delegator = owner \<or> pc_approved P t delegator)
      else delegator = prevDelegatee \<or> delegator = pc_owner P t)"

definition og_delegate_call ::
  "punk_contracts \<Rightarrow> event_env \<Rightarrow> string \<Rightarrow> string \<Rightarrow> nat \<Rightarrow> og_registry \<Rightarrow> og_registry tx" where
  "og_delegate_call P ev delegator delegatee t R =
     (let block = block_of ev;
          prevDelegatee = or_delegates R t;
          D = (or_delegates R)(t := delegatee);
          C = or_checkpoints R
      in if \<not> t < CRYPTOPUNKS_TOTAL_SUPPLY \<or> \<not> block < 2 ^ 32 - 1 \<or> delegatee = ZERO_ADDRESS \<or>
            \<not> may_delegate P delegator prevDelegatee t then None
         else if prevDelegatee = delegatee
         then Some (R\<lparr>or_delegates := D\<rparr>, [OGDelegateChanged ev delegator prevDelegatee delegatee t])
         else Option.bind
           (if prevDelegatee \<noteq> ZERO_ADDRESS
            then map_option (\<lambda>v. (C(prevDelegatee := write_og_checkpoint block (C prevDelegatee) v),
                                  [OGDelegateVotesChanged prevDelegatee (int v)])) (og_less (C prevDelegatee))
            else map_option (\<lambda>v. (C(ZERO_ADDRESS := write_og_checkpoint block (C ZERO_ADDRESS) v), []))
                   (og_more (C ZERO_ADDRESS)))
           (\<lambda>(C1, es1). map_option (\<lambda>v.
              (R\<lparr>or_delegates := D, or_checkpoints := C1(delegatee := write_og_checkpoint block (C1 delegatee) v)\<rparr>,
               es1 @ [OGDelegateVotesChanged delegatee (int v), OGDelegateChanged ev delegator prevDelegatee delegatee t]))
              (og_more (C1 delegatee))))"

section \<open>Votes are delegated punks\<close>

definition og_delegated :: "og_registry \<Rightarrow> string \<Rightarrow> nat set" where
  "og_delegated R d = {t. t < CRYPTOPUNKS_TOTAL_SUPPLY \<and> or_delegates R t = d}"

text \<open>The checkpoints of the zero address count the punks that have a delegate.\<close>

definition registry_ok :: "og_registry \<Rightarrow> bool" where
  "registry_ok R \<longleftrightarrow>
     (\<forall>d. d \<noteq> ZERO_ADDRESS \<longrightarrow> og_votes R d = card (og_delegated R d)) \<and>
     og_votes R ZERO_ADDRESS + card (og_delegated R ZERO_ADDRESS) = CRYPTOPUNKS_TOTAL_SUPPLY"

inductive registry_run :: "og_registry \<Rightarrow> bool" where
  deployed: "registry_run deployed_registry"
| delegation: "registry_run R \<Longrightarrow> og_delegate_call P ev a d t R = Some (R', es) \<Longrightarrow> registry_run R'"

lemma finite_delegated [simp]: "finite (og_delegated R d)"
  by (rule finite_subset [of _ "{..<CRYPTOPUNKS_TOTAL_SUPPLY}"]) (auto simp: og_delegated_def)

lemma votes_written: "getCurrentVotes (write_og_checkpoint block cks v) = v"
  by (simp add: write_og_checkpoint_def getCurrentVotes_def)

lemma og_less_iff: "og_less cks = Some v \<longleftrightarrow> getCurrentVotes cks = Suc v"
  by (auto simp: og_less_def getCurrentVotes_def)

lemma og_more_iff: "og_more cks = Some v \<longleftrightarrow> v = Suc (getCurrentVotes cks) \<and> v < 2 ^ 96"
  by (auto simp: og_more_def getCurrentVotes_def)

lemma og_delegate_call_cases:
  assumes "og_delegate_call P ev a d t R = Some (R', es)"
  obtains (same) "or_delegates R t = d" "R' = R\<lparr>or_delegates := (or_delegates R)(t := d)\<rparr>" "t < CRYPTOPUNKS_TOTAL_SUPPLY"
    "d \<noteq> ZERO_ADDRESS" "es = [OGDelegateChanged ev a d d t]"
  | (moved) "or_delegates R t \<noteq> d" "or_delegates R' = (or_delegates R)(t := d)" "t < CRYPTOPUNKS_TOTAL_SUPPLY" "d \<noteq> ZERO_ADDRESS"
    "og_votes R' d = Suc (og_votes R d)"
    "if or_delegates R t = ZERO_ADDRESS then og_votes R' ZERO_ADDRESS = Suc (og_votes R ZERO_ADDRESS)
     else Suc (og_votes R' (or_delegates R t)) = og_votes R (or_delegates R t)"
    "\<And>e. e \<notin> {d, or_delegates R t} \<Longrightarrow> og_votes R' e = og_votes R e"
    "\<exists>es1. es = es1 @ [OGDelegateVotesChanged d (int (og_votes R' d)), OGDelegateChanged ev a (or_delegates R t) d t] \<and>
      es1 = (if or_delegates R t = ZERO_ADDRESS then []
             else [OGDelegateVotesChanged (or_delegates R t) (int (og_votes R' (or_delegates R t)))])"
proof (cases "or_delegates R t = d")
  case True
  then show ?thesis using assms same by (simp add: og_delegate_call_def Let_def split: if_splits)
next
  case False
  then show ?thesis
    using assms moved
    by (cases "or_delegates R t = ZERO_ADDRESS")
      (auto simp: og_delegate_call_def Let_def bind_eq_Some_conv votes_written og_less_iff og_more_iff split: if_splits)
qed

lemma card_delegated:
  assumes "or_delegates R' = (or_delegates R)(t := d)" and "t < CRYPTOPUNKS_TOTAL_SUPPLY" and "or_delegates R t \<noteq> d"
  shows "card (og_delegated R' d) = Suc (card (og_delegated R d))"
    and "Suc (card (og_delegated R' (or_delegates R t))) = card (og_delegated R (or_delegates R t))"
    and "e \<notin> {d, or_delegates R t} \<Longrightarrow> og_delegated R' e = og_delegated R e"
proof -
  have "og_delegated R' d = insert t (og_delegated R d)" "t \<notin> og_delegated R d"
    using assms by (auto simp: og_delegated_def)
  then show "card (og_delegated R' d) = Suc (card (og_delegated R d))" by simp
  have t: "t \<in> og_delegated R (or_delegates R t)" using assms(2) by (simp add: og_delegated_def)
  have "og_delegated R' (or_delegates R t) = og_delegated R (or_delegates R t) - {t}"
    using assms by (auto simp: og_delegated_def)
  then show "Suc (card (og_delegated R' (or_delegates R t))) = card (og_delegated R (or_delegates R t))"
    using card_Suc_Diff1 [OF finite_delegated t] by simp
  show "og_delegated R' e = og_delegated R e" if "e \<notin> {d, or_delegates R t}"
    using that assms(1) by (auto simp: og_delegated_def)
qed

lemma registry_step_ok:
  assumes ok: "registry_ok R" and call: "og_delegate_call P ev a d t R = Some (R', es)"
  shows "registry_ok R'"
  using call
proof (cases rule: og_delegate_call_cases)
  case same
  then have "(or_delegates R)(t := d) = or_delegates R" by auto
  with same have "R' = R" by simp
  with ok show ?thesis by simp
next
  case moved
  let ?p = "or_delegates R t"
  note card = card_delegated [OF moved(2,3,1)]
  have "og_votes R' e = card (og_delegated R' e)" if e: "e \<noteq> ZERO_ADDRESS" for e
  proof -
    have old: "og_votes R e = card (og_delegated R e)" using ok e by (simp add: registry_ok_def)
    consider "e = d" | "e = ?p" | "e \<notin> {d, ?p}" by blast
    then show ?thesis
    proof cases
      case 1
      with moved(5) card(1) old show ?thesis by simp
    next
      case 2
      with moved(6) card(2) old e show ?thesis by simp
    next
      case 3
      with moved(7) card(3) old show ?thesis by simp
    qed
  qed
  moreover have "og_votes R' ZERO_ADDRESS + card (og_delegated R' ZERO_ADDRESS) = CRYPTOPUNKS_TOTAL_SUPPLY"
  proof (cases "?p = ZERO_ADDRESS")
    case True
    with moved(6) card(2) ok show ?thesis by (simp add: registry_ok_def)
  next
    case False
    with moved(4,7) card(3) [of ZERO_ADDRESS] ok show ?thesis by (simp add: registry_ok_def)
  qed
  ultimately show ?thesis by (simp add: registry_ok_def)
qed

lemma registry_run_ok: "registry_run R \<Longrightarrow> registry_ok R"
proof (induction rule: registry_run.induct)
  case deployed
  have "og_delegated deployed_registry ZERO_ADDRESS = {..<CRYPTOPUNKS_TOTAL_SUPPLY}"
    by (auto simp: og_delegated_def deployed_registry_def)
  moreover have "og_delegated deployed_registry d = {}" if "d \<noteq> ZERO_ADDRESS" for d
    using that by (auto simp: og_delegated_def deployed_registry_def)
  ultimately show ?case by (simp add: registry_ok_def deployed_registry_def getCurrentVotes_def)
qed (rule registry_step_ok)

lemma card_delegated_le: "card (og_delegated R d) \<le> CRYPTOPUNKS_TOTAL_SUPPLY"
  using card_mono [of "{..<CRYPTOPUNKS_TOTAL_SUPPLY}" "og_delegated R d"] by (auto simp: og_delegated_def)

text \<open>Who may delegate is never refused for want of votes.\<close>

lemma delegation_accepted:
  assumes ok: "registry_ok R" and "may_delegate P a (or_delegates R t) t" and t: "t < CRYPTOPUNKS_TOTAL_SUPPLY"
    and d: "d \<noteq> ZERO_ADDRESS" and "block_of ev < 2 ^ 32 - 1"
  shows "\<exists>R' es. og_delegate_call P ev a d t R = Some (R', es) \<and> or_delegates R' = (or_delegates R)(t := d)"
proof (cases "or_delegates R t = d")
  case True
  with assms show ?thesis by (simp add: og_delegate_call_def Let_def)
next
  case False
  let ?p = "or_delegates R t"
  have small: "og_votes R e \<le> 10000" for e
  proof (cases "e = ZERO_ADDRESS")
    case False
    with ok card_delegated_le [of R e] show ?thesis by (simp add: registry_ok_def CRYPTOPUNKS_TOTAL_SUPPLY_def)
  next
    case True
    have "og_votes R ZERO_ADDRESS + card (og_delegated R ZERO_ADDRESS) = 10000"
      using ok by (simp add: registry_ok_def CRYPTOPUNKS_TOTAL_SUPPLY_def)
    then show ?thesis unfolding True by linarith
  qed
  have more: "og_more (or_checkpoints R e) = Some (Suc (og_votes R e))" for e
    using small [of e] by (simp add: og_more_iff)
  have less: "\<exists>v. og_less (or_checkpoints R ?p) = Some v" if "?p \<noteq> ZERO_ADDRESS"
  proof -
    have "t \<in> og_delegated R ?p" using t by (simp add: og_delegated_def)
    then have "card (og_delegated R ?p) \<noteq> 0" by auto
    then have "og_votes R ?p \<noteq> 0" using ok that by (simp add: registry_ok_def)
    then obtain v where "og_votes R ?p = Suc v" by (metis not0_implies_Suc)
    then show ?thesis by (auto simp: og_less_iff)
  qed
  show ?thesis
  proof (cases "?p = ZERO_ADDRESS")
    case True
    then show ?thesis using False assms more by (simp add: og_delegate_call_def Let_def)
  next
    case p: False
    then obtain v where "og_less (or_checkpoints R ?p) = Some v" using less by blast
    then show ?thesis using False p assms more by (simp add: og_delegate_call_def Let_def)
  qed
qed

section \<open>The registry in the subgraph\<close>

lemma og_delegation_handled:
  assumes "og_delegate_call P ev a d t R = Some (R', es)" and punk: "st_ogpunks s (dec t) = Some og"
  shows "\<exists>s'. handle_events es s = Some s' \<and> st_ogpunks s' (dec t) = Some (og\<lparr>og_delegate := Some d\<rparr>) \<and>
    (\<forall>i. i \<noteq> dec t \<longrightarrow> st_ogpunks s' i = st_ogpunks s i)"
proof -
  have changed: "\<exists>s'. handle_events [OGDelegateChanged ev a f d t] u = Some s' \<and>
      st_ogpunks s' (dec t) = Some (og\<lparr>og_delegate := Some d\<rparr>) \<and> (\<forall>i. i \<noteq> dec t \<longrightarrow> st_ogpunks s' i = st_ogpunks s i)"
    if "st_ogpunks u = st_ogpunks s" for f u
    using that punk by (simp add: handleOGPunkDelegateChanged_def Let_def case_prod_beta ogpunks.load_save)
  have votes: "st_ogpunks (handleOGPunkDelegateVotesChanged e n u) = st_ogpunks u" for e n u
    by (simp add: handleOGPunkDelegateVotesChanged_def Let_def case_prod_beta)
  from assms(1) show ?thesis
  proof (cases rule: og_delegate_call_cases)
    case same
    obtain s' where "handle_events [OGDelegateChanged ev a d d t] s = Some s'"
      "st_ogpunks s' (dec t) = Some (og\<lparr>og_delegate := Some d\<rparr>)" "\<forall>i. i \<noteq> dec t \<longrightarrow> st_ogpunks s' i = st_ogpunks s i"
      using changed [OF refl, of d] by blast
    with same show ?thesis by simp
  next
    case moved
    let ?s1 = "if or_delegates R t = ZERO_ADDRESS then s
      else handleOGPunkDelegateVotesChanged (or_delegates R t) (int (og_votes R' (or_delegates R t))) s"
    let ?s2 = "handleOGPunkDelegateVotesChanged d (int (og_votes R' d)) ?s1"
    have "st_ogpunks ?s2 = st_ogpunks s" by (simp add: votes)
    from changed [OF this, of "or_delegates R t"] moved(8) show ?thesis by (auto simp del: votes split: if_splits)
  qed
qed

text \<open>C23. The votes of the registry are punks: after every sequence of accepted delegations, whoever owns and wraps
  the punks meanwhile, the votes of an address are the number of punks delegated to it, the checkpoints
  of the zero address count the delegated punks, and an owner, a delegate or an approved account can delegate a punk on: neither an underflow nor
  an overflow of votes refuses it.\<close>

theorem registry_votes:
  assumes "registry_run R"
  shows "(\<forall>d. d \<noteq> ZERO_ADDRESS \<longrightarrow> og_votes R d = card {t. t < 10000 \<and> or_delegates R t = d}) \<and>
    og_votes R ZERO_ADDRESS = card {t. t < 10000 \<and> or_delegates R t \<noteq> ZERO_ADDRESS} \<and>
    (\<forall>P a t d ev. may_delegate P a (or_delegates R t) t \<and> t < 10000 \<and> d \<noteq> ZERO_ADDRESS \<and> block_of ev < 2 ^ 32 - 1 \<longrightarrow>
      (\<exists>R' es. og_delegate_call P ev a d t R = Some (R', es) \<and> or_delegates R' = (or_delegates R)(t := d)))"
proof -
  have ok: "registry_ok R" by (rule registry_run_ok [OF assms])
  have "{..<CRYPTOPUNKS_TOTAL_SUPPLY} = {t. t < 10000 \<and> or_delegates R t \<noteq> ZERO_ADDRESS} \<union> og_delegated R ZERO_ADDRESS"
    by (auto simp: og_delegated_def CRYPTOPUNKS_TOTAL_SUPPLY_def)
  then have "CRYPTOPUNKS_TOTAL_SUPPLY =
      card ({t. t < 10000 \<and> or_delegates R t \<noteq> ZERO_ADDRESS} \<union> og_delegated R ZERO_ADDRESS)"
    by (metis card_lessThan)
  also have "\<dots> = card {t. t < 10000 \<and> or_delegates R t \<noteq> ZERO_ADDRESS} + card (og_delegated R ZERO_ADDRESS)"
    by (rule card_Un_disjoint) (auto simp: og_delegated_def)
  finally have "og_votes R ZERO_ADDRESS = card {t. t < 10000 \<and> or_delegates R t \<noteq> ZERO_ADDRESS}"
    using ok by (simp add: registry_ok_def)
  with ok delegation_accepted [OF ok] show ?thesis
    by (simp add: registry_ok_def og_delegated_def CRYPTOPUNKS_TOTAL_SUPPLY_def)
qed

theorem registry_votes_witness:
  "\<exists>R es. og_delegate_call \<lparr>pc_owner = (\<lambda>_. ''0xa''), pc_wrapper = ''0xw'', pc_wrappedOwner = (\<lambda>_. None), pc_approved = (\<lambda>_ _. False)\<rparr>
      (demo_log 9 0) ''0xa'' ''0xb'' 7 deployed_registry = Some (R, es) \<and> or_delegates R 7 = ''0xb''"
proof -
  let ?P = "\<lparr>pc_owner = (\<lambda>_. ''0xa''), pc_wrapper = ''0xw'', pc_wrappedOwner = (\<lambda>_. None), pc_approved = (\<lambda>_ _. False)\<rparr>"
  have "may_delegate ?P ''0xa'' (or_delegates deployed_registry 7) 7" "''0xb'' \<noteq> ZERO_ADDRESS" "block_of (demo_log 9 0) < 2 ^ 32 - 1"
    by (simp_all add: may_delegate_def ZERO_ADDRESS_def demo_log_def)
  with registry_votes [OF registry_run.deployed] obtain R es where
    "og_delegate_call ?P (demo_log 9 0) ''0xa'' ''0xb'' 7 deployed_registry = Some (R, es)"
    "or_delegates R = (or_delegates deployed_registry)(7 := ''0xb'')" by (metis (no_types, lifting) numeral_less_iff semiring_norm(76,78,81))
  then show ?thesis by auto
qed

end
