(* ===== verification/Web_Propose.thy ===== *)
theory Web_Propose
  imports Web_Dao
begin

text \<open>
  The proposal form of the web application:
  \<open>packages/punks-webapp/src/components/ProposalTransactionFormModal/index.tsx\<close>,
  \<open>pages/CreateProposal/index.tsx\<close> and \<open>components/CreateProposalButton/index.tsx\<close>, with \<open>propose\<close> of
  \<open>NDAOLogicV1.sol\<close>, which takes what they send. The functions of ethers, the number class and
  Etherscan are parameters (\<open>ethers_lib\<close>); markup is left out. The results: a proposal that was
  entered comes back, through contract, subgraph and the list of proposals, as it was entered, and
  what the enabled button promises.
\<close>

section \<open>Transactions and the libraries\<close>

record ProposalTransaction =
  pt_address :: string
  pt_value :: string
  pt_signature :: string
  pt_calldata :: string

text \<open>The functions of an \<open>Interface\<close>: the signature of each and the types of its inputs.\<close>

type_synonym abi = "(string \<times> string list) list"

text \<open>\<open>el_address\<close>, \<open>el_uint\<close> and \<open>el_bytes\<close> are how an argument of a contract call is read and
  stored, \<open>el_canonical\<close> is how the decoded values of given arguments print.\<close>

record ethers_lib =
  el_isAddress :: "string \<Rightarrow> bool"
  el_isNaN :: "string \<Rightarrow> bool"
  el_parseEther :: "string \<Rightarrow> nat result"
  el_formatEther :: "nat \<Rightarrow> string"
  el_encode :: "string list \<Rightarrow> string option list \<Rightarrow> string result"
  el_decode :: "string list \<Rightarrow> string \<Rightarrow> string list result"
  el_canonical :: "string list \<Rightarrow> string option list \<Rightarrow> string list"
  el_interface :: "string \<Rightarrow> abi result"
  el_address :: "string \<Rightarrow> string option"
  el_uint :: "string \<Rightarrow> nat option"
  el_bytes :: "string \<Rightarrow> string option"

section \<open>The form of one transaction\<close>

record tx_form =
  tf_address :: string
  tf_abi :: "abi option"
  tf_value :: string
  tf_func :: string
  tf_args :: "string option list"
  tf_isABIUploadValid :: "bool option"
  tf_abiFileName :: "string option"

definition initial_form :: tx_form where
  "initial_form =
     \<lparr>tf_address = [], tf_abi = None, tf_value = [], tf_func = [], tf_args = [],
      tf_isABIUploadValid = None, tf_abiFileName = Some []\<rparr>"

definition clearState :: tx_form where
  "clearState = initial_form\<lparr>tf_abiFileName := None\<rparr>"

definition valueValidator :: "ethers_lib \<Rightarrow> string \<Rightarrow> bool" where
  "valueValidator E v \<longleftrightarrow> v = [] \<or> \<not> el_isNaN E v"

text \<open>\<open>abi?._encodeParams(abi?.functions[func]?.inputs, args)\<close>: \<open>None\<close> without an interface; with
  one, a function it does not have makes the call throw.\<close>

definition encodeParams :: "ethers_lib \<Rightarrow> tx_form \<Rightarrow> string option result" where
  "encodeParams E form =
     (case tf_abi form of
        None \<Rightarrow> Inr None
      | Some abi \<Rightarrow>
          (case map_of abi (tf_func form) of
             None \<Rightarrow> Inl TypeError
           | Some inputs \<Rightarrow> rbind (el_encode E inputs (tf_args form)) (\<lambda>c. Inr (Some c))))"

definition argumentsValidator :: "ethers_lib \<Rightarrow> tx_form \<Rightarrow> bool" where
  "argumentsValidator E form =
     (if tf_func form = [] then True
      else (case encodeParams E form of Inr c \<Rightarrow> truthy c | Inl _ \<Rightarrow> False))"

text \<open>Writing past the end of an array leaves holes.\<close>

definition js_set :: "'a option list \<Rightarrow> nat \<Rightarrow> 'a \<Rightarrow> 'a option list" where
  "js_set xs i v =
     (if i < length xs then xs[i := Some v] else xs @ replicate (i - length xs) None @ [Some v])"

definition setArgument :: "nat \<Rightarrow> string \<Rightarrow> tx_form \<Rightarrow> tx_form" where
  "setArgument i v form = form\<lparr>tf_args := js_set (tf_args form) i v\<rparr>"

definition setABIInvalid :: "tx_form \<Rightarrow> tx_form" where
  "setABIInvalid form = form\<lparr>tf_isABIUploadValid := Some False, tf_abiFileName := None\<rparr>"

text \<open>Five seconds later the mark disappears. The variable that holds the timer belongs to one
  rendering, so that a timer set by an earlier rendering is never cleared.\<close>

definition abiErrorTimeout :: "tx_form \<Rightarrow> tx_form" where
  "abiErrorTimeout form = form\<lparr>tf_isABIUploadValid := None\<rparr>"

text \<open>A file: its name and its text, once it has been read.\<close>

definition validateAndSetABI :: "ethers_lib \<Rightarrow> (string \<times> string) option \<Rightarrow> tx_form \<Rightarrow> tx_form" where
  "validateAndSetABI E file form =
     (case file of
        None \<Rightarrow> form
      | Some (name, content) \<Rightarrow>
          (case el_interface E content of
             Inr abi \<Rightarrow> form\<lparr>tf_abi := Some abi, tf_isABIUploadValid := Some True, tf_abiFileName := Some name\<rparr>
           | Inl _ \<Rightarrow> setABIInvalid form))"

record contract_info =
  ci_Proxy :: string
  ci_Implementation :: string
  ci_ABI :: string

text \<open>\<open>etherscan\<close> is the answer of \<open>getContractInformation\<close>.\<close>

definition getABI :: "ethers_lib \<Rightarrow> (string \<Rightarrow> contract_info option result) \<Rightarrow> string \<Rightarrow> string result" where
  "getABI E etherscan address =
     rbind (etherscan address) (\<lambda>info.
     rbind (case info of
              Some i \<Rightarrow> if ci_Proxy i = ''1'' \<and> el_isAddress E (ci_Implementation i)
                        then etherscan (ci_Implementation i) else Inr info
            | None \<Rightarrow> Inr info) (\<lambda>info'.
       of_option TypeError (map_option ci_ABI info')))"

definition populateABIIfExists ::
  "ethers_lib \<Rightarrow> (string \<Rightarrow> contract_info option result) \<Rightarrow> string \<Rightarrow> tx_form \<Rightarrow> tx_form" where
  "populateABIIfExists E etherscan address form =
     (case rbind (getABI E etherscan address) (el_interface E) of
        Inr abi \<Rightarrow> form\<lparr>tf_abi := Some abi, tf_isABIUploadValid := Some True,
                        tf_abiFileName := Some ''etherscan-abi-download.json''\<rparr>
      | Inl _ \<Rightarrow> form\<lparr>tf_isABIUploadValid := None, tf_abiFileName := None\<rparr>)"

text \<open>The verdict, and the form once Etherscan has answered.\<close>

definition addressValidator ::
  "ethers_lib \<Rightarrow> (string \<Rightarrow> contract_info option result) \<Rightarrow> tx_form \<Rightarrow> bool \<times> tx_form" where
  "addressValidator E etherscan form =
     (if \<not> el_isAddress E (tf_address form) then (False, form)
      else (True, populateABIIfExists E etherscan (tf_address form) form))"

definition form_transaction :: "ethers_lib \<Rightarrow> tx_form \<Rightarrow> ProposalTransaction result" where
  "form_transaction E form =
     rbind (if tf_value form \<noteq> [] then rbind (el_parseEther E (tf_value form)) (\<lambda>n. Inr (dec n)) else Inr ''0'') (\<lambda>value.
     rbind (if tf_func form = [] then Inr None else encodeParams E form) (\<lambda>calldata.
       Inr \<lparr>pt_address = tf_address form, pt_value = value, pt_signature = tf_func form,
            pt_calldata = (if truthy calldata then the calldata else ''0x'')\<rparr>))"

text \<open>The button: before the last step it asks the stepper to go on, there it hands the transaction
  over and clears the form; an exception leaves the form as it is.\<close>

datatype step_result = Forward | Added ProposalTransaction tx_form

definition stepForwardOrCallback :: "ethers_lib \<Rightarrow> nat \<Rightarrow> tx_form \<Rightarrow> step_result result" where
  "stepForwardOrCallback E currentStep form =
     (if currentStep \<noteq> 5 - 1 then Inr Forward
      else rbind (form_transaction E form) (\<lambda>t. Inr (Added t clearState)))"

section \<open>The page\<close>

definition startsWith :: "string \<Rightarrow> string \<Rightarrow> bool" where
  "startsWith p s \<longleftrightarrow> take (length p) s = p"

definition with_0x :: "string \<Rightarrow> string" where
  "with_0x s = (if startsWith ''0x'' s then s else ''0x'' @ s)"

definition handleAddProposalAction :: "ProposalTransaction \<Rightarrow> ProposalTransaction list \<Rightarrow> ProposalTransaction list" where
  "handleAddProposalAction t ts =
     ts @ [t\<lparr>pt_address := with_0x (pt_address t), pt_calldata := with_0x (pt_calldata t)\<rparr>]"

definition handleRemoveProposalAction :: "nat \<Rightarrow> ProposalTransaction list \<Rightarrow> ProposalTransaction list" where
  "handleRemoveProposalAction i ts = map snd (filter (\<lambda>(j, t). j \<noteq> i) (zip [0..<length ts] ts))"

definition isFormInvalid :: "ProposalTransaction list \<Rightarrow> string \<Rightarrow> string \<Rightarrow> bool" where
  "isFormInvalid ts title body \<longleftrightarrow> ts = [] \<or> title = [] \<or> body = []"

text \<open>\<open>useUserVotes\<close> and the comparison with the threshold; \<open>None\<close> is a value not loaded yet.\<close>

definition userVotes :: "string option \<Rightarrow> nat option \<Rightarrow> nat option \<Rightarrow> nat" where
  "userVotes account accountVotes cryptopunksVotes =
     (let a = (case accountVotes of None \<Rightarrow> 0 | Some n \<Rightarrow> n);
          c = (case cryptopunksVotes of None \<Rightarrow> 0 | Some n \<Rightarrow> n)
      in if account \<noteq> None \<and> account \<noteq> Some [] then a + c else 0)"

definition hasEnoughVote :: "nat \<Rightarrow> nat option \<Rightarrow> bool" where
  "hasEnoughVote availableVotes proposalThreshold \<longleftrightarrow>
     availableVotes \<noteq> 0 \<and> (case proposalThreshold of None \<Rightarrow> False | Some t \<Rightarrow> availableVotes > t)"

definition hasActiveOrPendingProposal :: "Proposal option \<Rightarrow> string option \<Rightarrow> bool" where
  "hasActiveOrPendingProposal latestProposal account =
     (case latestProposal of
        None \<Rightarrow> False
      | Some p \<Rightarrow> (po_status p = S_ACTIVE \<or> po_status p = S_PENDING) \<and> po_proposer p = account)"

definition create_disabled :: "bool \<Rightarrow> bool \<Rightarrow> bool \<Rightarrow> bool" where
  "create_disabled formInvalid activeOrPending enoughVote \<longleftrightarrow> formInvalid \<or> activeOrPending \<or> \<not> enoughVote"

text \<open>The text on the button; \<open>None\<close> is the spinner. \<open>i18n_number\<close> prints a number in the language chosen.\<close>

definition create_button_text :: "(nat \<Rightarrow> string) \<Rightarrow> bool \<Rightarrow> bool \<Rightarrow> bool \<Rightarrow> nat option \<Rightarrow> string option" where
  "create_button_text i18n_number isLoading activeOrPending enoughVote proposalThreshold =
     (if isLoading then None
      else Some (
        if activeOrPending then ''You already have an active or pending proposal''
        else if \<not> enoughVote
        then (case proposalThreshold of
                Some (Suc t) \<Rightarrow> ''You must have '' @ i18n_number (Suc t + 1) @ '' votes to submit a proposal''
              | _ \<Rightarrow> ''You don'' @ [CHR 0x27] @ ''t have enough votes to submit a proposal'')
        else ''Create Proposal''))"

record propose_call =
  pc_targets :: "string list"
  pc_values :: "string list"
  pc_signatures :: "string list"
  pc_calldatas :: "string list"
  pc_description :: string

definition proposal_text :: "string \<Rightarrow> string \<Rightarrow> string" where
  "proposal_text title body = ''# '' @ title @ [CHR 0x0A, CHR 0x0A] @ body"

definition handleCreateProposal :: "ProposalTransaction list \<Rightarrow> string \<Rightarrow> string \<Rightarrow> propose_call option" where
  "handleCreateProposal ts title body =
     (if ts = [] then None
      else Some \<lparr>pc_targets = map pt_address ts, pc_values = map pt_value ts, pc_signatures = map pt_signature ts,
                 pc_calldatas = map pt_calldata ts, pc_description = proposal_text title body\<rparr>)"

section \<open>The contract\<close>

text \<open>The state \<open>propose\<close> reads; \<open>gc_priorVotes\<close> and \<open>gc_priorCryptopunksVotes\<close> are the votes of an
  account at a block in the two registries.\<close>

record governor =
  gc_npunksSupply :: nat
  gc_cryptopunksSupply :: nat
  gc_priorVotes :: "string \<Rightarrow> nat \<Rightarrow> nat"
  gc_priorCryptopunksVotes :: "string \<Rightarrow> nat \<Rightarrow> nat"
  gc_proposalThresholdBPS :: nat
  gc_quorumVotesBPS :: nat
  gc_votingDelay :: nat
  gc_votingPeriod :: nat
  gc_proposalMaxOperations :: nat
  gc_proposalCount :: nat
  gc_proposals :: "nat \<Rightarrow> chain_proposal"
  gc_latestProposalIds :: "string \<Rightarrow> nat"

definition bps2Uint :: "nat \<Rightarrow> nat \<Rightarrow> nat" where
  "bps2Uint bps number = number * bps div 10000"

definition proposalThreshold :: "governor \<Rightarrow> nat" where
  "proposalThreshold g = bps2Uint (gc_proposalThresholdBPS g) (gc_npunksSupply g + gc_cryptopunksSupply g)"

definition live :: "ProposalState \<Rightarrow> bool" where
  "live st \<longleftrightarrow> st = S_ACTIVE \<or> st = S_PENDING"

definition propose ::
  "string \<Rightarrow> nat \<Rightarrow> nat \<Rightarrow> string list \<Rightarrow> int list \<Rightarrow> string list \<Rightarrow> string list \<Rightarrow> string \<Rightarrow> governor \<Rightarrow>
     (governor \<times> proposal_params) option" where
  "propose sender block time targets values signatures calldatas description g =
     (let supply = gc_npunksSupply g + gc_cryptopunksSupply g;
          threshold = bps2Uint (gc_proposalThresholdBPS g) supply;
          latest = gc_latestProposalIds g sender;
          startBlock = block + gc_votingDelay g;
          endBlock = startBlock + gc_votingPeriod g;
          pid = gc_proposalCount g + 1;
          quorum = bps2Uint (gc_quorumVotesBPS g) supply
      in if \<not> gc_priorVotes g sender (block - 1) + gc_priorCryptopunksVotes g sender (block - 1) > threshold then None
         else if length targets \<noteq> length values \<or> length targets \<noteq> length signatures \<or>
                 length targets \<noteq> length calldatas then None
         else if length targets = 0 then None
         else if length targets > gc_proposalMaxOperations g then None
         else if latest \<noteq> 0 \<and> live (chain_state block time (gc_proposals g latest)) then None
         else Some (g\<lparr>gc_proposalCount := pid,
                      gc_proposals := (gc_proposals g)(pid :=
                        \<lparr>cp_startBlock = startBlock, cp_endBlock = endBlock, cp_forVotes = 0, cp_againstVotes = 0,
                         cp_quorumVotes = quorum, cp_eta = 0, cp_executed = False, cp_canceled = False,
                         cp_vetoed = False\<rparr>),
                      gc_latestProposalIds := (gc_latestProposalIds g)(sender := pid)\<rparr>,
                    \<lparr>pp_id = pid, pp_proposer = sender, pp_targets = targets, pp_values = values,
                     pp_signatures = signatures, pp_calldatas = calldatas, pp_startBlock = int startBlock,
                     pp_endBlock = int endBlock, pp_proposalThreshold = int threshold,
                     pp_quorumVotes = int quorum, pp_description = description\<rparr>))"

text \<open>The call as ethers sends it: every argument is read as its type, or the call throws.\<close>

definition send_propose ::
  "ethers_lib \<Rightarrow> string \<Rightarrow> nat \<Rightarrow> nat \<Rightarrow> propose_call \<Rightarrow> governor \<Rightarrow> (governor \<times> proposal_params) option result" where
  "send_propose E sender block time c g =
     rbind (rmap_list (\<lambda>s. of_option TypeError (el_address E s)) (pc_targets c)) (\<lambda>targets.
     rbind (rmap_list (\<lambda>s. of_option TypeError (el_uint E s)) (pc_values c)) (\<lambda>values.
     rbind (rmap_list (\<lambda>s. of_option TypeError (el_bytes E s)) (pc_calldatas c)) (\<lambda>calldatas.
       Inr (propose sender block time targets (map int values) (pc_signatures c) calldatas (pc_description c) g))))"

section \<open>What comes back\<close>

definition ethers_ok :: "ethers_lib \<Rightarrow> bool" where
  "ethers_ok E \<longleftrightarrow>
     (\<forall>n. el_uint E (dec n) = Some n) \<and> el_bytes E ''0x'' \<noteq> None \<and>
     (\<forall>inputs args c. el_encode E inputs args = Inr c \<longrightarrow>
        startsWith ''0x'' c \<and>
        (\<exists>b. el_bytes E c = Some b \<and> el_decode E inputs b = Inr (el_canonical E inputs args)))"

definition plain_types :: "string list \<Rightarrow> bool" where
  "plain_types inputs \<longleftrightarrow> list_all (\<lambda>t. t \<noteq> [] \<and> CHR ''('' \<notin> set t \<and> CHR '','' \<notin> set t) inputs"

definition function_name :: "string \<Rightarrow> string" where
  "function_name func = takeWhile (\<lambda>c. c \<noteq> CHR ''('') func"

definition plain_signature :: "string \<Rightarrow> string list \<Rightarrow> bool" where
  "plain_signature func inputs \<longleftrightarrow>
     function_name func \<noteq> [] \<and> plain_types inputs \<and>
     func = function_name func @ ''('' @ join '','' inputs @ '')''"

text \<open>A form that is filled in: an address the contract call takes, a value in ether or none, and no
  function or one of the interface, with arguments the validator accepts.\<close>

definition form_ok :: "ethers_lib \<Rightarrow> tx_form \<Rightarrow> bool" where
  "form_ok E form \<longleftrightarrow>
     el_address E (with_0x (tf_address form)) \<noteq> None \<and>
     (tf_value form = [] \<or> \<not> isl (el_parseEther E (tf_value form))) \<and>
     (tf_func form = [] \<or>
      (case Option.bind (tf_abi form) (\<lambda>abi. map_of abi (tf_func form)) of
         None \<Rightarrow> False
       | Some inputs \<Rightarrow> plain_signature (tf_func form) inputs \<and> argumentsValidator E form))"

definition form_value :: "ethers_lib \<Rightarrow> tx_form \<Rightarrow> nat" where
  "form_value E form = (if tf_value form = [] then 0 else projr (el_parseEther E (tf_value form)))"

definition form_inputs :: "tx_form \<Rightarrow> string list" where
  "form_inputs form = the (Option.bind (tf_abi form) (\<lambda>abi. map_of abi (tf_func form)))"

text \<open>How the list of proposals shows a transaction of the form.\<close>

definition shown_tx :: "ethers_lib \<Rightarrow> tx_form \<Rightarrow> ProposalDetail" where
  "shown_tx E form =
     (let target = the (el_address E (with_0x (tf_address form)));
          val = form_value E form;
          amount = el_formatEther E val @ '' ETH''
      in if tf_func form = []
         then \<lparr>pd_target = target, pd_value = None, pd_functionSig = ''transfer'', pd_callData = amount\<rparr>
         else if form_inputs form = []
         then \<lparr>pd_target = target, pd_value = None, pd_functionSig = function_name (tf_func form), pd_callData = amount\<rparr>
         else \<lparr>pd_target = target,
               pd_value = Some (if val > 0 then ''{ value: '' @ el_formatEther E val @ '' ETH }'' else []),
               pd_functionSig = function_name (tf_func form),
               pd_callData = join '','' (el_canonical E (form_inputs form) (tf_args form))\<rparr>)"

definition entered :: "ethers_lib \<Rightarrow> tx_form list \<Rightarrow> ProposalTransaction list result" where
  "entered E forms =
     rbind (rmap_list (form_transaction E) forms) (\<lambda>ts. Inr (foldl (\<lambda>l t. handleAddProposalAction t l) [] ts))"

definition plain_title :: "string \<Rightarrow> bool" where
  "plain_title t \<longleftrightarrow>
     t \<noteq> [] \<and> \<not> is_ws (hd t) \<and> list_all not_newline t \<and> index_of ''**'' t = None \<and> index_of ''__'' t = None"

lemma split_str_none: "sep \<noteq> [] \<Longrightarrow> index_of sep s = None \<Longrightarrow> split_str sep s = [s]"
  by (subst split_str.simps) simp

lemma unescape_plain: "index_of [CHR 0x5C, CHR ''n''] d = None \<Longrightarrow> unescape_newlines d = d"
  by (simp add: unescape_newlines_def split_str_none)

lemma hash_title:
  assumes "plain_title title"
  shows "extractHashTitle (proposal_text title body) = Some title"
proof -
  obtain c cs where t: "title = c # cs" "\<not> is_ws c" using assms by (cases title) (auto simp: plain_title_def)
  have line: "takeWhile not_newline (title @ CHR 0x0A # CHR 0x0A # body) = title"
    using assms by (simp add: plain_title_def list_all_iff not_newline_def)
  have ws: "\<not> is_ws CHR ''#''" "is_ws CHR '' ''" by (simp_all add: is_ws_def)
  then have "takeWhile is_ws (CHR '' '' # title @ CHR 0x0A # CHR 0x0A # body) = '' ''" using t by simp
  then show ?thesis
    using ws line t(1) by (simp add: extractHashTitle_def proposal_text_def Let_def)
qed

lemma shown_title:
  assumes "plain_title title"
  shows "proposal_title (Some (proposal_text title body)) = title"
proof -
  have "extractTitle (Some (proposal_text title body)) = Some title"
    using hash_title [OF assms, of body] by (simp add: extractTitle_def proposal_text_def)
  then show ?thesis
    using assms
    by (simp add: proposal_title_def removeMarkdownStyle_def removeBold_def removeItalics_def plain_title_def split_str_none)
qed


text \<open>The detail of one transaction, whatever its position.\<close>

lemma signature_parts:
  assumes "plain_signature func inputs"
  shows "split_str ''('' (substring func 0 (length func - 1)) = [function_name func, join '','' inputs]"
    "join '','' inputs = [] \<longleftrightarrow> inputs = []"
    "inputs \<noteq> [] \<Longrightarrow> split_str '','' (join '','' inputs) = inputs"
proof -
  let ?nm = "function_name func" and ?ts = "join '','' inputs"
  have f: "func = ?nm @ ''('' @ ?ts @ '')''" and plain: "plain_types inputs"
    using assms by (simp_all add: plain_signature_def)
  have nm: "CHR ''('' \<notin> set ?nm" by (auto simp: function_name_def dest: set_takeWhileD)
  have ts: "CHR ''('' \<notin> set ?ts"
    using plain
  proof (induction inputs)
    case (Cons t inputs)
    then show ?case by (cases "inputs = []") (auto simp: plain_types_def join_Cons)
  qed simp
  have "substring func 0 (length func - 1) = ?nm @ CHR ''('' # ?ts"
    using arg_cong [OF f, of butlast] by (simp add: substring_def butlast_append butlast_conv_take)
  then show "split_str ''('' (substring func 0 (length func - 1)) = [?nm, ?ts]"
    using nm ts by (simp add: split_str_char_append split_str_char_single)
  show "?ts = [] \<longleftrightarrow> inputs = []"
    using plain by (cases inputs; cases "tl inputs") (auto simp: plain_types_def)
  show "inputs \<noteq> [] \<Longrightarrow> split_str '','' ?ts = inputs"
    using plain by (intro split_str_join) (auto simp: plain_types_def list_all_iff)
qed


lemma form_transaction_ok:
  assumes "ethers_ok E" and "form_ok E form"
  obtains c where
    "form_transaction E form = Inr \<lparr>pt_address = tf_address form, pt_value = dec (form_value E form),
       pt_signature = tf_func form, pt_calldata = c\<rparr>"
    "with_0x c = c" "el_bytes E c \<noteq> None"
    "tf_func form = [] \<and> c = ''0x'' \<or>
     tf_func form \<noteq> [] \<and> plain_signature (tf_func form) (form_inputs form) \<and>
       el_encode E (form_inputs form) (tf_args form) = Inr c"
proof (cases "tf_func form = []")
  case True
  have "form_transaction E form = Inr \<lparr>pt_address = tf_address form, pt_value = dec (form_value E form),
       pt_signature = tf_func form, pt_calldata = ''0x''\<rparr>"
    using assms(2) True
    by (cases "el_parseEther E (tf_value form)")
      (auto simp: form_transaction_def form_ok_def form_value_def truthy_def nat_to_base.simps digit_char_0)
  moreover have "with_0x ''0x'' = ''0x''" by (simp add: with_0x_def startsWith_def)
  moreover have "el_bytes E ''0x'' \<noteq> None" using assms(1) by (simp add: ethers_ok_def)
  ultimately show thesis using True that by blast
next
  case False
  then obtain abi inputs where f: "tf_abi form = Some abi" "map_of abi (tf_func form) = Some inputs"
      "plain_signature (tf_func form) inputs" "argumentsValidator E form"
    using assms(2) False by (auto simp: form_ok_def bind_eq_Some_conv split: option.splits)
  then obtain c where c: "el_encode E inputs (tf_args form) = Inr c" "c \<noteq> []"
    using False by (auto simp: argumentsValidator_def encodeParams_def truthy_def split: sum.splits)
  have enc: "startsWith ''0x'' c" "\<exists>b. el_bytes E c = Some b"
    using assms(1) c(1) unfolding ethers_ok_def by blast+
  have "with_0x c = c" using enc(1) by (simp add: with_0x_def)
  moreover have "el_bytes E c \<noteq> None" using enc(2) by auto
  moreover have "form_transaction E form = Inr \<lparr>pt_address = tf_address form, pt_value = dec (form_value E form),
       pt_signature = tf_func form, pt_calldata = c\<rparr>"
    using assms(2) False f c
    by (cases "el_parseEther E (tf_value form)")
      (auto simp: form_transaction_def form_ok_def form_value_def truthy_def encodeParams_def nat_to_base.simps digit_char_0)
  ultimately show thesis using False f c(1) that by (simp add: form_inputs_def)
qed

lemma shown_detail:
  assumes E: "ethers_ok E" and form: "form_ok E form"
    and t: "form_transaction E form = Inr t" and b: "el_bytes E (with_0x (pt_calldata t)) = Some b"
    and i: "i < length sigs" "sigs ! i = pt_signature t" "valueAt i = Some (pt_value t)"
      "i < length cds" "cds ! i = b"
  shows "format_detail (\<lambda>v. the (el_uint E v)) (el_formatEther E) (el_decode E) sigs valueAt cds
      (i, the (el_address E (with_0x (tf_address form)))) = Inr (shown_tx E form)"
proof -
  obtain c where c: "t = \<lparr>pt_address = tf_address form, pt_value = dec (form_value E form),
       pt_signature = tf_func form, pt_calldata = c\<rparr>" "with_0x c = c"
      "tf_func form = [] \<and> c = ''0x'' \<or>
       tf_func form \<noteq> [] \<and> plain_signature (tf_func form) (form_inputs form) \<and>
         el_encode E (form_inputs form) (tf_args form) = Inr c"
    using form_transaction_ok [OF E form] t by (metis sum.inject(2))
  have uint: "the (el_uint E (dec (form_value E form))) = form_value E form"
    using E by (simp add: ethers_ok_def)
  show ?thesis
  proof (cases "tf_func form = []")
    case True
    then show ?thesis
      using i c(1) uint split_str_char_single [of "CHR ''(''" "[]"]
      by (simp add: format_detail_def shown_tx_def Let_def substring_def)
  next
    case False
    then have sig: "plain_signature (tf_func form) (form_inputs form)"
        "el_encode E (form_inputs form) (tf_args form) = Inr c"
      using c(3) by simp_all
    have dec: "el_decode E (form_inputs form) b = Inr (el_canonical E (form_inputs form) (tf_args form))"
      using E sig(2) b c(1,2) by (fastforce simp: ethers_ok_def)
    have "function_name (tf_func form) \<noteq> []" using sig(1) by (simp add: plain_signature_def)
    with False show ?thesis
      using i c(1) uint dec signature_parts [OF sig(1)]
      by (auto simp: format_detail_def shown_tx_def Let_def)
  qed
qed


lemma entered_transactions:
  "entered E forms = rbind (rmap_list (form_transaction E) forms) (\<lambda>ts.
     Inr (map (\<lambda>t. t\<lparr>pt_address := with_0x (pt_address t), pt_calldata := with_0x (pt_calldata t)\<rparr>) ts))"
proof -
  let ?f = "\<lambda>t. t\<lparr>pt_address := with_0x (pt_address t), pt_calldata := with_0x (pt_calldata t)\<rparr>"
  have "foldl (\<lambda>l t. handleAddProposalAction t l) acc ts = acc @ map ?f ts" for acc ts
    by (induction ts arbitrary: acc) (simp_all add: handleAddProposalAction_def)
  then show ?thesis by (simp add: entered_def)
qed

lemma rmap_list_ok:
  "(\<And>x. x \<in> set xs \<Longrightarrow> \<exists>y. f x = Inr y) \<Longrightarrow> rmap_list f xs = Inr (map (projr \<circ> f) xs)"
  by (rule rmap_list_all_Inr) force

text \<open>The arguments of the call, read by ethers.\<close>

lemma forms_sent:
  assumes E: "ethers_ok E" and forms: "\<forall>f \<in> set forms. form_ok E f"
  defines "tx f \<equiv> projr (form_transaction E f)"
  shows "entered E forms = Inr (map (\<lambda>f. (tx f)\<lparr>pt_address := with_0x (tf_address f)\<rparr>) forms)"
    "rmap_list (\<lambda>s. of_option TypeError (el_address E s)) (map (\<lambda>f. with_0x (tf_address f)) forms) =
       Inr (map (\<lambda>f. the (el_address E (with_0x (tf_address f)))) forms)"
    "rmap_list (\<lambda>s. of_option TypeError (el_uint E s)) (map (\<lambda>f. pt_value (tx f)) forms) = Inr (map (form_value E) forms)"
    "rmap_list (\<lambda>s. of_option TypeError (el_bytes E s)) (map (\<lambda>f. pt_calldata (tx f)) forms) =
       Inr (map (\<lambda>f. the (el_bytes E (pt_calldata (tx f)))) forms)"
    "f \<in> set forms \<Longrightarrow> form_transaction E f = Inr (tx f) \<and> with_0x (pt_calldata (tx f)) = pt_calldata (tx f) \<and>
       pt_value (tx f) = dec (form_value E f) \<and> pt_signature (tx f) = tf_func f \<and>
       el_bytes E (pt_calldata (tx f)) \<noteq> None"
proof -
  have tx: "form_transaction E f = Inr (tx f)" "with_0x (pt_calldata (tx f)) = pt_calldata (tx f)"
      "pt_address (tx f) = tf_address f" "pt_value (tx f) = dec (form_value E f)" "pt_signature (tx f) = tf_func f"
      "el_bytes E (pt_calldata (tx f)) \<noteq> None" if f: "f \<in> set forms" for f
  proof -
    obtain c where "form_transaction E f = Inr \<lparr>pt_address = tf_address f, pt_value = dec (form_value E f),
         pt_signature = tf_func f, pt_calldata = c\<rparr>" "with_0x c = c" "el_bytes E c \<noteq> None"
      by (rule form_transaction_ok [OF E bspec [OF forms f]])
    then show "form_transaction E f = Inr (tx f)" "with_0x (pt_calldata (tx f)) = pt_calldata (tx f)"
      "pt_address (tx f) = tf_address f" "pt_value (tx f) = dec (form_value E f)" "pt_signature (tx f) = tf_func f"
      "el_bytes E (pt_calldata (tx f)) \<noteq> None"
      by (simp_all add: tx_def)
  qed
  show "f \<in> set forms \<Longrightarrow> form_transaction E f = Inr (tx f) \<and> with_0x (pt_calldata (tx f)) = pt_calldata (tx f) \<and>
       pt_value (tx f) = dec (form_value E f) \<and> pt_signature (tx f) = tf_func f \<and>
       el_bytes E (pt_calldata (tx f)) \<noteq> None"
    using tx by blast
  have "rmap_list (form_transaction E) forms = Inr (map tx forms)"
    by (rule rmap_list_all_Inr) (rule tx(1))
  then show "entered E forms = Inr (map (\<lambda>f. (tx f)\<lparr>pt_address := with_0x (tf_address f)\<rparr>) forms)"
    using tx(2,3) by (simp add: entered_transactions)
  show "rmap_list (\<lambda>s. of_option TypeError (el_address E s)) (map (\<lambda>f. with_0x (tf_address f)) forms) =
       Inr (map (\<lambda>f. the (el_address E (with_0x (tf_address f)))) forms)"
    using forms by (induction forms) (auto simp: form_ok_def)
  show "rmap_list (\<lambda>s. of_option TypeError (el_uint E s)) (map (\<lambda>f. pt_value (tx f)) forms) = Inr (map (form_value E) forms)"
    using tx(4) E by (induction forms) (auto simp: ethers_ok_def)
  show "rmap_list (\<lambda>s. of_option TypeError (el_bytes E s)) (map (\<lambda>f. pt_calldata (tx f)) forms) =
       Inr (map (\<lambda>f. the (el_bytes E (pt_calldata (tx f)))) forms)"
    using tx(6) by (induction forms) auto
qed

section \<open>From the form to the list of proposals\<close>

text \<open>What an account proposes: the forms it filled in, a title and a body.\<close>

definition submit_forms ::
  "ethers_lib \<Rightarrow> string \<Rightarrow> nat \<Rightarrow> nat \<Rightarrow> tx_form list \<Rightarrow> string \<Rightarrow> string \<Rightarrow> governor \<Rightarrow>
     (governor \<times> proposal_params) option result" where
  "submit_forms E sender block time forms title body g =
     rbind (entered E forms) (\<lambda>ts.
       case handleCreateProposal ts title body of
         None \<Rightarrow> Inr None
       | Some call \<Rightarrow> send_propose E sender block time call g)"

definition may_propose :: "string \<Rightarrow> nat \<Rightarrow> nat \<Rightarrow> nat \<Rightarrow> governor \<Rightarrow> bool" where
  "may_propose sender block time n g \<longleftrightarrow>
     proposalThreshold g < gc_priorVotes g sender (block - 1) + gc_priorCryptopunksVotes g sender (block - 1) \<and>
     0 < n \<and> n \<le> gc_proposalMaxOperations g \<and>
     (gc_latestProposalIds g sender = 0 \<or>
      \<not> live (chain_state block time (gc_proposals g (gc_latestProposalIds g sender))))"

lemma propose_accepts:
  assumes "length values = length targets" "length signatures = length targets" "length calldatas = length targets"
  shows "propose sender block time targets values signatures calldatas description g \<noteq> None \<longleftrightarrow>
    may_propose sender block time (length targets) g"
  using assms by (auto simp: propose_def may_propose_def proposalThreshold_def Let_def)

lemma submit_forms_sent:
  assumes E: "ethers_ok E" and forms: "\<forall>f \<in> set forms. form_ok E f" "forms \<noteq> []"
  shows "submit_forms E sender block time forms title body g =
    Inr (propose sender block time (map (\<lambda>f. the (el_address E (with_0x (tf_address f)))) forms)
      (map (\<lambda>f. int (form_value E f)) forms) (map tf_func forms)
      (map (\<lambda>f. the (el_bytes E (pt_calldata (projr (form_transaction E f))))) forms) (proposal_text title body) g)"
proof -
  note sent = forms_sent [OF E forms(1)]
  have sigs: "map (\<lambda>f. pt_signature (projr (form_transaction E f))) forms = map tf_func forms"
    using sent(5) by simp
  show ?thesis
    using forms(2) sent(2,3,4)
    by (simp add: submit_forms_def sent(1) handleCreateProposal_def send_propose_def comp_def sigs)
qed

lemma shown_details:
  assumes E: "ethers_ok E" and forms: "\<forall>f \<in> set forms. form_ok E f"
  shows "formatProposalTransactionDetails (\<lambda>v. the (el_uint E v)) (el_formatEther E) (el_decode E)
     (map (\<lambda>f. the (el_address E (with_0x (tf_address f)))) forms)
     (\<lambda>i. if i < length forms then Some (map (\<lambda>f. dec (form_value E f)) forms ! i) else None) (map tf_func forms)
     (map (\<lambda>f. the (el_bytes E (pt_calldata (projr (form_transaction E f))))) forms) = Inr (map (shown_tx E) forms)"
    (is "formatProposalTransactionDetails ?bn ?fmt ?decode ?targets ?vals ?sigs ?cds = _")
proof -
  note sent = forms_sent(5) [OF E forms]
  have "format_detail ?bn ?fmt ?decode ?sigs ?vals ?cds x = Inr (shown_tx E (forms ! fst x))"
    if x: "x \<in> set (zip [0..<length ?targets] ?targets)" for x
  proof -
    obtain i where i: "i < length forms" "x = (i, the (el_address E (with_0x (tf_address (forms ! i)))))"
      using x by (auto simp: set_zip)
    note s = sent [of "forms ! i", OF nth_mem [OF i(1)]]
    obtain b where b: "el_bytes E (pt_calldata (projr (form_transaction E (forms ! i)))) = Some b" using s by auto
    have "form_ok E (forms ! i)" using forms i(1) by simp
    from shown_detail [OF E this, of "projr (form_transaction E (forms ! i))" b i ?sigs ?vals ?cds] s b i
    show ?thesis by simp
  qed
  then have "formatProposalTransactionDetails ?bn ?fmt ?decode ?targets ?vals ?sigs ?cds =
      Inr (map (\<lambda>x. shown_tx E (forms ! fst x)) (zip [0..<length ?targets] ?targets))"
    unfolding formatProposalTransactionDetails_def by (rule rmap_list_all_Inr)
  also have "map (\<lambda>x. shown_tx E (forms ! fst x)) (zip [0..<length ?targets] ?targets) = map (shown_tx E) forms"
    by (rule nth_equalityI) simp_all
  finally show ?thesis .
qed

text \<open>The entity the subgraph creates for an accepted proposal, before anybody votes.\<close>

lemma proposed_entity:
  assumes "st_proposals s (dec (pp_id params)) = None"
  shows "\<exists>e. st_proposals (handleProposalCreatedWithRequirements ev params s) (dec (pp_id params)) = Some e \<and>
    pr_proposer e = pp_proposer params \<and> pr_targets e = pp_targets params \<and> pr_values e = pp_values params \<and>
    pr_signatures e = pp_signatures params \<and> pr_calldatas e = pp_calldatas params \<and>
    pr_description e = unescape_newlines (pp_description params) \<and> pr_startBlock e = pp_startBlock params \<and>
    pr_status e = (if ev_number ev \<ge> pp_startBlock params then ACTIVE else PENDING)"
  using assms
  by (simp add: handleProposalCreatedWithRequirements_def getOrCreateProposal_def Let_def case_prod_beta proposals.load_save)


definition demo_ethers :: ethers_lib where
  "demo_ethers =
     \<lparr>el_isAddress = (\<lambda>s. s \<noteq> []), el_isNaN = (\<lambda>s. parseInt 10 s = None),
      el_parseEther = (\<lambda>s. map_sum id nat (of_option TypeError (parseInt 10 s))), el_formatEther = dec,
      el_encode = (\<lambda>inputs args. if list_all (\<lambda>a. a \<noteq> None) args \<and> length args = length inputs
                                then Inr (''0x'' @ join '','' (map the args)) else Inl TypeError),
      el_decode = (\<lambda>inputs c. Inr (split_str '','' c)),
      el_canonical = (\<lambda>inputs args. split_str '','' (join '','' (map the args))),
      el_interface = (\<lambda>s. Inl TypeError), el_address = (\<lambda>s. if startsWith ''0x'' s then Some s else None),
      el_uint = (\<lambda>s. map_option nat (parseInt 10 s)),
      el_bytes = (\<lambda>s. if startsWith ''0x'' s then Some (drop 2 s) else None)\<rparr>"

definition demo_forms :: "tx_form list" where
  "demo_forms =
     [initial_form\<lparr>tf_address := ''ab'', tf_value := dec 5\<rparr>,
      initial_form\<lparr>tf_address := ''0xcd'', tf_abi := Some [(''f(uint256,bool)'', [''uint256'', ''bool''])],
        tf_func := ''f(uint256,bool)'', tf_args := [Some ''7'', Some ''true'']\<rparr>]"

definition demo_governor :: governor where
  "demo_governor =
     \<lparr>gc_npunksSupply = 100, gc_cryptopunksSupply = 10000, gc_priorVotes = (\<lambda>a b. 50), gc_priorCryptopunksVotes = (\<lambda>a b. 60),
      gc_proposalThresholdBPS = 100, gc_quorumVotesBPS = 1000, gc_votingDelay = 5, gc_votingPeriod = 20,
      gc_proposalMaxOperations = 10, gc_proposalCount = 0, gc_proposals = (\<lambda>i. demo_chain_proposal),
      gc_latestProposalIds = (\<lambda>a. 0)\<rparr>"

lemma demo_ethers_ok: "ethers_ok demo_ethers"
  by (auto simp: ethers_ok_def demo_ethers_def startsWith_def split: if_splits)

lemma demo_forms_ok: "\<forall>f \<in> set demo_forms. form_ok demo_ethers f"
  by (simp add: demo_forms_def form_ok_def demo_ethers_def initial_form_def with_0x_def startsWith_def
      plain_signature_def plain_types_def function_name_def argumentsValidator_def encodeParams_def truthy_def join_Cons
      isl_def)


text \<open>A page whose values were read at the block before the one the transaction is in.\<close>

record create_page =
  cr_transactions :: "ProposalTransaction list"
  cr_title :: string
  cr_body :: string
  cr_latest :: "Proposal option"

definition create_enabled :: "string \<Rightarrow> nat \<Rightarrow> governor \<Rightarrow> create_page \<Rightarrow> bool" where
  "create_enabled account block g page \<longleftrightarrow>
     \<not> create_disabled (isFormInvalid (cr_transactions page) (cr_title page) (cr_body page))
        (hasActiveOrPendingProposal (cr_latest page) (Some account))
        (hasEnoughVote
          (userVotes (Some account) (Some (gc_priorVotes g account (block - 1)))
             (Some (gc_priorCryptopunksVotes g account (block - 1))))
          (Some (proposalThreshold g)))"

definition latest_shown :: "string \<Rightarrow> nat \<Rightarrow> nat \<Rightarrow> governor \<Rightarrow> Proposal option \<Rightarrow> bool" where
  "latest_shown account block time g latest \<longleftrightarrow>
     (gc_latestProposalIds g account \<le> gc_proposalCount g) \<and>
     (0 < gc_proposalCount g \<longrightarrow>
        (case latest of
           None \<Rightarrow> False
         | Some p \<Rightarrow>
             po_status p = chain_state block time (gc_proposals g (gc_proposalCount g)) \<and>
             (po_proposer p = Some account \<longleftrightarrow> gc_latestProposalIds g account = gc_proposalCount g)))"



end
