(* ===== verification/Web_Vote.thy ===== *)
theory Web_Vote
  imports Web_Propose "HOL-Library.Multiset"
begin

text \<open>
  Voting on a proposal and moving it on: \<open>packages/punks-webapp/src/pages/Vote/index.tsx\<close>,
  \<open>components/VoteModal/index.tsx\<close>, \<open>components/ProposalHeader/index.tsx\<close>,
  \<open>components/Proposals/index.tsx\<close>, \<open>components/VoteCard/index.tsx\<close>,
  \<open>components/ProposalStatus/index.tsx\<close> and the tables of voters, with \<open>castVoteInternal\<close>, \<open>queue\<close>
  and \<open>execute\<close> of \<open>NDAOLogicV1.sol\<close> and the transactions of \<open>NDAOExecutor.sol\<close>. The results relate
  the enabled buttons of the page to what the contract accepts and to the tallies the subgraph
  shows, and bound the transactions the modal sends. Markup, dates as text and names of accounts are
  left out; the clock, the chain and the library hooks are arguments.
\<close>

section \<open>The contract\<close>

datatype vote_support = AGAINST | FOR | ABSTAIN

fun support_number :: "vote_support \<Rightarrow> 32 word" where
  "support_number AGAINST = 0"
| "support_number FOR = 1"
| "support_number ABSTAIN = 2"

record receipt =
  rc_hasVoted :: bool
  rc_support :: "32 word"
  rc_votes :: nat

text \<open>A proposal with the parts of it that only voting touches.\<close>

record ballot =
  bl_proposal :: chain_proposal
  bl_abstainVotes :: nat
  bl_receipts :: "string \<Rightarrow> receipt"

definition castVoteInternal ::
  "governor \<Rightarrow> nat \<Rightarrow> nat \<Rightarrow> string \<Rightarrow> 32 word \<Rightarrow> ballot \<Rightarrow> (ballot \<times> nat) option" where
  "castVoteInternal g block time voter support b =
     (let p = bl_proposal b;
          snapshot = cp_startBlock p - gc_votingDelay g;
          votes = gc_priorVotes g voter snapshot + gc_priorCryptopunksVotes g voter snapshot
      in if chain_state block time p \<noteq> S_ACTIVE then None
         else if \<not> support \<le> 2 then None
         else if rc_hasVoted (bl_receipts b voter) then None
         else if cp_startBlock p < gc_votingDelay g then None
         else Some (b\<lparr>bl_proposal := add_votes support votes p,
                      bl_abstainVotes := bl_abstainVotes b + (if support = 2 then votes else 0),
                      bl_receipts := (bl_receipts b)(voter := \<lparr>rc_hasVoted = True, rc_support = support, rc_votes = votes\<rparr>)\<rparr>,
                    votes))"

text \<open>The executor keeps the transactions that are queued (the contract keeps their hashes);
  \<open>reverts\<close> says which calls fail.\<close>

type_synonym dao_action = "string \<times> int \<times> string \<times> string"

fun queue_actions :: "nat \<Rightarrow> dao_action list \<Rightarrow> (dao_action \<times> nat) set \<Rightarrow> (dao_action \<times> nat) set option" where
  "queue_actions eta [] queued = Some queued"
| "queue_actions eta (a # as) queued =
     (if (a, eta) \<in> queued then None else queue_actions eta as (insert (a, eta) queued))"

definition queue ::
  "nat \<Rightarrow> nat \<Rightarrow> nat \<Rightarrow> dao_action list \<Rightarrow> chain_proposal \<times> (dao_action \<times> nat) set \<Rightarrow> (chain_proposal \<times> (dao_action \<times> nat) set) option" where
  "queue delay block time actions = (\<lambda>(p, queued).
     if chain_state block time p \<noteq> S_SUCCEEDED then None
     else map_option (\<lambda>queued'. (p\<lparr>cp_eta := time + delay\<rparr>, queued')) (queue_actions (time + delay) actions queued))"

fun execute_actions :: "(dao_action \<Rightarrow> bool) \<Rightarrow> nat \<Rightarrow> nat \<Rightarrow> dao_action list \<Rightarrow> (dao_action \<times> nat) set \<Rightarrow> (dao_action \<times> nat) set option" where
  "execute_actions reverts time eta [] queued = Some queued"
| "execute_actions reverts time eta (a # as) queued =
     (if (a, eta) \<notin> queued \<or> time < eta \<or> int time > int eta + GRACE_PERIOD \<or> reverts a then None
      else execute_actions reverts time eta as (queued - {(a, eta)}))"

definition execute ::
  "(dao_action \<Rightarrow> bool) \<Rightarrow> nat \<Rightarrow> nat \<Rightarrow> dao_action list \<Rightarrow> chain_proposal \<times> (dao_action \<times> nat) set \<Rightarrow> (chain_proposal \<times> (dao_action \<times> nat) set) option" where
  "execute reverts block time actions = (\<lambda>(p, queued).
     if chain_state block time p \<noteq> S_QUEUED then None
     else map_option (\<lambda>queued'. (p\<lparr>cp_executed := True\<rparr>, queued')) (execute_actions reverts time (cp_eta p) actions queued))"

section \<open>The page\<close>

text \<open>A date of \<open>dayjs\<close> in milliseconds; adding \<open>NaN\<close> gives an invalid one. \<open>None\<close> is \<open>undefined\<close>.\<close>

datatype date = Invalid_Date | Date int

definition AVERAGE_BLOCK_TIME_IN_SECS :: int where
  "AVERAGE_BLOCK_TIME_IN_SECS = 13"

definition block_date :: "int \<Rightarrow> int option \<Rightarrow> int option \<Rightarrow> date option" where
  "block_date timestamp currentBlock block =
     (if timestamp = 0 \<or> currentBlock = None \<or> currentBlock = Some 0 then None
      else Some (case block of
                   None \<Rightarrow> Invalid_Date
                 | Some b \<Rightarrow> Date (timestamp + 1000 * (AVERAGE_BLOCK_TIME_IN_SECS * (b - the currentBlock)))))"

definition isBefore :: "date option \<Rightarrow> int \<Rightarrow> bool" where
  "isBefore d now = (case d of Some (Date t) \<Rightarrow> t < now | _ \<Rightarrow> False)"

definition isAfter :: "date option \<Rightarrow> int \<Rightarrow> bool" where
  "isAfter d now = (case d of Some (Date t) \<Rightarrow> now < t | _ \<Rightarrow> False)"

definition isActiveForVoting :: "date option \<Rightarrow> date option \<Rightarrow> int \<Rightarrow> bool" where
  "isActiveForVoting startDate endDate now \<longleftrightarrow> isBefore startDate now \<and> isAfter endDate now"

definition startOrEndTimeCopy :: "date option \<Rightarrow> date option \<Rightarrow> int \<Rightarrow> string" where
  "startOrEndTimeCopy startDate endDate now =
     (if isBefore startDate now \<and> isAfter endDate now then ''Ends''
      else if isBefore endDate now then ''Ended'' else ''Starts'')"

definition startOrEndTimeTime :: "date option \<Rightarrow> date option \<Rightarrow> int \<Rightarrow> date option" where
  "startOrEndTimeTime startDate endDate now = (if \<not> isBefore startDate now then startDate else endDate)"

text \<open>The share of a tally in percent, as a numerator and a denominator.\<close>

definition percentage :: "int option \<Rightarrow> int option \<Rightarrow> int option \<Rightarrow> int option \<Rightarrow> (int \<times> int)" where
  "percentage part forCount againstCount abstainCount =
     (case (forCount, againstCount, abstainCount, part) of
        (Some f, Some a, Some b, Some n) \<Rightarrow> if f + a + b \<noteq> 0 then (n * 100, f + a + b) else (0, 1)
      | _ \<Rightarrow> (0, 1))"

definition isAwaitingStateChange :: "ProposalState \<Rightarrow> int option \<Rightarrow> int \<Rightarrow> bool" where
  "isAwaitingStateChange status eta now \<longleftrightarrow>
     status = S_SUCCEEDED \<or>
     status = S_QUEUED \<and> now \<ge> (case eta of None \<Rightarrow> 9007199254740991 | Some t \<Rightarrow> t)"

datatype move_call = QueueProposal string | ExecuteProposal string

definition moveStateAction :: "ProposalState \<Rightarrow> string option \<Rightarrow> move_call option" where
  "moveStateAction status pid =
     (if \<not> truthy pid then None
      else Some (if status = S_SUCCEEDED then QueueProposal (the pid) else ExecuteProposal (the pid)))"

definition moveStateButtonAction :: "ProposalState \<Rightarrow> string" where
  "moveStateButtonAction status = (if status = S_SUCCEEDED then ''Queue'' else ''Execute'')"

section \<open>The vote button\<close>

definition userVotesAsOfBlock :: "governor \<Rightarrow> string \<Rightarrow> nat \<Rightarrow> nat" where
  "userVotesAsOfBlock g account block = gc_priorVotes g account block"

definition disableVoteButton :: "bool \<Rightarrow> nat \<Rightarrow> bool \<Rightarrow> bool" where
  "disableVoteButton isWalletConnected availableVotes hasVoted \<longleftrightarrow>
     \<not> isWalletConnected \<or> availableVotes = 0 \<or> hasVoted"

definition voteNotice :: "bool \<Rightarrow> nat \<Rightarrow> string" where
  "voteNotice isWalletConnected availableVotes =
     (if isWalletConnected then (if availableVotes = 0 then ''You have no votes.'' else [])
      else ''Connect a wallet to vote.'')"

definition getTranslatedVoteCopyFromString :: "string \<Rightarrow> string" where
  "getTranslatedVoteCopyFromString vote =
     (if vote = ''For'' then ''You voted For this proposal''
      else if vote = ''Against'' then ''You voted Against this proposal''
      else ''You Abstained from this proposal'')"

section \<open>The modal\<close>

record vote_modal =
  vm_vote :: "vote_support option"
  vm_voteReason :: string
  vm_isLoading :: bool
  vm_isVoteSucessful :: bool
  vm_isVoteFailed :: bool
  vm_failureCopy :: string
  vm_errorMessage :: string

definition initial_modal :: vote_modal where
  "initial_modal =
     \<lparr>vm_vote = None, vm_voteReason = [], vm_isLoading = False, vm_isVoteSucessful = False,
      vm_isVoteFailed = False, vm_failureCopy = [], vm_errorMessage = []\<rparr>"

text \<open>The status of a transaction as the library reports it; a failure may carry a message.\<close>

datatype tx_status =
    Tx_None | Tx_PendingSignature | Tx_Mining | Tx_Success | Tx_Fail "string option" | Tx_Exception "string option"

definition or_text :: "string option \<Rightarrow> string \<Rightarrow> string" where
  "or_text message fallback = (if truthy message then the message else fallback)"

definition getVoteErrorMessage :: "string option \<Rightarrow> string option" where
  "getVoteErrorMessage error =
     (case error of
        None \<Rightarrow> None
      | Some e \<Rightarrow> if index_of ''voter already voted'' e \<noteq> None then Some ''User Already Voted'' else Some e)"

fun handleVoteStateChange :: "tx_status \<Rightarrow> vote_modal \<Rightarrow> vote_modal" where
  "handleVoteStateChange Tx_None m = m\<lparr>vm_isLoading := False\<rparr>"
| "handleVoteStateChange Tx_PendingSignature m = m"
| "handleVoteStateChange Tx_Mining m = m\<lparr>vm_isLoading := True\<rparr>"
| "handleVoteStateChange Tx_Success m = m\<lparr>vm_isLoading := False, vm_isVoteSucessful := True\<rparr>"
| "handleVoteStateChange (Tx_Fail e) m =
     m\<lparr>vm_failureCopy := ''Transaction Failed'', vm_errorMessage := or_text e ''Please try again.'',
       vm_isLoading := False, vm_isVoteFailed := True\<rparr>"
| "handleVoteStateChange (Tx_Exception e) m =
     m\<lparr>vm_failureCopy := ''Error'', vm_errorMessage := or_text (getVoteErrorMessage e) ''Please try again.'',
       vm_isLoading := False, vm_isVoteFailed := True\<rparr>"

datatype vote_call = CastVote string vote_support | CastVoteWithReason string vote_support string

definition submitVote :: "string option \<Rightarrow> vote_modal \<Rightarrow> vote_modal \<times> vote_call option" where
  "submitVote proposalId m =
     (case vm_vote m of
        None \<Rightarrow> (m, None)
      | Some v \<Rightarrow>
          if \<not> truthy proposalId \<or> vm_isLoading m then (m, None)
          else (m\<lparr>vm_isLoading := True\<rparr>,
                Some (if trim (vm_voteReason m) = [] then CastVote (the proposalId) v
                      else CastVoteWithReason (the proposalId) v (vm_voteReason m))))"

definition resetNonSuccessStateAndHideModal :: "vote_modal \<Rightarrow> vote_modal" where
  "resetNonSuccessStateAndHideModal m =
     m\<lparr>vm_isLoading := False, vm_isVoteFailed := False, vm_errorMessage := [], vm_failureCopy := []\<rparr>"

text \<open>The effect of \<open>show\<close>, and whether the buttons of the form are there.\<close>

definition hidden_effect :: "bool \<Rightarrow> vote_modal \<Rightarrow> vote_modal" where
  "hidden_effect shown m = (if shown then m else m\<lparr>vm_isVoteFailed := False\<rparr>)"

definition form_rendered :: "bool \<Rightarrow> vote_modal \<Rightarrow> bool" where
  "form_rendered shown m \<longleftrightarrow> shown \<and> \<not> vm_isVoteFailed m \<and> \<not> vm_isVoteSucessful m"

text \<open>The texts of the three buttons; \<open>i18n_number\<close> prints a number.\<close>

definition vote_choice_text :: "(int option \<Rightarrow> string) \<Rightarrow> nat \<Rightarrow> string option \<Rightarrow> vote_support \<Rightarrow> string" where
  "vote_choice_text i18n_number availableVotes proposalId v =
     (let n = i18n_number (parseInt 10 (or_text proposalId ''0''));
          cast = (\<lambda>dir. if availableVotes > 1
                        then ''Cast '' @ i18n_number (Some (int availableVotes)) @ '' votes '' @ dir @ '' Prop '' @ n
                        else ''Cast 1 vote '' @ dir @ '' Prop '' @ n)
      in case v of FOR \<Rightarrow> cast ''for'' | AGAINST \<Rightarrow> cast ''against'' | ABSTAIN \<Rightarrow> ''Abstain from voting on Prop '' @ n)"

text \<open>What happens to a modal: the user, the wallet and the page act in any order. The numbers count
  the transactions under way, those that succeeded and the dismissals while the modal was loading; the
  list holds the calls sent.\<close>

inductive modal_run :: "string option \<Rightarrow> vote_modal \<Rightarrow> bool \<Rightarrow> nat \<Rightarrow> nat \<Rightarrow> nat \<Rightarrow> vote_call list \<Rightarrow> bool" for pid where
  start: "modal_run pid initial_modal False 0 0 0 []"
| choose: "modal_run pid m sh n ok d calls \<Longrightarrow> form_rendered sh m \<Longrightarrow>
    modal_run pid (m\<lparr>vm_vote := Some v\<rparr>) sh n ok d calls"
| reason: "modal_run pid m sh n ok d calls \<Longrightarrow> form_rendered sh m \<Longrightarrow>
    modal_run pid (m\<lparr>vm_voteReason := r\<rparr>) sh n ok d calls"
| submit: "modal_run pid m sh n ok d calls \<Longrightarrow> form_rendered sh m \<Longrightarrow> submitVote pid m = (m', Some c) \<Longrightarrow>
    modal_run pid m' sh (Suc n) ok d (calls @ [c])"
| progress: "modal_run pid m sh n ok d calls \<Longrightarrow> 0 < n \<Longrightarrow> st \<in> {Tx_PendingSignature, Tx_Mining} \<Longrightarrow>
    modal_run pid (handleVoteStateChange st m) sh n ok d calls"
| success: "modal_run pid m sh (Suc n) ok d calls \<Longrightarrow>
    modal_run pid (handleVoteStateChange Tx_Success m) sh n (Suc ok) d calls"
| failure: "modal_run pid m sh (Suc n) ok d calls \<Longrightarrow> st \<in> {Tx_Fail e, Tx_Exception e} \<Longrightarrow>
    modal_run pid (handleVoteStateChange st m) sh n ok d calls"
| dismiss: "modal_run pid m True n ok d calls \<Longrightarrow>
    modal_run pid (hidden_effect False (resetNonSuccessStateAndHideModal m)) False n ok
      (d + (if vm_isLoading m then 1 else 0)) calls"
| closed: "modal_run pid m True n ok d calls \<Longrightarrow> vm_isVoteSucessful m \<Longrightarrow>
    modal_run pid (hidden_effect False m) False n ok d calls"
| opened: "modal_run pid m False n ok d calls \<Longrightarrow> modal_run pid m True n ok d calls"

section \<open>Notices about other transactions\<close>

record alert =
  al_title :: string
  al_message :: string

text \<open>The alert that is shown, the value the pending flag is set to, and whether the state is final.\<close>

fun onTransactionStateChange ::
  "tx_status \<Rightarrow> string option \<Rightarrow> (string option \<Rightarrow> string option) option \<Rightarrow> alert option \<times> bool option \<times> bool" where
  "onTransactionStateChange Tx_None successMessage getErrorMessage = (None, Some False, False)"
| "onTransactionStateChange Tx_PendingSignature successMessage getErrorMessage = (None, None, False)"
| "onTransactionStateChange Tx_Mining successMessage getErrorMessage = (None, Some True, False)"
| "onTransactionStateChange Tx_Success successMessage getErrorMessage =
     (Some \<lparr>al_title = ''Success'', al_message = or_text successMessage ''Transaction Successful!''\<rparr>, Some False, True)"
| "onTransactionStateChange (Tx_Fail e) successMessage getErrorMessage =
     (Some \<lparr>al_title = ''Transaction Failed'', al_message = or_text e ''Please try again.''\<rparr>, Some False, True)"
| "onTransactionStateChange (Tx_Exception e) successMessage getErrorMessage =
     (Some \<lparr>al_title = ''Error'',
            al_message = or_text (case getErrorMessage of None \<Rightarrow> None | Some f \<Rightarrow> f e) ''Please try again.''\<rparr>, Some False, True)"

text \<open>The vote page passes no function for the messages of exceptions, the proposal page has its own
  switch.\<close>

definition queueStateEffect :: "tx_status \<Rightarrow> alert option \<times> bool option \<times> bool" where
  "queueStateEffect tx = onTransactionStateChange tx (Some ''Proposal Queued!'') None"

definition executeStateEffect :: "tx_status \<Rightarrow> alert option \<times> bool option \<times> bool" where
  "executeStateEffect tx = onTransactionStateChange tx (Some ''Proposal Executed!'') None"

definition proposeStateEffect :: "tx_status \<Rightarrow> alert option \<times> bool option" where
  "proposeStateEffect tx =
     (let (alert, pending, final) = onTransactionStateChange tx (Some ''Proposal Created!'') (Some id) in (alert, pending))"

lemma exception_cause_lost:
  "fst (queueStateEffect (Tx_Exception e)) = Some \<lparr>al_title = ''Error'', al_message = ''Please try again.''\<rparr>"
  by (simp add: queueStateEffect_def or_text_def truthy_def)

section \<open>The voters\<close>

record delegate_row =
  dg_id :: string
  dg_nRepresented :: "string list option"

record voter_row =
  vr_voter :: string
  vr_support :: "32 word"

record vote_row =
  vw_delegate :: string
  vw_supportDetailed :: "32 word"
  vw_nRepresented :: "string list"

definition delegateToTokenIds :: "delegate_row list \<Rightarrow> (string, string list) omap" where
  "delegateToTokenIds delegates =
     foldl (\<lambda>acc c. omap_set (dg_id c) (case dg_nRepresented c of None \<Rightarrow> [] | Some ts \<Rightarrow> ts) acc) [] delegates"

definition vote_rows :: "voter_row list \<Rightarrow> delegate_row list option \<Rightarrow> vote_row list" where
  "vote_rows voters delegates =
     map (\<lambda>v. \<lparr>vw_delegate = vr_voter v, vw_supportDetailed = vr_support v,
               vw_nRepresented = (case Option.bind delegates (\<lambda>ds. map_of (delegateToTokenIds ds) (vr_voter v)) of
                                    None \<Rightarrow> [] | Some ts \<Rightarrow> ts)\<rparr>) voters"

definition getTokensVotes :: "vote_row list \<Rightarrow> 32 word \<Rightarrow> string list" where
  "getTokensVotes votes supportDetailed =
     concat (map vw_nRepresented (filter (\<lambda>v. vw_supportDetailed v = supportDetailed) votes))"

text \<open>A card: its title, the count of the proposal, its rows, and the text of its number.\<close>

record vote_card =
  vc_title :: string
  vc_voteCount :: "int option"
  vc_rows :: "vote_row list"

definition vote_card_of :: "vote_support \<Rightarrow> Proposal \<Rightarrow> vote_row list option \<Rightarrow> vote_card" where
  "vote_card_of variant proposal rows =
     (let (title, voteCount, support) =
        (case variant of
           FOR \<Rightarrow> (''For'', po_forCount proposal, 1)
         | AGAINST \<Rightarrow> (''Against'', po_againstCount proposal, 0)
         | ABSTAIN \<Rightarrow> (''Abstain'', po_abstainCount proposal, 2))
      in \<lparr>vc_title = title, vc_voteCount = voteCount,
          vc_rows = (case rows of None \<Rightarrow> [] | Some rs \<Rightarrow> filter (\<lambda>v. vw_supportDetailed v = support) rs)\<rparr>)"

definition card_number :: "(int option \<Rightarrow> string) \<Rightarrow> bool \<Rightarrow> vote_card \<Rightarrow> string" where
  "card_number i18n_number delegateView c =
     (if delegateView
      then i18n_number (Some (int (length (vc_rows c)))) @ (if length (vc_rows c) = 1 then '' Address'' else '' Addresses'')
      else i18n_number (vc_voteCount c))"

text \<open>\<open>index_at seed n\<close> is \<open>Math.floor(n * (x - Math.floor(x)))\<close> for \<open>x = Math.sin(seed) * 10000\<close>.
  Reading past the end gives \<open>undefined\<close> and removes nothing.\<close>

partial_function (option) pseudoRandomPredictableShuffle ::
  "(nat \<Rightarrow> nat \<Rightarrow> nat) \<Rightarrow> 'a list \<Rightarrow> nat \<Rightarrow> 'a option list option" where
  "pseudoRandomPredictableShuffle index_at input seed =
     (if input = [] then Some []
      else let s = (if seed = 0 then 1 else seed);
               i = index_at s (length input);
               x = (if i < length input then Some (input ! i) else None)
           in Option.bind (pseudoRandomPredictableShuffle index_at (take i input @ drop (Suc i) input) (s + 1))
                (\<lambda>out. Some (x # out)))"

text \<open>A page of the table of tokens; \<open>None\<close> is a grey circle. The delegates' table has twelve
  entries on a page and four in a row.\<close>

definition table_cells :: "nat \<Rightarrow> nat \<Rightarrow> 'a list \<Rightarrow> nat \<Rightarrow> 'a option list list" where
  "table_cells perPage rowLength shuffled page =
     (let padded = map Some (take perPage (drop (page * perPage) shuffled)) @ replicate perPage None
      in map (\<lambda>i. map (\<lambda>j. padded ! (i * rowLength + j)) [0..<rowLength]) [0..<3])"

definition token_cells :: "bool \<Rightarrow> 'a list \<Rightarrow> nat \<Rightarrow> 'a option list list" where
  "token_cells isXLScreen shuffled page = table_cells 15 (if isXLScreen then 5 else 4) shuffled page"

definition delegate_cells :: "'a list \<Rightarrow> nat \<Rightarrow> 'a option list list" where
  "delegate_cells shuffled page = table_cells 12 4 shuffled page"

definition numPages :: "nat \<Rightarrow> 'a list \<Rightarrow> nat" where
  "numPages perPage tokens = length tokens div perPage + 1"

definition arrows_disabled :: "nat \<Rightarrow> 'a list \<Rightarrow> nat \<Rightarrow> bool \<times> bool" where
  "arrows_disabled perPage tokens page = (page = 0, (page + 1) * perPage > length tokens)"

section \<open>The list of proposals and the text of one\<close>

fun statusText :: "ProposalState option \<Rightarrow> string" where
  "statusText (Some S_PENDING) = ''Pending''"
| "statusText (Some S_ACTIVE) = ''Active''"
| "statusText (Some S_SUCCEEDED) = ''Succeeded''"
| "statusText (Some S_EXECUTED) = ''Executed''"
| "statusText (Some S_DEFEATED) = ''Defeated''"
| "statusText (Some S_QUEUED) = ''Queued''"
| "statusText (Some S_CANCELLED) = ''Canceled''"
| "statusText (Some S_VETOED) = ''Vetoed''"
| "statusText (Some S_EXPIRED) = ''Expired''"
| "statusText _ = ''Undetermined''"

definition statusVariant :: "ProposalState option \<Rightarrow> string" where
  "statusVariant status =
     (case status of
        None \<Rightarrow> ''secondary''
      | Some s \<Rightarrow>
          if s = S_PENDING \<or> s = S_ACTIVE then ''primary''
          else if s = S_SUCCEEDED \<or> s = S_EXECUTED then ''success''
          else if s = S_DEFEATED \<or> s = S_VETOED then ''danger'' else ''secondary'')"

definition proposalStatus :: "Proposal \<Rightarrow> string" where
  "proposalStatus p =
     (if po_status p \<in> {S_SUCCEEDED, S_EXECUTED, S_QUEUED} then ''success''
      else if po_status p \<in> {S_DEFEATED, S_VETOED} then ''failure'' else ''pending'')"

text \<open>The word and the date of the countdown; without an eta \<open>dayjs\<close> takes the present.\<close>

definition getCountdownCopy :: "int \<Rightarrow> int option \<Rightarrow> Proposal \<Rightarrow> int \<Rightarrow> string \<times> date" where
  "getCountdownCopy timestamp currentBlock p now =
     (let startDate = block_date timestamp currentBlock (po_startBlock p);
          endDate = block_date timestamp currentBlock (po_endBlock p);
          expires = Date ((case po_eta p of None \<Rightarrow> now | Some eta \<Rightarrow> eta) + 14 * 24 * 60 * 60 * 1000)
      in if isBefore startDate now \<and> isAfter endDate now then (''Ends'', the endDate)
         else if isBefore endDate now then (''Expires'', expires)
         else (''Starts'', case startDate of None \<Rightarrow> Date now | Some t \<Rightarrow> t))"

definition has_countdown :: "ProposalState \<Rightarrow> bool" where
  "has_countdown status \<longleftrightarrow> status = S_PENDING \<or> status = S_ACTIVE \<or> status = S_QUEUED"

definition listed_threshold :: "nat option \<Rightarrow> nat" where
  "listed_threshold threshold = (case threshold of None \<Rightarrow> 0 | Some t \<Rightarrow> t) + 1"

definition hasEnoughVotesToPropose :: "bool \<Rightarrow> nat \<Rightarrow> nat option \<Rightarrow> bool" where
  "hasEnoughVotesToPropose connected votes threshold \<longleftrightarrow> connected \<and> votes \<ge> listed_threshold threshold"

text \<open>An account that is not connected is \<open>undefined\<close> or \<open>null\<close>, by the wallet library.\<close>

datatype account = Undefined | Null | Account string

definition nullStateCopy :: "(nat \<Rightarrow> string) \<Rightarrow> account \<Rightarrow> nat \<Rightarrow> nat option \<Rightarrow> string" where
  "nullStateCopy show_number account votes threshold =
     (if account \<noteq> Null
      then (if votes > 0
            then ''Making a proposal requires '' @ show_number (listed_threshold threshold) @ '' votes''
            else ''You have no Votes.'')
      else ''Connect wallet to make a proposal.'')"

definition hasNounBalance :: "nat option \<Rightarrow> nat option \<Rightarrow> bool" where
  "hasNounBalance balance ogPunks \<longleftrightarrow>
     (case balance of None \<Rightarrow> 0 | Some n \<Rightarrow> n) + (case ogPunks of None \<Rightarrow> 0 | Some n \<Rightarrow> n) > 0"

text \<open>\<open>s.replace(p, '')\<close> for a string \<open>p\<close>: the first occurrence goes.\<close>

definition processProposalDescriptionText :: "string \<Rightarrow> string \<Rightarrow> string" where
  "processProposalDescriptionText descriptionText proposalTitle =
     (case index_of proposalTitle descriptionText of
        None \<Rightarrow> descriptionText
      | Some i \<Rightarrow> take i descriptionText @ drop (i + length proposalTitle) descriptionText)"

text \<open>A transaction as the page prints it: a head and one line for each part of the call data.\<close>

definition transaction_lines :: "ProposalDetail \<Rightarrow> string \<times> string list" where
  "transaction_lines d =
     (let parts = split_str '','' (pd_callData d)
      in (pd_target d @ ''.'' @ pd_functionSig d @ (case pd_value d of None \<Rightarrow> [] | Some v \<Rightarrow> v) @ ''('',
          map (\<lambda>(i, c). c @ (if length parts - 1 = i then [] else '','')) (zip [0..<length parts] parts)))"

section \<open>Moving a proposal on\<close>

lemma queue_actions_accepts:
  "queue_actions eta as queued \<noteq> None \<longleftrightarrow> distinct as \<and> (\<forall>a \<in> set as. (a, eta) \<notin> queued)"
  by (induction as arbitrary: queued) auto

lemma execute_actions_accepts:
  assumes "distinct as" and "\<forall>a \<in> set as. (a, eta) \<in> queued" and "eta \<le> time" and "int time \<le> int eta + GRACE_PERIOD"
  shows "execute_actions reverts time eta as queued \<noteq> None \<longleftrightarrow> (\<forall>a \<in> set as. \<not> reverts a)"
  using assms
proof (induction as arbitrary: queued)
  case (Cons a as)
  have "\<forall>b \<in> set as. (b, eta) \<in> queued - {(a, eta)}" using Cons.prems(1,2) by auto
  from Cons.IH [OF _ this] Cons.prems show ?case by auto
qed simp

lemma shown_proposal_fields:
  assumes "subgraph_proposal bn fd block time (query_entity pid e) = Inr pr" (is "subgraph_proposal _ _ _ _ ?q = _")
  shows "po_status pr = getProposalState bn block time (query_entity pid e)"
    "po_eta pr = map_option (\<lambda>t. t * 1000) (Option.bind (pr_executionETA e) (\<lambda>eta. parseInt 10 (int_to_base 10 eta)))"
    "po_startBlock pr = parseInt 10 (int_to_base 10 (pr_startBlock e))"
    "po_endBlock pr = parseInt 10 (int_to_base 10 (pr_endBlock e))"
    "po_createdBlock pr = parseInt 10 (int_to_base 10 (pr_createdBlock e))"
    "po_id pr = Some (dec pid)"
proof -
  have "truthy (map_option (int_to_base 10) (pr_executionETA e)) \<longleftrightarrow> pr_executionETA e \<noteq> None"
    by (cases "pr_executionETA e") (simp_all add: truthy_def int_to_base_def)
  then have eta: "(if truthy (map_option (int_to_base 10) (pr_executionETA e))
       then map_option (\<lambda>t. t * 1000) (parseInt 10 (the (map_option (int_to_base 10) (pr_executionETA e)))) else None) =
     map_option (\<lambda>t. t * 1000) (Option.bind (pr_executionETA e) (\<lambda>eta. parseInt 10 (int_to_base 10 eta)))"
    by (cases "pr_executionETA e") simp_all
  have fields: "ps_executionETA ?q = map_option (int_to_base 10) (pr_executionETA e)"
    "ps_startBlock ?q = int_to_base 10 (pr_startBlock e)" "ps_endBlock ?q = int_to_base 10 (pr_endBlock e)"
    "ps_createdBlock ?q = int_to_base 10 (pr_createdBlock e)" "ps_id ?q = dec pid"
    by (simp_all add: query_entity_def)
  note shown = assms [unfolded subgraph_proposal_def Let_def rbind_Inr_iff fields eta]
  have "po_status pr = getProposalState bn block time ?q \<and>
    po_eta pr = map_option (\<lambda>t. t * 1000) (Option.bind (pr_executionETA e) (\<lambda>eta. parseInt 10 (int_to_base 10 eta))) \<and>
    po_startBlock pr = parseInt 10 (int_to_base 10 (pr_startBlock e)) \<and>
    po_endBlock pr = parseInt 10 (int_to_base 10 (pr_endBlock e)) \<and>
    po_createdBlock pr = parseInt 10 (int_to_base 10 (pr_createdBlock e)) \<and>
    po_id pr = Some (dec pid)"
    using shown by (elim exE conjE) (drule sum.inject(2) [THEN iffD1], hypsubst, simp only: Proposal.simps simp_thms)
  then show "po_status pr = getProposalState bn block time ?q"
    "po_eta pr = map_option (\<lambda>t. t * 1000) (Option.bind (pr_executionETA e) (\<lambda>eta. parseInt 10 (int_to_base 10 eta)))"
    "po_startBlock pr = parseInt 10 (int_to_base 10 (pr_startBlock e))"
    "po_endBlock pr = parseInt 10 (int_to_base 10 (pr_endBlock e))"
    "po_createdBlock pr = parseInt 10 (int_to_base 10 (pr_createdBlock e))"
    "po_id pr = Some (dec pid)" by simp_all
qed

text \<open>C20. The button that moves a proposal on: when the page shows it, at a clock that is not ahead
  of the block that takes the transaction, the contract accepts its call: queueing succeeds exactly
  if no action is in the proposal twice or already queued for the same time, and executing the queued
  actions exactly if the proposal has not expired meanwhile and no action reverts.\<close>

theorem move_button_accepted:
  assumes "dao_run pid block time p s" and "0 < block" and "\<And>n. bn (dec n) = Some (int n)"
    and "block \<le> block'" and "time \<le> time'" and "now \<le> 1000 * int time'"
  shows "\<exists>e. st_proposals s (dec pid) = Some e \<and>
    (\<forall>pr. subgraph_proposal bn fd (Some (int block)) (Some (int time * 1000)) (query_entity pid e) = Inr pr \<longrightarrow>
      isAwaitingStateChange (po_status pr) (po_eta pr) now \<longrightarrow>
      (case moveStateAction (po_status pr) (po_id pr) of
         None \<Rightarrow> False
       | Some (QueueProposal i) \<Rightarrow> i = dec pid \<and>
           (queue delay block' time' actions (p, queued) \<noteq> None \<longleftrightarrow>
              distinct actions \<and> (\<forall>a \<in> set actions. (a, time' + delay) \<notin> queued))
       | Some (ExecuteProposal i) \<Rightarrow> i = dec pid \<and>
           (distinct actions \<and> (\<forall>a \<in> set actions. (a, cp_eta p) \<in> queued) \<longrightarrow>
              (execute reverts block' time' actions (p, queued) \<noteq> None \<longleftrightarrow>
                 int time' < int (cp_eta p) + GRACE_PERIOD \<and> (\<forall>a \<in> set actions. \<not> reverts a)))))"
proof -
  obtain e where e: "st_proposals s (dec pid) = Some e" "entity_agrees block p e"
    using dao_run_agrees [OF assms(1)] by blast
  have later: "passed block' p" if "passed block p" using passed_later [OF that assms(4)] .
  have "case moveStateAction (po_status pr) (po_id pr) of
         None \<Rightarrow> False
       | Some (QueueProposal i) \<Rightarrow> i = dec pid \<and>
           (queue delay block' time' actions (p, queued) \<noteq> None \<longleftrightarrow>
              distinct actions \<and> (\<forall>a \<in> set actions. (a, time' + delay) \<notin> queued))
       | Some (ExecuteProposal i) \<Rightarrow> i = dec pid \<and>
           (distinct actions \<and> (\<forall>a \<in> set actions. (a, cp_eta p) \<in> queued) \<longrightarrow>
              (execute reverts block' time' actions (p, queued) \<noteq> None \<longleftrightarrow>
                 int time' < int (cp_eta p) + GRACE_PERIOD \<and> (\<forall>a \<in> set actions. \<not> reverts a)))"
    if pr: "subgraph_proposal bn fd (Some (int block)) (Some (int time * 1000)) (query_entity pid e) = Inr pr"
      "isAwaitingStateChange (po_status pr) (po_eta pr) now" for pr
  proof -
    note f = shown_proposal_fields [OF pr(1)]
    have st: "po_status pr = (if pr_status e = PENDING \<and> cp_endBlock p < block then S_ACTIVE else chain_state block time p)"
      using shown_state [OF assms(3) e(2) assms(2)] f(1) by simp
    from pr(2) consider (queue) "po_status pr = S_SUCCEEDED"
      | (execute) "po_status pr = S_QUEUED" "now \<ge> (case po_eta pr of None \<Rightarrow> 9007199254740991 | Some t \<Rightarrow> t)"
      by (auto simp: isAwaitingStateChange_def)
    then show ?thesis
    proof cases
      case queue
      then have "chain_state block' time' p = S_SUCCEEDED"
        using st later assms(4) by (auto simp: chain_state_simps split: if_splits)
      then show ?thesis
        using queue queue_actions_accepts [of "time' + delay" actions queued]
        by (simp add: moveStateAction_def f(6) truthy_def queue_def del: not_None_eq)
    next
      case execute
      then have q: "chain_state block time p = S_QUEUED" using st by (auto split: if_splits)
      then have c: "cp_eta p \<noteq> 0" "\<not> cp_vetoed p" "\<not> cp_canceled p" "\<not> cp_executed p" "cp_startBlock p < block" "passed block p"
        by (simp_all add: chain_state_simps)
      then have "pr_executionETA e = Some (int (cp_eta p))" using e(2) by (auto simp: entity_agrees_def)
      then have "cp_eta p \<le> time'" using execute(2) assms(6) by (simp add: f(2) int_to_base_nat)
      moreover have "chain_state block' time' p = S_QUEUED \<longleftrightarrow> int time' < int (cp_eta p) + GRACE_PERIOD"
        using c later assms(4) by (auto simp: chain_state_simps)
      ultimately show ?thesis
        using execute execute_actions_accepts [of actions "cp_eta p" queued time' reverts]
        by (auto simp: moveStateAction_def f(6) truthy_def execute_def simp del: not_None_eq)
    qed
  qed
  then show ?thesis using e(1) by blast
qed

section \<open>Casting a vote\<close>

text \<open>The vote button of a page: the proposal it shows, the block and the two readings of the clock,
  the account, and whether it has voted.\<close>

record vote_page =
  vg_proposal :: Proposal
  vg_currentBlock :: int
  vg_timestamp :: int
  vg_now :: int
  vg_isWalletConnected :: bool
  vg_hasVoted :: bool

definition vote_button_enabled :: "nat \<Rightarrow> vote_page \<Rightarrow> bool" where
  "vote_button_enabled availableVotes page \<longleftrightarrow>
     isActiveForVoting
       (block_date (vg_timestamp page) (Some (vg_currentBlock page)) (po_startBlock (vg_proposal page)))
       (block_date (vg_timestamp page) (Some (vg_currentBlock page)) (po_endBlock (vg_proposal page))) (vg_now page) \<and>
     \<not> disableVoteButton (vg_isWalletConnected page) availableVotes (vg_hasVoted page)"

lemma active_on_page:
  assumes "isActiveForVoting (block_date ts (Some cur) (Some start)) (block_date ts (Some cur) (Some end)) now"
    and "ts \<le> now" and "now < ts + 13000"
  shows "start \<le> cur \<and> cur < end"
proof -
  have "ts + 13000 * (start - cur) < now" "now < ts + 13000 * (end - cur)"
    using assms(1)
    by (auto simp: isActiveForVoting_def isBefore_def isAfter_def block_date_def AVERAGE_BLOCK_TIME_IN_SECS_def
        algebra_simps split: if_splits)
  then show ?thesis using assms(2,3) by auto
qed

lemma support_cases: "support_number v \<le> 2" "support_number v = 2 \<longleftrightarrow> v = ABSTAIN"
  "support_number v = 1 \<longleftrightarrow> v = FOR" "support_number v = 0 \<longleftrightarrow> v = AGAINST"
  by (cases v; simp)+

text \<open>C9. An enabled vote button means a vote that counts: if the button is enabled on a page that
  reads its clock twice within thirteen seconds, and the voting delay is still the one the proposal was
  created under, the contract accepts the vote in the next block exactly if the proposal is neither
  cancelled nor vetoed; the votes it counts are at least those the page announces, and once the
  subgraph has handled the event its tallies are those of the contract.\<close>

theorem vote_button_counts:
  assumes "dao_run pid block time p s" and "bl_proposal b = p" and "st_proposals s (dec pid) = Some e"
    and "subgraph_proposal bn fd (Some (int block)) t (query_entity pid e) = Inr (vg_proposal page)"
    and "vg_currentBlock page = int block" and "vg_timestamp page \<le> vg_now page"
    and "vg_now page < vg_timestamp page + 13000" and "vg_hasVoted page = rc_hasVoted (bl_receipts b account)"
    and "po_createdBlock (vg_proposal page) = Some (int created)" and "cp_startBlock p = created + gc_votingDelay g"
    and "vote_button_enabled (userVotesAsOfBlock g account created) page" and "time \<le> time'"
  shows "(castVoteInternal g (block + 1) time' account (support_number v) b \<noteq> None \<longleftrightarrow>
      \<not> cp_canceled p \<and> \<not> cp_vetoed p) \<and>
    (\<forall>b' n. castVoteInternal g (block + 1) time' account (support_number v) b = Some (b', n) \<longrightarrow>
      userVotesAsOfBlock g account created \<le> n \<and>
      (\<exists>s' e'. handleVoteCast ev \<lparr>vp_voter = account, vp_proposalId = pid, vp_support = support_number v,
            vp_votes = int n, vp_reason = r\<rparr> s = Some s' \<and>
        st_proposals s' (dec pid) = Some e' \<and>
        pr_forVotes e' = int (cp_forVotes (bl_proposal b')) \<and> pr_againstVotes e' = int (cp_againstVotes (bl_proposal b')) \<and>
        pr_abstainVotes e' - pr_abstainVotes e = int (bl_abstainVotes b') - int (bl_abstainVotes b)))"
proof (intro conjI allI impI)
  have agree: "entity_agrees block p e" using dao_run_agrees [OF assms(1)] assms(3) by auto
  note f = shown_proposal_fields [OF assms(4)]
  have blocks: "po_startBlock (vg_proposal page) = Some (int (cp_startBlock p))"
    "po_endBlock (vg_proposal page) = Some (int (cp_endBlock p))"
    using agree by (simp_all add: f int_to_base_nat entity_agrees_def)
  have "cp_startBlock p \<le> block \<and> block < cp_endBlock p"
    using assms(5,11) active_on_page [OF _ assms(6,7), of "int block" "int (cp_startBlock p)" "int (cp_endBlock p)"] blocks
    by (auto simp: vote_button_enabled_def)
  then have active: "chain_state (block + 1) time' p = S_ACTIVE \<longleftrightarrow> \<not> cp_canceled p \<and> \<not> cp_vetoed p"
    by (auto simp: chain_state_simps)
  have fresh: "\<not> rc_hasVoted (bl_receipts b account)"
    using assms(8,11) by (auto simp: vote_button_enabled_def disableVoteButton_def)
  show "castVoteInternal g (block + 1) time' account (support_number v) b \<noteq> None \<longleftrightarrow> \<not> cp_canceled p \<and> \<not> cp_vetoed p"
    using active fresh assms(2,10) by (simp add: castVoteInternal_def support_cases Let_def)
  fix b' n
  assume "castVoteInternal g (block + 1) time' account (support_number v) b = Some (b', n)"
  then have n: "n = gc_priorVotes g account created + gc_priorCryptopunksVotes g account created"
      "bl_proposal b' = add_votes (support_number v) n p"
      "bl_abstainVotes b' = bl_abstainVotes b + (if v = ABSTAIN then n else 0)"
      "chain_state (block + 1) time' p = S_ACTIVE"
    using assms(2,10) by (auto simp: castVoteInternal_def support_cases Let_def split: if_splits)
  show "userVotesAsOfBlock g account created \<le> n" using n(1) by (simp add: userVotesAsOfBlock_def)
  let ?vp = "\<lparr>vp_voter = account, vp_proposalId = pid, vp_support = support_number v, vp_votes = int n, vp_reason = r\<rparr>"
  obtain s' where s': "handleVoteCast ev ?vp s = Some s'"
    "st_proposals s' (dec pid) = Some (let p1 = tally ?vp e in if pr_status p1 = PENDING then p1\<lparr>pr_status := ACTIVE\<rparr> else p1)"
    using vote_cast_effect [of s ?vp e ev] assms(3) by auto
  have "dao_run pid (block + 1) time' p s" by (rule dao_run.pass [OF assms(1) _ assms(12)]) simp
  from dao_run_agrees [OF dao_run.vote [OF this n(4) _ _ s'(1), of n]] s'(2)
  have "entity_agrees (block + 1) (bl_proposal b')
      (let p1 = tally ?vp e in if pr_status p1 = PENDING then p1\<lparr>pr_status := ACTIVE\<rparr> else p1)" by (simp add: n(2))
  then show "\<exists>s' e'. handleVoteCast ev ?vp s = Some s' \<and> st_proposals s' (dec pid) = Some e' \<and>
      pr_forVotes e' = int (cp_forVotes (bl_proposal b')) \<and> pr_againstVotes e' = int (cp_againstVotes (bl_proposal b')) \<and>
      pr_abstainVotes e' - pr_abstainVotes e = int (bl_abstainVotes b') - int (bl_abstainVotes b)"
    using s' n(3) by (auto simp: entity_agrees_def Let_def tally_def support_cases)
qed

text \<open>Votes the page does not see: an account all of whose votes at the snapshot come from the
  registry of the original punks finds the vote button disabled and is told that it has no votes,
  although the contract accepts its vote for an active proposal and counts those votes.\<close>

lemma cryptopunks_votes_withheld:
  assumes "chain_state block time (bl_proposal b) = S_ACTIVE" and "\<not> rc_hasVoted (bl_receipts b account)"
    and "cp_startBlock (bl_proposal b) = created + gc_votingDelay g"
    and "gc_priorVotes g account created = 0" and "0 < gc_priorCryptopunksVotes g account created"
  shows "\<not> vote_button_enabled (userVotesAsOfBlock g account created) page \<and>
    voteNotice True (userVotesAsOfBlock g account created) = ''You have no votes.'' \<and>
    (\<exists>b'. castVoteInternal g block time account (support_number v) b =
       Some (b', gc_priorCryptopunksVotes g account created))"
  using assms
  by (simp add: vote_button_enabled_def disableVoteButton_def userVotesAsOfBlock_def voteNotice_def castVoteInternal_def
      support_cases Let_def)

section \<open>The transactions of the modal\<close>

text \<open>C24. However the user, the wallet and the page act, the votes that have succeeded and those under
  way outnumber by at most one the times the modal was dismissed while it was loading: without such a
  dismissal no second vote is sent before the first has failed, and none after one has succeeded.
  Every call is for the proposal of the page.\<close>

theorem modal_sends_one_vote:
  assumes "modal_run pid m sh n ok d calls"
  shows "n + ok \<le> d + 1 \<and> (d = 0 \<and> 0 < n \<and> \<not> vm_isVoteSucessful m \<longrightarrow> vm_isLoading m) \<and>
    (\<forall>c \<in> set calls. \<exists>v. c = CastVote (the pid) v \<or> (\<exists>r. trim r \<noteq> [] \<and> c = CastVoteWithReason (the pid) v r))"
proof -
  have "(if vm_isVoteSucessful m then n + ok \<le> d + 1 else ok = 0 \<and> n \<le> d + (if vm_isLoading m then 1 else 0)) \<and>
    (\<forall>c \<in> set calls. \<exists>v. c = CastVote (the pid) v \<or> (\<exists>r. trim r \<noteq> [] \<and> c = CastVoteWithReason (the pid) v r))"
    using assms
    by (induction rule: modal_run.induct)
      (auto simp: initial_modal_def form_rendered_def submitVote_def hidden_effect_def resetNonSuccessStateAndHideModal_def
        split: option.splits if_splits)
  then show ?thesis by (auto split: if_splits)
qed

section \<open>The table of voters\<close>

lemma shuffle_permutes:
  assumes "\<And>s n. 0 < n \<Longrightarrow> index_at s n < n"
  shows "\<exists>out. pseudoRandomPredictableShuffle index_at input seed = Some (map Some out) \<and> mset out = mset input"
proof (induction "length input" arbitrary: input seed)
  case 0
  then show ?case by (simp add: pseudoRandomPredictableShuffle.simps)
next
  case (Suc k)
  let ?s = "if seed = 0 then 1 else seed"
  let ?i = "index_at ?s (length input)"
  have i: "?i < length input" by (rule assms) (use Suc(2) in \<open>cases input; simp\<close>)
  have "k = length (take ?i input @ drop (Suc ?i) input)" using i Suc(2) by simp
  from Suc(1) [OF this, of "?s + 1"] obtain out where out:
    "pseudoRandomPredictableShuffle index_at (take ?i input @ drop (Suc ?i) input) (?s + 1) = Some (map Some out)"
    "mset out = mset (take ?i input @ drop (Suc ?i) input)" by blast
  have "mset input = add_mset (input ! ?i) (mset (take ?i input @ drop (Suc ?i) input))"
    by (subst id_take_nth_drop [OF i]) (simp only: mset_append mset.simps union_mset_add_mset_right)
  moreover have "input \<noteq> []" using Suc(2) by auto
  ultimately show ?case
    using i out
    by (intro exI [of _ "input ! ?i # out"]) (simp add: pseudoRandomPredictableShuffle.simps [of index_at input] Let_def)
qed

lemma rows_upt: "concat (map (\<lambda>i. map (\<lambda>j. i * r + j) [0..<r]) [0..<k]) = [0..<k * r]"
proof (induction k)
  case (Suc k)
  have "map (\<lambda>j. k * r + j) [0..<r] = [k * r..<k * r + r]" by (intro nth_equalityI) simp_all
  then show ?case using Suc upt_add_eq_append [of 0 "k * r" r] by (simp add: add.commute)
qed simp

lemma map_nth_slice: "map ((!) xs) [a..<min (a + c) (length xs)] = take c (drop a xs)"
proof (rule nth_equalityI)
  show "length (map ((!) xs) [a..<min (a + c) (length xs)]) = length (take c (drop a xs))" by simp
next
  fix i
  assume "i < length (map ((!) xs) [a..<min (a + c) (length xs)])"
  then show "map ((!) xs) [a..<min (a + c) (length xs)] ! i = take c (drop a xs) ! i" by (simp add: nth_upt less_diff_conv)
qed

lemma page_cells:
  assumes "3 * rowLength \<le> perPage"
  shows "concat (table_cells perPage rowLength xs page) =
    take (3 * rowLength) (map Some (take perPage (drop (page * perPage) xs)) @ replicate perPage None)"
proof -
  let ?p = "map Some (take perPage (drop (page * perPage) xs)) @ replicate perPage None"
  have "take (3 * rowLength) ?p = map (\<lambda>k. ?p ! k) [0..<3 * rowLength]"
    using assms by (intro nth_equalityI) (simp_all del: take_append)
  also have "[0..<3 * rowLength] = concat (map (\<lambda>i. map (\<lambda>j. i * rowLength + j) [0..<rowLength]) [0..<3])"
    by (rule rows_upt [symmetric])
  finally show ?thesis by (simp add: table_cells_def map_concat comp_def Let_def)
qed

lemma upt_split: "i \<le> j \<Longrightarrow> j \<le> k \<Longrightarrow> [i..<k] = [i..<j] @ [j..<k]"
  using upt_add_eq_append [of i j "k - j"] by simp

lemma filter_page:
  assumes "c \<le> perPage" and "m * perPage \<le> n"
  shows "filter (\<lambda>i. i mod perPage < c) [m * perPage..<min ((m + 1) * perPage) n] =
    [m * perPage..<min (m * perPage + c) n]"
proof -
  have rem: "i mod perPage = i - m * perPage" if "m * perPage \<le> i" "i < (m + 1) * perPage" for i
  proof -
    from that(1) obtain j where "i = m * perPage + j" by (auto simp: le_iff_add)
    then show ?thesis using that(2) by simp
  qed
  have "[m * perPage..<min ((m + 1) * perPage) n] =
      [m * perPage..<min (m * perPage + c) n] @ [min (m * perPage + c) n..<min ((m + 1) * perPage) n]"
    using assms by (intro upt_split) auto
  moreover have "filter (\<lambda>i. i mod perPage < c) [m * perPage..<min (m * perPage + c) n] = [m * perPage..<min (m * perPage + c) n]"
    using assms(1) rem by (intro filter_True) auto
  moreover have "filter (\<lambda>i. i mod perPage < c) [min (m * perPage + c) n..<min ((m + 1) * perPage) n] = []"
    using rem by (intro filter_False) auto
  ultimately show ?thesis by simp
qed

lemma shown_on_pages:
  assumes "c \<le> perPage"
  shows "concat (map (\<lambda>page. take c (take perPage (drop (page * perPage) xs))) [0..<m]) =
    map ((!) xs) (filter (\<lambda>i. i mod perPage < c) [0..<min (m * perPage) (length xs)])"
proof (induction m)
  case (Suc m)
  let ?n = "length xs"
  have page: "take c (take perPage (drop (m * perPage) xs)) = map ((!) xs) [m * perPage..<min (m * perPage + c) ?n]"
    using assms by (simp add: map_nth_slice min_absorb1)
  show ?case
  proof (cases "m * perPage \<le> ?n")
    case True
    have "[0..<min (Suc m * perPage) ?n] = [0..<m * perPage] @ [m * perPage..<min ((m + 1) * perPage) ?n]"
      using upt_split [of 0 "m * perPage" "min ((m + 1) * perPage) ?n"] True by simp
    then show ?thesis using Suc.IH page filter_page [OF assms True] True by (simp add: min_def)
  next
    case False
    then show ?thesis using Suc.IH page by (simp add: min_def)
  qed
qed simp

definition somes :: "'a option list \<Rightarrow> 'a list" where
  "somes xs = map the (filter (\<lambda>x. x \<noteq> None) xs)"

definition shown_tokens :: "bool \<Rightarrow> 'a list \<Rightarrow> 'a list" where
  "shown_tokens isXLScreen tokens =
     somes (concat (concat (map (token_cells isXLScreen tokens) [0..<numPages 15 tokens])))"

lemma somes_append: "somes [] = []" "somes (xs @ ys) = somes xs @ somes ys"
  by (simp_all add: somes_def)

lemma somes_page: "somes (take c (map Some xs @ replicate n None)) = take c xs"
proof -
  have "filter (\<lambda>x. x \<noteq> None) (take k (replicate n None)) = []" for k by (rule filter_False) auto
  moreover have "map the (filter (\<lambda>x. x \<noteq> None) (take c (map Some xs))) = take c xs"
    by (simp add: take_map filter_map comp_def)
  ultimately show ?thesis by (simp add: somes_def)
qed

text \<open>The table of tokens: shuffling ends and keeps every token; on a wide screen the pages
  together show the shuffled tokens in their order, each once, and on any other screen the last three
  of every full page of fifteen are never shown.\<close>

lemma vote_table_shows:
  assumes "\<And>s n. 0 < n \<Longrightarrow> index_at s n < n"
  shows "\<exists>out. pseudoRandomPredictableShuffle index_at tokens seed = Some (map Some out) \<and> mset out = mset tokens \<and>
    shown_tokens True out = out \<and>
    shown_tokens False out = map ((!) out) (filter (\<lambda>i. i mod 15 < 12) [0..<length out])"
proof -
  obtain out where out: "pseudoRandomPredictableShuffle index_at tokens seed = Some (map Some out)" "mset out = mset tokens"
    using shuffle_permutes [of index_at tokens seed] assms by blast
  have shown: "shown_tokens xl out = map ((!) out) (filter (\<lambda>i. i mod 15 < 3 * (if xl then 5 else 4)) [0..<length out])" for xl
  proof -
    have "length out < (length out div 15 + 1) * 15" by simp
    then have all: "min ((length out div 15 + 1) * 15) (length out) = length out" by simp
    have cells: "somes (concat (concat (map (token_cells xl out) ps))) =
        concat (map (\<lambda>page. take (3 * (if xl then 5 else 4)) (take 15 (drop (page * 15) out))) ps)" for ps
      by (induction ps) (simp_all add: somes_append somes_page token_cells_def page_cells del: take_append)
    have "3 * (if xl then 5 else 4) \<le> (15 :: nat)" by simp
    from shown_on_pages [OF this, of out "length out div 15 + 1"] show ?thesis
      by (simp only: shown_tokens_def numPages_def cells all)
  qed
  have "filter (\<lambda>i. i mod 15 < 15) [0..<length out] = [0..<length out]" by (intro filter_True) auto
  then have "shown_tokens True out = out" using shown [of True] by (simp add: map_nth)
  then show ?thesis using out shown [of False] by auto
qed

section \<open>Examples\<close>

text \<open>The proposal of the example in the theory of proposals, before and after a vote.\<close>

lemma demo_created:
  obtains e where
    "dao_run 3 15 0 demo_chain_proposal (handleProposalCreatedWithRequirements demo_block demo_params empty_store)"
    "st_proposals (handleProposalCreatedWithRequirements demo_block demo_params empty_store) (dec 3) = Some e"
    "pr_createdBlock e = 1"
proof -
  let ?s = "handleProposalCreatedWithRequirements demo_block demo_params empty_store"
  have "dao_run 3 1 0 demo_chain_proposal ?s"
    by (rule dao_run.create) (simp_all add: demo_chain_proposal_def demo_params_def demo_block_def empty_store_def)
  then have "dao_run 3 15 0 demo_chain_proposal ?s" by (rule dao_run.pass) simp_all
  moreover have "\<exists>e. st_proposals ?s (dec 3) = Some e \<and> pr_createdBlock e = 1"
    by (simp add: handleProposalCreatedWithRequirements_def getOrCreateProposal_def Let_def case_prod_beta
        proposals.load_save demo_params_def demo_block_def)
  ultimately show thesis using that by blast
qed

lemma demo_voted:
  obtains s e where "dao_run 3 25 0 (demo_chain_proposal\<lparr>cp_forVotes := 4\<rparr>) s" "st_proposals s (dec 3) = Some e"
    "pr_status e = ACTIVE"
proof -
  let ?s = "handleProposalCreatedWithRequirements demo_block demo_params empty_store"
  obtain p where p: "st_proposals ?s (dec 3) = Some p" "pr_status p = PENDING"
    using created_entity [of empty_store demo_params demo_block]
    by (auto simp: demo_params_def demo_block_def empty_store_def)
  obtain s where s: "handleVoteCast demo_block (demo_vote ''0xb'' 1 4) ?s = Some s"
    "st_proposals s (dec 3) = Some (tally (demo_vote ''0xb'' 1 4) p\<lparr>pr_status := ACTIVE\<rparr>)"
    using vote_cast_effect [of ?s "demo_vote ''0xb'' 1 4" p demo_block] p
    by (auto simp: tally_fields Let_def demo_vote_def)
  from that [OF demo_run [OF s(1)] s(2)] show thesis by simp
qed

theorem move_button_accepted_witness:
  "\<exists>(s :: store) e pr. st_proposals s (dec 3) = Some e \<and>
    subgraph_proposal (parseInt 10) (\<lambda>_ _ _ _. Inr []) (Some 25) (Some 0) (query_entity 3 e) = Inr pr \<and>
    moveStateAction (po_status pr) (po_id pr) = Some (QueueProposal (dec 3)) \<and>
    queue 5 26 1 [(''0xa'', 1, [], [])] (demo_chain_proposal\<lparr>cp_forVotes := 4\<rparr>, {}) \<noteq> None"
proof -
  obtain s e where s: "dao_run 3 25 0 (demo_chain_proposal\<lparr>cp_forVotes := 4\<rparr>) s" "st_proposals s (dec 3) = Some e"
    "pr_status e = ACTIVE" by (rule demo_voted)
  obtain pr where pr: "subgraph_proposal (parseInt 10) (\<lambda>_ _ _ _. Inr []) (Some (int 25)) (Some (int 0 * 1000)) (query_entity 3 e) = Inr pr"
    by (auto simp: subgraph_proposal_def)
  have "entity_agrees 25 (demo_chain_proposal\<lparr>cp_forVotes := 4\<rparr>) e" using dao_run_agrees [OF s(1)] s(2) by simp
  from shown_state [where bn = "parseInt 10" and time = 0 and pid = 3, OF _ this] s(3)
  have st: "po_status pr = S_SUCCEEDED"
    by (simp add: shown_proposal_fields(1) [OF pr] chain_state_def demo_chain_proposal_def)
  have act: "moveStateAction (po_status pr) (po_id pr) = Some (QueueProposal (dec 3))"
    by (simp add: st moveStateAction_def shown_proposal_fields(6) [OF pr] truthy_def)
  from move_button_accepted [OF s(1), where bn = "parseInt 10" and block' = 26 and time' = 1 and now = 1000
      and fd = "\<lambda>_ _ _ _. Inr []" and delay = 5 and queued = "{}" and actions = "[(''0xa'', 1, [], [])]"] s(2) pr st act
  show ?thesis by (fastforce simp: isAwaitingStateChange_def)
qed

theorem vote_button_counts_witness:
  "\<exists>b'. castVoteInternal (demo_governor\<lparr>gc_votingDelay := 9\<rparr>) 16 0 ''0xab'' (support_number FOR)
    \<lparr>bl_proposal = demo_chain_proposal, bl_abstainVotes = 0,
     bl_receipts = (\<lambda>_. \<lparr>rc_hasVoted = False, rc_support = 0, rc_votes = 0\<rparr>)\<rparr> = Some b'"
proof -
  obtain e where e:
    "dao_run 3 15 0 demo_chain_proposal (handleProposalCreatedWithRequirements demo_block demo_params empty_store)"
    "st_proposals (handleProposalCreatedWithRequirements demo_block demo_params empty_store) (dec 3) = Some e"
    "pr_createdBlock e = 1" by (rule demo_created)
  obtain pr where pr: "subgraph_proposal (parseInt 10) (\<lambda>_ _ _ _. Inr []) (Some (int 15)) None (query_entity 3 e) = Inr pr"
    by (auto simp: subgraph_proposal_def)
  have agree: "entity_agrees 15 demo_chain_proposal e" using dao_run_agrees [OF e(1)] e(2) by simp
  have f: "po_createdBlock pr = Some (int 1)" "po_startBlock pr = Some 10" "po_endBlock pr = Some 20"
    using agree e(3) int_to_base_nat [of 1] int_to_base_nat [of 10] int_to_base_nat [of 20]
    by (simp_all add: shown_proposal_fields [OF pr] entity_agrees_def demo_chain_proposal_def)
  let ?b = "\<lparr>bl_proposal = demo_chain_proposal, bl_abstainVotes = 0,
     bl_receipts = (\<lambda>_. \<lparr>rc_hasVoted = False, rc_support = 0, rc_votes = 0\<rparr>)\<rparr> :: ballot"
  let ?page = "\<lparr>vg_proposal = pr, vg_currentBlock = int 15, vg_timestamp = 100, vg_now = 101,
     vg_isWalletConnected = True, vg_hasVoted = False\<rparr> :: vote_page"
  have "vote_button_enabled (userVotesAsOfBlock (demo_governor\<lparr>gc_votingDelay := 9\<rparr>) ''0xab'' 1) ?page"
    by (simp add: vote_button_enabled_def isActiveForVoting_def isBefore_def isAfter_def block_date_def f
        AVERAGE_BLOCK_TIME_IN_SECS_def disableVoteButton_def userVotesAsOfBlock_def demo_governor_def)
  from vote_button_counts [OF e(1) _ e(2), where b = ?b and page = ?page and g = "demo_governor\<lparr>gc_votingDelay := 9\<rparr>"
      and created = 1 and account = "''0xab''" and time' = 0 and v = FOR and bn = "parseInt 10"
      and fd = "\<lambda>_ _ _ _. Inr []" and t = None] pr f(1) this
  show ?thesis by (fastforce simp: demo_chain_proposal_def)
qed

theorem modal_sends_one_vote_witness:
  "\<exists>m. modal_run (Some ''3'') m True 1 0 0 [CastVote ''3'' FOR] \<and> vm_isLoading m"
proof -
  let ?m = "initial_modal\<lparr>vm_vote := Some FOR\<rparr>"
  have "modal_run (Some ''3'') initial_modal True 0 0 0 []" by (intro modal_run.opened modal_run.start)
  then have "modal_run (Some ''3'') ?m True 0 0 0 []"
    by (rule modal_run.choose) (simp add: form_rendered_def initial_modal_def)
  then have "modal_run (Some ''3'') (?m\<lparr>vm_isLoading := True\<rparr>) True (Suc 0) 0 0 ([] @ [CastVote ''3'' FOR])"
    by (rule modal_run.submit)
      (simp_all add: form_rendered_def initial_modal_def submitVote_def truthy_def trim_def trim_left_def)
  then have r: "modal_run (Some ''3'') (?m\<lparr>vm_isLoading := True\<rparr>) True 1 0 0 [CastVote ''3'' FOR]" by simp
  from modal_sends_one_vote [OF r] have "vm_isLoading (?m\<lparr>vm_isLoading := True\<rparr>)" by (simp add: initial_modal_def)
  with r show ?thesis by blast
qed

end
