(* ===== verification/Web_Delegate.thy ===== *)
theory Web_Delegate
  imports Chain_Registry Web_Vote
begin

text \<open>
  The delegation dialog of the web application: \<open>components/ChangeDelegatePannel/index.tsx\<close>,
  \<open>components/DelegationCandidateInfo/index.tsx\<close>, \<open>components/DelegationCandidateVoteCountInfo/index.tsx\<close>,
  \<open>components/CurrentDelegatePannel/index.tsx\<close>, \<open>components/DelegationModal/index.tsx\<close>,
  \<open>components/NavBarButton/index.tsx\<close>, \<open>wrappers/useOgPunks\<close>, \<open>utils/addressAndENSDisplayUtils.ts\<close> and
  \<open>utils/pickByState.ts\<close>. The look-ups of names are answered in any order; the results say which
  address the dialog ends with, relate the votes it announces to those the token contract records, and follow a row
  of the list of original punks through the registry and the subgraph back to the list. Addresses of
  the chain are lower-case text, those of the wallet library carry a checksum. Markup is left out.
\<close>

section \<open>Addresses as text\<close>

definition veryShortENS :: "string \<Rightarrow> string" where
  "veryShortENS ens = join ''...'' [substr ens 0 1, substr ens (int (length ens) - 3) 3]"

definition veryShortAddress :: "string \<Rightarrow> string" where
  "veryShortAddress address = join ''...'' [substr address 0 3, substr address (int (length address) - 1) 1]"

definition shortENS :: "nat \<Rightarrow> string \<Rightarrow> string" where
  "shortENS innerWidth ens =
     (if length ens < 15 \<or> innerWidth > 480 then ens
      else join ''...'' [substr ens 0 4, substr ens (int (length ens) - 8) 8])"

definition short_address :: "string \<Rightarrow> string" where
  "short_address address = (if address = [] then [] else join ''...'' [substr address 0 4, substr address 38 4])"

definition lowerCaseAddress :: "string option \<Rightarrow> string" where
  "lowerCaseAddress address = (if truthy address then toLowerCase (the address) else [])"

definition usePickByState :: "'a \<Rightarrow> 'a list \<Rightarrow> 'b list \<Rightarrow> 'b option" where
  "usePickByState state states stateResults =
     (case find_index (\<lambda>s. s = state) states of
        None \<Rightarrow> None
      | Some i \<Rightarrow> if i < length stateResults then Some (stateResults ! i) else None)"

section \<open>Buttons\<close>

datatype NavBarButtonStyle =
    COOL_INFO | COOL_WALLET | WARM_INFO | WARM_WALLET | WHITE_INFO | WHITE_ACTIVE
  | WHITE_ACTIVE_VOTE_SUBMIT | WHITE_WALLET | DELEGATE_BACK | DELEGATE_PRIMARY | DELEGATE_SECONDARY | DELEGATE_DISABLED

fun getNavBarButtonVariant :: "NavBarButtonStyle option \<Rightarrow> string" where
  "getNavBarButtonVariant (Some COOL_INFO) = ''coolInfo''"
| "getNavBarButtonVariant (Some COOL_WALLET) = ''coolWallet''"
| "getNavBarButtonVariant (Some WARM_INFO) = ''warmInfo''"
| "getNavBarButtonVariant (Some WARM_WALLET) = ''warmWallet''"
| "getNavBarButtonVariant (Some WHITE_INFO) = ''whiteInfo''"
| "getNavBarButtonVariant (Some WHITE_ACTIVE) = ''whiteActive''"
| "getNavBarButtonVariant (Some WHITE_ACTIVE_VOTE_SUBMIT) = ''whiteActiveVoteSubmit''"
| "getNavBarButtonVariant (Some WHITE_WALLET) = ''whiteWallet''"
| "getNavBarButtonVariant (Some DELEGATE_BACK) = ''delegateBack''"
| "getNavBarButtonVariant (Some DELEGATE_PRIMARY) = ''delegatePrimary''"
| "getNavBarButtonVariant (Some DELEGATE_SECONDARY) = ''delegateSecondary''"
| "getNavBarButtonVariant (Some DELEGATE_DISABLED) = ''delegateDisabled''"
| "getNavBarButtonVariant None = ''info''"

record 'a nav_button =
  nb_text :: string
  nb_style :: "NavBarButtonStyle option"
  nb_onClick :: 'a
  nb_disabled :: bool

definition click :: "'a nav_button \<Rightarrow> 'a option" where
  "click b = (if nb_disabled b then None else Some (nb_onClick b))"

section \<open>The dialog\<close>

datatype ChangeDelegateState = ENTER_DELEGATE_ADDRESS | CHANGING | CHANGE_SUCCESS | CHANGE_FAILURE

record delegate_panel =
  dp_state :: ChangeDelegateState
  dp_address :: string
  dp_inputText :: string
  dp_inputClass :: string
  dp_activeOgPunkId :: string

definition opened_panel :: delegate_panel where
  "opened_panel = \<lparr>dp_state = ENTER_DELEGATE_ADDRESS, dp_address = [], dp_inputText = [], dp_inputClass = [],
     dp_activeOgPunkId = []\<rparr>"

definition getTitleFromStateOrId :: "ChangeDelegateState \<Rightarrow> string \<Rightarrow> string" where
  "getTitleFromStateOrId state pid =
     (if pid \<noteq> [] then ''Updating...''
      else case state of
             CHANGING \<Rightarrow> ''Updating...''
           | CHANGE_SUCCESS \<Rightarrow> ''Delegate Updated!''
           | CHANGE_FAILURE \<Rightarrow> ''Delegate Update Failed''
           | _ \<Rightarrow> ''Update Delegate'')"

fun delegateStateEffect :: "tx_status \<Rightarrow> delegate_panel \<Rightarrow> delegate_panel" where
  "delegateStateEffect Tx_Success p = p\<lparr>dp_state := CHANGE_SUCCESS\<rparr>"
| "delegateStateEffect (Tx_Exception e) p = p\<lparr>dp_state := CHANGE_FAILURE\<rparr>"
| "delegateStateEffect (Tx_Fail e) p = p\<lparr>dp_state := CHANGE_FAILURE\<rparr>"
| "delegateStateEffect Tx_Mining p = p\<lparr>dp_state := CHANGING\<rparr>"
| "delegateStateEffect _ p = p"

text \<open>\<open>wl_getAddress\<close> gives the form with a checksum and fails on what is no address;
  \<open>wl_resolveName\<close> is the answer of the provider.\<close>

record wallet_lib =
  wl_getAddress :: "string \<Rightarrow> string option"
  wl_resolveName :: "string \<Rightarrow> string option"

definition isAddress :: "wallet_lib \<Rightarrow> string \<Rightarrow> bool" where
  "isAddress W x \<longleftrightarrow> wl_getAddress W x \<noteq> None"

definition resolvedName :: "wallet_lib \<Rightarrow> string \<Rightarrow> string \<Rightarrow> string" where
  "resolvedName W asked address = (if truthy (wl_resolveName W asked) then the (wl_resolveName W asked) else address)"

definition checkIsValidENS :: "wallet_lib \<Rightarrow> string \<Rightarrow> delegate_panel \<Rightarrow> delegate_panel" where
  "checkIsValidENS W asked p = p\<lparr>dp_address := resolvedName W asked (dp_address p)\<rparr>"

definition inputClassEffect :: "wallet_lib \<Rightarrow> delegate_panel \<Rightarrow> delegate_panel" where
  "inputClassEffect W p =
     p\<lparr>dp_inputClass := (if length (dp_address p) = 0 then ''empty'' else if isAddress W (dp_address p) then ''valid'' else ''invalid'')\<rparr>"

definition enter_text :: "string \<Rightarrow> delegate_panel \<Rightarrow> delegate_panel" where
  "enter_text v p = p\<lparr>dp_address := v, dp_inputText := v\<rparr>"

definition handleResetDelegate :: "delegate_panel \<Rightarrow> delegate_panel" where
  "handleResetDelegate p = p\<lparr>dp_address := [], dp_inputText := [], dp_state := ENTER_DELEGATE_ADDRESS\<rparr>"

text \<open>What a button of the dialog does: look at the transaction, or send a delegation and, for the first of them,
  reset the dialog when the promise is settled.\<close>

datatype panel_action = ViewOnEtherscan | DelegateVotes string bool | DelegateOgPunk string string

definition delegate_text :: "string \<Rightarrow> nat \<Rightarrow> string" where
  "delegate_text locale availableVotes =
     (if locale = ''en-US ''
      then ''Delegate '' @ dec availableVotes @ (if availableVotes = 1 then ''Vote'' else ''Votes'')
      else ''Delegate '' @ dec availableVotes @ '' '' @ (if availableVotes = 1 then ''Vote'' else ''Votes''))"

definition primaryButton ::
  "wallet_lib \<Rightarrow> string \<Rightarrow> nat \<Rightarrow> string option \<Rightarrow> delegate_panel \<Rightarrow> panel_action nav_button option" where
  "primaryButton W locale availableVotes currentDelegate p =
     (let address = dp_address p;
          secondary = isAddress W address \<and> Some address \<noteq> currentDelegate
      in Option.bind (usePickByState (dp_state p) [ENTER_DELEGATE_ADDRESS, CHANGING, CHANGE_SUCCESS, CHANGE_FAILURE]
           [Some \<lparr>nb_text = delegate_text locale availableVotes,
                  nb_style = Some (if availableVotes = 0 then DELEGATE_DISABLED
                                   else if secondary then DELEGATE_SECONDARY else DELEGATE_DISABLED),
                  nb_onClick = DelegateVotes address True,
                  nb_disabled = (availableVotes = 0 \<or> dp_state p = ENTER_DELEGATE_ADDRESS \<and> \<not> isAddress W address)\<rparr>,
            Some \<lparr>nb_text = ''View on Etherscan'', nb_style = Some DELEGATE_PRIMARY, nb_onClick = ViewOnEtherscan,
                  nb_disabled = False\<rparr>,
            Some \<lparr>nb_text = delegate_text locale availableVotes,
                  nb_style = Some (if secondary then DELEGATE_SECONDARY else DELEGATE_DISABLED),
                  nb_onClick = DelegateVotes address False,
                  nb_disabled = (dp_state p = ENTER_DELEGATE_ADDRESS \<and> \<not> isAddress W address)\<rparr>,
            None]) id)"

definition primaryCopy :: "nat \<Rightarrow> string option \<Rightarrow> delegate_panel \<Rightarrow> string option" where
  "primaryCopy availableVotes errorMessage p =
     usePickByState (dp_state p) [ENTER_DELEGATE_ADDRESS, CHANGING, CHANGE_SUCCESS, CHANGE_FAILURE]
       [''Enter the Ethereum address or ENS name of the account you would like to delegate your votes to.'',
        ''Your '' @ dec availableVotes @ '' votes are being delegated to a new account.'',
        ''Your '' @ dec availableVotes @ '' votes have been delegated to a new account.'',
        case errorMessage of None \<Rightarrow> [] | Some e \<Rightarrow> e]"

definition already_delegated :: "string option \<Rightarrow> delegate_panel \<Rightarrow> bool" where
  "already_delegated currentDelegate p \<longleftrightarrow> dp_state p = ENTER_DELEGATE_ADDRESS \<and> Some (dp_address p) = currentDelegate"

section \<open>The list of original punks\<close>

record og_row =
  ow_id :: string
  ow_delegate :: "string option"

text \<open>The effect of \<open>useOgPunks\<close>: \<open>None\<close> is \<open>undefined\<close>, which a skipped or a fresh query has for data.\<close>

definition ogPunks_effect :: "bool \<Rightarrow> bool \<Rightarrow> og_row list option \<Rightarrow> og_row list option \<Rightarrow> og_row list option" where
  "ogPunks_effect loading error data ogPunks = (if \<not> loading \<and> \<not> error then data else ogPunks)"

definition listed_rows :: "og_row list option \<Rightarrow> og_row list result" where
  "listed_rows ogPunks = of_option TypeError ogPunks"

definition renderDelegatee :: "string option \<Rightarrow> og_row \<Rightarrow> string" where
  "renderDelegatee account row =
     (case ow_delegate row of
        None \<Rightarrow> ''None''
      | Some d \<Rightarrow> if d = lowerCaseAddress account then ''You'' else short_address d)"

text \<open>The position of a picture in the sheet, in pixels to the left and up; \<open>None\<close> is \<open>NaN\<close>.\<close>

definition getPosition :: "og_row \<Rightarrow> (int \<times> int) option" where
  "getPosition row =
     map_option (\<lambda>i. (- ((i mod (2400 div 24)) * 24), - ((i div (2400 div 24)) * 24))) (parseInt 10 (ow_id row))"

definition og_button :: "wallet_lib \<Rightarrow> delegate_panel \<Rightarrow> og_row \<Rightarrow> panel_action nav_button" where
  "og_button W p row =
     \<lparr>nb_text = ''Delegate'',
      nb_style = (if \<not> isAddress W (dp_address p) \<or> ow_delegate row = Some (lowerCaseAddress (Some (dp_address p)))
                  then Some DELEGATE_DISABLED else None),
      nb_onClick = DelegateOgPunk (dp_address p) (ow_id row),
      nb_disabled = (dp_state p = ENTER_DELEGATE_ADDRESS \<and> \<not> isAddress W (dp_address p))\<rparr>"

definition og_row_button :: "wallet_lib \<Rightarrow> tx_status \<Rightarrow> delegate_panel \<Rightarrow> og_row \<Rightarrow> panel_action nav_button" where
  "og_row_button W ogState p row =
     (if ogState = Tx_Mining \<and> ow_id row = dp_activeOgPunkId p
      then \<lparr>nb_text = ''View on Etherscan'', nb_style = Some DELEGATE_PRIMARY, nb_onClick = ViewOnEtherscan, nb_disabled = False\<rparr>
      else og_button W p row)"

definition handleDelegateOgPunk :: "string \<Rightarrow> delegate_panel \<Rightarrow> delegate_panel" where
  "handleDelegateOgPunk pid p = p\<lparr>dp_activeOgPunkId := pid\<rparr>"

definition ogPunk_settled :: "delegate_panel \<Rightarrow> delegate_panel" where
  "ogPunk_settled p = handleResetDelegate (p\<lparr>dp_activeOgPunkId := []\<rparr>)"

definition panel_title :: "tx_status \<Rightarrow> delegate_panel \<Rightarrow> string" where
  "panel_title ogState p =
     getTitleFromStateOrId (dp_state p) (if ogState = Tx_Mining then dp_activeOgPunkId p else [])"

section \<open>The votes of the candidate\<close>

text \<open>The effect of \<open>DelegationCandidateInfo\<close>: it runs again when it changed the count.\<close>

definition will_effect :: "ChangeDelegateState \<Rightarrow> nat \<Rightarrow> nat \<Rightarrow> nat \<Rightarrow> nat" where
  "will_effect state countDelegated votesToAdd will =
     (if state = ENTER_DELEGATE_ADDRESS \<and> will \<noteq> 0 then 0
      else if will > 0 then will
      else if state \<noteq> ENTER_DELEGATE_ADDRESS \<and> will \<noteq> countDelegated + votesToAdd then countDelegated + votesToAdd
      else will)"

record vote_count_info =
  vi_text :: string
  vi_voteCount :: nat
  vi_isLoading :: bool

definition changeDelegateInfo :: "ChangeDelegateState \<Rightarrow> nat \<Rightarrow> nat \<Rightarrow> vote_count_info option" where
  "changeDelegateInfo state countDelegated will =
     usePickByState state [ENTER_DELEGATE_ADDRESS, CHANGING, CHANGE_SUCCESS]
       [\<lparr>vi_text = (if countDelegated > 0 then ''Already has'' else ''Has''), vi_voteCount = countDelegated, vi_isLoading = False\<rparr>,
        \<lparr>vi_text = ''Will have'', vi_voteCount = will, vi_isLoading = True\<rparr>,
        \<lparr>vi_text = ''Now has'', vi_voteCount = countDelegated, vi_isLoading = False\<rparr>]"

definition count_text :: "nat \<Rightarrow> string" where
  "count_text voteCount = (if voteCount = 1 then dec voteCount @ '' Vote'' else dec voteCount @ '' Votes'')"

definition candidate_lines :: "string \<Rightarrow> string \<Rightarrow> string \<times> string" where
  "candidate_lines locale address =
     (if address \<noteq> [] then (address, short_address address)
      else (''Enter address above'', if locale = ''en-US'' then ''0x... or ...eth'' else ''0x... / ...eth''))"

section \<open>The current delegate\<close>

definition current_account :: "string option \<Rightarrow> string option \<Rightarrow> string" where
  "current_account delegate maybeAccount =
     (case delegate of Some d \<Rightarrow> d | None \<Rightarrow> (case maybeAccount of Some a \<Rightarrow> a | None \<Rightarrow> []))"

datatype delegation_modal = CurrentDelegatePannel | ChangeDelegatePannel delegate_panel

definition onPrimaryBtnClick :: "delegation_modal \<Rightarrow> delegation_modal" where
  "onPrimaryBtnClick m = (case m of CurrentDelegatePannel \<Rightarrow> ChangeDelegatePannel opened_panel | _ \<Rightarrow> m)"

section \<open>Names are looked up while the user types\<close>

text \<open>What the libraries document: an address in any spelling has one form with a checksum, whose
  lower-case form is the address on the chain; looking up an address gives its checksum form, looking up a
  name gives such a form or nothing.\<close>

definition wallet_ok :: "wallet_lib \<Rightarrow> bool" where
  "wallet_ok W \<longleftrightarrow>
     (\<forall>x y. wl_getAddress W x = Some y \<longrightarrow>
        y \<noteq> [] \<and> wl_getAddress W y = Some y \<and> wl_getAddress W (toLowerCase y) = Some y \<and> wl_resolveName W x = Some y) \<and>
     (\<forall>x y. wl_resolveName W x = Some y \<longrightarrow> wl_getAddress W y = Some y)"

text \<open>The dialog with the look-ups that are not answered yet: the text of the field, the address behind it, the
  names asked for. Every change of the address asks again; answers come in any order. With \<open>calm\<close> the user
  waits for the answers before typing on.\<close>

inductive dialog_run :: "wallet_lib \<Rightarrow> bool \<Rightarrow> delegate_panel \<Rightarrow> string list \<Rightarrow> bool" for W calm where
  opened: "dialog_run W calm opened_panel [[]]"
| typed: "dialog_run W calm p asked \<Longrightarrow> calm \<longrightarrow> asked = [] \<Longrightarrow> dp_state p \<noteq> CHANGE_FAILURE \<Longrightarrow>
    dialog_run W calm (enter_text v p) (if v = dp_address p then asked else asked @ [v])"
| answered: "dialog_run W calm p (xs @ n # ys) \<Longrightarrow> p' = checkIsValidENS W n p \<Longrightarrow>
    dialog_run W calm p' (xs @ ys @ (if dp_address p' = dp_address p then [] else [dp_address p']))"
| classed: "dialog_run W calm p asked \<Longrightarrow> dialog_run W calm (inputClassEffect W p) asked"

definition named :: "wallet_lib \<Rightarrow> string \<Rightarrow> string" where
  "named W t = resolvedName W t t"

lemma wallet_okD:
  assumes "wallet_ok W"
  shows "wl_getAddress W x = Some y \<Longrightarrow> wl_getAddress W y = Some y"
    and "wl_getAddress W x = Some y \<Longrightarrow> wl_getAddress W (toLowerCase y) = Some y"
    and "wl_getAddress W x = Some y \<Longrightarrow> wl_resolveName W x = Some y"
    and "wl_getAddress W x = Some y \<Longrightarrow> y \<noteq> []"
    and "wl_resolveName W x = Some y \<Longrightarrow> wl_getAddress W y = Some y"
  using assms unfolding wallet_ok_def by blast+

lemma named_cases:
  assumes "wallet_ok W"
  obtains "wl_resolveName W t = None" "named W t = t"
  | y where "wl_resolveName W t = Some y" "named W t = y" "wl_getAddress W y = Some y" "wl_resolveName W y = Some y" "y \<noteq> []"
proof (cases "wl_resolveName W t")
  case None
  then show ?thesis using that(1) by (simp add: named_def resolvedName_def truthy_def)
next
  case (Some y)
  have y: "wl_getAddress W y = Some y" by (rule wallet_okD(5) [OF assms Some])
  have "y \<noteq> []" by (rule wallet_okD(4) [OF assms y])
  with Some y wallet_okD(3) [OF assms y] show ?thesis using that(2) by (simp add: named_def resolvedName_def truthy_def)
qed

lemma named_named:
  assumes "wallet_ok W"
  shows "named W (named W t) = named W t"
  by (rule named_cases [OF assms, of t]) (simp_all add: named_def resolvedName_def truthy_def)

lemma calm_dialog:
  assumes ok: "wallet_ok W" and "dialog_run W True p asked"
  shows "if asked = [] then dp_address p = named W (dp_inputText p)
    else asked = [dp_address p] \<and> dp_address p \<in> {dp_inputText p, named W (dp_inputText p)}"
  using assms(2)
proof induction
  case opened
  show ?case by (simp add: opened_panel_def)
next
  case (typed p asked v)
  then have "asked = []" "dp_address p = named W (dp_inputText p)" by auto
  with named_named [OF ok] show ?case by (auto simp: enter_text_def)
next
  case (answered p xs n ys p')
  then have *: "xs = []" "ys = []" "n = dp_address p" and a: "dp_address p = dp_inputText p \<or> dp_address p = named W (dp_inputText p)"
    by (auto simp: append_eq_Cons_conv Cons_eq_append_conv)
  have "dp_address p' = named W (dp_address p)" "dp_inputText p' = dp_inputText p"
    using answered.hyps * by (simp_all add: checkIsValidENS_def named_def)
  then show ?case using * a named_named [OF ok] by auto
next
  case (classed p asked)
  then show ?case by (simp add: inputClassEffect_def split: if_splits)
qed

lemma named_address:
  assumes "wallet_ok W" and "isAddress W (named W t)"
  shows "wl_getAddress W (named W t) = Some (named W t)"
proof (rule named_cases [OF assms(1), of t])
  assume none: "wl_resolveName W t = None" "named W t = t"
  with assms(2) obtain y where "wl_getAddress W t = Some y" by (auto simp: isAddress_def)
  from wallet_okD(3) [OF assms(1) this] none show ?thesis by simp
qed simp


text \<open>C22. A late answer wins: nothing cancels a look-up. When two names resolve to different addresses and the answer
  for the first arrives after the answer for the second, the field shows the second name, nothing is
  pending, and the button delegates to the owner of the first.\<close>

theorem late_answer_wins:
  assumes "wl_resolveName W n1 = Some a1" and "wl_resolveName W n2 = Some a2"
    and "wl_resolveName W a1 = Some a1" and "wl_resolveName W a2 = Some a2" and "wl_resolveName W [] = None"
    and "a1 \<noteq> a2" and "isAddress W a1" and "n1 \<noteq> []" and "n2 \<noteq> n1" and "n2 \<noteq> a2" and "a1 \<noteq> []" and "a2 \<noteq> []"
  shows "\<exists>p. dialog_run W False p [] \<and> dp_inputText p = n2 \<and> dp_state p = ENTER_DELEGATE_ADDRESS \<and>
    Option.bind (primaryButton W locale (Suc votes) currentDelegate p) click = Some (DelegateVotes a1 True)"
proof -
  let ?r = "dialog_run W False"
  define p where "p a t = opened_panel\<lparr>dp_address := a, dp_inputText := t\<rparr>" for a t
  have typed: "?r (p v v) (asked @ [v])" if "?r (p a t) asked" "v \<noteq> a" for a t asked v
    using dialog_run.typed [OF that(1), of v] that(2) by (simp add: p_def enter_text_def opened_panel_def)
  have answer: "?r (p b t) (xs @ ys @ (if b = a then [] else [b]))" if "?r (p a t) (xs @ n # ys)" "resolvedName W n a = b" for a b t xs ys n
  proof -
    have p': "checkIsValidENS W n (p a t) = p b t" using that(2) by (simp add: p_def checkIsValidENS_def)
    have addr: "dp_address (p b t) = b" "dp_address (p a t) = a" by (simp_all add: p_def)
    from dialog_run.answered [OF that(1) refl] show ?thesis unfolding p' addr .
  qed
  have r: "resolvedName W n1 a = a1" "resolvedName W n2 a = a2" "resolvedName W a1 a = a1" "resolvedName W a2 a = a2"
    "resolvedName W [] a = a" for a using assms by (auto simp: resolvedName_def truthy_def)
  have "?r (p [] []) [[]]" using dialog_run.opened [of W False] by (simp add: p_def opened_panel_def)
  from answer [of "[]" "[]" "[]" "[]" "[]", OF _ r(5)] this have "?r (p [] []) []" by simp
  from typed [OF this, of n1] assms(8) have "?r (p n1 n1) [n1]" by simp
  from typed [OF this, of n2] assms(9) have "?r (p n2 n2) [n1, n2]" by simp
  from answer [of n2 n2 "[n1]" n2 "[]", OF _ r(2)] this assms(10) have "?r (p a2 n2) [n1, a2]" by auto
  from answer [of a2 n2 "[n1]" a2 "[]", OF _ r(4)] this have "?r (p a2 n2) [n1]" by simp
  from answer [of a2 n2 "[]" n1 "[]", OF _ r(1)] this assms(6) have "?r (p a1 n2) [a1]" by simp
  from answer [of a1 n2 "[]" a1 "[]", OF _ r(3)] this have "?r (p a1 n2) []" by simp
  moreover have "Option.bind (primaryButton W locale (Suc votes) currentDelegate (p a1 n2)) click = Some (DelegateVotes a1 True)"
    using assms(7) by (simp add: p_def opened_panel_def primaryButton_def usePickByState_def click_def Let_def)
  ultimately show ?thesis by (intro exI [of _ "p a1 n2"]) (simp add: p_def opened_panel_def)
qed

section \<open>The votes announced are the votes recorded\<close>

text \<open>What the count settles at over a sequence of renderings, each with the state, the candidate's votes as read
  from the chain and the votes to add.\<close>

fun will_count :: "(ChangeDelegateState \<times> nat \<times> nat) list \<Rightarrow> nat \<Rightarrow> nat" where
  "will_count [] will = will"
| "will_count ((state, countDelegated, votesToAdd) # rs) will = will_count rs (will_effect state countDelegated votesToAdd will)"

text \<open>The effect settles at once: running it again on its own result changes nothing.\<close>

lemma will_effect_settles: "will_effect state c n (will_effect state c n will) = will_effect state c n will"
  by (simp add: will_effect_def)

lemma will_count_kept: "0 < will \<Longrightarrow> \<forall>r \<in> set rs. fst r \<noteq> ENTER_DELEGATE_ADDRESS \<Longrightarrow> will_count rs will = will"
  by (induction rs will rule: will_count.induct) (simp_all add: will_effect_def)

lemma delegate_call_moves:
  assumes ok: "token_ok b T" and a: "a \<noteq> ZERO_ADDRESS" and d: "d \<noteq> ZERO_ADDRESS" "d \<noteq> delegates T a"
    and block: "b \<le> block_of (ev 0)" "block_of (ev 0) < 2 ^ 32 - 1" and few: "nt_currentPunkId T < 2 ^ 95"
  shows "\<exists>T' es. delegate_call ev a d T = Some (T', es) \<and> delegates T' a = d \<and>
    current_votes T' d = current_votes T d + nt_balances T a \<and>
    current_votes T' (delegates T a) + nt_balances T a = current_votes T (delegates T a) \<and>
    (\<forall>e. e \<notin> {d, delegates T a, ZERO_ADDRESS} \<longrightarrow> current_votes T' e = current_votes T e)"
proof -
  let ?s = "delegates T a" and ?n = "nt_balances T a"
  have z: "nt_delegates T ZERO_ADDRESS = ZERO_ADDRESS" using ok by (simp add: token_ok_def)
  have s: "?s \<noteq> ZERO_ADDRESS" using delegates_zero [OF z] a by simp
  have ck: "\<And>c. checkpoints_ok b (nt_checkpoints T c)" using ok by (simp add: token_ok_def)
  have fin: "finite (represented T e)" for e
    using finite_owned [of "nt_currentPunkId T" "nt_owners T"] ok by (simp add: token_ok_def represented_def)
  have "owned T a \<subseteq> represented T ?s" using a by (auto simp: owned_def represented_def)
  then have "card (owned T a) \<le> card (represented T ?s)" by (rule card_mono [OF fin])
  then have n: "?n \<le> current_votes T ?s" using ok a s by (simp add: token_ok_def)
  have le: "current_votes T e \<le> nt_currentPunkId T" if "e \<noteq> ZERO_ADDRESS" for e
    using card_represented_le [OF ok, of e] ok that by (simp add: token_ok_def)
  have "Suc (block_of (ev 0)) < 2 ^ 32" using block(2) by simp
  moreover have "current_votes T d + ?n < 2 ^ 96" using le [OF d(1)] le [OF s] n few by simp
  ultimately obtain C cs where mv: "moveDelegates (block_of (ev 0)) ?s d ?n (nt_checkpoints T) = Some (C, cs)"
    using moveDelegates_some [where C = "nt_checkpoints T" and s = ?s and n = ?n and d = d, OF ck block(1)] n by blast
  have "?n < 2 ^ 96" using le [OF s] n few by simp
  with mv a d(1) have call: "delegate_call ev a d T = Some
      (T\<lparr>nt_delegates := (nt_delegates T)(a := d), nt_checkpoints := C\<rparr>, DelegateChanged (ev 0) a ?s d # cs)"
    by (simp add: delegate_call_def delegate_from_def Let_def)
  have eff: "getCurrentVotes (C e) + (if e = ?s then ?n else 0) = current_votes T e + (if e = d then ?n else 0)"
    if "e \<noteq> ZERO_ADDRESS" for e by (rule moveDelegates_effect(3) [OF ck block(1) mv that])
  have others: "\<forall>e. e \<notin> {d, ?s, ZERO_ADDRESS} \<longrightarrow> getCurrentVotes (C e) = current_votes T e"
  proof (intro allI impI)
    fix e assume "e \<notin> {d, ?s, ZERO_ADDRESS}"
    with eff [of e] show "getCurrentVotes (C e) = current_votes T e" by auto
  qed
  have "getCurrentVotes (C d) = current_votes T d + ?n" "getCurrentVotes (C ?s) + ?n = current_votes T ?s"
    using eff [of d] eff [of ?s] d s by simp_all
  with call others d(1) show ?thesis by (simp add: delegates_def cong: if_cong)
qed


text \<open>The button stays enabled for the current delegate, and then the announced number is too high: the contract
  changes nothing.\<close>

lemma redelegation_overcounted:
  assumes "token_ok b T" and "a \<noteq> ZERO_ADDRESS" and "nt_balances T a > 0" and "nt_balances T a < 2 ^ 96"
    and "d = delegates T a"
  shows "\<exists>T' es. delegate_call ev a d T = Some (T', es) \<and> current_votes T' d = current_votes T d \<and>
    will_count [(CHANGING, current_votes T d, nt_balances T a)] 0 = current_votes T' d + nt_balances T a"
proof -
  have "d \<noteq> ZERO_ADDRESS" using assms(1,2,5) delegates_zero by (auto simp: token_ok_def)
  then show ?thesis
    using assms(2-5) by (simp add: delegate_call_def delegate_from_def moveDelegates_def will_effect_def Let_def)
qed

text \<open>The messages about a finished delegation vanish: the promise is settled after the status has been
  reported, and its handler goes back to entering an address.\<close>

lemma outcome_not_kept:
  "dp_state (handleResetDelegate (delegateStateEffect st p)) = ENTER_DELEGATE_ADDRESS"
  by (simp add: handleResetDelegate_def)

text \<open>Without an account the query is skipped and its missing answer is kept as the list, whose length the
  dialog then reads.\<close>

lemma skipped_query_throws: "listed_rows (ogPunks_effect False False None rows) = Inl TypeError"
  by (simp add: listed_rows_def ogPunks_effect_def)

section \<open>A row of the list of original punks\<close>

text \<open>An answer to \<open>ogpunksByOwner\<close>, which names no number of rows and gets at most a hundred.\<close>

definition ogpunks_answer :: "store \<Rightarrow> string \<Rightarrow> og_row list \<Rightarrow> bool" where
  "ogpunks_answer s owner rows \<longleftrightarrow>
     length rows \<le> 100 \<and> distinct (map ow_id rows) \<and>
     (\<forall>row \<in> set rows. \<exists>og. st_ogpunks s (ow_id row) = Some og \<and> og_owner og = owner \<and> ow_delegate row = og_delegate og)"

text \<open>The contracts agree with the ledger about the punks of accounts.\<close>

definition contracts_agree :: "punk_contracts \<Rightarrow> ledger \<Rightarrow> bool" where
  "contracts_agree P M \<longleftrightarrow>
     (\<forall>t a. M t = Some a \<and> a \<noteq> pc_wrapper P \<longrightarrow>
        (if pc_owner P t = pc_wrapper P then pc_wrappedOwner P t = Some a else pc_owner P t = a))"

text \<open>A row of the list of original punks: whenever a row is listed for the connected account and an address is
  entered, its button is enabled, the registry accepts the delegation, wrapped or not, and the
  handlers of the subgraph take its logs; in every later answer the row of this punk shows the new
  delegate (\<open>You\<close> for the account itself) and its button is marked as disabled for this address.\<close>

lemma og_row_delegates:
  assumes "wallet_ok W" and "registry_run R" and "og_indexed M s" and "contracts_agree P M"
    and "account \<noteq> []" and "toLowerCase account \<noteq> pc_wrapper P"
    and "ogpunks_answer s (lowerCaseAddress (Some account)) rows" and "row \<in> set rows" and "ow_id row = dec t"
    and "t < CRYPTOPUNKS_TOTAL_SUPPLY" and "wl_getAddress W (dp_address p) = Some (dp_address p)"
    and "toLowerCase (dp_address p) \<noteq> ZERO_ADDRESS" and "block_of ev < 2 ^ 32 - 1"
  defines "a \<equiv> toLowerCase account" and "d \<equiv> toLowerCase (dp_address p)"
  shows "click (og_button W p row) = Some (DelegateOgPunk (dp_address p) (dec t)) \<and>
    (\<exists>R' es s'. og_delegate_call P ev a d t R = Some (R', es) \<and> handle_events es s = Some s' \<and>
      (\<forall>rows' row'. ogpunks_answer s' a rows' \<and> row' \<in> set rows' \<and> ow_id row' = dec t \<longrightarrow>
        renderDelegatee (Some account) row' = (if d = a then ''You'' else short_address d) \<and>
        nb_style (og_button W p row') = Some DELEGATE_DISABLED))"
proof -
  have lower: "lowerCaseAddress (Some account) = a" using assms(5) by (simp add: lowerCaseAddress_def truthy_def a_def)
  have addr: "dp_address p \<noteq> []" by (rule wallet_okD(4) [OF assms(1,11)])
  obtain og where og: "st_ogpunks s (dec t) = Some og" "og_owner og = a"
    using assms(7-9) by (auto simp: ogpunks_answer_def lower)
  then have "M t = Some a" using assms(3) unfolding og_indexed_def by (metis option.simps(9))
  then have "may_delegate P a (or_delegates R t) t"
    using assms(4) [unfolded contracts_agree_def, rule_format, of t a] assms(6) by (simp add: may_delegate_def a_def split: if_splits)
  from delegation_accepted [OF registry_run_ok [OF assms(2)] this assms(10) assms(12,13)]
  obtain R' es where call: "og_delegate_call P ev a d t R = Some (R', es)" by (auto simp: d_def)
  from og_delegation_handled [OF call og(1)] obtain s' where s': "handle_events es s = Some s'"
    "st_ogpunks s' (dec t) = Some (og\<lparr>og_delegate := Some d\<rparr>)" by blast
  have "renderDelegatee (Some account) row' = (if d = a then ''You'' else short_address d) \<and>
      nb_style (og_button W p row') = Some DELEGATE_DISABLED"
    if answer: "ogpunks_answer s' a rows'" "row' \<in> set rows'" "ow_id row' = dec t" for rows' row'
  proof -
    obtain og' where "st_ogpunks s' (dec t) = Some og'" "ow_delegate row' = og_delegate og'"
      using answer by (fastforce simp: ogpunks_answer_def)
    then have "ow_delegate row' = Some d" using s'(2) by auto
    then show ?thesis
      using lower addr by (simp add: renderDelegatee_def og_button_def lowerCaseAddress_def truthy_def d_def)
  qed
  moreover have "click (og_button W p row) = Some (DelegateOgPunk (dp_address p) (dec t))"
    using assms(9,11) by (simp add: click_def og_button_def isAddress_def)
  ultimately show ?thesis using call s'(1) by blast
qed

section \<open>Two accounts\<close>

definition demo_getAddress :: "string \<Rightarrow> string option" where
  "demo_getAddress x =
     (if x \<in> {''0xa'', ''0xA''} then Some ''0xA'' else if x \<in> {''0xb'', ''0xB''} then Some ''0xB'' else None)"

definition demo_wallet :: wallet_lib where
  "demo_wallet =
     \<lparr>wl_getAddress = demo_getAddress,
      wl_resolveName = (\<lambda>x. if x = ''alice.eth'' then Some ''0xA'' else if x = ''bob.eth'' then Some ''0xB''
                            else demo_getAddress x)\<rparr>"

lemma demo_lower: "toLowerCase ''0xA'' = ''0xa''" "toLowerCase ''0xB'' = ''0xb''"
  by code_simp+

lemma demo_wallet_ok: "wallet_ok demo_wallet"
  by (simp add: wallet_ok_def demo_wallet_def demo_getAddress_def demo_lower)

lemma answered_first:
  assumes "dialog_run W calm p (n # asked)" and "checkIsValidENS W n p = p'"
  shows "dp_address p' = dp_address p \<Longrightarrow> dialog_run W calm p' asked"
    and "dp_address p' \<noteq> dp_address p \<Longrightarrow> dialog_run W calm p' (asked @ [dp_address p'])"
  using dialog_run.answered [of W calm p "[]" n asked p'] assms by auto

lemma demo_dialog: "dialog_run demo_wallet True (opened_panel\<lparr>dp_address := ''0xB'', dp_inputText := ''bob.eth''\<rparr>) []"
proof -
  let ?p = "\<lambda>a t. opened_panel\<lparr>dp_address := a, dp_inputText := t\<rparr>"
  note simps = checkIsValidENS_def resolvedName_def truthy_def demo_wallet_def demo_getAddress_def opened_panel_def
  have "dialog_run demo_wallet True opened_panel []"
    by (rule answered_first(1) [OF dialog_run.opened]) (simp_all add: simps)
  from dialog_run.typed [OF this, of "''bob.eth''"] have 1: "dialog_run demo_wallet True (?p ''bob.eth'' ''bob.eth'') [''bob.eth'']"
    by (simp add: enter_text_def opened_panel_def)
  have "dialog_run demo_wallet True (?p ''0xB'' ''bob.eth'') ([] @ [dp_address (?p ''0xB'' ''bob.eth'')])"
    by (rule answered_first(2) [OF 1]) (simp_all add: simps)
  then have 2: "dialog_run demo_wallet True (?p ''0xB'' ''bob.eth'') [''0xB'']" by simp
  show ?thesis by (rule answered_first(1) [OF 2]) (simp_all add: simps)
qed


theorem late_answer_wins_witness:
  "\<exists>p. dialog_run demo_wallet False p [] \<and> dp_inputText p = ''bob.eth'' \<and>
    Option.bind (primaryButton demo_wallet ''en-US'' 1 None p) click = Some (DelegateVotes ''0xA'' True)"
proof -
  have "wl_resolveName demo_wallet ''alice.eth'' = Some ''0xA''" "wl_resolveName demo_wallet ''bob.eth'' = Some ''0xB''"
    "wl_resolveName demo_wallet ''0xA'' = Some ''0xA''" "wl_resolveName demo_wallet ''0xB'' = Some ''0xB''"
    "wl_resolveName demo_wallet [] = None" "isAddress demo_wallet ''0xA''"
    by (simp_all add: demo_wallet_def demo_getAddress_def isAddress_def)
  from late_answer_wins [OF this(1-5) _ this(6), of "''en-US''" 0 None] show ?thesis by auto
qed


end
