(* ===== verification/Graph_Refs.thy ===== *)
theory Graph_Refs
  imports Graph_Index
begin

text \<open>
  The references between the entities of the subgraph. A field of \<open>schema.graphql\<close> whose type is
  another entity is stored as the id of that entity, and nothing checks that the entity is there:
  the handlers have to. The server answers a query through a required reference (\<open>owner: Account!\<close>)
  to an entity that is missing with an error. The invariant says that the handlers keep every
  reference but one resolved, and the other theorem what happens to that one.
\<close>

section \<open>References that resolve\<close>

text \<open>\<open>D\<close> is the store in which the references are looked up. \<open>Account.delegate\<close> is optional in the
  schema and is left out here, \<open>DelegationEvent.previousDelegate\<close> is the exception.\<close>

definition punk_ok :: "store \<Rightarrow> punk_entity \<Rightarrow> bool" where
  "punk_ok D p \<longleftrightarrow> pk_owner p \<in> dom (st_accounts D) \<and> set_option (pk_seed p) \<subseteq> dom (st_seeds D)"

definition ogpunk_ok :: "store \<Rightarrow> ogpunk_entity \<Rightarrow> bool" where
  "ogpunk_ok D p \<longleftrightarrow> og_owner p \<in> dom (st_accounts D) \<and> set_option (og_delegate p) \<subseteq> dom (st_delegates D)"

definition account_ok :: "store \<Rightarrow> account_entity \<Rightarrow> bool" where
  "account_ok D a \<longleftrightarrow> set (ac_punks a) \<subseteq> dom (st_punks D) \<and> set (ac_ogpunks a) \<subseteq> dom (st_ogpunks D)"

definition delegate_ok :: "store \<Rightarrow> delegate_entity \<Rightarrow> bool" where
  "delegate_ok D d \<longleftrightarrow>
     set (dl_punksRepresented d) \<subseteq> dom (st_punks D) \<and> set (dl_ogpunksRepresented d) \<subseteq> dom (st_ogpunks D)"

definition auction_ok :: "store \<Rightarrow> auction_entity \<Rightarrow> bool" where
  "auction_ok D a \<longleftrightarrow> au_punk a \<in> dom (st_punks D) \<and> set_option (au_bidder a) \<subseteq> dom (st_accounts D)"

definition bid_ok :: "store \<Rightarrow> bid_entity \<Rightarrow> bool" where
  "bid_ok D b \<longleftrightarrow> bd_punk b \<in> dom (st_punks D) \<and> bd_auction b \<in> dom (st_auctions D) \<and>
     set_option (bd_bidder b) \<subseteq> dom (st_accounts D)"

definition proposal_ok :: "store \<Rightarrow> proposal_entity \<Rightarrow> bool" where
  "proposal_ok D p \<longleftrightarrow> pr_proposer p \<in> dom (st_delegates D)"

definition vote_ok :: "store \<Rightarrow> vote_entity \<Rightarrow> bool" where
  "vote_ok D v \<longleftrightarrow> vt_voter v \<in> dom (st_delegates D) \<and> vt_proposal v \<in> dom (st_proposals D) \<and>
     (\<forall>ps \<in> set_option (vt_punks v). set ps \<subseteq> dom (st_punks D))"

definition transfer_ok :: "store \<Rightarrow> transfer_event_entity \<Rightarrow> bool" where
  "transfer_ok D e \<longleftrightarrow> te_punk e \<in> dom (st_punks D) \<and> te_previousHolder e \<in> dom (st_accounts D) \<and>
     te_newHolder e \<in> dom (st_accounts D)"

definition delegation_ok :: "store \<Rightarrow> delegation_event_entity \<Rightarrow> bool" where
  "delegation_ok D e \<longleftrightarrow> de_punk e \<in> dom (st_punks D) \<and> de_newDelegate e \<in> dom (st_delegates D)"

definition og_delegation_ok :: "store \<Rightarrow> og_delegation_event_entity \<Rightarrow> bool" where
  "og_delegation_ok D e \<longleftrightarrow> oe_ogpunk e \<in> dom (st_ogpunks D) \<and> oe_delegator e \<in> dom (st_accounts D) \<and>
     oe_previousDelegate e \<in> dom (st_delegates D) \<and> oe_newDelegate e \<in> dom (st_delegates D)"

lemmas ok_defs =
  punk_ok_def ogpunk_ok_def account_ok_def delegate_ok_def auction_ok_def bid_ok_def proposal_ok_def
  vote_ok_def transfer_ok_def delegation_ok_def og_delegation_ok_def

definition resolved :: "store \<Rightarrow> store \<Rightarrow> bool" where
  "resolved D s \<longleftrightarrow>
     (\<forall>p \<in> ran (st_punks s). punk_ok D p) \<and> (\<forall>p \<in> ran (st_ogpunks s). ogpunk_ok D p) \<and>
     (\<forall>a \<in> ran (st_accounts s). account_ok D a) \<and> (\<forall>d \<in> ran (st_delegates s). delegate_ok D d) \<and>
     (\<forall>a \<in> ran (st_auctions s). auction_ok D a) \<and> (\<forall>b \<in> ran (st_bids s). bid_ok D b) \<and>
     (\<forall>p \<in> ran (st_proposals s). proposal_ok D p) \<and> (\<forall>v \<in> ran (st_votes s). vote_ok D v) \<and>
     (\<forall>e \<in> ran (st_transferEvents s). transfer_ok D e) \<and>
     (\<forall>e \<in> ran (st_delegationEvents s). delegation_ok D e) \<and>
     (\<forall>e \<in> ran (st_ogDelegationEvents s). og_delegation_ok D e)"

text \<open>Every kind of entity of \<open>D\<close> is still in \<open>D'\<close>.\<close>

definition keeps :: "store \<Rightarrow> store \<Rightarrow> bool" where
  "keeps D D' \<longleftrightarrow>
     dom (st_seeds D) \<subseteq> dom (st_seeds D') \<and> dom (st_punks D) \<subseteq> dom (st_punks D') \<and>
     dom (st_ogpunks D) \<subseteq> dom (st_ogpunks D') \<and> dom (st_accounts D) \<subseteq> dom (st_accounts D') \<and>
     dom (st_delegates D) \<subseteq> dom (st_delegates D') \<and> dom (st_auctions D) \<subseteq> dom (st_auctions D') \<and>
     dom (st_proposals D) \<subseteq> dom (st_proposals D')"

lemma resolved_keeps: "resolved D s \<Longrightarrow> keeps D D' \<Longrightarrow> resolved D' s"
  unfolding resolved_def keeps_def ok_defs by (intro conjI ballI) (meson subset_trans subsetD)+

lemma ran_save: "x \<in> ran (m(i \<mapsto> e)) \<Longrightarrow> x = e \<or> x \<in> ran m"
  by (auto simp: ran_def split: if_splits)

named_theorems resolved_saves \<open>a save keeps the references resolved\<close>

lemma resolved_save [resolved_saves]:
  "resolved D s \<Longrightarrow> resolved D (save_seed i sd s)"
  "resolved D s \<Longrightarrow> resolved D (save_governance g s)"
  "resolved D s \<Longrightarrow> punk_ok D p \<Longrightarrow> resolved D (save_punk i p s)"
  "resolved D s \<Longrightarrow> ogpunk_ok D o' \<Longrightarrow> resolved D (save_ogpunk i o' s)"
  "resolved D s \<Longrightarrow> account_ok D a \<Longrightarrow> resolved D (save_account i a s)"
  "resolved D s \<Longrightarrow> delegate_ok D d \<Longrightarrow> resolved D (save_delegate i d s)"
  "resolved D s \<Longrightarrow> auction_ok D au \<Longrightarrow> resolved D (save_auction i au s)"
  "resolved D s \<Longrightarrow> bid_ok D b \<Longrightarrow> resolved D (save_bid i b s)"
  "resolved D s \<Longrightarrow> proposal_ok D pr \<Longrightarrow> resolved D (save_proposal i pr s)"
  "resolved D s \<Longrightarrow> vote_ok D v \<Longrightarrow> resolved D (save_vote i v s)"
  "resolved D s \<Longrightarrow> transfer_ok D te \<Longrightarrow> resolved D (save_transferEvent i te s)"
  "resolved D s \<Longrightarrow> delegation_ok D de \<Longrightarrow> resolved D (save_delegationEvent i de s)"
  "resolved D s \<Longrightarrow> og_delegation_ok D oe \<Longrightarrow> resolved D (save_ogDelegationEvent i oe s)"
  by (auto simp: resolved_def save_defs dest!: ran_save)

lemma resolved_loaded:
  assumes "resolved D s"
  shows "st_punks s i = Some p \<Longrightarrow> punk_ok D p" "st_ogpunks s i = Some og \<Longrightarrow> ogpunk_ok D og"
    "st_accounts s i = Some a \<Longrightarrow> account_ok D a" "st_delegates s i = Some d \<Longrightarrow> delegate_ok D d"
    "st_auctions s i = Some au \<Longrightarrow> auction_ok D au" "st_proposals s i = Some pr \<Longrightarrow> proposal_ok D pr"
  using assms by (auto simp: resolved_def ran_def)

lemma new_ok [simp]: "account_ok D new_account" "delegate_ok D new_delegate"
  by (simp_all add: ok_defs new_account_def new_delegate_def)

lemma resolved_account_of: "resolved D s \<Longrightarrow> account_ok D (account_of s a)"
  by (auto simp: account_of_def dest: resolved_loaded(3) split: option.splits)

lemma resolved_delegate_of: "resolved D s \<Longrightarrow> delegate_ok D (delegate_of s a)"
  by (auto simp: delegate_of_def dest: resolved_loaded(4) split: option.splits)

lemma resolved_get_account [resolved_saves]: "resolved D s \<Longrightarrow> resolved D (snd (getOrCreateAccount i s))"
  by (auto simp: getOrCreateAccount_def intro!: resolved_saves split: option.splits)

lemma resolved_get_delegate [resolved_saves]: "resolved D s \<Longrightarrow> resolved D (snd (getOrCreateDelegate i s))"
  by (auto simp: getOrCreateDelegate_def Let_def intro!: resolved_saves split: option.splits)

lemma resolved_get_proposal [resolved_saves]: "resolved D s \<Longrightarrow> resolved D (snd (getOrCreateProposal i s))"
  by (auto simp: getOrCreateProposal_def Let_def intro!: resolved_saves split: option.splits)

lemma resolved_empty: "resolved D empty_store"
  by (simp add: resolved_def empty_store_def)

section \<open>The handlers\<close>

lemma dom_get_account [simp]: "dom (st_accounts (snd (getOrCreateAccount i s))) = insert i (dom (st_accounts s))"
  by (auto simp: getOrCreateAccount_def accounts.dom_save split: option.splits)

lemma dom_get_delegate [simp]: "dom (st_delegates (snd (getOrCreateDelegate i s))) = insert i (dom (st_delegates s))"
  by (auto simp: getOrCreateDelegate_def Let_def delegates.dom_save split: option.splits)

lemmas dom_saves =
  seeds.dom_save punks.dom_save ogpunks.dom_save accounts.dom_save delegates.dom_save auctions.dom_save
  proposals.dom_save

lemma resolved_fold_delegation:
  "resolved D s \<Longrightarrow> (\<And>p. p \<in> set ps \<Longrightarrow> delegation_ok D (g p)) \<Longrightarrow>
     resolved D (fold (\<lambda>p. save_delegationEvent (f p) (g p)) ps s)"
  by (induction ps arbitrary: s) (simp_all add: resolved_saves)

lemma dom_fold_delegation:
  "st_seeds (fold (\<lambda>p. save_delegationEvent (f p) (g p)) ps s) = st_seeds s"
  "st_delegates (fold (\<lambda>p. save_delegationEvent (f p) (g p)) ps s) = st_delegates s"
  "st_accounts (fold (\<lambda>p. save_delegationEvent (f p) (g p)) ps s) = st_accounts s"
  "st_punks (fold (\<lambda>p. save_delegationEvent (f p) (g p)) ps s) = st_punks s"
  "st_ogpunks (fold (\<lambda>p. save_delegationEvent (f p) (g p)) ps s) = st_ogpunks s"
  "st_auctions (fold (\<lambda>p. save_delegationEvent (f p) (g p)) ps s) = st_auctions s"
  "st_proposals (fold (\<lambda>p. save_delegationEvent (f p) (g p)) ps s) = st_proposals s"
  by (induction ps arbitrary: s) simp_all

lemma leave_holder_resolved:
  assumes "resolved D s" and "account_ok D f"
  shows "resolved D (snd (snd (leave_holder fromId tid f g s)))" "account_ok D (fst (leave_holder fromId tid f g s))"
proof -
  have d: "delegate_ok D (d\<lparr>dl_punksRepresented := filter P (dl_punksRepresented d)\<rparr>)" if "delegate_ok D d" for d P
    using that by (auto simp: delegate_ok_def)
  have a: "account_ok D (f\<lparr>ac_tokenBalanceRaw := n, ac_tokenBalance := n, ac_punks := filter P (ac_punks f)\<rparr>)"
    "account_ok D (f\<lparr>ac_tokenBalanceRaw := n, ac_tokenBalance := n, ac_punks := filter P (ac_punks f), ac_delegate := m\<rparr>)"
    for n m P using assms(2) by (auto simp: account_ok_def)
  show "resolved D (snd (snd (leave_holder fromId tid f g s)))" "account_ok D (fst (leave_holder fromId tid f g s))"
    using assms a
    by (auto simp: leave_holder_def Let_def case_prod_beta intro!: resolved_saves d resolved_delegate_of split: option.splits)
qed

lemma leave_holder_dom:
  "dom (st_accounts s) \<subseteq> dom (st_accounts (snd (snd (leave_holder fromId tid f g s))))"
  "dom (st_delegates s) \<subseteq> dom (st_delegates (snd (snd (leave_holder fromId tid f g s))))"
  "st_punks (snd (snd (leave_holder fromId tid f g s))) = st_punks s"
  "st_ogpunks (snd (snd (leave_holder fromId tid f g s))) = st_ogpunks s"
  "st_seeds (snd (snd (leave_holder fromId tid f g s))) = st_seeds s"
  "st_auctions (snd (snd (leave_holder fromId tid f g s))) = st_auctions s"
  "st_proposals (snd (snd (leave_holder fromId tid f g s))) = st_proposals s"
  by (simp_all add: leave_holder_def Let_def case_prod_beta dom_saves split: option.splits) auto

lemma enter_holder_resolved:
  assumes "resolved D s" and "account_ok D toHolder" and "tid \<in> dom (st_punks D)" and "toId \<in> dom (st_accounts D)"
    and "(case ac_delegate toHolder of Some d \<Rightarrow> d | None \<Rightarrow> toId) \<in> dom (st_delegates D)"
  shows "resolved D (enter_holder ev fromId toId tid fromHolder toHolder g s)"
proof -
  have d: "delegate_ok D (d\<lparr>dl_punksRepresented := dl_punksRepresented d @ [tid]\<rparr>)" if "delegate_ok D d" for d
    using that assms(3) by (auto simp: delegate_ok_def)
  have a: "account_ok D (toHolder\<lparr>ac_tokenBalanceRaw := n, ac_tokenBalance := n, ac_totalTokensHeldRaw := m,
      ac_totalTokensHeld := m, ac_punks := ac_punks toHolder @ [tid]\<rparr>)"
    "account_ok D (toHolder\<lparr>ac_tokenBalanceRaw := n, ac_tokenBalance := n, ac_totalTokensHeldRaw := m,
      ac_totalTokensHeld := m, ac_punks := ac_punks toHolder @ [tid], ac_delegate := k\<rparr>)" for n m k
    using assms(2,3) by (auto simp: account_ok_def)
  have p: "punk_ok D (p\<lparr>pk_owner := toId\<rparr>)" if "st_punks s tid = Some p" for p
    using resolved_loaded(1) [OF assms(1) that] assms(4) by (simp add: punk_ok_def)
  have n: "toId = x \<Longrightarrow> punk_ok D \<lparr>pk_seed = None, pk_owner = x\<rparr>" for x using assms(4) by (simp add: punk_ok_def)
  define e where "e = (case ac_delegate toHolder of Some d \<Rightarrow> d | None \<Rightarrow> toId)"
  have ev: "delegation_ok D (delegation_event ev tid f e)" for f
    using assms(3,5) by (simp add: delegation_ok_def delegation_event_def e_def)
  have p': "toId = x \<Longrightarrow>
      punk_ok D ((case st_punks s tid of None \<Rightarrow> \<lparr>pk_seed = None, pk_owner = []\<rparr> | Some p \<Rightarrow> p)\<lparr>pk_owner := x\<rparr>)" for x
    using n p by (auto split: option.split)
  show ?thesis
    unfolding enter_holder_def Let_def case_prod_beta e_def [symmetric]
    by (auto intro!: resolved_saves assms(1) d a ev p' resolved_delegate_of)
qed

lemma enter_holder_dom:
  "dom (st_accounts (enter_holder ev fromId toId tid fromHolder toHolder g s)) = insert toId (dom (st_accounts s))"
  "dom (st_delegates (enter_holder ev fromId toId tid fromHolder toHolder g s)) =
     insert (case ac_delegate toHolder of Some d \<Rightarrow> d | None \<Rightarrow> toId) (dom (st_delegates s))"
  "dom (st_punks (enter_holder ev fromId toId tid fromHolder toHolder g s)) = insert tid (dom (st_punks s))"
  "st_ogpunks (enter_holder ev fromId toId tid fromHolder toHolder g s) = st_ogpunks s"
  "st_seeds (enter_holder ev fromId toId tid fromHolder toHolder g s) = st_seeds s"
  "st_auctions (enter_holder ev fromId toId tid fromHolder toHolder g s) = st_auctions s"
  "st_proposals (enter_holder ev fromId toId tid fromHolder toHolder g s) = st_proposals s"
  by (simp_all add: enter_holder_def Let_def case_prod_beta dom_saves)

lemma transfer_resolved:
  fixes ev :: event_env and fromId toId :: string and t :: nat
  assumes "resolved s s"
  defines "s' \<equiv> handleTransfer ev fromId toId t s"
  shows "resolved s' s'"
proof -
  define s2 where "s2 = snd (getOrCreateAccount toId (snd (getOrCreateAccount fromId s)))"
  define te where "te = \<lparr>te_punk = dec t, te_previousHolder = fromId, te_newHolder = toId,
    te_blockNumber = ev_number ev, te_blockTimestamp = ev_timestamp ev\<rparr>"
  define s3 where "s3 = save_transferEvent (ev_hash ev @ ''_'' @ dec t) te s2"
  define r where "r = leave_holder fromId (dec t) (account_of s fromId) (getGovernanceEntity s2) s3"
  have s': "s' = enter_holder ev fromId toId (dec t) (fst r) (account_of s toId) (fst (snd r)) (snd (snd r))"
    by (simp add: s'_def handleTransfer_def Let_def case_prod_beta r_def s3_def s2_def te_def)
  have dom3: "dom (st_accounts s3) = insert toId (insert fromId (dom (st_accounts s)))"
    "st_punks s3 = st_punks s" "st_ogpunks s3 = st_ogpunks s" "st_seeds s3 = st_seeds s"
    "st_delegates s3 = st_delegates s" "st_auctions s3 = st_auctions s" "st_proposals s3 = st_proposals s"
    by (simp_all add: s3_def s2_def)
  note left = leave_holder_dom [where s = s3 and fromId = fromId and tid = "dec t" and f = "account_of s fromId"
      and g = "getGovernanceEntity s2", folded r_def]
  have keeps: "keeps s s'"
    using left dom3 by (simp add: keeps_def s' enter_holder_dom subset_insertI2)
  have r0: "resolved s' s" by (rule resolved_keeps [OF assms(1) keeps])
  have te: "transfer_ok s' te" using left(1) by (auto simp: transfer_ok_def te_def s' enter_holder_dom dom3)
  have r3: "resolved s' s3" using r0 te by (simp add: s3_def s2_def resolved_saves)
  have "resolved s' (snd (snd r))"
    unfolding r_def by (rule leave_holder_resolved(1) [OF r3 resolved_account_of [OF r0]])
  then show ?thesis
    unfolding s' by (rule enter_holder_resolved) (use resolved_account_of [OF r0] in \<open>simp_all add: s' enter_holder_dom\<close>)
qed

lemma delegate_changed_resolved:
  fixes ev :: event_env and a f d :: string
  assumes "resolved s s"
  defines "s' \<equiv> handleDelegateChanged ev a f d s"
  shows "resolved s' s'"
proof -
  have keeps: "keeps s s'"
    by (auto simp: keeps_def s'_def handleDelegateChanged_def Let_def case_prod_beta dom_fold_delegation dom_saves)
  have r0: "resolved s' s" by (rule resolved_keeps [OF assms(1) keeps])
  have known: "f \<in> dom (st_delegates s')" "d \<in> dom (st_delegates s')"
    by (simp_all add: s'_def handleDelegateChanged_def Let_def case_prod_beta dom_fold_delegation dom_saves)
  have ps: "set (ac_punks (account_of s a)) \<subseteq> dom (st_punks s')"
    using resolved_account_of [OF r0] by (simp add: account_ok_def)
  have acc: "account_ok s' ((account_of s a)\<lparr>ac_delegate := x\<rparr>)" for x
    using resolved_account_of [OF r0, of a] by (simp add: account_ok_def)
  have del: "delegate_ok s' ((delegate_of s b)\<lparr>dl_tokenHoldersRepresentedAmount := n,
      dl_punksRepresented := filter P (dl_punksRepresented (delegate_of s b))\<rparr>)"
    "delegate_ok s' ((delegate_of s b)\<lparr>dl_tokenHoldersRepresentedAmount := n,
      dl_punksRepresented := dl_punksRepresented (delegate_of s b) @ ac_punks (account_of s a)\<rparr>)" for b n P
    using resolved_delegate_of [OF r0, of b] ps by (auto simp: delegate_ok_def)
  have ev: "delegation_ok s' (delegation_event ev p f d)" if "p \<in> set (ac_punks (account_of s a))" for p
    using that ps known by (auto simp: delegation_ok_def delegation_event_def)
  show ?thesis
    by (subst (2) s'_def)
      (auto simp: handleDelegateChanged_def Let_def case_prod_beta intro!: resolved_fold_delegation resolved_saves r0 acc del ev)
qed

lemma og_account_ok:
  "account_ok D a \<Longrightarrow> account_ok D (release_ogpunk tid a)"
  "account_ok D a \<Longrightarrow> tid \<in> dom (st_ogpunks D) \<Longrightarrow> account_ok D (receive_ogpunk tid a)"
  by (auto simp: account_ok_def release_ogpunk_def receive_ogpunk_def)

lemma og_assign_resolved:
  fixes a :: string and t :: nat
  assumes "resolved s s"
  defines "s' \<equiv> handleOGPunkAssign a t s"
  shows "resolved s' s'"
proof -
  have "keeps s s'" by (auto simp: keeps_def s'_def handleOGPunkAssign_def Let_def case_prod_beta dom_saves)
  from resolved_keeps [OF assms(1) this] have r0: "resolved s' s" .
  have known: "a \<in> dom (st_accounts s')" "dec t \<in> dom (st_ogpunks s')"
    by (simp_all add: s'_def handleOGPunkAssign_def Let_def case_prod_beta dom_saves)
  have "ogpunk_ok s' \<lparr>og_wrapped = False, og_owner = a,
      og_delegate = (case st_ogpunks s (dec t) of None \<Rightarrow> None | Some old \<Rightarrow> og_delegate old)\<rparr>"
    using known resolved_loaded(2) [OF r0] by (auto simp: ogpunk_ok_def split: option.splits)
  then show ?thesis
    by (subst (2) s'_def)
      (auto simp: handleOGPunkAssign_def Let_def case_prod_beta
        intro!: resolved_saves r0 og_account_ok resolved_account_of known)
qed

lemma og_transfer_resolved:
  assumes "resolved s s" and "handleOGPunkTransfer a b t s = Some s'"
  shows "resolved s' s'"
proof -
  obtain p where p: "st_ogpunks s (dec t) = Some p"
    and s': "s' = save_account b (receive_ogpunk (dec t) (account_of s b))
      (save_ogpunk (dec t) (p\<lparr>og_owner := b\<rparr>) (save_account a (release_ogpunk (dec t) (account_of s a))
        (snd (getOrCreateAccount b (snd (getOrCreateAccount a s))))))"
    using assms(2) by (auto simp: handleOGPunkTransfer_def Let_def case_prod_beta split: option.splits)
  have "keeps s s'" by (auto simp: keeps_def s' dom_saves)
  from resolved_keeps [OF assms(1) this] have r0: "resolved s' s" .
  have known: "b \<in> dom (st_accounts s')" "dec t \<in> dom (st_ogpunks s')" by (simp_all add: s' dom_saves)
  have "ogpunk_ok s' (p\<lparr>og_owner := b\<rparr>)"
    using resolved_loaded(2) [OF r0 p] known by (simp add: ogpunk_ok_def)
  then show ?thesis
    by (subst (2) s') (auto intro!: resolved_saves r0 og_account_ok resolved_account_of known)
qed

lemma wrapped_transfer_resolved:
  assumes "resolved s s" and "handleWrappedTransfer w a b t s = Some s'"
  shows "resolved s' s'"
proof -
  obtain p where p: "st_ogpunks s (dec t) = Some p"
    using assms(2) by (auto simp: handleWrappedTransfer_def Let_def split: option.splits)
  define prev where "prev = (if a = ZERO_ADDRESS then w else a)"
  define new where "new = (if b = ZERO_ADDRESS then w else b)"
  define q1 where "q1 = (if a = ZERO_ADDRESS then p\<lparr>og_wrapped := True\<rparr> else p)"
  define q where "q = (if b = ZERO_ADDRESS then q1\<lparr>og_wrapped := False\<rparr> else q1)"
  have q: "og_delegate q = og_delegate p" by (simp add: q_def q1_def)
  have s': "s' = (let s2 = save_account prev (release_ogpunk (dec t) (account_of s prev)) (snd (getOrCreateAccount prev s))
      in save_account new (receive_ogpunk (dec t) (account_of s2 new))
        (save_ogpunk (dec t) (q\<lparr>og_owner := new\<rparr>) (snd (getOrCreateAccount new s2))))"
    using assms(2) p
    by (simp add: handleWrappedTransfer_def Let_def case_prod_beta if_distrib [of fst] if_distrib [of snd] prev_def new_def
        q_def q1_def cong: if_cong)
  have "keeps s s'" by (auto simp: keeps_def s' Let_def dom_saves)
  from resolved_keeps [OF assms(1) this] have r0: "resolved s' s" .
  have known: "new \<in> dom (st_accounts s')" "dec t \<in> dom (st_ogpunks s')" by (simp_all add: s' Let_def dom_saves)
  have "ogpunk_ok s' (q\<lparr>og_owner := new\<rparr>)"
    using resolved_loaded(2) [OF r0 p] known q by (simp add: ogpunk_ok_def)
  then show ?thesis
    by (subst (2) s') (auto simp: Let_def intro!: resolved_saves r0 og_account_ok resolved_account_of known)
qed

lemma og_delegate_changed_resolved:
  assumes "resolved s s" and "handleOGPunkDelegateChanged ev a f d t s = Some s'"
  shows "resolved s' s'"
proof -
  define oe where "oe = \<lparr>oe_ogpunk = dec t, oe_delegator = a, oe_previousDelegate = f, oe_newDelegate = d,
    oe_blockNumber = ev_number ev, oe_blockTimestamp = ev_timestamp ev\<rparr>"
  obtain p where p: "st_ogpunks s (dec t) = Some p"
    and s': "s' = save_ogDelegationEvent (ev_hash ev @ ''_'' @ dec t) oe
      (save_delegate d ((delegate_of s d)\<lparr>dl_ogpunksRepresented := dl_ogpunksRepresented (delegate_of s d) @ [dec t]\<rparr>)
      (save_delegate f ((delegate_of s f)\<lparr>dl_ogpunksRepresented :=
          filter (\<lambda>n. n \<noteq> dec t) (dl_ogpunksRepresented (delegate_of s f))\<rparr>)
      (save_ogpunk (dec t) (p\<lparr>og_delegate := Some d\<rparr>)
        (snd (getOrCreateDelegate d (snd (getOrCreateDelegate f (snd (getOrCreateAccount a s)))))))))"
    using assms(2) by (auto simp: handleOGPunkDelegateChanged_def Let_def case_prod_beta oe_def split: option.splits)
  have "keeps s s'" by (auto simp: keeps_def s' dom_saves)
  from resolved_keeps [OF assms(1) this] have r0: "resolved s' s" .
  have known: "a \<in> dom (st_accounts s')" "dec t \<in> dom (st_ogpunks s')" "f \<in> dom (st_delegates s')" "d \<in> dom (st_delegates s')"
    by (simp_all add: s' dom_saves)
  have og: "ogpunk_ok s' (p\<lparr>og_delegate := Some d\<rparr>)"
    using resolved_loaded(2) [OF r0 p] known by (simp add: ogpunk_ok_def)
  have del: "delegate_ok s' (x\<lparr>dl_ogpunksRepresented := filter P (dl_ogpunksRepresented x)\<rparr>)"
    "delegate_ok s' (x\<lparr>dl_ogpunksRepresented := dl_ogpunksRepresented x @ [dec t]\<rparr>)" if "delegate_ok s' x" for x P
    using that known by (auto simp: delegate_ok_def)
  have "og_delegation_ok s' oe" using known by (simp add: og_delegation_ok_def oe_def)
  then show ?thesis
    by (subst (2) s') (auto intro!: resolved_saves r0 og del resolved_delegate_of)
qed

lemma punk_created_resolved:
  fixes t pt sk :: nat and accs :: "(nat \<times> nat) list"
  assumes "resolved s s"
  defines "s' \<equiv> handlePunkCreated t pt sk accs s"
  shows "resolved s' s'"
proof -
  have "keeps s s'"
    by (auto simp: keeps_def s'_def handlePunkCreated_def Let_def dom_saves split: option.splits)
  from resolved_keeps [OF assms(1) this] have r0: "resolved s' s" .
  have "dec t \<in> dom (st_seeds s')"
    by (simp add: s'_def handlePunkCreated_def Let_def dom_saves split: option.splits)
  then have "punk_ok s' (p\<lparr>pk_seed := Some (dec t)\<rparr>)" if "st_punks s (dec t) = Some p" for p
    using resolved_loaded(1) [OF r0 that] by (simp add: punk_ok_def)
  then show ?thesis
    by (subst (2) s'_def) (auto simp: handlePunkCreated_def Let_def intro!: resolved_saves r0 split: option.splits)
qed

lemma auction_resolved:
  fixes e :: auction_event
  assumes "resolved s s"
  defines "s' \<equiv> handle_auction e s"
  shows "resolved s' s'"
proof -
  have "keeps s s'"
    by (cases e) (auto simp: keeps_def s'_def handleAuctionCreated_def handleAuctionBid_def handleAuctionExtended_def
        handleAuctionSettled_def Let_def case_prod_beta dom_saves split: option.splits)
  from resolved_keeps [OF assms(1) this] have r0: "resolved s' s" .
  note old = resolved_loaded(5) [OF r0]
  have old_ok: "auction_ok s' (a\<lparr>au_endTime := n\<rparr>)" "auction_ok s' (a\<lparr>au_settled := b\<rparr>)"
    if "st_auctions s i = Some a" for a i n b
    using old [OF that] by (simp_all add: auction_ok_def)
  show ?thesis
  proof (cases e)
    case (Created t start stop)
    have "auction_ok s' \<lparr>au_punk = dec t, au_amount = 0, au_startTime = start, au_endTime = stop,
        au_bidder = (case st_auctions s (dec t) of None \<Rightarrow> None | Some old \<Rightarrow> au_bidder old), au_settled = False\<rparr>"
      if "st_punks s (dec t) \<noteq> None"
      using that old [of "dec t"]
      by (cases "st_auctions s (dec t)") (auto simp: auction_ok_def s'_def Created handleAuctionCreated_def Let_def split: option.splits)
    then show ?thesis
      by (subst (2) s'_def) (auto simp: Created handleAuctionCreated_def Let_def intro!: resolved_saves r0 split: option.splits)
  next
    case (Bid ev t sender amount)
    have known: "sender \<in> dom (st_accounts s')"
      by (simp add: s'_def Bid handleAuctionBid_def Let_def case_prod_beta split: option.splits)
    have "auction_ok s' (a\<lparr>au_amount := amount, au_bidder := Some sender\<rparr>)" "dec t \<in> dom (st_auctions s')"
      "au_punk a \<in> dom (st_punks s')" if "st_auctions s (dec t) = Some a" for a
      using old [OF that] that known
      by (simp_all add: auction_ok_def s'_def Bid handleAuctionBid_def Let_def case_prod_beta dom_saves)
    then show ?thesis
      by (subst (2) s'_def)
        (auto simp: Bid handleAuctionBid_def Let_def case_prod_beta bid_ok_def known
          intro!: resolved_saves r0 known [THEN domD] split: option.splits)
  next
    case (Extended t stop)
    show ?thesis
      by (subst (2) s'_def) (auto simp: Extended handleAuctionExtended_def intro!: resolved_saves r0 old_ok split: option.splits)
  next
    case (Settled t)
    show ?thesis
      by (subst (2) s'_def) (auto simp: Settled handleAuctionSettled_def intro!: resolved_saves r0 old_ok split: option.splits)
  qed
qed

lemma votes_changed_resolved:
  fixes d :: string and old new :: int
  assumes "resolved s s"
  shows "resolved (handleDelegateVotesChanged d old new s) (handleDelegateVotesChanged d old new s)"
    "resolved (handleOGPunkDelegateVotesChanged d new s) (handleOGPunkDelegateVotesChanged d new s)"
proof -
  have ok: "delegate_ok D (x\<lparr>dl_delegatedVotesRaw := n, dl_delegatedVotes := n\<rparr>)"
    "delegate_ok D (x\<lparr>dl_delegatedOGVotesRaw := n, dl_delegatedOGVotes := n\<rparr>)" if "delegate_ok D x" for D x n
    using that by (simp_all add: delegate_ok_def)
  have "keeps s (handleDelegateVotesChanged d old new s)" "keeps s (handleOGPunkDelegateVotesChanged d new s)"
    by (auto simp: keeps_def handleDelegateVotesChanged_def handleOGPunkDelegateVotesChanged_def Let_def case_prod_beta dom_saves)
  from this [THEN resolved_keeps [OF assms]]
  show "resolved (handleDelegateVotesChanged d old new s) (handleDelegateVotesChanged d old new s)"
    "resolved (handleOGPunkDelegateVotesChanged d new s) (handleOGPunkDelegateVotesChanged d new s)"
    unfolding handleDelegateVotesChanged_def handleOGPunkDelegateVotesChanged_def Let_def case_prod_beta
    by (auto intro!: resolved_saves ok resolved_delegate_of)
qed

lemma proposal_created_resolved:
  fixes ev :: event_env and pp :: proposal_params
  assumes "resolved s s"
  defines "s' \<equiv> handleProposalCreatedWithRequirements ev pp s"
  shows "resolved s' s'"
proof -
  have "keeps s s'"
    by (auto simp: keeps_def s'_def handleProposalCreatedWithRequirements_def Let_def case_prod_beta dom_saves)
  from resolved_keeps [OF assms(1) this] have r0: "resolved s' s" .
  have "pp_proposer pp \<in> dom (st_delegates s')"
    by (simp add: s'_def handleProposalCreatedWithRequirements_def Let_def case_prod_beta)
  then have "proposal_ok s' p" if "pr_proposer p = pp_proposer pp" for p using that by (simp add: proposal_ok_def)
  then show ?thesis
    by (subst (2) s'_def)
      (auto simp: handleProposalCreatedWithRequirements_def Let_def case_prod_beta intro!: resolved_saves r0)
qed

lemma proposal_status_resolved:
  assumes "resolved s s"
  shows "handleProposalCanceled i s = Some s' \<Longrightarrow> resolved s' s'" "handleProposalVetoed i s = Some s' \<Longrightarrow> resolved s' s'"
    "handleProposalQueued i eta s = Some s' \<Longrightarrow> resolved s' s'" "handleProposalExecuted i s = Some s' \<Longrightarrow> resolved s' s'"
proof -
  have ok: "proposal_ok D (p\<lparr>pr_status := x\<rparr>)" "proposal_ok D (p\<lparr>pr_status := x, pr_executionETA := y\<rparr>)"
    if "resolved D s" "fst (getOrCreateProposal j s) = Some p" for D p x y j
    using that resolved_loaded(6) [OF that(1), of j p]
    by (auto simp: proposal_ok_def getOrCreateProposal_def Let_def split: option.splits)
  note defs = handleProposalCanceled_def handleProposalVetoed_def handleProposalQueued_def handleProposalExecuted_def
    Let_def case_prod_beta
  show "handleProposalCanceled i s = Some s' \<Longrightarrow> resolved s' s'" "handleProposalVetoed i s = Some s' \<Longrightarrow> resolved s' s'"
    "handleProposalQueued i eta s = Some s' \<Longrightarrow> resolved s' s'" "handleProposalExecuted i s = Some s' \<Longrightarrow> resolved s' s'"
    by (auto simp: defs keeps_def dom_saves intro!: resolved_saves ok resolved_keeps [OF assms])
qed

lemma vote_cast_resolved:
  assumes "resolved s s" and "handleVoteCast ev v s = Some s'"
  shows "resolved s' s'"
proof -
  define pid where "pid = dec (vp_proposalId v)"
  define vote where "vote = \<lparr>vt_support = (vp_support v = 1), vt_supportDetailed = vp_support v,
    vt_votesRaw = vp_votes v, vt_votes = vp_votes v,
    vt_reason = (if vp_reason v \<noteq> [] then Some (vp_reason v)
      else (case getOrCreateVote (vote_id (vp_voter v) (vp_proposalId v)) s of None \<Rightarrow> None | Some o' \<Rightarrow> vt_reason o')),
    vt_voter = vp_voter v, vt_punks = Some (dl_punksRepresented (delegate_of s (vp_voter v))),
    vt_proposal = pid, vt_blockNumber = ev_number ev\<rparr>"
  obtain p q where p: "st_proposals s pid = Some p" and q: "pr_proposer q = pr_proposer p"
    and s': "s' = save_proposal pid q (save_vote (vote_id (vp_voter v) (vp_proposalId v)) vote
      (snd (getOrCreateDelegate (vp_voter v) s)))"
  proof (cases "st_proposals s pid")
    case None
    with assms(2) show ?thesis by (simp add: handleVoteCast_def getOrCreateProposal_def Let_def case_prod_beta pid_def)
  next
    case (Some p)
    let ?q = "if pr_status (tally v p) = PENDING then (tally v p)\<lparr>pr_status := ACTIVE\<rparr> else tally v p"
    have "s' = save_proposal pid ?q (save_vote (vote_id (vp_voter v) (vp_proposalId v)) vote
        (snd (getOrCreateDelegate (vp_voter v) s)))"
      using assms(2) Some
      by (auto simp: handleVoteCast_def getOrCreateProposal_def getOrCreateVote_def Let_def case_prod_beta pid_def vote_def)
    moreover have "pr_proposer ?q = pr_proposer p" by (simp add: tally_def)
    ultimately show ?thesis using that [OF Some] by blast
  qed
  have "keeps s s'" by (auto simp: keeps_def s' dom_saves)
  from resolved_keeps [OF assms(1) this] have r0: "resolved s' s" .
  have "vp_voter v \<in> dom (st_delegates s')" "pid \<in> dom (st_proposals s')" by (simp_all add: s' dom_saves)
  then have "vote_ok s' vote"
    using resolved_delegate_of [OF r0, of "vp_voter v"] by (simp add: vote_ok_def vote_def delegate_ok_def)
  moreover have "proposal_ok s' q" using resolved_loaded(6) [OF r0 p] q by (simp add: proposal_ok_def)
  ultimately show ?thesis by (subst (2) s') (auto intro!: resolved_saves r0)
qed

lemma event_resolved:
  assumes "resolved s s" and "handle_event e s = Some s'"
  shows "resolved s' s'"
  using assms(2)
  by (cases e)
    (auto intro: punk_created_resolved delegate_changed_resolved votes_changed_resolved transfer_resolved auction_resolved
      og_assign_resolved og_transfer_resolved wrapped_transfer_resolved og_delegate_changed_resolved
      proposal_created_resolved proposal_status_resolved vote_cast_resolved assms(1))

section \<open>The references of delegation\<close>

text \<open>\<open>Account.delegate\<close> and \<open>DelegationEvent.previousDelegate\<close> are written with ids for which the
  handlers of the token create no entity. They resolve all the same, by the order in which the token
  contract emits its events. \<open>G\<close> gives the delegate of each account as \<open>delegates\<close> of the contract
  returns it (an account that never delegated is its own delegate), and minting emits two transfers in
  one transaction, from the zero address to the owner of the contract and on to the receiver.\<close>

fun follows_delegates :: "(string \<Rightarrow> string) \<Rightarrow> graph_event \<Rightarrow> bool" where
  "follows_delegates G (DelegateChanged ev a f d) \<longleftrightarrow> f = G a"
| "follows_delegates G (Transfer ev a b t) \<longleftrightarrow> a \<noteq> ZERO_ADDRESS"
| "follows_delegates G _ \<longleftrightarrow> True"

fun delegate_ledger :: "graph_event \<Rightarrow> (string \<Rightarrow> string) \<Rightarrow> string \<Rightarrow> string" where
  "delegate_ledger (DelegateChanged ev a f d) G = G(a := (if d = ZERO_ADDRESS then a else d))"
| "delegate_ledger _ G = G"

definition handle_mint :: "event_env \<Rightarrow> event_env \<Rightarrow> string \<Rightarrow> string \<Rightarrow> nat \<Rightarrow> store \<Rightarrow> store" where
  "handle_mint ev ev' creator to t s = handleTransfer ev' creator to t (handleTransfer ev ZERO_ADDRESS creator t s)"

inductive token_history :: "ledger \<Rightarrow> ledger \<Rightarrow> (string \<Rightarrow> string) \<Rightarrow> store \<Rightarrow> bool" where
  start: "token_history Map.empty Map.empty id empty_store"
| event: "token_history L M G s \<Longrightarrow> possible L M s e \<Longrightarrow> follows_delegates G e \<Longrightarrow> handle_event e s = Some s' \<Longrightarrow>
    token_history (token_ledger e L) (og_ledger e M) (delegate_ledger e G) s'"
| mint: "token_history L M G s \<Longrightarrow> L t = None \<Longrightarrow> creator \<noteq> ZERO_ADDRESS \<Longrightarrow> to \<noteq> creator \<Longrightarrow>
    ev_hash ev' = ev_hash ev \<Longrightarrow> token_history (L(t \<mapsto> to)) M G (handle_mint ev ev' creator to t s)"

lemma token_history_history: "token_history L M G s \<Longrightarrow> history L M s"
proof (induction rule: token_history.induct)
  case start
  show ?case by (rule history.start)
next
  case (event L M G s e s')
  then show ?case by (blast intro: history.event)
next
  case (mint L M G s t creator to ev' ev)
  let ?s1 = "handleTransfer ev ZERO_ADDRESS creator t s"
  have "history (L(t \<mapsto> creator)) M ?s1"
    using history.event [OF mint.IH, of "Transfer ev ZERO_ADDRESS creator t" ?s1] mint.hyps
    by (simp add: valid_transfer_def)
  from history.event [OF this, of "Transfer ev' creator to t" "handle_mint ev ev' creator to t s"] mint.hyps
  show ?case by (simp add: valid_transfer_def handle_mint_def del: fun_upd_apply add: fun_upd_same)
qed

definition delegation_resolved :: "store \<Rightarrow> bool" where
  "delegation_resolved s \<longleftrightarrow>
     (\<forall>a \<in> ran (st_accounts s). set_option (ac_delegate a) \<subseteq> dom (st_delegates s)) \<and>
     (\<forall>e \<in> ran (st_delegationEvents s). de_previousDelegate e \<in> dom (st_delegates s))"

text \<open>Who has an entity as a delegate: whoever holds a punk, has delegated, or has a delegate recorded.\<close>

definition delegates_known :: "ledger \<Rightarrow> (string \<Rightarrow> string) \<Rightarrow> store \<Rightarrow> bool" where
  "delegates_known L G s \<longleftrightarrow>
     (\<forall>a. (\<exists>t. L t = Some a) \<or> G a \<noteq> a \<or> ac_delegate (account_of s a) \<noteq> None \<longrightarrow> a \<in> dom (st_delegates s)) \<and>
     (\<forall>a d. ac_delegate (account_of s a) = Some d \<longrightarrow> d \<in> dom (st_delegates s))"

lemma ran_account_of:
  assumes "x \<in> ran (st_accounts s)"
  obtains a where "x = account_of s a"
proof -
  from assms obtain a where "st_accounts s a = Some x" by (auto simp: ran_def)
  then have "x = account_of s a" by (simp add: account_of_def)
  then show thesis by (rule that)
qed

text \<open>A transfer: the delegate of every account is kept, cleared, or the receiver itself.\<close>

definition receiving_delegate :: "string \<Rightarrow> store \<Rightarrow> string" where
  "receiving_delegate b s = (case ac_delegate (account_of s b) of Some d \<Rightarrow> d | None \<Rightarrow> b)"

lemma leave_holder_delegates:
  "dom (st_delegates (snd (snd (leave_holder a tid f g s)))) =
     (if a = ZERO_ADDRESS then {} else set_option (ac_delegate f)) \<union> dom (st_delegates s)"
  "st_delegationEvents (snd (snd (leave_holder a tid f g s))) = st_delegationEvents s"
  "ac_delegate (fst (leave_holder a tid f g s)) = None \<or> ac_delegate (fst (leave_holder a tid f g s)) = ac_delegate f"
  "ac_delegate (account_of (snd (snd (leave_holder a tid f g s))) c) =
     (if c = a \<and> a \<noteq> ZERO_ADDRESS then ac_delegate (fst (leave_holder a tid f g s)) else ac_delegate (account_of s c))"
  by (simp_all add: leave_holder_def Let_def case_prod_beta delegates.dom_save insert_absorb split: option.splits)

lemma delegationEvents_upd: "st_delegationEvents (save_delegationEvent i e s) = (st_delegationEvents s)(i \<mapsto> e)"
  by (simp add: save_delegationEvent_def)

lemma enter_holder_delegates:
  "st_delegationEvents (enter_holder ev a b tid f toHolder g s) =
     (st_delegationEvents s)(ev_hash ev @ ''_'' @ tid \<mapsto>
       delegation_event ev tid (case ac_delegate f of Some d \<Rightarrow> d | None \<Rightarrow> a)
         (case ac_delegate toHolder of Some d \<Rightarrow> d | None \<Rightarrow> b))"
  "ac_delegate (account_of (enter_holder ev a b tid f toHolder g s) c) =
     (if c = b then if 0 \<le> ac_tokenBalanceRaw toHolder \<and> ac_tokenBalanceRaw toHolder = 0 then Some b else ac_delegate toHolder
      else ac_delegate (account_of s c))"
  by (simp_all add: enter_holder_def Let_def case_prod_beta delegationEvents_upd)

lemma transfer_delegates:
  fixes ev :: event_env and a b :: string and t :: nat and s :: store
  assumes "a \<noteq> b"
  defines "s' \<equiv> handleTransfer ev a b t s"
  shows "dom (st_delegates s') = insert (receiving_delegate b s)
      ((if a = ZERO_ADDRESS then {} else set_option (ac_delegate (account_of s a))) \<union> dom (st_delegates s))"
    "ac_delegate (account_of s' c) = Some d \<Longrightarrow> ac_delegate (account_of s c) = Some d \<or> c = b \<and> d = b"
    "\<exists>e. st_delegationEvents s' = (st_delegationEvents s)(ev_hash ev @ ''_'' @ dec t \<mapsto> e) \<and>
       de_previousDelegate e \<in> insert a (set_option (ac_delegate (account_of s a)))"
proof -
  define s3 where "s3 = save_transferEvent (ev_hash ev @ ''_'' @ dec t)
      \<lparr>te_punk = dec t, te_previousHolder = a, te_newHolder = b,
       te_blockNumber = ev_number ev, te_blockTimestamp = ev_timestamp ev\<rparr>
      (snd (getOrCreateAccount b (snd (getOrCreateAccount a s))))"
  define r where "r = leave_holder a (dec t) (account_of s a) (getGovernanceEntity s3) s3"
  have s': "s' = enter_holder ev a b (dec t) (fst r) (account_of s b) (fst (snd r)) (snd (snd r))"
    by (simp add: s'_def handleTransfer_def Let_def case_prod_beta r_def s3_def)
  have s3: "account_of s3 = account_of s" "st_delegates s3 = st_delegates s" "st_delegationEvents s3 = st_delegationEvents s"
    by (simp_all add: s3_def fun_eq_iff)
  note left = leave_holder_delegates [where a = a and tid = "dec t" and f = "account_of s a"
      and g = "getGovernanceEntity s3" and s = s3, folded r_def, unfolded s3]
  show "dom (st_delegates s') = insert (receiving_delegate b s)
      ((if a = ZERO_ADDRESS then {} else set_option (ac_delegate (account_of s a))) \<union> dom (st_delegates s))"
    by (simp add: s' enter_holder_dom left(1) receiving_delegate_def)
  show "ac_delegate (account_of s c) = Some d \<or> c = b \<and> d = b" if "ac_delegate (account_of s' c) = Some d"
    using that left(3) by (auto simp: s' enter_holder_delegates left(4) split: if_splits)
  show "\<exists>e. st_delegationEvents s' = (st_delegationEvents s)(ev_hash ev @ ''_'' @ dec t \<mapsto> e) \<and>
      de_previousDelegate e \<in> insert a (set_option (ac_delegate (account_of s a)))"
    unfolding s' enter_holder_delegates(1) left(2)
    by (rule exI [where x = "delegation_event ev (dec t) (case ac_delegate (fst r) of Some d \<Rightarrow> d | None \<Rightarrow> a)
        (case ac_delegate (account_of s b) of Some d \<Rightarrow> d | None \<Rightarrow> b)"])
      (use left(3) in \<open>auto simp: delegation_event_def split: option.splits\<close>)
qed

fun moves_delegates :: "graph_event \<Rightarrow> bool" where
  "moves_delegates (DelegateChanged ev a f d) \<longleftrightarrow> True"
| "moves_delegates (Transfer ev a b t) \<longleftrightarrow> True"
| "moves_delegates _ \<longleftrightarrow> False"

lemma delegation_frame:
  assumes "handle_event e s = Some s'" and "\<not> moves_delegates e"
  shows "ac_delegate (account_of s' a) = ac_delegate (account_of s a)" "st_delegationEvents s' = st_delegationEvents s"
    "dom (st_delegates s) \<subseteq> dom (st_delegates s')"
proof -
  have "ac_delegate (account_of s' a) = ac_delegate (account_of s a) \<and> st_delegationEvents s' = st_delegationEvents s"
  proof (cases e)
    case (Auction ae)
    with assms(1) show ?thesis
      by (cases ae) (auto simp: handler_defs split: option.splits)
  qed (use assms in \<open>auto simp: handler_defs split: option.splits if_splits\<close>)
  then show "ac_delegate (account_of s' a) = ac_delegate (account_of s a)" "st_delegationEvents s' = st_delegationEvents s"
    by blast+
  show "dom (st_delegates s) \<subseteq> dom (st_delegates s')"
  proof (cases e)
    case (Auction ae)
    with assms(1) show ?thesis
      by (cases ae) (auto simp: handler_defs split: option.splits)
  next
    case (VoteCast ev v)
    with assms(1) have "st_delegates s' = st_delegates (snd (getOrCreateDelegate (vp_voter v) s))"
      by (cases "st_proposals s (dec (vp_proposalId v))")
        (auto simp: handleVoteCast_def getOrCreateProposal_def Let_def case_prod_beta)
    then show ?thesis by (simp add: subset_insertI)
  next
    case (ProposalCreated ev pp)
    with assms(1) have "s' = handleProposalCreatedWithRequirements ev pp s" by simp
    then show ?thesis by (simp add: handleProposalCreatedWithRequirements_def Let_def case_prod_beta subset_insertI)
  next
    case (DelegateVotesChanged d old new)
    with assms(1) have "s' = handleDelegateVotesChanged d old new s" by simp
    then show ?thesis by (simp add: handleDelegateVotesChanged_def Let_def case_prod_beta dom_saves subset_insertI2)
  next
    case (OGDelegateVotesChanged d new)
    with assms(1) have "s' = handleOGPunkDelegateVotesChanged d new s" by simp
    then show ?thesis
      by (simp add: handleOGPunkDelegateVotesChanged_def Let_def case_prod_beta dom_saves subset_insertI2)
  next
    case (OGDelegateChanged ev a f d t)
    with assms(1) have "s' = the (handleOGPunkDelegateChanged ev a f d t s)" "st_ogpunks s (dec t) \<noteq> None"
      by (auto simp: handleOGPunkDelegateChanged_def Let_def case_prod_beta split: option.splits)
    then obtain p where "s' = the (handleOGPunkDelegateChanged ev a f d t s)" "st_ogpunks s (dec t) = Some p" by blast
    then show ?thesis by (simp add: handleOGPunkDelegateChanged_def Let_def case_prod_beta dom_saves subset_insertI2)
  next
    case (WrappedTransfer w a b t)
    with assms(1) show ?thesis
      by (auto simp: handleWrappedTransfer_def Let_def case_prod_beta split: option.splits)
  qed (use assms in \<open>auto simp: handlePunkCreated_def handleOGPunkAssign_def handleOGPunkTransfer_def
    handleProposalCanceled_def handleProposalVetoed_def handleProposalQueued_def handleProposalExecuted_def
    Let_def case_prod_beta dom_saves split: option.splits\<close>)
qed

text \<open>The invariant: everybody of whom delegation speaks has an entity, and the events name only those,
  but for an event of the transaction at hand.\<close>

definition events_resolved :: "store \<Rightarrow> string \<Rightarrow> bool" where
  "events_resolved s i \<longleftrightarrow>
     (\<forall>j e. st_delegationEvents s j = Some e \<longrightarrow> j = i \<or> de_previousDelegate e \<in> dom (st_delegates s))"

lemma transfer_known:
  fixes ev :: event_env and a b :: string and t :: nat and s :: store
  assumes "delegates_known L G s" and "a \<noteq> b" and "a = ZERO_ADDRESS \<or> L t = Some a"
  defines "s' \<equiv> handleTransfer ev a b t s"
  shows "delegates_known (L(t \<mapsto> b)) G s'" "events_resolved s i \<Longrightarrow> i = ev_hash ev @ ''_'' @ dec t \<Longrightarrow> events_resolved s' i"
    "events_resolved s i \<Longrightarrow> i = ev_hash ev @ ''_'' @ dec t \<Longrightarrow> a \<noteq> ZERO_ADDRESS \<Longrightarrow> events_resolved s' j"
proof -
  note eff = transfer_delegates [OF assms(2), of ev t s, folded s'_def]
  have dom: "dom (st_delegates s) \<subseteq> dom (st_delegates s')" by (auto simp: eff(1))
  have b: "b \<in> dom (st_delegates s')"
  proof (cases "ac_delegate (account_of s b)")
    case None
    then show ?thesis by (simp add: eff(1) receiving_delegate_def)
  next
    case (Some d)
    then have "b \<in> dom (st_delegates s)" using assms(1) unfolding delegates_known_def by blast
    with dom show ?thesis by blast
  qed
  show "delegates_known (L(t \<mapsto> b)) G s'"
    unfolding delegates_known_def
  proof (intro conjI allI impI)
    fix c assume c: "(\<exists>u. (L(t \<mapsto> b)) u = Some c) \<or> G c \<noteq> c \<or> ac_delegate (account_of s' c) \<noteq> None"
    have "c = b \<or> (\<exists>u. L u = Some c) \<or> G c \<noteq> c \<or> ac_delegate (account_of s c) \<noteq> None"
      using c eff(2) [of c] by (auto split: if_splits)
    then show "c \<in> dom (st_delegates s')" using b dom assms(1) unfolding delegates_known_def by blast
  next
    fix c d assume "ac_delegate (account_of s' c) = Some d"
    from eff(2) [OF this] show "d \<in> dom (st_delegates s')" using b dom assms(1) unfolding delegates_known_def by blast
  qed
  obtain e where e: "st_delegationEvents s' = (st_delegationEvents s)(ev_hash ev @ ''_'' @ dec t \<mapsto> e)"
    "de_previousDelegate e \<in> insert a (set_option (ac_delegate (account_of s a)))" using eff(3) by blast
  have ok: "de_previousDelegate e \<in> dom (st_delegates s')" if "a \<noteq> ZERO_ADDRESS"
  proof -
    have "a \<in> dom (st_delegates s)" using assms(1,3) that unfolding delegates_known_def by blast
    then show ?thesis using e(2) that by (auto simp: eff(1))
  qed
  show "events_resolved s' i" if "events_resolved s i" "i = ev_hash ev @ ''_'' @ dec t"
    using that dom unfolding events_resolved_def e(1) by (metis fun_upd_other subsetD)
  show "events_resolved s' j" if "events_resolved s i" "i = ev_hash ev @ ''_'' @ dec t" "a \<noteq> ZERO_ADDRESS"
    using that dom ok unfolding events_resolved_def e(1) by (metis fun_upd_other fun_upd_same option.inject subsetD)
qed

lemma fold_delegation_events:
  "st_delegationEvents (fold (\<lambda>p. save_delegationEvent (f p) (g p)) ps s) j = Some e \<Longrightarrow>
     st_delegationEvents s j = Some e \<or> (\<exists>p \<in> set ps. e = g p)"
  by (induction ps arbitrary: s) (fastforce simp: delegationEvents_upd split: if_splits)+

lemma delegate_changed_known:
  fixes ev :: event_env and a d :: string and s :: store
  assumes "delegates_known L G s" and "\<And>i. events_resolved s i"
  defines "s' \<equiv> handleDelegateChanged ev a (G a) d s"
  shows "delegates_known L (delegate_ledger (DelegateChanged ev a (G a) d) G) s'" "events_resolved s' i"
proof -
  have dom: "dom (st_delegates s') = insert d (insert (G a) (dom (st_delegates s)))"
    by (auto simp: s'_def handleDelegateChanged_def Let_def case_prod_beta dom_fold_delegation dom_saves)
  have acc: "ac_delegate (account_of s' c) = (if c = a then Some d else ac_delegate (account_of s c))" for c
    by (simp add: s'_def handleDelegateChanged_def Let_def case_prod_beta fold_delegation_frame)
  have a: "a \<in> dom (st_delegates s')"
    using assms(1) by (cases "G a = a") (auto simp: dom delegates_known_def)
  show "delegates_known L (delegate_ledger (DelegateChanged ev a (G a) d) G) s'"
    using assms(1) a unfolding delegates_known_def by (auto simp: acc dom split: if_splits)
  show "events_resolved s' i"
    unfolding events_resolved_def
  proof (intro allI impI)
    fix j e assume "st_delegationEvents s' j = Some e"
    then have "st_delegationEvents s j = Some e \<or> de_previousDelegate e = G a"
      by (auto simp: s'_def handleDelegateChanged_def Let_def case_prod_beta delegation_event_def dest: fold_delegation_events)
    with assms(2) [of "j @ ''x''"] show "j = i \<or> de_previousDelegate e \<in> dom (st_delegates s')"
      by (auto simp: dom events_resolved_def)
  qed
qed

lemma token_history_known:
  assumes "token_history L M G s"
  shows "delegates_known L G s \<and> (\<forall>i. events_resolved s i)"
  using assms
proof (induction rule: token_history.induct)
  case start
  show ?case by (auto simp: delegates_known_def events_resolved_def empty_store_def account_of_def new_account_def)
next
  case (event L M G s e s')
  show ?case
  proof (cases "moves_delegates e")
    case False
    then have ledgers: "token_ledger e L = L" "delegate_ledger e G = G" by (cases e; simp)+
    note frame = delegation_frame [OF event.hyps(4) False]
    from event.IH frame(3) show ?thesis
      unfolding ledgers delegates_known_def events_resolved_def frame(1,2) by blast
  next
    case True
    then consider (changed) ev a d where "e = DelegateChanged ev a (G a) d"
      | (moved) ev a b t where "e = Transfer ev a b t" "a \<noteq> ZERO_ADDRESS" "a \<noteq> b" "L t = Some a"
      using event.hyps(2,3) by (cases e) (auto simp: valid_transfer_def)
    then show ?thesis
    proof cases
      case changed
      with event.hyps(4) event.IH delegate_changed_known [of L G s ev a d] show ?thesis
        by (simp del: delegate_ledger.simps)
    next
      case moved
      with event.hyps(4) event.IH transfer_known [where L = L and G = G and s = s and a = a and b = b and t = t and ev = ev] show ?thesis
        by (auto simp del: fun_upd_apply)
    qed
  qed
next
  case (mint L M G s t creator to ev' ev)
  let ?s1 = "handleTransfer ev ZERO_ADDRESS creator t s" and ?i = "ev_hash ev @ ''_'' @ dec t"
  have s1: "delegates_known (L(t \<mapsto> creator)) G ?s1" "events_resolved ?s1 ?i"
    using transfer_known(1,2) [where L = L and G = G and s = s and a = ZERO_ADDRESS and b = creator and t = t and ev = ev]
      mint by auto
  have s': "delegates_known (L(t \<mapsto> creator, t \<mapsto> to)) G (handle_mint ev ev' creator to t s)"
    "events_resolved (handle_mint ev ev' creator to t s) i" for i
    unfolding handle_mint_def
    by (rule transfer_known(1) [OF s1(1)], use mint.hyps in simp, simp)
      (rule transfer_known(3) [OF s1(1) _ _ s1(2)], use mint.hyps in simp_all)
  then show ?case by (simp del: fun_upd_apply)
qed

lemma delegates_resolved:
  assumes "delegates_known L G s" and "\<And>i. events_resolved s i"
  shows "delegation_resolved s"
  unfolding delegation_resolved_def
proof (intro conjI ballI)
  fix x assume "x \<in> ran (st_accounts s)"
  then obtain a where "x = account_of s a" by (rule ran_account_of)
  with assms(1) show "set_option (ac_delegate x) \<subseteq> dom (st_delegates s)"
    by (cases "ac_delegate x") (auto simp: delegates_known_def)
next
  fix e assume "e \<in> ran (st_delegationEvents s)"
  then obtain j where "st_delegationEvents s j = Some e" by (auto simp: ran_def)
  with assms(2) [of "j @ ''x''"] show "de_previousDelegate e \<in> dom (st_delegates s)" by (auto simp: events_resolved_def)
qed

section \<open>The invariant\<close>

text \<open>C3. No dangling references: after every history of events the contracts emit (punks are minted by
  the two transfers of one transaction, a change of delegate starts from the delegate the contract
  gave), every id that an entity stores as a reference names an entity of the store: the required
  references of the schema, the members of its lists, and the optional references that are set.\<close>

theorem references_resolve:
  assumes "token_history L M G s"
  shows "resolved s s \<and> delegation_resolved s"
proof
  have "history L M s" using assms by (rule token_history_history)
  then show "resolved s s" by (induction rule: history.induct) (auto intro: resolved_empty event_resolved)
  from token_history_known [OF assms] show "delegation_resolved s" by (blast intro: delegates_resolved)
qed

theorem references_resolve_witness:
  "resolved (handle_mint (demo_env ''0x1'') (demo_env ''0x1'') ''0xa'' ''0xb'' 1 empty_store)
     (handle_mint (demo_env ''0x1'') (demo_env ''0x1'') ''0xa'' ''0xb'' 1 empty_store)"
proof -
  have "token_history (Map.empty(1 \<mapsto> ''0xb'')) Map.empty id
      (handle_mint (demo_env ''0x1'') (demo_env ''0x1'') ''0xa'' ''0xb'' 1 empty_store)"
    by (rule token_history.mint [OF token_history.start]) (simp_all add: ZERO_ADDRESS_def)
  from references_resolve [OF this] show ?thesis by simp
qed

text \<open>Between the two transfers of a mint the event does name an entity that is missing.\<close>

lemma mint_event_dangles:
  fixes ev :: event_env and t :: nat
  assumes "a \<noteq> ZERO_ADDRESS" and "ac_delegate (account_of s ZERO_ADDRESS) = None"
    and "ZERO_ADDRESS \<notin> dom (st_delegates s)" and "ac_delegate (account_of s a) = None"
  defines "s' \<equiv> handleTransfer ev ZERO_ADDRESS a t s"
  shows "\<exists>e. st_delegationEvents s' (ev_hash ev @ ''_'' @ dec t) = Some e \<and> de_previousDelegate e \<notin> dom (st_delegates s')"
  using transfer_delegates(1,3) [where a = ZERO_ADDRESS and b = a and ev = ev and t = t and s = s, folded s'_def] assms(1-4)
  by (auto simp: receiving_delegate_def)

end
