(* ===== verification/Web_Queries.thy ===== *)
theory Web_Queries
  imports Web_Activity Web_Delegate Graph_Refs
begin

text \<open>
  The queries the packages send to the subgraph (\<open>punks-webapp/src/wrappers/subgraph.ts\<close>,
  \<open>punks-bots/src/subgraph.ts\<close>, \<open>punks-webapp/functions/theGraph.ts\<close>) as documents, the types of
  \<open>schema.graphql\<close>, and the components that read the answers without a typed model in between: the
  hover cards, the lines about a punk and the functions of the site's API. The server that answers
  (graph-node) is not part of the repository; what is used of it is that a document that does not fit
  the schema is refused, and that the answer to one that fits has the shape of the document.
\<close>

section \<open>The schema\<close>

datatype entity_type =
    Query_root
  | DelegationEvent_t | OGPunkDelegationEvent_t | TransferEvent_t | Seed_t | Punk_t | OGPunk_t | Bid_t | Auction_t
  | Account_t | Delegate_t | Proposal_t | Vote_t | Governance_t

datatype scalar = ID | BigInt | Int_t | Bytes | String_t | Boolean | Enum

text \<open>The type of a field: a scalar, a list of scalars, an entity or a list of entities; the flag says
  whether the field may be \<open>null\<close>.\<close>

datatype field_type = Leaf scalar bool | Leaves scalar bool | One entity_type bool | Many entity_type bool

fun schema :: "entity_type \<Rightarrow> (string \<times> field_type) list" where
  "schema DelegationEvent_t = [(''id'', Leaf ID False), (''punk'', One Punk_t False),
     (''previousDelegate'', One Delegate_t False), (''newDelegate'', One Delegate_t False),
     (''blockNumber'', Leaf BigInt False), (''blockTimestamp'', Leaf BigInt False)]"
| "schema OGPunkDelegationEvent_t = [(''id'', Leaf ID False), (''ogpunk'', One OGPunk_t False),
     (''delegator'', One Account_t False), (''previousDelegate'', One Delegate_t False),
     (''newDelegate'', One Delegate_t False), (''blockNumber'', Leaf BigInt False), (''blockTimestamp'', Leaf BigInt False)]"
| "schema TransferEvent_t = [(''id'', Leaf ID False), (''punk'', One Punk_t False),
     (''previousHolder'', One Account_t False), (''newHolder'', One Account_t False),
     (''blockNumber'', Leaf BigInt False), (''blockTimestamp'', Leaf BigInt False)]"
| "schema Seed_t = [(''id'', Leaf ID False), (''punkType'', Leaf BigInt False), (''skinTone'', Leaf BigInt False),
     (''accessory_types'', Leaves BigInt False), (''accessory_ids'', Leaves BigInt False)]"
| "schema Punk_t = [(''id'', Leaf ID False), (''seed'', One Seed_t True), (''owner'', One Account_t False),
     (''votes'', Many Vote_t False)]"
| "schema OGPunk_t = [(''id'', Leaf ID False), (''wrapped'', Leaf Boolean False), (''owner'', One Account_t False),
     (''delegate'', One Delegate_t True)]"
| "schema Bid_t = [(''id'', Leaf ID False), (''punk'', One Punk_t False), (''amount'', Leaf BigInt False),
     (''bidder'', One Account_t True), (''blockNumber'', Leaf BigInt False), (''txIndex'', Leaf BigInt False),
     (''auction'', One Auction_t False), (''blockTimestamp'', Leaf BigInt False)]"
| "schema Auction_t = [(''id'', Leaf ID False), (''punk'', One Punk_t False), (''amount'', Leaf BigInt False),
     (''startTime'', Leaf BigInt False), (''endTime'', Leaf BigInt False), (''bidder'', One Account_t True),
     (''settled'', Leaf Boolean False), (''bids'', Many Bid_t False)]"
| "schema Account_t = [(''id'', Leaf ID False), (''delegate'', One Delegate_t True), (''tokenBalanceRaw'', Leaf BigInt False),
     (''tokenBalance'', Leaf BigInt False), (''ogpunkBalanceRaw'', Leaf BigInt False), (''ogpunkBalance'', Leaf BigInt False),
     (''totalTokensHeldRaw'', Leaf BigInt False), (''totalTokensHeld'', Leaf BigInt False),
     (''punks'', Many Punk_t False), (''ogpunks'', Many OGPunk_t False)]"
| "schema Delegate_t = [(''id'', Leaf ID False), (''delegatedVotesRaw'', Leaf BigInt False),
     (''delegatedVotes'', Leaf BigInt False), (''delegatedOGVotesRaw'', Leaf BigInt False),
     (''delegatedOGVotes'', Leaf BigInt False), (''tokenHoldersRepresentedAmount'', Leaf Int_t False),
     (''tokenHoldersRepresented'', Many Account_t False), (''punksRepresented'', Many Punk_t False),
     (''ogpunksRepresented'', Many OGPunk_t False), (''votes'', Many Vote_t False), (''proposals'', Many Proposal_t False)]"
| "schema Proposal_t = [(''id'', Leaf ID False), (''proposer'', One Delegate_t False), (''targets'', Leaves Bytes True),
     (''values'', Leaves BigInt True), (''signatures'', Leaves String_t True), (''calldatas'', Leaves Bytes True),
     (''createdTimestamp'', Leaf BigInt False), (''createdBlock'', Leaf BigInt False),
     (''createdTransactionHash'', Leaf Bytes False), (''startBlock'', Leaf BigInt False), (''endBlock'', Leaf BigInt False),
     (''proposalThreshold'', Leaf BigInt False), (''quorumVotes'', Leaf BigInt False), (''forVotes'', Leaf BigInt False),
     (''againstVotes'', Leaf BigInt False), (''abstainVotes'', Leaf BigInt False), (''description'', Leaf String_t False),
     (''status'', Leaf Enum False), (''executionETA'', Leaf BigInt True), (''votes'', Many Vote_t False)]"
| "schema Vote_t = [(''id'', Leaf ID False), (''support'', Leaf Boolean False), (''supportDetailed'', Leaf Int_t False),
     (''votesRaw'', Leaf BigInt False), (''votes'', Leaf BigInt False), (''reason'', Leaf String_t True),
     (''voter'', One Delegate_t False), (''punks'', Many Punk_t True), (''proposal'', One Proposal_t False),
     (''blockNumber'', Leaf BigInt False)]"
| "schema Governance_t = [(''id'', Leaf ID False), (''proposals'', Leaf BigInt False),
     (''currentTokenHolders'', Leaf BigInt False), (''currentDelegates'', Leaf BigInt False),
     (''totalTokenHolders'', Leaf BigInt False), (''totalDelegates'', Leaf BigInt False),
     (''delegatedVotesRaw'', Leaf BigInt False), (''delegatedVotes'', Leaf BigInt False), (''proposalsQueued'', Leaf BigInt False)]"
| "schema Query_root = []"

text \<open>The fields of the root of a query are made by the server, two for each entity type: one entity
  by its id, which is \<open>null\<close> when there is none, and a list. \<open>root\<close> is that part of the server's schema.\<close>

definition fields_of :: "(string \<times> field_type) list \<Rightarrow> entity_type \<Rightarrow> (string \<times> field_type) list" where
  "fields_of root e = (if e = Query_root then root else schema e)"

definition root_names :: "(entity_type \<times> string \<times> string) list" where
  "root_names =
     [(Punk_t, ''punk'', ''punks''), (Seed_t, ''seed'', ''seeds''), (OGPunk_t, ''ogpunk'', ''ogpunks''),
      (Bid_t, ''bid'', ''bids''), (Auction_t, ''auction'', ''auctions''), (Proposal_t, ''proposal'', ''proposals''),
      (Vote_t, ''vote'', ''votes''), (Delegate_t, ''delegate'', ''delegates''),
      (TransferEvent_t, ''transferEvent'', ''transferEvents''),
      (DelegationEvent_t, ''delegationEvent'', ''delegationEvents'')]"

definition server_roots :: "(string \<times> field_type) list \<Rightarrow> bool" where
  "server_roots root \<longleftrightarrow> distinct (map fst root) \<and>
     (\<forall>(n, one, many) \<in> set root_names. (one, One n True) \<in> set root \<and> (many, Many n False) \<in> set root)"

definition demo_root :: "(string \<times> field_type) list" where
  "demo_root = concat (map (\<lambda>(n, one, many). [(one, One n True), (many, Many n False)]) root_names)"

lemma demo_root: "server_roots demo_root"
  by (simp add: server_roots_def demo_root_def root_names_def)

section \<open>Documents\<close>

datatype where_value = Equals string | Greater int | Among "string list"

datatype argument =
    By_id string
  | First int
  | Order_by string
  | Order_direction string
  | Where string where_value
  | At_block int

datatype selection = Field (field_name: string) (field_args: "argument list") (field_subs: "selection list")

abbreviation leaf :: "string \<Rightarrow> selection" where "leaf n \<equiv> Field n [] []"

abbreviation sub :: "string \<Rightarrow> string list \<Rightarrow> selection" where "sub n ns \<equiv> Field n [] (map leaf ns)"

text \<open>A document is a list of root fields. Numbers and strings are spliced into the text of the
  document by the template, so a quote in a string would end the literal; the ids and addresses that
  are spliced here have none.\<close>

type_synonym document = "selection list"

definition seedsQuery :: "int \<Rightarrow> document" where
  "seedsQuery first = [Field ''seeds'' [First first]
     (map leaf [''id'', ''punkType'', ''skinTone'', ''accessory_types'', ''accessory_ids''])]"

definition proposalsQuery :: "int \<Rightarrow> document" where
  "proposalsQuery first = [Field ''proposals'' [First first, Order_by ''createdBlock'', Order_direction ''asc'']
     (map leaf [''id'', ''description'', ''status'', ''proposalThreshold'', ''quorumVotes'', ''forVotes'', ''againstVotes'',
        ''abstainVotes'', ''createdTransactionHash'', ''createdBlock'', ''startBlock'', ''endBlock'', ''executionETA'',
        ''targets'', ''values'', ''signatures'', ''calldatas''] @ [sub ''proposer'' [''id'']])]"

definition auctionQuery :: "nat \<Rightarrow> document" where
  "auctionQuery auctionId = [Field ''auction'' [By_id (dec auctionId)]
     [leaf ''id'', leaf ''amount'', leaf ''settled'', sub ''bidder'' [''id''], leaf ''startTime'', leaf ''endTime'',
      Field ''punk'' [] [leaf ''id'', sub ''seed'' [''id'', ''punkType'', ''skinTone'', ''accessory_types'', ''accessory_ids''],
        sub ''owner'' [''id'']],
      sub ''bids'' [''id'', ''blockNumber'', ''txIndex'', ''amount'']]]"

definition bidsByAuctionQuery :: "string \<Rightarrow> document" where
  "bidsByAuctionQuery auctionId = [Field ''bids'' [Where ''auction'' (Equals auctionId)]
     [leaf ''id'', leaf ''amount'', leaf ''blockNumber'', leaf ''blockTimestamp'', leaf ''txIndex'',
      sub ''bidder'' [''id''], sub ''punk'' [''id'']]]"

definition nQuery :: "string \<Rightarrow> document" where
  "nQuery tokenId = [Field ''punk'' [By_id tokenId]
     [leaf ''id'', sub ''seed'' [''punkType'', ''skinTone'', ''accessory_types'', ''accessory_ids''], sub ''owner'' [''id'']]]"

definition tokensIndex :: document where
  "tokensIndex = [Field ''punks'' [] [leaf ''id'', sub ''owner'' [''id'']]]"

definition ogpunksByOwner :: "string \<Rightarrow> document" where
  "ogpunksByOwner address = [Field ''ogpunks'' [Where ''owner'' (Equals address)]
     [leaf ''id'', sub ''delegate'' [''id''], sub ''owner'' [''id'']]]"

definition latestAuctionsQuery :: document where
  "latestAuctionsQuery = [Field ''auctions'' [Order_by ''startTime'', Order_direction ''desc'', First 1000]
     [leaf ''id'', leaf ''amount'', leaf ''settled'', sub ''bidder'' [''id''], leaf ''startTime'', leaf ''endTime'',
      Field ''punk'' [] [leaf ''id'', sub ''owner'' [''id'']],
      Field ''bids'' [] (map leaf [''id'', ''amount'', ''blockNumber'', ''blockTimestamp'', ''txIndex''] @ [sub ''bidder'' [''id'']])]]"

definition latestBidsQuery :: "int \<Rightarrow> document" where
  "latestBidsQuery first = [Field ''bids'' [First first, Order_by ''blockTimestamp'', Order_direction ''desc'']
     [leaf ''id'', sub ''bidder'' [''id''], leaf ''amount'', leaf ''blockTimestamp'', leaf ''txIndex'', leaf ''blockNumber'',
      sub ''auction'' [''id'', ''startTime'', ''endTime'', ''settled'']]]"

definition nVotingHistoryQuery :: "nat \<Rightarrow> document" where
  "nVotingHistoryQuery tokenId = [Field ''punk'' [By_id (dec tokenId)]
     [leaf ''id'', Field ''votes'' [] [leaf ''blockNumber'', sub ''proposal'' [''id''], leaf ''support'', leaf ''supportDetailed'',
        sub ''voter'' [''id'']]]]"

definition nTransferHistoryQuery :: "nat \<Rightarrow> document" where
  "nTransferHistoryQuery tokenId = [Field ''transferEvents'' [Where ''punk'' (Equals (dec tokenId))]
     [leaf ''id'', sub ''previousHolder'' [''id''], sub ''newHolder'' [''id''], leaf ''blockNumber'']]"

definition nDelegationHistoryQuery :: "nat \<Rightarrow> document" where
  "nDelegationHistoryQuery tokenId = [Field ''delegationEvents'' [Where ''punk'' (Equals (dec tokenId))]
     [leaf ''id'', sub ''previousDelegate'' [''id''], sub ''newDelegate'' [''id''], leaf ''blockNumber'']]"

definition createTimestampAllProposals :: document where
  "createTimestampAllProposals =
     [Field ''proposals'' [Order_by ''createdTimestamp'', Order_direction ''asc'', First 1000] (map leaf [''id'', ''createdTimestamp''])]"

definition proposalVotesQuery :: "string \<Rightarrow> document" where
  "proposalVotesQuery proposalId =
     [Field ''votes'' [Where ''proposal'' (Equals proposalId), Where ''votesRaw'' (Greater 0)]
       [leaf ''supportDetailed'', sub ''voter'' [''id'']]]"

definition delegateTokensAtBlockQuery :: "string list \<Rightarrow> int \<Rightarrow> document" where
  "delegateTokensAtBlockQuery voters block =
     [Field ''delegates'' [Where ''id'' (Among voters), At_block block] [leaf ''id'', sub ''nRepresented'' [''id'']]]"

definition currentlyDelegatedTokens :: "string \<Rightarrow> document" where
  "currentlyDelegatedTokens delegate =
     [Field ''delegates'' [Where ''id'' (Equals delegate)] [leaf ''id'', sub ''punksRepresented'' [''id'']]]"

definition getLastAuctionBids_query :: document where
  "getLastAuctionBids_query = [Field ''auctions'' [Order_by ''startTime'', Order_direction ''desc'', First 1]
     [leaf ''id'', leaf ''endTime'', Field ''bids'' [Order_by ''blockNumber'', Order_direction ''desc'', First 1]
        [leaf ''id'', leaf ''amount'', sub ''bidder'' [''id'']]]]"

definition getAllProposals_query :: document where
  "getAllProposals_query = [Field ''proposals'' []
     ([leaf ''id'', sub ''proposer'' [''id'']] @ map leaf [''description'', ''status'', ''quorumVotes'', ''proposalThreshold'',
        ''startBlock'', ''endBlock'', ''executionETA''] @
      [Field ''votes'' [] ([leaf ''id'', sub ''voter'' [''id'']] @ map leaf [''votes'', ''supportDetailed'', ''reason''])])]"

definition punksGql :: document where
  "punksGql = [Field ''punks'' []
     [leaf ''id'', Field ''owner'' [] [leaf ''id'', sub ''delegate'' [''id'']],
      Field ''votes'' [] [sub ''proposal'' [''id''], leaf ''supportDetailed''],
      sub ''seed'' [''punkType'', ''skinTone'', ''accessory_types'', ''accessory_ids'']]]"

section \<open>Documents that fit the schema\<close>

text \<open>A filter fits a field of the entity: equality and membership any scalar or reference, \<open>_gt\<close> a
  number. \<open>first\<close> is between 1 and 1000.\<close>

definition filter_fits :: "field_type option \<Rightarrow> where_value \<Rightarrow> bool" where
  "filter_fits ft v =
     (case ft of
        Some (Leaf l _) \<Rightarrow> (case v of Greater _ \<Rightarrow> l \<in> {BigInt, Int_t} | _ \<Rightarrow> True)
      | Some (One _ _) \<Rightarrow> (case v of Greater _ \<Rightarrow> False | _ \<Rightarrow> True)
      | _ \<Rightarrow> False)"

fun argument_fits :: "bool \<Rightarrow> bool \<Rightarrow> (string \<times> field_type) list \<Rightarrow> argument \<Rightarrow> bool" where
  "argument_fits at_root single fs (By_id i) \<longleftrightarrow> at_root \<and> single"
| "argument_fits at_root single fs (First n) \<longleftrightarrow> \<not> single \<and> 1 \<le> n \<and> n \<le> 1000"
| "argument_fits at_root single fs (Order_by f) \<longleftrightarrow> \<not> single \<and> f \<in> fst ` set fs"
| "argument_fits at_root single fs (Order_direction d) \<longleftrightarrow> \<not> single \<and> (d = ''asc'' \<or> d = ''desc'')"
| "argument_fits at_root single fs (Where f v) \<longleftrightarrow> \<not> single \<and> filter_fits (map_of fs f) v"
| "argument_fits at_root single fs (At_block b) \<longleftrightarrow> at_root"

fun fits :: "(string \<times> field_type) list \<Rightarrow> entity_type \<Rightarrow> selection \<Rightarrow> bool" where
  "fits root e (Field n as subs) =
     (case map_of (fields_of root e) n of
        None \<Rightarrow> False
      | Some (Leaf _ _) \<Rightarrow> as = [] \<and> subs = []
      | Some (Leaves _ _) \<Rightarrow> as = [] \<and> subs = []
      | Some (One e' _) \<Rightarrow> subs \<noteq> [] \<and> list_all (argument_fits (e = Query_root) True (fields_of root e')) as \<and>
          list_all (fits root e') subs
      | Some (Many e' _) \<Rightarrow> subs \<noteq> [] \<and> list_all (argument_fits (e = Query_root) False (fields_of root e')) as \<and>
          list_all (fits root e') subs)"

definition fits_schema :: "(string \<times> field_type) list \<Rightarrow> document \<Rightarrow> bool" where
  "fits_schema root doc \<longleftrightarrow> list_all (fits root Query_root) doc"

lemma root_lookup:
  assumes "server_roots root"
  shows "map_of root ''punk'' = Some (One Punk_t True)" "map_of root ''punks'' = Some (Many Punk_t False)"
    "map_of root ''seeds'' = Some (Many Seed_t False)" "map_of root ''ogpunks'' = Some (Many OGPunk_t False)"
    "map_of root ''bids'' = Some (Many Bid_t False)" "map_of root ''auction'' = Some (One Auction_t True)"
    "map_of root ''auctions'' = Some (Many Auction_t False)" "map_of root ''proposals'' = Some (Many Proposal_t False)"
    "map_of root ''votes'' = Some (Many Vote_t False)" "map_of root ''delegates'' = Some (Many Delegate_t False)"
    "map_of root ''transferEvents'' = Some (Many TransferEvent_t False)"
    "map_of root ''delegationEvents'' = Some (Many DelegationEvent_t False)"
  using assms by (simp_all add: server_roots_def root_names_def map_of_eq_Some_iff)

lemma fields_of_simps: "fields_of root Query_root = root" "e \<noteq> Query_root \<Longrightarrow> fields_of root e = schema e"
  by (simp_all add: fields_of_def)

text \<open>C25. The queries fit the schema: every document that the web application, the bots and the functions
  send names fields that the schema has, selects sub-fields of entities and of nothing else, orders and
  filters by fields of the right type and asks for at most 1000 entities, whatever id or address is
  spliced in; with one exception, the query for the punks of delegates at a block, which never fits.\<close>

theorem queries_fit_schema:
  assumes "server_roots root" and "1 \<le> n" and "n \<le> 1000"
  shows "list_all (fits_schema root)
      [seedsQuery n, proposalsQuery n, auctionQuery t, bidsByAuctionQuery i, nQuery i, tokensIndex, ogpunksByOwner i,
       latestAuctionsQuery, latestBidsQuery n, nVotingHistoryQuery t, nTransferHistoryQuery t, nDelegationHistoryQuery t,
       createTimestampAllProposals, proposalVotesQuery i, currentlyDelegatedTokens i,
       getLastAuctionBids_query, getAllProposals_query, punksGql]
    \<and> \<not> fits_schema root (delegateTokensAtBlockQuery ds b)"
  using assms(2,3)
  by (simp add: fits_schema_def fields_of_simps root_lookup [OF assms(1)] filter_fits_def
    seedsQuery_def proposalsQuery_def auctionQuery_def bidsByAuctionQuery_def nQuery_def tokensIndex_def ogpunksByOwner_def
    latestAuctionsQuery_def latestBidsQuery_def nVotingHistoryQuery_def nTransferHistoryQuery_def nDelegationHistoryQuery_def
    createTimestampAllProposals_def proposalVotesQuery_def currentlyDelegatedTokens_def getLastAuctionBids_query_def
    getAllProposals_query_def punksGql_def delegateTokensAtBlockQuery_def)

theorem queries_fit_schema_witness:
  "list_all (fits_schema demo_root) [seedsQuery 1000, proposalsQuery 1000, latestBidsQuery 1000]"
  using queries_fit_schema [OF demo_root, of 1000] by simp

section \<open>Answers\<close>

text \<open>The values of JavaScript the answers are made of. Reading a property of \<open>undefined\<close> or \<open>null\<close>
  throws; reading one that is not there gives \<open>undefined\<close>.\<close>

datatype js =
    JUndef
  | JNull
  | JStr string
  | JNum int
  | JBool bool
  | JArr "js list"
  | JObj "(string \<times> js) list"

fun get_prop :: "js \<Rightarrow> string \<Rightarrow> js result" where
  "get_prop JUndef k = Inl TypeError"
| "get_prop JNull k = Inl TypeError"
| "get_prop (JObj kvs) k = Inr (case map_of kvs k of None \<Rightarrow> JUndef | Some v \<Rightarrow> v)"
| "get_prop (JArr vs) k = Inr (if k = ''length'' then JNum (int (length vs)) else JUndef)"
| "get_prop (JStr s) k = Inr (if k = ''length'' then JNum (int (length s)) else JUndef)"
| "get_prop _ k = Inr JUndef"

text \<open>\<open>v?.k\<close>, \<open>v[i]\<close> and \<open>v.map(f)\<close>.\<close>

definition optional_get :: "js \<Rightarrow> string \<Rightarrow> js result" where
  "optional_get v k = (if v = JUndef \<or> v = JNull then Inr JUndef else get_prop v k)"

fun element :: "js \<Rightarrow> nat \<Rightarrow> js result" where
  "element (JArr vs) i = Inr (if i < length vs then vs ! i else JUndef)"
| "element v i = get_prop v (dec i)"

fun js_map :: "(js \<Rightarrow> 'a result) \<Rightarrow> js \<Rightarrow> 'a list result" where
  "js_map f (JArr vs) = rmap_list f vs"
| "js_map f v = Inl TypeError"

fun js_truthy :: "js \<Rightarrow> bool" where
  "js_truthy JUndef = False"
| "js_truthy JNull = False"
| "js_truthy (JStr s) = (s \<noteq> [])"
| "js_truthy (JNum n) = (n \<noteq> 0)"
| "js_truthy (JBool b) = b"
| "js_truthy _ = True"

text \<open>The data of a query as the code gets it.\<close>

definition data_of :: "js query \<Rightarrow> js" where
  "data_of q = (case q_data q of None \<Rightarrow> JUndef | Some v \<Rightarrow> v)"

fun scalar_value :: "scalar \<Rightarrow> js \<Rightarrow> bool" where
  "scalar_value Int_t (JNum n) = True"
| "scalar_value Int_t _ = False"
| "scalar_value Boolean (JBool b) = True"
| "scalar_value Boolean _ = False"
| "scalar_value _ (JStr s) = True"
| "scalar_value _ _ = False"

text \<open>An answer has the shape of the document: an object has the selected fields and no other (the
  client asks for \<open>__typename\<close> besides), each with a value of its type.\<close>

definition has_keys :: "selection list \<Rightarrow> (string \<times> js) list \<Rightarrow> bool" where
  "has_keys subs kvs \<longleftrightarrow> set (map fst kvs) \<subseteq> insert ''__typename'' (set (map field_name subs))"

fun conforms :: "(string \<times> field_type) list \<Rightarrow> entity_type \<Rightarrow> selection \<Rightarrow> js \<Rightarrow> bool" where
  "conforms root e (Field n as subs) v =
     (case map_of (fields_of root e) n of
        None \<Rightarrow> False
      | Some (Leaf l nl) \<Rightarrow> nl \<and> v = JNull \<or> scalar_value l v
      | Some (Leaves l nl) \<Rightarrow> nl \<and> v = JNull \<or> (case v of JArr vs \<Rightarrow> list_all (scalar_value l) vs | _ \<Rightarrow> False)
      | Some (One e' nl) \<Rightarrow> nl \<and> v = JNull \<or>
          (case v of JObj kvs \<Rightarrow> has_keys subs kvs \<and>
             list_all (\<lambda>s. case map_of kvs (field_name s) of None \<Rightarrow> False | Some w \<Rightarrow> conforms root e' s w) subs
           | _ \<Rightarrow> False)
      | Some (Many e' nl) \<Rightarrow> nl \<and> v = JNull \<or>
          (case v of JArr vs \<Rightarrow> list_all (\<lambda>x. case x of JObj kvs \<Rightarrow> has_keys subs kvs \<and>
               list_all (\<lambda>s. case map_of kvs (field_name s) of None \<Rightarrow> False | Some w \<Rightarrow> conforms root e' s w) subs
             | _ \<Rightarrow> False) vs
           | _ \<Rightarrow> False))"

definition object_conforms :: "(string \<times> field_type) list \<Rightarrow> entity_type \<Rightarrow> selection list \<Rightarrow> js \<Rightarrow> bool" where
  "object_conforms root e subs v = (case v of
     JObj kvs \<Rightarrow> has_keys subs kvs \<and>
       list_all (\<lambda>s. case map_of kvs (field_name s) of None \<Rightarrow> False | Some w \<Rightarrow> conforms root e s w) subs
   | _ \<Rightarrow> False)"

text \<open>What the client (Apollo) hands to a component: nothing while it loads, no data with an error, and
  the server's answer otherwise; the server refuses a document that does not fit the schema.\<close>

definition possible_answer :: "(string \<times> field_type) list \<Rightarrow> document \<Rightarrow> js query \<Rightarrow> bool" where
  "possible_answer root doc q \<longleftrightarrow>
     (if q_loading q then \<not> q_error q \<and> q_data q = None
      else if q_error q then q_data q = None
      else fits_schema root doc \<and> (\<exists>v. q_data q = Some v \<and> object_conforms root Query_root doc v))"

lemma object_conformsE:
  assumes "object_conforms root e subs v"
  obtains kvs where "v = JObj kvs" "has_keys subs kvs"
    "\<And>s. s \<in> set subs \<Longrightarrow> \<exists>w. map_of kvs (field_name s) = Some w \<and> conforms root e s w"
proof -
  from assms obtain kvs where v: "v = JObj kvs" by (cases v) (simp_all add: object_conforms_def)
  show thesis
    by (rule that [OF v]) (use assms v in \<open>auto simp: object_conforms_def list_all_iff split: option.splits\<close>)
qed

lemma object_prop:
  assumes "object_conforms root e subs v" and "s \<in> set subs"
  obtains w where "get_prop v (field_name s) = Inr w" "conforms root e s w"
proof -
  from object_conformsE [OF assms(1)] obtain kvs where kvs: "v = JObj kvs"
    and s: "\<And>s. s \<in> set subs \<Longrightarrow> \<exists>w. map_of kvs (field_name s) = Some w \<and> conforms root e s w" by metis
  from s [OF assms(2)] obtain w where "map_of kvs (field_name s) = Some w" "conforms root e s w" by blast
  with kvs that show thesis by simp
qed

lemma object_no_prop:
  assumes "object_conforms root e subs v" and "k \<noteq> ''__typename''" and "k \<notin> field_name ` set subs"
  shows "get_prop v k = Inr JUndef"
proof -
  from object_conformsE [OF assms(1)] obtain kvs where kvs: "v = JObj kvs" "has_keys subs kvs" by metis
  then have "k \<notin> set (map fst kvs)" using assms(2,3) by (auto simp: has_keys_def)
  then have "map_of kvs k = None" by (simp add: map_of_eq_None_iff)
  with kvs show ?thesis by simp
qed

lemma conforms_Field:
  "conforms root e (Field n as subs) v =
     (case map_of (fields_of root e) n of
        None \<Rightarrow> False
      | Some (Leaf l nl) \<Rightarrow> nl \<and> v = JNull \<or> scalar_value l v
      | Some (Leaves l nl) \<Rightarrow> nl \<and> v = JNull \<or> (case v of JArr vs \<Rightarrow> list_all (scalar_value l) vs | _ \<Rightarrow> False)
      | Some (One e' nl) \<Rightarrow> nl \<and> v = JNull \<or> object_conforms root e' subs v
      | Some (Many e' nl) \<Rightarrow> nl \<and> v = JNull \<or>
          (case v of JArr vs \<Rightarrow> list_all (object_conforms root e' subs) vs | _ \<Rightarrow> False))"
  by (simp only: conforms.simps object_conforms_def [abs_def])

declare conforms.simps [simp del]

lemma conforms_cases:
  "map_of (fields_of root e) n = Some (Leaf l nl) \<Longrightarrow> conforms root e (Field n as subs) v \<longleftrightarrow> nl \<and> v = JNull \<or> scalar_value l v"
  "map_of (fields_of root e) n = Some (Leaves l nl) \<Longrightarrow> conforms root e (Field n as subs) v \<longleftrightarrow>
     nl \<and> v = JNull \<or> (\<exists>vs. v = JArr vs \<and> list_all (scalar_value l) vs)"
  "map_of (fields_of root e) n = Some (One e' nl) \<Longrightarrow>
     conforms root e (Field n as subs) v \<longleftrightarrow> nl \<and> v = JNull \<or> object_conforms root e' subs v"
  "map_of (fields_of root e) n = Some (Many e' nl) \<Longrightarrow>
     conforms root e (Field n as subs) v \<longleftrightarrow> nl \<and> v = JNull \<or> (\<exists>vs. v = JArr vs \<and> list_all (object_conforms root e' subs) vs)"
  by (simp_all add: conforms_Field split: js.split)

end
