(* ===== verification/Bots_Cache.thy ===== *)
theory Bots_Cache
  imports Graph_Store
begin

text \<open>
  \<open>packages/punks-bots/src\<close>: the data of the bots (\<open>types.ts\<close>, \<open>utils/proposals.ts\<close>) and their
  memory (\<open>cache.ts\<close>). Redis is a map from keys to values; a value is a text, or the JSON text of a
  proposal, represented by the proposal it denotes. A number that may be \<open>NaN\<close> is an \<open>int option\<close>.
  The locale states what a cell of the memory promises; it is interpreted on each pair of a reader and
  a writer of \<open>cache.ts\<close>.
\<close>

section \<open>Numbers\<close>

type_synonym num = "int option"

definition num_text :: "num \<Rightarrow> string" where
  "num_text n = (case n of None \<Rightarrow> ''NaN'' | Some i \<Rightarrow> int_to_base 10 i)"

text \<open>\<open>Number(s)\<close> of \<open>null\<close> and of a text in decimal digits with an optional sign, the form of the
  numbers of the subgraph and of the cache; \<open>NaN\<close> for other texts.\<close>

definition Number :: "string option \<Rightarrow> num" where
  "Number v =
     (case v of
        None \<Rightarrow> Some 0
      | Some s \<Rightarrow>
          (let (neg, ds) = split_sign (trim s)
           in if trim s = [] then Some 0
              else if ds \<noteq> [] \<and> list_all (is_digit_of 10) ds
              then Some (if neg then - int (base_value 10 ds) else int (base_value 10 ds))
              else None))"

definition num_less :: "num \<Rightarrow> num \<Rightarrow> bool" where
  "num_less a b = (case (a, b) of (Some x, Some y) \<Rightarrow> x < y | _ \<Rightarrow> False)"

section \<open>Bids, votes and proposals\<close>

record Bid =
  bd_id :: string
  bd_amount :: string
  bd_bidder :: string

text \<open>The identifier and the end of an auction arrive as decimal texts and are used as numbers.\<close>

record AuctionBids =
  ab_id :: nat
  ab_endTime :: int
  ab_bids :: "Bid list"

datatype VoteDirection = AGAINST | FOR | ABSTAIN

record raw_vote =
  rv_id :: string
  rv_voter :: string
  rv_votes :: "string option"
  rv_supportDetailed :: VoteDirection
  rv_reason :: "string option"

record raw_proposal =
  rp_id :: "string option"
  rp_proposer :: string
  rp_description :: string
  rp_status :: proposal_status
  rp_quorumVotes :: "string option"
  rp_proposalThreshold :: "string option"
  rp_startBlock :: "string option"
  rp_endBlock :: "string option"
  rp_executionETA :: "string option"
  rp_votes :: "raw_vote list"

record bot_vote =
  bv_id :: string
  bv_voter :: string
  bv_votes :: num
  bv_supportDetailed :: VoteDirection
  bv_reason :: "string option"

record bot_proposal =
  bp_id :: num
  bp_proposer :: string
  bp_description :: string
  bp_status :: proposal_status
  bp_quorumVotes :: num
  bp_proposalThreshold :: num
  bp_startBlock :: num
  bp_endBlock :: num
  bp_executionETA :: num
  bp_votes :: "bot_vote list"

definition parseVote :: "raw_vote \<Rightarrow> bot_vote" where
  "parseVote v = \<lparr>bv_id = rv_id v, bv_voter = rv_voter v, bv_votes = Number (rv_votes v),
     bv_supportDetailed = rv_supportDetailed v, bv_reason = rv_reason v\<rparr>"

definition parseProposal :: "raw_proposal \<Rightarrow> bot_proposal" where
  "parseProposal p =
     \<lparr>bp_id = Number (rp_id p), bp_proposer = rp_proposer p, bp_description = rp_description p,
      bp_status = rp_status p, bp_quorumVotes = Number (rp_quorumVotes p),
      bp_proposalThreshold = Number (rp_proposalThreshold p), bp_startBlock = Number (rp_startBlock p),
      bp_endBlock = Number (rp_endBlock p), bp_executionETA = Number (rp_executionETA p),
      bp_votes = map parseVote (rp_votes p)\<rparr>"

definition parseProposalSubgraphResponse :: "raw_proposal list \<Rightarrow> bot_proposal list" where
  "parseProposalSubgraphResponse proposals = map parseProposal proposals"

definition extractNewVotes :: "bot_proposal \<Rightarrow> bot_proposal \<Rightarrow> bot_vote list" where
  "extractNewVotes proposalBefore proposalAfter =
     (let previousStateVoteIds = map bv_id (bp_votes proposalBefore)
      in filter (\<lambda>vote. bv_id vote \<notin> set previousStateVoteIds \<and> num_less (Some 0) (bv_votes vote)) (bp_votes proposalAfter))"

text \<open>The first line without \<open>^#\s*\<close>.\<close>

definition extractProposalTitle :: "bot_proposal \<Rightarrow> string" where
  "extractProposalTitle p =
     (let line = hd (split_str [CHR 0x0A] (bp_description p))
      in case line of c # cs \<Rightarrow> if c = CHR ''#'' then dropWhile is_ws cs else line | [] \<Rightarrow> [])"

definition SECONDS_IN_DAY :: int where
  "SECONDS_IN_DAY = 60 * 60 * 24"

text \<open>\<open>now\<close> is \<open>Date.now()\<close>, in milliseconds.\<close>

definition isAtRiskOfExpiry :: "int \<Rightarrow> bot_proposal \<Rightarrow> bool" where
  "isAtRiskOfExpiry now p =
     (if bp_status p \<noteq> QUEUED then False
      else case bp_executionETA p of
             None \<Rightarrow> False
           | Some eta \<Rightarrow>
               (let expiresAt = eta + SECONDS_IN_DAY * 14;
                    secondsUntilExpiry = expiresAt - now div 1000
                in secondsUntilExpiry > 0 \<and> secondsUntilExpiry \<le> SECONDS_IN_DAY * 2))"

section \<open>The cache\<close>

datatype redis_value = RText string | RProposal bot_proposal

type_synonym redis = "string \<Rightarrow> redis_value option"

definition getAuctionCacheKey :: string where "getAuctionCacheKey = ''NOUNS_AUCTION_CACHE''"
definition getBidCacheKey :: string where "getBidCacheKey = ''NOUNS_BID_CACHE''"
definition getReplyTweetIdKey :: string where "getReplyTweetIdKey = ''NOUNS_REPLY_TWEET_ID''"
definition getAuctionEndingSoonCacheKey :: string where "getAuctionEndingSoonCacheKey = ''NOUNS_AUCTION_ENDING_SOON_CACHE''"
definition getProposalCacheKeyPrefix :: string where "getProposalCacheKeyPrefix = ''NOUNS_PROPOSAL_''"
definition getProposalExpiryWarningSentCacheKeyPrefix :: string where
  "getProposalExpiryWarningSentCacheKeyPrefix = ''NOUNS_PROPOSAL_EXPIRY_WARNING_SENT_''"

text \<open>\<open>redis.get\<close> of a key that is not set is \<open>null\<close>. \<open>Number\<close> of the JSON text of a proposal is
  \<open>NaN\<close>; a text that is no proposal has no votes to read.\<close>

definition cached_number :: "string \<Rightarrow> redis \<Rightarrow> num" where
  "cached_number key r =
     (case r key of
        None \<Rightarrow> Some 0
      | Some (RText t) \<Rightarrow> if t = [] then Some 0 else Number (Some t)
      | Some (RProposal p) \<Rightarrow> None)"

definition updateAuctionCache :: "nat \<Rightarrow> redis \<Rightarrow> redis" where
  "updateAuctionCache i r = r(getAuctionCacheKey \<mapsto> RText (dec i))"

definition getBidCache :: "redis \<Rightarrow> redis_value" where
  "getBidCache r = (case r getBidCacheKey of None \<Rightarrow> RText [] | Some v \<Rightarrow> v)"

definition updateBidCache :: "string \<Rightarrow> redis \<Rightarrow> redis" where
  "updateBidCache i r = r(getBidCacheKey \<mapsto> RText i)"

definition getAuctionReplyTweetId :: "redis \<Rightarrow> redis_value option" where
  "getAuctionReplyTweetId r = r getReplyTweetIdKey"

definition updateAuctionReplyTweetId :: "string \<Rightarrow> redis \<Rightarrow> redis" where
  "updateAuctionReplyTweetId i r = r(getReplyTweetIdKey \<mapsto> RText i)"

definition getAuctionEndingSoonCache :: "redis \<Rightarrow> num" where
  "getAuctionEndingSoonCache = cached_number getAuctionEndingSoonCacheKey"

definition updateAuctionEndingSoonCache :: "nat \<Rightarrow> redis \<Rightarrow> redis" where
  "updateAuctionEndingSoonCache i r = r(getAuctionEndingSoonCacheKey \<mapsto> RText (dec i))"

definition getAuctionCache :: "redis \<Rightarrow> num" where
  "getAuctionCache = cached_number getAuctionCacheKey"

definition proposalCacheKey :: "num \<Rightarrow> string" where
  "proposalCacheKey i = getProposalCacheKeyPrefix @ num_text i"

definition proposalExpiryWarningSentCacheKey :: "num \<Rightarrow> string" where
  "proposalExpiryWarningSentCacheKey i = getProposalExpiryWarningSentCacheKeyPrefix @ num_text i"

definition updateProposalCache :: "bot_proposal \<Rightarrow> redis \<Rightarrow> redis" where
  "updateProposalCache p r = r(proposalCacheKey (bp_id p) \<mapsto> RProposal p)"

definition getProposalCache :: "num \<Rightarrow> redis \<Rightarrow> bot_proposal option result" where
  "getProposalCache i r =
     (case r (proposalCacheKey i) of
        None \<Rightarrow> Inr None
      | Some (RProposal p) \<Rightarrow> Inr (Some p)
      | Some (RText t) \<Rightarrow> if t = [] then Inr None else Inl TypeError)"

definition setProposalExpiryWarningSent :: "num \<Rightarrow> redis \<Rightarrow> redis" where
  "setProposalExpiryWarningSent i r = r(proposalExpiryWarningSentCacheKey i \<mapsto> RText ''1'')"

definition hasWarnedOfExpiry :: "num \<Rightarrow> redis \<Rightarrow> bool" where
  "hasWarnedOfExpiry i r \<longleftrightarrow> r (proposalExpiryWarningSentCacheKey i) \<noteq> None"

section \<open>Keys do not collide\<close>

lemma digit_char_plain: "d < 10 \<Longrightarrow> digit_char d \<notin> {CHR ''N'', CHR ''E'', CHR ''-''}"
  using nat_less_16_cases [of d] by (auto simp: digit_char_def)

lemma dec_first: "\<exists>d cs. dec n = digit_char d # cs \<and> d < 10"
proof -
  obtain c cs where "dec n = c # cs" by (cases "dec n") auto
  then show ?thesis using nat_to_base_digits [of 10 c n] by auto
qed

lemma num_text_first: "\<exists>c cs. num_text n = c # cs \<and> c \<noteq> CHR ''E'' \<and> (c = CHR ''N'' \<longleftrightarrow> n = None)"
  using dec_first digit_char_plain by (fastforce simp: num_text_def int_to_base_def split: option.splits)

lemma int_to_base_inject [simp]: "int_to_base 10 i = int_to_base 10 j \<longleftrightarrow> i = j"
proof -
  have "dec n \<noteq> CHR ''-'' # cs" for n cs using dec_first [of n] digit_char_plain by fastforce
  then show ?thesis by (auto simp: int_to_base_def dest: sym)
qed

lemma num_text_inject [simp]: "num_text m = num_text n \<longleftrightarrow> m = n"
  using num_text_first [of m] num_text_first [of n]
  by (cases m; cases n) (auto simp: num_text_def)

lemmas cache_key_defs = getAuctionCacheKey_def getBidCacheKey_def getReplyTweetIdKey_def getAuctionEndingSoonCacheKey_def
  proposalCacheKey_def proposalExpiryWarningSentCacheKey_def getProposalCacheKeyPrefix_def
  getProposalExpiryWarningSentCacheKeyPrefix_def

lemma keys_distinct [simp]:
  "distinct [getAuctionCacheKey, getBidCacheKey, getReplyTweetIdKey, getAuctionEndingSoonCacheKey, proposalCacheKey i,
    proposalExpiryWarningSentCacheKey j]"
  using num_text_first [of i] by (auto simp: cache_key_defs)

lemma keys_inject [simp]:
  "proposalCacheKey i = proposalCacheKey j \<longleftrightarrow> i = j"
  "proposalExpiryWarningSentCacheKey i = proposalExpiryWarningSentCacheKey j \<longleftrightarrow> i = j"
  by (simp_all add: cache_key_defs)

lemma Number_dec [simp]: "Number (Some (dec n)) = Some (int n)"
proof -
  have digits: "list_all (is_digit_of 10) (dec n)"
    using nat_to_base_digits [of 10 _ n] is_digit_of_digit_char [of _ 10] by (auto simp: list_all_iff)
  obtain d cs where f: "dec n = digit_char d # cs" "d < 10" using dec_first by blast
  have nows: "\<not> is_ws c" if "c \<in> set (dec n)" for c
    using that nat_to_base_digits [of 10 c n] digit_char_not_special by fastforce
  have keep: "dropWhile is_ws xs = xs" if "xs \<noteq> []" "set xs \<subseteq> set (dec n)" for xs
    using that nows by (cases xs) auto
  have "trim (dec n) = dec n" by (simp add: trim_def keep)
  moreover have "split_sign (dec n) = (False, dec n)"
    using digit_char_not_special [of d] f by (simp add: split_sign_def)
  ultimately show ?thesis using digits by (simp add: Number_def base_value_nat_to_base)
qed

section \<open>The interface of one cell\<close>

text \<open>A cell is read after a write as what was written (\<open>ret\<close>), and reads and writes its own key
  only; so cells with different keys do not disturb each other.\<close>

locale cache_cell =
  fixes key :: string and get :: "redis \<Rightarrow> 'v" and put :: "'w \<Rightarrow> redis \<Rightarrow> redis" and ret :: "'w \<Rightarrow> 'v"
  assumes get_put: "get (put w r) = ret w"
    and put_frame: "k \<noteq> key \<Longrightarrow> put w r k = r k"
    and get_frame: "r' key = r key \<Longrightarrow> get r' = get r"
begin

lemma get_puts: "ws \<noteq> [] \<Longrightarrow> get (fold put ws r) = ret (last ws)"
  by (induction ws rule: rev_induct) (simp_all add: get_put)

lemma get_other: "r' = r(k \<mapsto> v) \<Longrightarrow> k \<noteq> key \<Longrightarrow> get r' = get r"
  by (rule get_frame) simp

end

interpretation auction_cell: cache_cell getAuctionCacheKey getAuctionCache updateAuctionCache "\<lambda>i. Some (int i)"
  by unfold_locales (auto simp: getAuctionCache_def updateAuctionCache_def cached_number_def)

interpretation bid_cell: cache_cell getBidCacheKey getBidCache updateBidCache RText
  by unfold_locales (auto simp: getBidCache_def updateBidCache_def)

interpretation reply_cell: cache_cell getReplyTweetIdKey getAuctionReplyTweetId updateAuctionReplyTweetId "\<lambda>i. Some (RText i)"
  by unfold_locales (auto simp: getAuctionReplyTweetId_def updateAuctionReplyTweetId_def)

interpretation soon_cell: cache_cell getAuctionEndingSoonCacheKey getAuctionEndingSoonCache updateAuctionEndingSoonCache "\<lambda>i. Some (int i)"
  by unfold_locales (auto simp: getAuctionEndingSoonCache_def updateAuctionEndingSoonCache_def cached_number_def)

interpretation proposal_cell: cache_cell "proposalCacheKey i" "getProposalCache i"
  "\<lambda>p. updateProposalCache (p\<lparr>bp_id := i\<rparr>)" "\<lambda>p. Inr (Some (p\<lparr>bp_id := i\<rparr>))" for i
  by unfold_locales (auto simp: getProposalCache_def updateProposalCache_def)

interpretation warned_cell: cache_cell "proposalExpiryWarningSentCacheKey i" "hasWarnedOfExpiry i"
  "\<lambda>(_ :: unit). setProposalExpiryWarningSent i" "\<lambda>_. True" for i
  by unfold_locales (auto simp: hasWarnedOfExpiry_def setProposalExpiryWarningSent_def)

text \<open>What a write of one cell leaves in the others.\<close>

lemma cache_frames [simp]:
  "getAuctionCache (updateBidCache b r) = getAuctionCache r"
  "getAuctionCache (updateAuctionReplyTweetId t r) = getAuctionCache r"
  "getAuctionCache (updateAuctionEndingSoonCache a r) = getAuctionCache r"
  "getBidCache (updateAuctionCache a r) = getBidCache r"
  "getBidCache (updateAuctionReplyTweetId t r) = getBidCache r"
  "getBidCache (updateAuctionEndingSoonCache a r) = getBidCache r"
  "getAuctionEndingSoonCache (updateAuctionCache a r) = getAuctionEndingSoonCache r"
  "getAuctionEndingSoonCache (updateBidCache b r) = getAuctionEndingSoonCache r"
  "getAuctionEndingSoonCache (updateAuctionReplyTweetId t r) = getAuctionEndingSoonCache r"
  "getProposalCache i (setProposalExpiryWarningSent j r) = getProposalCache i r"
  "hasWarnedOfExpiry i (updateProposalCache p r) = hasWarnedOfExpiry i r"
  "bp_id p \<noteq> i \<Longrightarrow> getProposalCache i (updateProposalCache p r) = getProposalCache i r"
  "j \<noteq> i \<Longrightarrow> hasWarnedOfExpiry i (setProposalExpiryWarningSent j r) = hasWarnedOfExpiry i r"
  using keys_distinct [of i j] keys_distinct [of i i] keys_distinct [of "bp_id p" i]
  by (auto intro!: auction_cell.get_frame bid_cell.get_frame soon_cell.get_frame proposal_cell.get_frame
      warned_cell.get_frame simp: updateBidCache_def updateAuctionReplyTweetId_def updateAuctionEndingSoonCache_def
      updateAuctionCache_def setProposalExpiryWarningSent_def updateProposalCache_def)

lemmas cache_reads = auction_cell.get_put bid_cell.get_put soon_cell.get_put reply_cell.get_put

declare cache_reads [simp]

lemma own_proposal [simp]: "getProposalCache (bp_id p) (updateProposalCache p r) = Inr (Some p)"
  by (simp add: getProposalCache_def updateProposalCache_def)

lemma own_warning [simp]: "hasWarnedOfExpiry i (setProposalExpiryWarningSent i r)"
  by (simp add: hasWarnedOfExpiry_def setProposalExpiryWarningSent_def)

end
