(* ===== verification/Web_Cards.thy ===== *)
theory Web_Cards
  imports Web_Queries Bots_Cache
begin

text \<open>
  The components of \<open>punks-webapp/src\<close> that read the answers of the subgraph as they come: the hover
  cards of votes, proposals and punks, the lines about a punk, the seeds behind its picture
  (\<open>wrappers/nToken.ts\<close>), and the rows of a punk's profile. A component is a function from the answers
  of its queries to what it shows; an exception of the component is an exception of the function.
\<close>

section \<open>What a card shows\<close>

datatype 'a shown = Nothing | Spinner | Message string | Shown 'a

section \<open>The hover card of a proposer\<close>

record by_line_card =
  bl_tokenIds :: "js list"
  bl_address :: js
  bl_label :: string
  bl_ids :: "int option list"
  bl_more :: "nat option"

definition MAX_NOUN_IDS_SHOWN :: nat where
  "MAX_NOUN_IDS_SHOWN = 12"

text \<open>\<open>parseInt\<close> of a value that is not a string goes through its text, which is not a number here.\<close>

fun js_parseInt :: "js \<Rightarrow> int option" where
  "js_parseInt (JStr s) = parseInt 10 s"
| "js_parseInt (JNum n) = Some n"
| "js_parseInt _ = None"

text \<open>\<open>sort\<close> by the difference; with \<open>NaN\<close> among the numbers the order is up to the engine, a parameter.\<close>

definition sort_ids :: "(int option list \<Rightarrow> int option list) \<Rightarrow> int option list \<Rightarrow> int option list" where
  "sort_ids engine xs = (if None \<in> set xs then engine xs else map Some (sort (map the xs)))"

definition no_delegates :: "js \<Rightarrow> bool result" where
  "no_delegates data =
     rbind (get_prop data ''delegates'') (\<lambda>ds. rbind (get_prop ds ''length'') (\<lambda>n. Inr (n = JNum 0)))"

definition ByLineHoverCard :: "(int option list \<Rightarrow> int option list) \<Rightarrow> js query \<Rightarrow> by_line_card shown result" where
  "ByLineHoverCard engine q =
     rbind (if q_loading q then Inr True else if js_truthy (data_of q) then no_delegates (data_of q) else Inr False) (\<lambda>wait.
       if wait then Inr Spinner
       else if q_error q then Inr (Message ''Error fetching Vote info'')
       else rbind (get_prop (data_of q) ''delegates'') (\<lambda>ds. rbind (element ds 0) (\<lambda>d.
         rbind (get_prop d ''nRepresented'') (\<lambda>represented.
           rbind (js_map (\<lambda>noun. rbind (get_prop noun ''id'') (\<lambda>i. Inr (js_parseInt i))) represented) (\<lambda>ids.
             rbind (js_map (\<lambda>token. get_prop token ''id'') represented) (\<lambda>tokenIds.
               rbind (get_prop d ''id'') (\<lambda>address.
                 let sortedTokenIds = sort_ids engine ids
                 in Inr (Shown \<lparr>bl_tokenIds = tokenIds, bl_address = address,
                      bl_label = (if length sortedTokenIds = 1 then ''Delegated DAOpunk: '' else ''Delegated DAOpunks: ''),
                      bl_ids = take MAX_NOUN_IDS_SHOWN sortedTokenIds,
                      bl_more = (if length sortedTokenIds > MAX_NOUN_IDS_SHOWN
                                 then Some (length sortedTokenIds - MAX_NOUN_IDS_SHOWN) else None)\<rparr>))))))))"

section \<open>The hover card of a voter\<close>

definition unwrappedDelegateId :: "string \<Rightarrow> string" where
  "unwrappedDelegateId delegateId =
     (case index_of ''delegate-'' delegateId of
        None \<Rightarrow> delegateId
      | Some n \<Rightarrow> take n delegateId @ drop (n + 9) delegateId)"

record voter_card =
  vcd_tokenIds :: "js list"
  vcd_address :: js
  vcd_text :: string

definition DelegateHoverCard :: "js query \<Rightarrow> voter_card shown result" where
  "DelegateHoverCard q =
     rbind (if q_loading q \<or> \<not> js_truthy (data_of q) then Inr True else no_delegates (data_of q)) (\<lambda>wait.
       if wait then Inr Spinner
       else if q_error q then Inr (Message ''Error fetching Vote info'')
       else rbind (get_prop (data_of q) ''delegates'') (\<lambda>ds. rbind (element ds 0) (\<lambda>d.
         rbind (get_prop d ''nRepresented'') (\<lambda>represented.
           rbind (js_map (\<lambda>noun. get_prop noun ''id'') represented) (\<lambda>tokenIds.
             rbind (get_prop d ''id'') (\<lambda>address.
               Inr (Shown \<lparr>vcd_tokenIds = tokenIds, vcd_address = address,
                 vcd_text = ''Voted with'' @ dec (length tokenIds) @
                   (if length tokenIds = 1 then ''DAOpunk'' else ''DAOpunks'')\<rparr>)))))))"

section \<open>The holder, the winner and the birthday of a punk\<close>

text \<open>The text of the line: a fixed name for the founders' punks, else the address.\<close>

definition Holder :: "bool \<Rightarrow> js query \<Rightarrow> js shown result" where
  "Holder isNounders q =
     (if q_loading q then Inr Nothing
      else if q_error q then Inr (Message ''Failed to fetch DAOpunk info'')
      else rbind (if data_of q = JUndef then Inr JUndef
                  else rbind (get_prop (data_of q) ''punk'') (\<lambda>punk.
                         rbind (get_prop punk ''owner'') (\<lambda>owner. get_prop owner ''id''))) (\<lambda>holder.
        Inr (Shown (if isNounders then JStr ''punkers.eth'' else holder))))"

text \<open>\<open>data?.auction.bidder?.id\<close> is read before anything else.\<close>

definition PunkInfoRowHolder :: "string \<Rightarrow> js query \<Rightarrow> js shown result" where
  "PunkInfoRowHolder auctionHouse q =
     rbind (if data_of q = JUndef then Inr JUndef
            else rbind (get_prop (data_of q) ''auction'') (\<lambda>auction.
                   rbind (get_prop auction ''bidder'') (\<lambda>bidder. optional_get bidder ''id''))) (\<lambda>winner.
       if q_loading q then Inr (Message ''Loading...'')
       else if \<not> js_truthy winner then Inr (Message ''No bids yet'')
       else if q_error q then Inr (Message ''Failed to fetch DAOpunk info'')
       else Inr (Shown (case winner of
              JStr w \<Rightarrow> if toLowerCase w = toLowerCase auctionHouse then JStr ''DAOpunks Auction House'' else winner
            | _ \<Rightarrow> winner)))"

text \<open>The token id and the start time in the store are serialized big numbers, which are objects, so
  that the alternatives for a value that is not truthy are only taken where there is no auction.\<close>

definition getNounBirthday :: "int \<Rightarrow> AuctionState list \<Rightarrow> int" where
  "getNounBirthday tokenId pastAuctions =
     (case find (\<lambda>a. case as_activeAuction a of None \<Rightarrow> False | Some x \<Rightarrow> wa_tokenId x = tokenId) pastAuctions of
        None \<Rightarrow> 0
      | Some a \<Rightarrow> (case as_activeAuction a of None \<Rightarrow> 0 | Some x \<Rightarrow> wa_startTime x))"

definition tokenIdForQuery :: "int \<Rightarrow> int" where
  "tokenIdForQuery tokenId = (if isNounderNoun tokenId then tokenId + 1 else tokenId)"

text \<open>The date in milliseconds. \<open>!startTime\<close> is false of every big number.\<close>

definition NounInfoRowBirthday :: "int \<Rightarrow> AuctionState list \<Rightarrow> int shown" where
  "NounInfoRowBirthday tokenId pastAuctions =
     (if pastAuctions = [] then Nothing
      else Shown (getNounBirthday (tokenIdForQuery tokenId) pastAuctions * 1000))"

record punk_card =
  pc_tokenId :: string
  pc_birthday :: int
  pc_holder :: js

definition NounHoverCard :: "string \<Rightarrow> AuctionState list \<Rightarrow> js query \<Rightarrow> punk_card shown result" where
  "NounHoverCard tokenId pastAuctions q =
     (if pastAuctions = [] then Inr Nothing
      else if q_loading q \<or> \<not> js_truthy (data_of q) \<or> tokenId = [] then Inr Spinner
      else case parseInt 10 tokenId of
             None \<Rightarrow> Inl (ErrorMsg ''invalid BigNumber string'')
           | Some n \<Rightarrow>
               if q_error q then Inr (Message ''Failed to fetch'')
               else rbind (get_prop (data_of q) ''punk'') (\<lambda>punk. rbind (get_prop punk ''owner'') (\<lambda>owner.
                 rbind (get_prop owner ''id'') (\<lambda>holder.
                   Inr (Shown \<lparr>pc_tokenId = tokenId,
                     pc_birthday = getNounBirthday (tokenIdForQuery n) pastAuctions * 1000, pc_holder = holder\<rparr>)))))"

section \<open>Rows of pictures\<close>

text \<open>A picture and its distance from the left; the later ones are drawn first.\<close>

definition HorizontalStackedTokens :: "string list \<Rightarrow> (string \<times> nat) list" where
  "HorizontalStackedTokens tokenIds = rev (map (\<lambda>(i, t). (t, 25 * i)) (enumerate 0 (take 6 tokenIds)))"

definition MAX_TOKENS_PER_STACK :: nat where
  "MAX_TOKENS_PER_STACK = 3"

text \<open>Token, centre of the circle and corner of the picture.\<close>

definition TightStackedCircleToken :: "'a \<Rightarrow> nat \<Rightarrow> int \<Rightarrow> int \<Rightarrow> 'a \<times> (int \<times> int) \<times> int \<times> int" where
  "TightStackedCircleToken tokenId i square shift =
     (tokenId, (28 + int i * shift, square - 21 - int i * shift), 8 + int i * shift, 14 - int i * shift)"

definition TightStackedCircleTokens :: "'a list \<Rightarrow> ('a \<times> (int \<times> int) \<times> int \<times> int) list" where
  "TightStackedCircleTokens tokenIds =
     rev (map (\<lambda>(i, t). TightStackedCircleToken t i 55 3) (enumerate 0 (take MAX_TOKENS_PER_STACK tokenIds)))"

text \<open>The dots (\<open>True\<close> for the current page) and which arrows are disabled.\<close>

definition VoteCardPager :: "bool \<Rightarrow> bool \<Rightarrow> nat \<Rightarrow> nat \<Rightarrow> bool list \<times> bool \<times> bool" where
  "VoteCardPager isLeftArrowDisabled isRightArrowDisabled pages currentPage =
     (map (\<lambda>n. n = currentPage) [0..<pages], isLeftArrowDisabled \<or> pages = 1, isRightArrowDisabled \<or> pages = 1)"

text \<open>The last punks; \<open>None\<close> is a placeholder. \<open>latest\<close> is a number, of which 0 is not truthy.\<close>

definition history_tokenIds :: "nat \<Rightarrow> nat \<Rightarrow> nat option list" where
  "history_tokenIds historyCount latestTokenId =
     (if latestTokenId = 0 then []
      else map (\<lambda>i. if i < latestTokenId
                    then Some ((if latestTokenId < historyCount then 0 else latestTokenId - historyCount) + i) else None)
             [0..<historyCount])"

section \<open>Rows of a profile\<close>

datatype vote_icon = PendingVote | AbsentVote | YesVote | AbstainVote | NoVote

definition not_over :: "Proposal \<Rightarrow> bool" where
  "not_over p \<longleftrightarrow> po_status p = S_PENDING \<or> po_status p = S_ACTIVE"

definition selectIconForNounVoteActivityRow :: "Proposal \<Rightarrow> TokenVoteHistory option \<Rightarrow> vote_icon" where
  "selectIconForNounVoteActivityRow p vote =
     (case vote of
        None \<Rightarrow> if not_over p then PendingVote else AbsentVote
      | Some v \<Rightarrow> if vh_supportDetailed v \<noteq> 0
                  then if vh_supportDetailed v = 1 then YesVote else AbstainVote
                  else NoVote)"

definition selectVotingInfoText :: "Proposal \<Rightarrow> TokenVoteHistory option \<Rightarrow> string" where
  "selectVotingInfoText p vote =
     (case vote of
        None \<Rightarrow> if not_over p then ''Waiting for'' else ''Absent for''
      | Some v \<Rightarrow> if vh_supportDetailed v \<noteq> 0
                  then if vh_supportDetailed v = 1 then ''Voted for'' else ''Abstained on''
                  else ''Voted against'')"

definition selectProposalStatus :: "Proposal \<Rightarrow> string" where
  "selectProposalStatus p =
     (if po_status p \<in> {S_SUCCEEDED, S_EXECUTED, S_QUEUED} then ''success''
      else if po_status p \<in> {S_DEFEATED, S_VETOED} then ''failure'' else ''pending'')"

fun selectProposalText :: "ProposalState \<Rightarrow> string" where
  "selectProposalText S_PENDING = ''Pending''"
| "selectProposalText S_ACTIVE = ''Active''"
| "selectProposalText S_SUCCEEDED = ''Succeeded''"
| "selectProposalText S_EXECUTED = ''Executed''"
| "selectProposalText S_DEFEATED = ''Defeated''"
| "selectProposalText S_QUEUED = ''Queued''"
| "selectProposalText S_CANCELLED = ''Canceled''"
| "selectProposalText S_VETOED = ''Vetoed''"
| "selectProposalText S_EXPIRED = ''Expired''"
| "selectProposalText UNDETERMINED = ''Undetermined''"

text \<open>A row: icon, text, title, the voter when there is one, the pill, and where a click leads.\<close>

definition PunkProfileVoteRow ::
  "Proposal \<Rightarrow> TokenVoteHistory option \<Rightarrow> vote_icon \<times> string \<times> string option \<times> (string \<times> string) \<times> string" where
  "PunkProfileVoteRow p vote =
     (selectIconForNounVoteActivityRow p vote, selectVotingInfoText p vote,
      (case vote of None \<Rightarrow> None | Some v \<Rightarrow> Some (vh_voter v)),
      (selectProposalStatus p, selectProposalText (po_status p)),
      (case po_id p of Some i \<Rightarrow> if i \<noteq> [] then ''/vote/'' @ i else ''/vote'' | None \<Rightarrow> ''/vote''))"

section \<open>The seeds of the pictures\<close>

text \<open>\<open>Number(v)\<close> of the values of the answers.\<close>

fun js_Number :: "js \<Rightarrow> num" where
  "js_Number (JStr s) = Number (Some s)"
| "js_Number (JNum n) = Some n"
| "js_Number JNull = Some 0"
| "js_Number _ = None"

record ISeed =
  is_punkType :: num
  is_skinTone :: num
  is_accessories :: "(num \<times> num) list"

definition seed_of_answer :: "js \<Rightarrow> ISeed result" where
  "seed_of_answer seed =
     rbind (get_prop seed ''punkType'') (\<lambda>punkType. rbind (get_prop seed ''skinTone'') (\<lambda>skinTone.
       rbind (get_prop seed ''accessory_ids'') (\<lambda>ids. rbind (get_prop seed ''accessory_types'') (\<lambda>types.
         rbind (get_prop ids ''length'') (\<lambda>n.
           let len = (case n of JNum k \<Rightarrow> nat k | _ \<Rightarrow> 0)
           in rbind (rmap_list (\<lambda>i. rbind (element types i) (\<lambda>t. rbind (element ids i) (\<lambda>a.
                  Inr (js_Number t, js_Number a)))) [0..<len]) (\<lambda>accessories.
                Inr \<lparr>is_punkType = js_Number punkType, is_skinTone = js_Number skinTone,
                     is_accessories = accessories\<rparr>))))))"

text \<open>The keys of the object are texts; the id of a seed is one.\<close>

definition js_key :: "js \<Rightarrow> string" where
  "js_key v = (case v of JStr s \<Rightarrow> s | _ \<Rightarrow> ''undefined'')"

definition seedArrayToObject :: "js \<Rightarrow> (string, ISeed) omap result" where
  "seedArrayToObject seeds =
     rbind (js_map (\<lambda>seed. rbind (seed_of_answer seed) (\<lambda>v. rbind (get_prop seed ''id'') (\<lambda>i. Inr (js_key i, v)))) seeds)
       (\<lambda>kvs. Inr (foldl (\<lambda>acc (k, v). omap_set k v acc) [] kvs))"

text \<open>An entry of the stored cache: a seed as \<open>seedArrayToObject\<close> makes it, or the object written after
  an answer of the contract, whose second key is misspelt. The cell of the storage is \<open>None\<close> when the
  key is not there.\<close>

datatype cached_seed = Cached ISeed | Misspelt ISeed

type_synonym seed_cache = "(string, cached_seed) omap option"

definition useNSeeds :: "js query \<Rightarrow> seed_cache \<Rightarrow> (js \<times> seed_cache) result" where
  "useNSeeds q cache =
     rbind (optional_get (data_of q) ''seeds'') (\<lambda>seeds.
       rbind (optional_get seeds ''length'') (\<lambda>n.
         if cache = None \<and> js_truthy n
         then rbind (seedArrayToObject seeds) (\<lambda>kvs. Inr (data_of q, Some (map (\<lambda>(k, v). (k, Cached v)) kvs)))
         else Inr (data_of q, cache)))"

text \<open>A call of the contract: \<open>None\<close> while there is no answer. The result is the seed that is used.\<close>

datatype seed_source = From_answer js | From_contract ISeed

definition seed_request :: "js query \<Rightarrow> nat \<Rightarrow> bool result" where
  "seed_request q punkId = rbind (optional_get (data_of q) (dec punkId)) (\<lambda>seed. Inr (\<not> js_truthy seed))"

definition useNSeed :: "js query \<Rightarrow> ISeed option \<Rightarrow> nat \<Rightarrow> seed_cache \<Rightarrow> (seed_source \<times> seed_cache) result" where
  "useNSeed q response punkId cache =
     rbind (useNSeeds q cache) (\<lambda>(seeds, cache1).
       rbind (optional_get seeds (dec punkId)) (\<lambda>seed.
         case response of
           None \<Rightarrow> Inr (From_answer seed, cache1)
         | Some r \<Rightarrow> Inr (From_contract r, map_option (omap_set (dec punkId) (Misspelt r)) cache1)))"

section \<open>The voters of a proposal, as the page gets them\<close>

text \<open>\<open>curr?.nRepresented?.map(nr => nr.id) ?? []\<close>: \<open>None\<close> is the alternative.\<close>

definition delegate_row_of :: "js \<Rightarrow> delegate_row result" where
  "delegate_row_of d =
     rbind (optional_get d ''nRepresented'') (\<lambda>represented.
       rbind (if represented = JUndef \<or> represented = JNull then Inr None
              else rbind (js_map (\<lambda>nr. get_prop nr ''id'') represented) (\<lambda>ids. Inr (Some (map js_key ids)))) (\<lambda>ids.
         rbind (get_prop d ''id'') (\<lambda>i. Inr \<lparr>dg_id = js_key i, dg_nRepresented = ids\<rparr>)))"

definition delegateSnapshot :: "js query \<Rightarrow> delegate_row list option result" where
  "delegateSnapshot q =
     (if data_of q = JUndef then Inr None
      else rbind (get_prop (data_of q) ''delegates'') (\<lambda>ds.
        if ds = JUndef \<or> ds = JNull then Inr None
        else rbind (js_map delegate_row_of ds) (\<lambda>rows. Inr (Some rows))))"

definition voter_of :: "js \<Rightarrow> voter_row result" where
  "voter_of v = rbind (get_prop v ''voter'') (\<lambda>voter. rbind (get_prop voter ''id'') (\<lambda>i.
     rbind (get_prop v ''supportDetailed'') (\<lambda>s.
       Inr \<lparr>vr_voter = js_key i, vr_support = (case s of JNum n \<Rightarrow> of_int n | _ \<Rightarrow> - 1)\<rparr>)))"

section \<open>What the answers make of the cards\<close>

lemma possible_data:
  assumes "possible_answer root doc q"
  obtains "q_data q = None" "data_of q = JUndef" "q_loading q \<or> q_error q"
  | v where "q_data q = Some v" "data_of q = v" "\<not> q_loading q" "\<not> q_error q" "object_conforms root Query_root doc v"
      "fits_schema root doc"
  using assms by (auto simp: possible_answer_def data_of_def split: if_splits)

lemma no_fit_no_data:
  assumes "possible_answer root doc q" and "\<not> fits_schema root doc"
  shows "q_data q = None" "data_of q = JUndef"
  using assms possible_data by metis+

text \<open>The list of the entities of a root field.\<close>

lemma root_list:
  assumes "server_roots root" and "map_of root n = Some (Many e False)"
    and "object_conforms root Query_root [Field n as subs] v"
  obtains vs where "get_prop v n = Inr (JArr vs)" "list_all (object_conforms root e subs) vs"
proof -
  from object_prop [OF assms(3), of "Field n as subs"] obtain w where
    w: "get_prop v n = Inr w" "conforms root Query_root (Field n as subs) w" by auto
  have "map_of (fields_of root Query_root) n = Some (Many e False)" using assms(2) by (simp add: fields_of_def)
  from w(2) [unfolded conforms_cases(4) [OF this]] w(1) show thesis by (auto intro: that)
qed

lemma root_single:
  assumes "server_roots root" and "map_of root n = Some (One e True)"
    and "object_conforms root Query_root [Field n as subs] v"
  obtains "get_prop v n = Inr JNull" | w where "get_prop v n = Inr w" "object_conforms root e subs w"
proof -
  from object_prop [OF assms(3), of "Field n as subs"] obtain w where
    w: "get_prop v n = Inr w" "conforms root Query_root (Field n as subs) w" by auto
  have "map_of (fields_of root Query_root) n = Some (One e True)" using assms(2) by (simp add: fields_of_def)
  from w(2) [unfolded conforms_cases(3) [OF this]] w(1) show thesis by (auto intro: that)
qed

lemma at_block_never_fits:
  assumes "server_roots root"
  shows "\<not> fits_schema root (delegateTokensAtBlockQuery ds b)"
  by (simp add: fits_schema_def fields_of_simps root_lookup [OF assms] delegateTokensAtBlockQuery_def)

lemma delegates_answer:
  assumes "server_roots root" and "object_conforms root Query_root (currentlyDelegatedTokens a) v"
  obtains ds where "get_prop v ''delegates'' = Inr (JArr ds)"
    "\<And>d. d \<in> set ds \<Longrightarrow> get_prop d ''nRepresented'' = Inr JUndef"
proof -
  from assms(2) obtain ds where ds: "get_prop v ''delegates'' = Inr (JArr ds)"
    "list_all (object_conforms root Delegate_t [leaf ''id'', sub ''punksRepresented'' [''id'']]) ds"
    unfolding currentlyDelegatedTokens_def by (rule root_list [OF assms(1) root_lookup(10) [OF assms(1)]])
  have "get_prop d ''nRepresented'' = Inr JUndef" if "d \<in> set ds" for d
    by (rule object_no_prop) (use ds(2) that in \<open>auto simp: list_all_iff\<close>)
  with ds(1) show thesis by (rule that)
qed

text \<open>C26. The punks behind a vote are never shown. Whatever the server answers: the page of a proposal
  gets no delegates for its voters, so that no card of votes has a picture of a punk; the card of a
  voter shows the spinner for ever; and the card of a proposer, when the answer names the proposer,
  throws, because it reads \<open>nRepresented\<close> where the query asks for \<open>punksRepresented\<close>.\<close>

theorem voters_without_punks:
  assumes "server_roots root" and "possible_answer root (delegateTokensAtBlockQuery ds b) q"
    and "possible_answer root (currentlyDelegatedTokens a) p"
  shows "delegateSnapshot q = Inr None \<and> getTokensVotes (vote_rows voters None) k = [] \<and> DelegateHoverCard q = Inr Spinner \<and>
    ByLineHoverCard engine p =
      (if q_error p then Inr (Message ''Error fetching Vote info'')
       else if q_loading p \<or> no_delegates (data_of p) = Inr True then Inr Spinner else Inl TypeError)"
proof (intro conjI)
  note none = no_fit_no_data [OF assms(2) at_block_never_fits [OF assms(1)]]
  show "delegateSnapshot q = Inr None" "DelegateHoverCard q = Inr Spinner"
    by (simp_all add: delegateSnapshot_def DelegateHoverCard_def none)
  show "getTokensVotes (vote_rows voters None) k = []"
    by (induction voters) (simp_all add: getTokensVotes_def vote_rows_def)
  from assms(3) show "ByLineHoverCard engine p =
      (if q_error p then Inr (Message ''Error fetching Vote info'')
       else if q_loading p \<or> no_delegates (data_of p) = Inr True then Inr Spinner else Inl TypeError)"
  proof (cases rule: possible_data)
    case 1
    with assms(3) show ?thesis by (auto simp: ByLineHoverCard_def possible_answer_def split: if_splits)
  next
    case (2 v)
    from delegates_answer [OF assms(1) 2(5)] obtain es where es: "get_prop v ''delegates'' = Inr (JArr es)"
      "\<And>d. d \<in> set es \<Longrightarrow> get_prop d ''nRepresented'' = Inr JUndef" by blast
    have "js_truthy v" using es(1) by (cases v) (auto split: if_splits)
    with 2 es show ?thesis by (cases es) (simp_all add: ByLineHoverCard_def no_delegates_def)
  qed
qed

theorem voters_without_punks_witness:
  "ByLineHoverCard id \<lparr>q_loading = False, q_error = False, q_data = Some (JObj [(''delegates'',
     JArr [JObj [(''id'', JStr ''0xa''), (''punksRepresented'', JArr [JObj [(''id'', JStr ''7'')]])]])])\<rparr> = Inl TypeError"
proof -
  let ?v = "JObj [(''delegates'', JArr [JObj [(''id'', JStr ''0xa''), (''punksRepresented'', JArr [JObj [(''id'', JStr ''7'')]])]])]"
  have fits: "fits_schema demo_root (currentlyDelegatedTokens ''0xa'')"
    by (simp add: fits_schema_def fields_of_simps root_lookup [OF demo_root] currentlyDelegatedTokens_def filter_fits_def)
  have "object_conforms demo_root Query_root (currentlyDelegatedTokens ''0xa'') ?v"
    by (simp add: currentlyDelegatedTokens_def object_conforms_def has_keys_def conforms_Field fields_of_simps
        root_lookup [OF demo_root])
  with fits have "possible_answer demo_root (currentlyDelegatedTokens ''0xa'') \<lparr>q_loading = False, q_error = False, q_data = Some ?v\<rparr>"
    by (simp add: possible_answer_def)
  from voters_without_punks [OF demo_root _ this, of "[]" 1 "\<lparr>q_loading = True, q_error = False, q_data = None\<rparr>" "[]" 1 id]
  show ?thesis by (simp add: possible_answer_def no_delegates_def data_of_def)
qed

section \<open>The holder of a punk\<close>

text \<open>A loaded answer to \<open>nQuery\<close> that tells of a punk what the store says.\<close>

definition tells_punk :: "store \<Rightarrow> string \<Rightarrow> js query \<Rightarrow> bool" where
  "tells_punk s i q \<longleftrightarrow> \<not> q_loading q \<and> \<not> q_error q \<and> (\<exists>d. q_data q = Some d \<and>
     (case st_punks s i of
        None \<Rightarrow> get_prop d ''punk'' = Inr JNull
      | Some p \<Rightarrow> \<exists>w a. get_prop d ''punk'' = Inr w \<and> get_prop w ''owner'' = Inr a \<and> get_prop a ''id'' = Inr (JStr (pk_owner p))))"

lemma tells_truthy: "tells_punk s i q \<Longrightarrow> js_truthy (data_of q)"
  by (cases "data_of q") (auto simp: tells_punk_def data_of_def split: option.splits if_splits)

text \<open>The birthday of a punk is the start of its auction, of the next punk's for a punk that is minted
  for the founders, and the beginning of 1970 when that auction is not among the past ones.\<close>

lemma birthday_of_auction:
  assumes "AuctionState.make (Some x) bids \<in> set auctions" and "wa_tokenId x = tokenIdForQuery t"
    and "\<And>a y. a \<in> set auctions \<Longrightarrow> as_activeAuction a = Some y \<Longrightarrow> wa_tokenId y = wa_tokenId x \<Longrightarrow> wa_startTime y = wa_startTime x"
  shows "getNounBirthday (tokenIdForQuery t) auctions = wa_startTime x"
proof -
  let ?P = "\<lambda>a. case as_activeAuction a of None \<Rightarrow> False | Some y \<Rightarrow> wa_tokenId y = tokenIdForQuery t"
  have "?P (AuctionState.make (Some x) bids)" using assms(2) by (simp add: AuctionState.make_def)
  with assms(1) have "find ?P auctions \<noteq> None" unfolding find_None_iff by blast
  then obtain a where a: "find ?P auctions = Some a" by blast
  then have "a \<in> set auctions" "?P a" by (auto simp: find_Some_iff)
  then obtain y where "as_activeAuction a = Some y" "wa_tokenId y = wa_tokenId x"
    using assms(2) by (auto split: option.splits)
  with assms(3) [OF \<open>a \<in> set auctions\<close>] a show ?thesis by (simp add: getNounBirthday_def)
qed

lemma birthday_unknown:
  assumes "\<And>a y. a \<in> set auctions \<Longrightarrow> as_activeAuction a = Some y \<Longrightarrow> wa_tokenId y \<noteq> tokenIdForQuery t" and "auctions \<noteq> []"
  shows "NounInfoRowBirthday t auctions = Shown 0"
proof -
  have "find (\<lambda>a. case as_activeAuction a of None \<Rightarrow> False | Some y \<Rightarrow> wa_tokenId y = tokenIdForQuery t) auctions = None"
    using assms(1) by (auto simp: find_None_iff split: option.splits)
  with assms(2) show ?thesis by (simp add: NounInfoRowBirthday_def getNounBirthday_def)
qed

text \<open>C27. The holder that is shown is the owner on the chain: after every history of events, when the
  answer tells what the subgraph stores, the line and the hover card of a punk name the owner that the
  token contract has; for a punk that was never minted they throw.\<close>

theorem holder_is_owner:
  assumes "history L M s" and "tells_punk s (dec t) q"
  shows "Holder False q = (case L t of None \<Rightarrow> Inl TypeError | Some a \<Rightarrow> Inr (Shown (JStr a))) \<and>
    NounHoverCard (dec t) auctions q =
      (if auctions = [] then Inr Nothing
       else case L t of
              None \<Rightarrow> Inl TypeError
            | Some a \<Rightarrow> Inr (Shown \<lparr>pc_tokenId = dec t,
                pc_birthday = getNounBirthday (tokenIdForQuery (int t)) auctions * 1000, pc_holder = JStr a\<rparr>))"
proof -
  have owner: "L t = map_option pk_owner (st_punks s (dec t))"
    using history_consistent [OF assms(1)] by (simp add: consistent_def indexed_def)
  have "dec t \<noteq> []" using parseInt_dec [of t] by (auto simp: parseInt_def split_sign_def trim_left_def)
  with owner assms(2) tells_truthy [OF assms(2)] show ?thesis
    by (cases "st_punks s (dec t)") (auto simp: tells_punk_def Holder_def NounHoverCard_def data_of_def)
qed

theorem holder_is_owner_witness:
  "Holder False \<lparr>q_loading = False, q_error = False,
     q_data = Some (JObj [(''punk'', JObj [(''owner'', JObj [(''id'', JStr ''0xa'')])])])\<rparr> = Inr (Shown (JStr ''0xa''))"
proof -
  let ?s = "handleTransfer (demo_env ''0x1'') ZERO_ADDRESS ''0xa'' 1 empty_store"
  have h: "history (Map.empty(1 \<mapsto> ''0xa'')) Map.empty ?s"
    by (rule history_mint [OF history.start]) (simp_all add: ZERO_ADDRESS_def)
  then have "map_option pk_owner (st_punks ?s (dec 1)) = Some ''0xa''"
    using history_consistent [OF h] by (simp add: consistent_def indexed_def)
  then have "tells_punk ?s (dec 1) \<lparr>q_loading = False, q_error = False,
      q_data = Some (JObj [(''punk'', JObj [(''owner'', JObj [(''id'', JStr ''0xa'')])])])\<rparr>"
    by (auto simp: tells_punk_def)
  from holder_is_owner [OF h this, of "[]"] show ?thesis by simp
qed

text \<open>The line of the winner reads the auction before it looks at the error: a punk without an auction
  throws, and an answer that failed says that there are no bids.\<close>

lemma winner_line:
  assumes "server_roots root" and "possible_answer root (auctionQuery t) q"
  shows "q_error q \<Longrightarrow> PunkInfoRowHolder house q = Inr (Message ''No bids yet'')"
    "q_loading q \<Longrightarrow> PunkInfoRowHolder house q = Inr (Message ''Loading...'')"
    "get_prop (data_of q) ''auction'' = Inr JNull \<Longrightarrow> PunkInfoRowHolder house q = Inl TypeError"
  using assms(2)
  by (auto simp: PunkInfoRowHolder_def possible_answer_def data_of_def split: if_splits option.splits)

section \<open>The seeds\<close>

lemma conforming_seed:
  assumes "server_roots root"
    and "object_conforms root Seed_t (map leaf [''id'', ''punkType'', ''skinTone'', ''accessory_types'', ''accessory_ids'']) v"
  shows "\<exists>sd i. seed_of_answer v = Inr sd \<and> get_prop v ''id'' = Inr i"
proof -
  let ?subs = "map leaf [''id'', ''punkType'', ''skinTone'', ''accessory_types'', ''accessory_ids'']"
  have read: "\<exists>w. get_prop v n = Inr w \<and> conforms root Seed_t (leaf n) w"
    if "n \<in> {''id'', ''punkType'', ''skinTone'', ''accessory_types'', ''accessory_ids''}" for n
    using object_prop [OF assms(2), of "leaf n"] that by auto
  have list: "conforms root Seed_t (leaf n) w \<longleftrightarrow> (\<exists>vs. w = JArr vs \<and> list_all (scalar_value BigInt) vs)"
    if "n \<in> {''accessory_types'', ''accessory_ids''}" for n w
    using that by (auto simp: conforms_Field fields_of_simps split: js.split)
  from read [of "''accessory_ids''"] list obtain is' where ids: "get_prop v ''accessory_ids'' = Inr (JArr is')" by auto
  from read [of "''accessory_types''"] list obtain ts where types: "get_prop v ''accessory_types'' = Inr (JArr ts)" by auto
  from read [of "''id''"] read [of "''punkType''"] read [of "''skinTone''"] obtain i p k where
    "get_prop v ''id'' = Inr i" "get_prop v ''punkType'' = Inr p" "get_prop v ''skinTone'' = Inr k" by auto
  moreover have "rmap_list (\<lambda>i. rbind (element (JArr ts) i) (\<lambda>t. rbind (element (JArr is') i) (\<lambda>a.
      Inr (js_Number t, js_Number a)))) xs = Inr (map (\<lambda>i. (js_Number (if i < length ts then ts ! i else JUndef),
        js_Number (if i < length is' then is' ! i else JUndef))) xs)" for xs
    by (rule rmap_list_all_Inr) simp
  ultimately show ?thesis using ids types by (simp add: seed_of_answer_def Let_def)
qed

text \<open>The seeds of the subgraph are never used: the hook looks up the id of a punk in the answer itself,
  an object with the single key \<open>seeds\<close>, so that every punk costs a call of the contract, whatever the
  subgraph and the cache of the browser know. It never throws.\<close>

lemma subgraph_seeds_unused:
  assumes "server_roots root" and "possible_answer root (seedsQuery n) q"
  shows "seed_request q punkId = Inr True"
    "\<exists>cache'. useNSeed q response punkId cache =
       Inr (case response of None \<Rightarrow> From_answer JUndef | Some r \<Rightarrow> From_contract r, cache')"
proof -
  have id_get: "optional_get (data_of q) (dec punkId) = Inr JUndef"
    using assms(2)
  proof (cases rule: possible_data)
    case (2 v)
    obtain d cs where "dec punkId = digit_char d # cs" "d < 10" using dec_first by blast
    moreover from this(2) have "digit_char d \<noteq> CHR ''s'' \<and> digit_char d \<noteq> CHR ''_''"
      using nat_less_16_cases [of d] by (auto simp: digit_char_def)
    ultimately have "get_prop v (dec punkId) = Inr JUndef"
      by (intro object_no_prop [OF 2(5)]) (auto simp: seedsQuery_def)
    with 2 show ?thesis by (simp add: optional_get_def)
  qed (simp add: optional_get_def)
  then show "seed_request q punkId = Inr True" by (simp add: seed_request_def)
  have "\<exists>cache'. useNSeeds q cache = Inr (data_of q, cache')"
    using assms(2)
  proof (cases rule: possible_data)
    case (2 v)
    from 2(5) obtain ss where ss: "get_prop v ''seeds'' = Inr (JArr ss)"
      "list_all (object_conforms root Seed_t (map leaf [''id'', ''punkType'', ''skinTone'', ''accessory_types'', ''accessory_ids''])) ss"
      unfolding seedsQuery_def by (rule root_list [OF assms(1) root_lookup(3) [OF assms(1)]])
    have "\<exists>kvs. js_map (\<lambda>seed. rbind (seed_of_answer seed) (\<lambda>v. rbind (get_prop seed ''id'') (\<lambda>i. Inr (js_key i, v)))) (JArr ss) = Inr kvs"
      using ss(2)
    proof (induction ss)
      case (Cons x ss)
      then show ?case using conforming_seed [OF assms(1), of x] by fastforce
    qed simp
    then obtain kvs where "seedArrayToObject (JArr ss) = Inr kvs" by (auto simp: seedArrayToObject_def)
    moreover from ss(1) have "optional_get v ''seeds'' = Inr (JArr ss)" by (cases v) (auto simp: optional_get_def)
    ultimately show ?thesis using 2 by (simp add: useNSeeds_def optional_get_def)
  qed (simp add: useNSeeds_def optional_get_def)
  then show "\<exists>cache'. useNSeed q response punkId cache =
      Inr (case response of None \<Rightarrow> From_answer JUndef | Some r \<Rightarrow> From_contract r, cache')"
    by (cases response) (auto simp: useNSeed_def id_get)
qed

section \<open>Pictures\<close>

text \<open>The last punks of the collection: \<open>historyCount\<close> of them, ending before the latest, or all
  those before the latest and then placeholders.\<close>

lemma history_ends_before_latest:
  assumes "0 < latest"
  shows "history_tokenIds c latest =
    (if c \<le> latest then map Some [latest - c..<latest] else map Some [0..<latest] @ replicate (c - latest) None)"
  by (rule nth_equalityI) (use assms in \<open>auto simp: history_tokenIds_def nth_append\<close>)

end
