(* ===== verification/Web_Api.thy ===== *)
theory Web_Api
  imports Web_Cards
begin

text \<open>
  The two HTTP interfaces of the repository. The functions beside the web application
  (\<open>punks-webapp/functions\<close>) answer from one query of the subgraph: who owns or represents a punk, the
  seeds and votes of the punks, the votes by proposal, and whether a signature is valid. The metadata
  server (\<open>punks-api/src\<close>) answers from its cache or from the contract. A body is kept as the value that
  is turned into JSON. The query service, the signature library, Redis, the image converter and the
  upload service are parameters. The order of the keys of an object in a body is left open.
\<close>

section \<open>Normalized punks\<close>

record NormalizedVote =
  nv_proposalId :: num
  nv_supportDetailed :: num

record api_seed =
  ap_punkType :: num
  ap_skinTone :: num
  ap_accessories :: "(num \<times> num) list"

record NormalizedPunk =
  np_id :: num
  np_owner :: js
  np_delegatedTo :: js
  np_votes :: "NormalizedVote list"
  np_seed :: api_seed

definition normalizeVote :: "js \<Rightarrow> NormalizedVote result" where
  "normalizeVote vote =
     rbind (get_prop vote ''proposal'') (\<lambda>p. rbind (get_prop p ''id'') (\<lambda>i.
       rbind (get_prop vote ''supportDetailed'') (\<lambda>s.
         Inr \<lparr>nv_proposalId = js_Number i, nv_supportDetailed = js_Number s\<rparr>)))"

definition normalizeVotes :: "js \<Rightarrow> NormalizedVote list result" where
  "normalizeVotes = js_map normalizeVote"

text \<open>\<open>map\<close> with the index.\<close>

fun js_map_index :: "(js \<Rightarrow> nat \<Rightarrow> 'a result) \<Rightarrow> js \<Rightarrow> 'a list result" where
  "js_map_index f (JArr vs) = rmap_list (\<lambda>(i, v). f v i) (enumerate 0 vs)"
| "js_map_index f v = Inl TypeError"

definition normalizeSeed :: "js \<Rightarrow> api_seed result" where
  "normalizeSeed seed =
     rbind (get_prop seed ''punkType'') (\<lambda>punkType. rbind (get_prop seed ''skinTone'') (\<lambda>skinTone.
       rbind (get_prop seed ''accessory_types'') (\<lambda>types.
         rbind (js_map_index (\<lambda>accType index. rbind (get_prop seed ''accessory_ids'') (\<lambda>ids. rbind (element ids index) (\<lambda>a.
             Inr (js_Number accType, js_Number a)))) types) (\<lambda>accessories.
           Inr \<lparr>ap_punkType = js_Number punkType, ap_skinTone = js_Number skinTone, ap_accessories = accessories\<rparr>))))"

definition normalizePunk :: "js \<Rightarrow> NormalizedPunk result" where
  "normalizePunk punk =
     rbind (get_prop punk ''id'') (\<lambda>i. rbind (get_prop punk ''owner'') (\<lambda>owner. rbind (get_prop owner ''id'') (\<lambda>ownerId.
       rbind (get_prop owner ''delegate'') (\<lambda>delegate. rbind (optional_get delegate ''id'') (\<lambda>delegatedTo.
         rbind (get_prop punk ''votes'') (\<lambda>vs. rbind (normalizeVotes vs) (\<lambda>votes.
           rbind (get_prop punk ''seed'') (\<lambda>sd. rbind (normalizeSeed sd) (\<lambda>seed.
             Inr \<lparr>np_id = js_Number i, np_owner = ownerId, np_delegatedTo = delegatedTo, np_votes = votes, np_seed = seed\<rparr>)))))))))"

definition normalizePunks :: "js \<Rightarrow> NormalizedPunk list result" where
  "normalizePunks = js_map normalizePunk"

text \<open>The body of the answer of the service.\<close>

definition punksQuery :: "js \<Rightarrow> NormalizedPunk list result" where
  "punksQuery body = rbind (get_prop body ''data'') (\<lambda>d. rbind (get_prop d ''punks'') normalizePunks)"

section \<open>Owners and delegates\<close>

text \<open>\<open>BigNumber.from\<close>, a parameter for texts: \<open>None\<close> when it throws.\<close>

fun big_from :: "(string \<Rightarrow> int option) \<Rightarrow> js \<Rightarrow> int result" where
  "big_from big (JStr s) = of_option (ErrorMsg ''invalid BigNumber string'') (big s)"
| "big_from big (JNum n) = Inr n"
| "big_from big _ = Inl (ErrorMsg ''invalid BigNumber value'')"

definition bigNumbersEqual :: "(string \<Rightarrow> int option) \<Rightarrow> js \<Rightarrow> js \<Rightarrow> bool result" where
  "bigNumbersEqual big a b = rbind (big_from big a) (\<lambda>x. rbind (big_from big b) (\<lambda>y. Inr (x = y)))"

fun rfilter :: "('a \<Rightarrow> bool result) \<Rightarrow> 'a list \<Rightarrow> 'a list result" where
  "rfilter P [] = Inr []"
| "rfilter P (x # xs) = rbind (P x) (\<lambda>keep. rbind (rfilter P xs) (\<lambda>ys. Inr (if keep then x # ys else ys)))"

definition ownerFilterFactory :: "(string \<Rightarrow> int option) \<Rightarrow> js \<Rightarrow> NormalizedPunk list \<Rightarrow> NormalizedPunk list result" where
  "ownerFilterFactory big address = rfilter (\<lambda>punk. bigNumbersEqual big address (np_owner punk))"

definition isPunkOwner :: "(string \<Rightarrow> int option) \<Rightarrow> js \<Rightarrow> NormalizedPunk list \<Rightarrow> bool result" where
  "isPunkOwner big address punks = rbind (ownerFilterFactory big address punks) (\<lambda>ps. Inr (length ps > 0))"

definition delegateFilterFactory :: "(string \<Rightarrow> int option) \<Rightarrow> js \<Rightarrow> NormalizedPunk list \<Rightarrow> NormalizedPunk list result" where
  "delegateFilterFactory big address =
     rfilter (\<lambda>punk. if js_truthy (np_delegatedTo punk) then bigNumbersEqual big address (np_delegatedTo punk) else Inr False)"

definition isPunkDelegate :: "(string \<Rightarrow> int option) \<Rightarrow> js \<Rightarrow> NormalizedPunk list \<Rightarrow> bool result" where
  "isPunkDelegate big address punks = rbind (delegateFilterFactory big address punks) (\<lambda>ps. Inr (length ps > 0))"

section \<open>The functions\<close>

text \<open>A response: status and body. The body of a request may be missing. An exception of a handler is an
  error of the platform.\<close>

definition is_noun_owner :: "(string \<Rightarrow> int option) \<Rightarrow> js \<Rightarrow> js \<Rightarrow> (nat \<times> bool) result" where
  "is_noun_owner big body event_body =
     rbind (punksQuery body) (\<lambda>punks. rbind (isPunkOwner big event_body punks) (\<lambda>b. Inr (200, b)))"

definition is_noun_delegate :: "(string \<Rightarrow> int option) \<Rightarrow> js \<Rightarrow> js \<Rightarrow> (nat \<times> bool) result" where
  "is_noun_delegate big body event_body =
     rbind (punksQuery body) (\<lambda>punks. rbind (isPunkDelegate big event_body punks) (\<lambda>b. Inr (200, b)))"

record LitePunk =
  lp_id :: num
  lp_owner :: js
  lp_delegatedTo :: js

definition lightenPunk :: "NormalizedPunk \<Rightarrow> LitePunk" where
  "lightenPunk p = \<lparr>lp_id = np_id p, lp_owner = np_owner p, lp_delegatedTo = np_delegatedTo p\<rparr>"

definition noun_owners :: "js \<Rightarrow> (nat \<times> LitePunk list) result" where
  "noun_owners body = rbind (punksQuery body) (\<lambda>punks. Inr (200, map lightenPunk punks))"

record SeededPunk =
  sp_id :: num
  sp_seed :: api_seed

definition buildSeededPunk :: "NormalizedPunk \<Rightarrow> SeededPunk" where
  "buildSeededPunk p = \<lparr>sp_id = np_id p, sp_seed = np_seed p\<rparr>"

definition noun_seeds :: "js \<Rightarrow> (nat \<times> SeededPunk list) result" where
  "noun_seeds body = rbind (punksQuery body) (\<lambda>punks. Inr (200, map buildSeededPunk punks))"

record PunkVote = LitePunk +
  lp_votes :: "NormalizedVote list"

definition buildPunkVote :: "NormalizedPunk \<Rightarrow> PunkVote" where
  "buildPunkVote p =
     \<lparr>lp_id = np_id p, lp_owner = np_owner p, lp_delegatedTo = np_delegatedTo p, lp_votes = np_votes p\<rparr>"

definition noun_votes :: "js \<Rightarrow> (nat \<times> PunkVote list) result" where
  "noun_votes body = rbind (punksQuery body) (\<lambda>punks. Inr (200, map buildPunkVote punks))"

record ProposalVote =
  pv_tokenId :: num
  pv_owner :: js
  pv_delegatedTo :: js
  pv_supportDetailed :: num

definition builtProposalVote :: "NormalizedPunk \<Rightarrow> NormalizedVote \<Rightarrow> ProposalVote" where
  "builtProposalVote punk vote =
     \<lparr>pv_tokenId = np_id punk, pv_owner = np_owner punk, pv_delegatedTo = np_delegatedTo punk,
      pv_supportDetailed = nv_supportDetailed vote\<rparr>"

definition add_proposal_vote :: "NormalizedPunk \<Rightarrow> (num, ProposalVote list) omap \<Rightarrow> NormalizedVote \<Rightarrow> (num, ProposalVote list) omap" where
  "add_proposal_vote punk acc vote =
     omap_set (nv_proposalId vote)
       ((case map_of acc (nv_proposalId vote) of None \<Rightarrow> [] | Some vs \<Rightarrow> vs) @ [builtProposalVote punk vote]) acc"

definition reduceProposalVotes :: "NormalizedPunk list \<Rightarrow> (num, ProposalVote list) omap" where
  "reduceProposalVotes punks = foldl (\<lambda>acc punk. foldl (add_proposal_vote punk) acc (np_votes punk)) [] punks"

definition proposal_votes :: "js \<Rightarrow> (nat \<times> (num, ProposalVote list) omap) result" where
  "proposal_votes body = rbind (punksQuery body) (\<lambda>punks. Inr (200, reduceProposalVotes punks))"

text \<open>\<open>has('msg')\<close> with one argument is a function, which is always truthy; \<open>ramda_has_truthy\<close> stands
  for that value.\<close>

definition ramda_has_truthy :: "string \<Rightarrow> bool" where
  "ramda_has_truthy key = True"

definition invalidBodyCheck :: "string option \<Rightarrow> (string \<times> string) option" where
  "invalidBodyCheck body =
     (if \<not> truthy body then Some (''empty_body'', ''Request body is missing or empty'')
      else if \<not> ramda_has_truthy ''msg'' then Some (''missing_msg'', ''Request is missing msg'')
      else if \<not> ramda_has_truthy ''sig'' then Some (''missing_sig'', ''Request is missing signature'')
      else if \<not> ramda_has_truthy ''signer'' then Some (''missing_signer'', ''Request is missing signer'')
      else None)"

record verify_answer =
  va_message :: js
  va_signature :: js
  va_providedSigner :: js
  va_recoveredAddress :: string
  va_validSignature :: bool
  va_participant :: "(bool \<times> bool) option"

datatype verify_response = Bad_request "string \<times> string" | Verified verify_answer

text \<open>\<open>parse\<close> is \<open>JSON.parse\<close>, \<open>verifyMessage\<close> recovers the signer and may throw. The query parameter is
  given as whether \<open>fetchParticipation\<close> is truthy.\<close>

definition verify_signature ::
  "(string \<Rightarrow> int option) \<Rightarrow> (string \<Rightarrow> js result) \<Rightarrow> (js \<Rightarrow> js \<Rightarrow> string result) \<Rightarrow> js \<Rightarrow> string option \<Rightarrow> bool \<Rightarrow> verify_response result" where
  "verify_signature big parse verifyMessage body event_body fetchParticipation =
     (case invalidBodyCheck event_body of
        Some e \<Rightarrow> Inr (Bad_request e)
      | None \<Rightarrow>
          rbind (parse (the event_body)) (\<lambda>req. rbind (get_prop req ''message'') (\<lambda>message.
            rbind (get_prop req ''signature'') (\<lambda>signature. rbind (get_prop req ''signer'') (\<lambda>signer.
              rbind (verifyMessage message signature) (\<lambda>recoveredAddress.
                rbind (bigNumbersEqual big signer (JStr recoveredAddress)) (\<lambda>validSignature.
                  rbind (if fetchParticipation \<and> validSignature
                         then rbind (punksQuery body) (\<lambda>punks. rbind (isPunkDelegate big signer punks) (\<lambda>d.
                                rbind (isPunkOwner big signer punks) (\<lambda>ow. Inr (Some (d, ow)))))
                         else Inr None) (\<lambda>participant.
                    Inr (Verified \<lparr>va_message = message, va_signature = signature, va_providedSigner = signer,
                      va_recoveredAddress = recoveredAddress, va_validSignature = validSignature,
                      va_participant = participant\<rparr>)))))))))"

section \<open>The metadata server\<close>

record TokenMetadata =
  md_name :: string
  md_description :: string
  md_image :: string

text \<open>What the server calls: the contract (\<open>None\<close> when the call fails), decoding and parsing of the JSON
  in its answer, the conversion of the image, the upload (which gives a content id); the last three may
  throw.\<close>

record 'b metadata_services =
  ms_dataURI :: "string \<Rightarrow> string option"
  ms_parse :: "string \<Rightarrow> TokenMetadata option"
  ms_png :: "string \<Rightarrow> 'b option"
  ms_storeBlob :: "'b \<Rightarrow> string option"

definition getMetadataKey :: "string \<Rightarrow> string" where
  "getMetadataKey tokenId = ''metadata_'' @ tokenId"

text \<open>The result, \<open>Inr None\<close> for \<open>undefined\<close>, with the cache afterwards and the number of uploads.\<close>

definition getTokenMetadata ::
  "'b metadata_services \<Rightarrow> string \<Rightarrow> (string \<rightharpoonup> TokenMetadata) \<Rightarrow> TokenMetadata option result \<times> (string \<rightharpoonup> TokenMetadata) \<times> nat" where
  "getTokenMetadata sv tokenId redis =
     (let key = getMetadataKey tokenId
      in case redis key of
           Some cachedMetadata \<Rightarrow> (Inr (Some cachedMetadata), redis, 0)
         | None \<Rightarrow>
             (case ms_dataURI sv tokenId of
                None \<Rightarrow> (Inr None, redis, 0)
              | Some dataURI \<Rightarrow>
                  (case ms_parse sv (substring_from dataURI 29) of
                     None \<Rightarrow> (Inl SyntaxError, redis, 0)
                   | Some data \<Rightarrow>
                       (case ms_png sv (substring_from (md_image data) 26) of
                          None \<Rightarrow> (Inl (ErrorMsg ''sharp''), redis, 0)
                        | Some png \<Rightarrow>
                            (case ms_storeBlob sv png of
                               None \<Rightarrow> (Inl (ErrorMsg ''storage''), redis, 1)
                             | Some cid \<Rightarrow>
                                 let metadata = \<lparr>md_name = md_name data, md_description = md_description data,
                                       md_image = ''ipfs://'' @ cid\<rparr>
                                 in (Inr (Some metadata), redis(key \<mapsto> metadata), 1))))))"

text \<open>The route; \<open>isInt s a b\<close> is the check of the validator. Without an answer the request stays open.
  \<open>serve\<close> takes requests one after another, each with the services as they are then.\<close>

datatype api_response = Root | Invalid_param | Failed_to_fetch | Metadata TokenMetadata | No_answer

definition metadata_route ::
  "'b metadata_services \<Rightarrow> (string \<Rightarrow> int \<Rightarrow> int \<Rightarrow> bool) \<Rightarrow> string \<Rightarrow> (string \<rightharpoonup> TokenMetadata) \<Rightarrow>
     api_response \<times> (string \<rightharpoonup> TokenMetadata) \<times> nat" where
  "metadata_route sv isInt tokenId redis =
     (if \<not> isInt tokenId 0 1000 then (Invalid_param, redis, 0)
      else let (r, redis1, uploads) = getTokenMetadata sv tokenId redis
           in (case r of Inl e \<Rightarrow> No_answer | Inr None \<Rightarrow> Failed_to_fetch | Inr (Some m) \<Rightarrow> Metadata m, redis1, uploads))"

fun serve ::
  "(string \<Rightarrow> int \<Rightarrow> int \<Rightarrow> bool) \<Rightarrow> ('b metadata_services \<times> string) list \<Rightarrow> (string \<rightharpoonup> TokenMetadata) \<Rightarrow>
     (api_response list \<times> nat) \<times> (string \<rightharpoonup> TokenMetadata)" where
  "serve isInt [] redis = (([], 0), redis)"
| "serve isInt ((sv, tokenId) # rs) redis =
     (let (r, redis1, u) = metadata_route sv isInt tokenId redis;
          ((answers, n), redis2) = serve isInt rs redis1
      in ((r # answers, u + n), redis2))"

section \<open>Answers that can be normalized\<close>

text \<open>Reading one selected field of an object that conforms.\<close>

lemma read_leaf:
  assumes "object_conforms root e subs v" and "leaf n \<in> set subs" and "map_of (fields_of root e) n = Some (Leaf l False)"
  obtains w where "get_prop v n = Inr w" "scalar_value l w"
proof -
  obtain w where w: "get_prop v n = Inr w" "conforms root e (leaf n) w" using object_prop [OF assms(1,2)] by auto
  from w(2) [unfolded conforms_cases(1) [OF assms(3)]] w(1) show thesis by (auto intro: that)
qed

lemma read_leaves:
  assumes "object_conforms root e subs v" and "leaf n \<in> set subs" and "map_of (fields_of root e) n = Some (Leaves l False)"
  obtains ws where "get_prop v n = Inr (JArr ws)"
proof -
  obtain w where w: "get_prop v n = Inr w" "conforms root e (leaf n) w" using object_prop [OF assms(1,2)] by auto
  from w(2) [unfolded conforms_cases(2) [OF assms(3)]] w(1) show thesis by (auto intro: that)
qed

lemma read_one:
  assumes "object_conforms root e subs v" and "Field n as ss \<in> set subs" and "map_of (fields_of root e) n = Some (One e' nl)"
  obtains w where "get_prop v n = Inr w" "nl \<and> w = JNull \<or> object_conforms root e' ss w"
proof -
  obtain w where w: "get_prop v n = Inr w" "conforms root e (Field n as ss) w" using object_prop [OF assms(1,2)] by auto
  from w(2) [unfolded conforms_cases(3) [OF assms(3)]] w(1) show thesis by (auto intro: that)
qed

lemma read_many:
  assumes "object_conforms root e subs v" and "Field n as ss \<in> set subs" and "map_of (fields_of root e) n = Some (Many e' False)"
  obtains ws where "get_prop v n = Inr (JArr ws)" "list_all (object_conforms root e' ss) ws"
proof -
  obtain w where w: "get_prop v n = Inr w" "conforms root e (Field n as ss) w" using object_prop [OF assms(1,2)] by auto
  from w(2) [unfolded conforms_cases(4) [OF assms(3)]] w(1) show thesis by (auto intro: that)
qed

lemma js_map_ok: "(\<And>v. v \<in> set vs \<Longrightarrow> \<exists>x. f v = Inr x) \<Longrightarrow> \<exists>xs. js_map f (JArr vs) = Inr xs"
proof (induction vs)
  case (Cons v vs)
  then obtain x xs where "f v = Inr x" "js_map f (JArr vs) = Inr xs" by (metis list.set_intros)
  then show ?case by simp
qed simp

lemma normalizeVote_ok:
  assumes "object_conforms root Vote_t [sub ''proposal'' [''id''], leaf ''supportDetailed''] v"
  shows "\<exists>x. normalizeVote v = Inr x"
proof -
  obtain s where s: "get_prop v ''supportDetailed'' = Inr s"
    by (rule read_leaf [OF assms, of "''supportDetailed''" Int_t]) (simp_all add: fields_of_simps)
  obtain w where w: "get_prop v ''proposal'' = Inr w" "object_conforms root Proposal_t [leaf ''id''] w"
    by (rule read_one [OF assms, of "''proposal''" "[]" "[leaf ''id'']" Proposal_t False]) (simp_all add: fields_of_simps)
  obtain i where "get_prop w ''id'' = Inr i"
    by (rule read_leaf [OF w(2), of "''id''" ID]) (simp_all add: fields_of_simps)
  with s w(1) show ?thesis by (simp add: normalizeVote_def)
qed

lemma normalizeSeed_ok:
  assumes "object_conforms root Seed_t (map leaf [''punkType'', ''skinTone'', ''accessory_types'', ''accessory_ids'']) v"
  shows "\<exists>x. normalizeSeed v = Inr x"
proof -
  obtain p where p: "get_prop v ''punkType'' = Inr p"
    by (rule read_leaf [OF assms, of "''punkType''" BigInt]) (simp_all add: fields_of_simps)
  obtain k where k: "get_prop v ''skinTone'' = Inr k"
    by (rule read_leaf [OF assms, of "''skinTone''" BigInt]) (simp_all add: fields_of_simps)
  obtain ts where ts: "get_prop v ''accessory_types'' = Inr (JArr ts)"
    by (rule read_leaves [OF assms, of "''accessory_types''" BigInt]) (simp_all add: fields_of_simps)
  obtain is' where ids: "get_prop v ''accessory_ids'' = Inr (JArr is')"
    by (rule read_leaves [OF assms, of "''accessory_ids''" BigInt]) (simp_all add: fields_of_simps)
  have "rmap_list (\<lambda>(i, t). rbind (get_prop v ''accessory_ids'') (\<lambda>ids. rbind (element ids i) (\<lambda>a.
      Inr (js_Number t, js_Number a)))) xs =
    Inr (map (\<lambda>(i, t). (js_Number t, js_Number (if i < length is' then is' ! i else JUndef))) xs)" for xs
    by (rule rmap_list_all_Inr) (simp add: ids split: prod.split)
  with p k ts show ?thesis by (simp add: normalizeSeed_def)
qed

text \<open>An object of the answer that tells of a punk what the store says, and an answer that does so for
  the punks: without \<open>first\<close> the service gives 100 at most, which ones is not said here.\<close>

definition punk_told :: "store \<Rightarrow> nat \<Rightarrow> js \<Rightarrow> bool" where
  "punk_told s t v \<longleftrightarrow> get_prop v ''id'' = Inr (JStr (dec t)) \<and>
     (\<exists>p ow d. st_punks s (dec t) = Some p \<and> get_prop v ''owner'' = Inr ow \<and> get_prop ow ''id'' = Inr (JStr (pk_owner p)) \<and>
        get_prop ow ''delegate'' = Inr d \<and>
        (case ac_delegate (account_of s (pk_owner p)) of None \<Rightarrow> d = JNull | Some x \<Rightarrow> get_prop d ''id'' = Inr (JStr x)))"

definition punk_shape :: "(string \<times> field_type) list \<Rightarrow> js \<Rightarrow> bool" where
  "punk_shape root v \<longleftrightarrow> object_conforms root Punk_t (field_subs (hd punksGql)) v \<and> get_prop v ''seed'' \<noteq> Inr JNull"

definition page_tells :: "(string \<times> field_type) list \<Rightarrow> store \<Rightarrow> js \<Rightarrow> bool" where
  "page_tells root s body \<longleftrightarrow> (\<exists>d vs ts. get_prop body ''data'' = Inr d \<and> get_prop d ''punks'' = Inr (JArr vs) \<and>
     distinct ts \<and> set ts \<subseteq> {t. st_punks s (dec t) \<noteq> None} \<and> length ts = min 100 (card {t. st_punks s (dec t) \<noteq> None}) \<and>
     list_all2 (punk_told s) ts vs \<and> list_all (punk_shape root) vs)"

definition normalized_as :: "store \<Rightarrow> nat \<Rightarrow> NormalizedPunk \<Rightarrow> bool" where
  "normalized_as s t np \<longleftrightarrow> np_id np = Some (int t) \<and>
     (\<exists>p. st_punks s (dec t) = Some p \<and> np_owner np = JStr (pk_owner p) \<and>
        np_delegatedTo np = (case ac_delegate (account_of s (pk_owner p)) of None \<Rightarrow> JUndef | Some x \<Rightarrow> JStr x))"

lemma normalizePunk_told:
  assumes "punk_told s t v" and "punk_shape root v"
  shows "\<exists>np. normalizePunk v = Inr np \<and> normalized_as s t np"
proof -
  have shape: "object_conforms root Punk_t
      [leaf ''id'', Field ''owner'' [] [leaf ''id'', sub ''delegate'' [''id'']],
       Field ''votes'' [] [sub ''proposal'' [''id''], leaf ''supportDetailed''],
       sub ''seed'' [''punkType'', ''skinTone'', ''accessory_types'', ''accessory_ids'']] v"
    using assms(2) by (simp add: punk_shape_def punksGql_def)
  obtain p ow d where v: "get_prop v ''id'' = Inr (JStr (dec t))" "st_punks s (dec t) = Some p" "get_prop v ''owner'' = Inr ow"
    "get_prop ow ''id'' = Inr (JStr (pk_owner p))" "get_prop ow ''delegate'' = Inr d"
    "case ac_delegate (account_of s (pk_owner p)) of None \<Rightarrow> d = JNull | Some x \<Rightarrow> get_prop d ''id'' = Inr (JStr x)"
    using assms(1) by (auto simp: punk_told_def)
  have d: "optional_get d ''id'' = Inr (case ac_delegate (account_of s (pk_owner p)) of None \<Rightarrow> JUndef | Some x \<Rightarrow> JStr x)"
    using v(6) by (cases d) (auto simp: optional_get_def split: option.splits)
  obtain vs where vs: "get_prop v ''votes'' = Inr (JArr vs)"
    "list_all (object_conforms root Vote_t [sub ''proposal'' [''id''], leaf ''supportDetailed'']) vs"
    by (rule read_many [OF shape, of "''votes''" "[]" _ Vote_t]) (simp_all add: fields_of_simps)
  then have "\<exists>votes. js_map normalizeVote (JArr vs) = Inr votes"
    by (intro js_map_ok normalizeVote_ok) (auto simp: list_all_iff)
  then obtain votes where votes: "normalizeVotes (JArr vs) = Inr votes" by (auto simp: normalizeVotes_def)
  obtain sd where sd: "get_prop v ''seed'' = Inr sd"
    "sd = JNull \<or> object_conforms root Seed_t (map leaf [''punkType'', ''skinTone'', ''accessory_types'', ''accessory_ids'']) sd"
    by (rule read_one [OF shape, of "''seed''" "[]" _ Seed_t True]) (auto simp: fields_of_simps)
  with assms(2) have "sd \<noteq> JNull" by (auto simp: punk_shape_def)
  with sd(2) obtain seed where "normalizeSeed sd = Inr seed" using normalizeSeed_ok by metis
  then show ?thesis
    using v d vs(1) votes sd(1) by (simp add: normalizePunk_def normalized_as_def)
qed

lemma normalizePunks_told:
  "list_all2 (punk_told s) ts vs \<Longrightarrow> list_all (punk_shape root) vs \<Longrightarrow>
     \<exists>nps. normalizePunks (JArr vs) = Inr nps \<and> list_all2 (normalized_as s) ts nps"
proof (induction ts vs rule: list_all2_induct)
  case (Cons t ts v vs)
  then obtain np nps where "normalizePunk v = Inr np" "normalized_as s t np" "normalizePunks (JArr vs) = Inr nps"
    "list_all2 (normalized_as s) ts nps" using normalizePunk_told [of s t v root] by auto
  then show ?case by (auto simp: normalizePunks_def)
qed (simp add: normalizePunks_def)

lemma rfilter_Inr: "(\<And>x. x \<in> set xs \<Longrightarrow> P x = Inr (p x)) \<Longrightarrow> rfilter P xs = Inr (filter p xs)"
  by (induction xs) auto

section \<open>The functions and the chain\<close>

lemma all_told_or_many:
  assumes "distinct ts" and "set ts \<subseteq> A" and "length ts = min 100 (card A)" and "finite A" and "card A \<le> 100"
  shows "set ts = A"
  using assms by (simp add: card_subset_eq distinct_card)

lemma list_all2_right: "list_all2 P xs ys \<Longrightarrow> y \<in> set ys \<Longrightarrow> \<exists>x \<in> set xs. P x y"
  by (induction xs ys rule: list_all2_induct) auto

text \<open>Which of the punks told of satisfy a condition on owner and delegate.\<close>

lemma filtered_some:
  assumes "list_all2 (normalized_as s) ts nps" and "\<And>t np. normalized_as s t np \<Longrightarrow> t \<in> set ts \<Longrightarrow> p np \<longleftrightarrow> q t"
  shows "0 < length (filter p nps) \<longleftrightarrow> (\<exists>t \<in> set ts. q t)"
proof -
  have "(\<exists>np \<in> set nps. p np) \<longleftrightarrow> (\<exists>t \<in> set ts. q t)"
    using assms by (induction ts nps rule: list_all2_induct) auto
  then show ?thesis by (simp add: filter_empty_conv)
qed

lemma isPunkOwner_told:
  assumes "list_all2 (normalized_as s) ts nps" and "big addr = Some x"
    and "\<And>t p. t \<in> set ts \<Longrightarrow> st_punks s (dec t) = Some p \<Longrightarrow> big (pk_owner p) \<noteq> None"
  shows "isPunkOwner big (JStr addr) nps =
    Inr (\<exists>t \<in> set ts. \<exists>p. st_punks s (dec t) = Some p \<and> big (pk_owner p) = Some x)"
proof -
  let ?p = "\<lambda>np. case np_owner np of JStr a \<Rightarrow> big a = Some x | _ \<Rightarrow> False"
  have "bigNumbersEqual big (JStr addr) (np_owner np) = Inr (?p np)" if np: "np \<in> set nps" for np
  proof -
    from assms(1) np obtain t where "t \<in> set ts" "normalized_as s t np"
      by (blast dest: list_all2_right)
    with assms(2,3) show ?thesis by (fastforce simp: normalized_as_def bigNumbersEqual_def)
  qed
  then have "ownerFilterFactory big (JStr addr) nps = Inr (filter ?p nps)"
    by (simp add: ownerFilterFactory_def rfilter_Inr)
  moreover have "0 < length (filter ?p nps) \<longleftrightarrow> (\<exists>t \<in> set ts. \<exists>p. st_punks s (dec t) = Some p \<and> big (pk_owner p) = Some x)"
    by (rule filtered_some [OF assms(1)]) (auto simp: normalized_as_def)
  ultimately show ?thesis by (simp add: isPunkOwner_def)
qed

lemma isPunkDelegate_told:
  assumes "list_all2 (normalized_as s) ts nps" and "big addr = Some x"
    and "\<And>t p d. t \<in> set ts \<Longrightarrow> st_punks s (dec t) = Some p \<Longrightarrow> ac_delegate (account_of s (pk_owner p)) = Some d \<Longrightarrow>
      d \<noteq> [] \<and> big d \<noteq> None"
  shows "isPunkDelegate big (JStr addr) nps =
    Inr (\<exists>t \<in> set ts. \<exists>p d. st_punks s (dec t) = Some p \<and> ac_delegate (account_of s (pk_owner p)) = Some d \<and> big d = Some x)"
proof -
  let ?p = "\<lambda>np. case np_delegatedTo np of JStr a \<Rightarrow> big a = Some x | _ \<Rightarrow> False"
  have "(if js_truthy (np_delegatedTo np) then bigNumbersEqual big (JStr addr) (np_delegatedTo np) else Inr False) = Inr (?p np)"
    if np: "np \<in> set nps" for np
  proof -
    from assms(1) np obtain t where t: "t \<in> set ts" "normalized_as s t np"
      by (blast dest: list_all2_right)
    then obtain p where p: "st_punks s (dec t) = Some p"
      "np_delegatedTo np = (case ac_delegate (account_of s (pk_owner p)) of None \<Rightarrow> JUndef | Some x \<Rightarrow> JStr x)"
      by (auto simp: normalized_as_def)
    with assms(2) assms(3) [OF t(1) p(1)] show ?thesis
      by (cases "ac_delegate (account_of s (pk_owner p))") (auto simp: bigNumbersEqual_def)
  qed
  then have "delegateFilterFactory big (JStr addr) nps = Inr (filter ?p nps)"
    by (simp add: delegateFilterFactory_def rfilter_Inr)
  moreover have "0 < length (filter ?p nps) \<longleftrightarrow> (\<exists>t \<in> set ts. \<exists>p d. st_punks s (dec t) = Some p \<and>
      ac_delegate (account_of s (pk_owner p)) = Some d \<and> big d = Some x)"
    by (rule filtered_some [OF assms(1)]) (auto simp: normalized_as_def split: option.splits)
  ultimately show ?thesis by (simp add: isPunkDelegate_def)
qed

lemma finite_ledger: "history L M s \<Longrightarrow> finite (dom L)"
proof (induction rule: history.induct)
  case (event L M s e s')
  then show ?case by (cases e) (simp_all del: fun_upd_apply)
qed simp


definition demo_punk :: js where
  "demo_punk = JObj
     [(''id'', JStr ''1''),
      (''owner'', JObj [(''id'', JStr ''0xa''), (''delegate'', JObj [(''id'', JStr ''0xa'')])]),
      (''votes'', JArr [JObj [(''proposal'', JObj [(''id'', JStr ''3'')]), (''supportDetailed'', JNum 1)]]),
      (''seed'', JObj [(''punkType'', JStr ''0''), (''skinTone'', JStr ''2''), (''accessory_types'', JArr [JStr ''4'']),
         (''accessory_ids'', JArr [JStr ''7''])])]"

lemma demo_punk_shape: "punk_shape demo_root demo_punk"
  by (simp add: punk_shape_def punksGql_def demo_punk_def object_conforms_def has_keys_def conforms_Field fields_of_simps)


section \<open>Votes by proposal\<close>

definition votes_on :: "num \<Rightarrow> NormalizedPunk \<Rightarrow> ProposalVote list" where
  "votes_on k p = map (builtProposalVote p) (filter (\<lambda>v. nv_proposalId v = k) (np_votes p))"

lemma add_proposal_votes:
  "(case map_of (foldl (add_proposal_vote p) acc vs) k of None \<Rightarrow> [] | Some ws \<Rightarrow> ws) =
     (case map_of acc k of None \<Rightarrow> [] | Some ws \<Rightarrow> ws) @ map (builtProposalVote p) (filter (\<lambda>v. nv_proposalId v = k) vs)"
proof (induction vs arbitrary: acc)
  case (Cons v vs)
  show ?case
    unfolding foldl_Cons Cons.IH by (auto simp: add_proposal_vote_def update_conv split: option.splits)
qed simp

text \<open>Each proposal gets the votes of all punks on it, punk by punk.\<close>

lemma votes_by_proposal:
  "(case map_of (reduceProposalVotes punks) k of None \<Rightarrow> [] | Some ws \<Rightarrow> ws) = concat (map (votes_on k) punks)"
proof -
  have "(case map_of (foldl (\<lambda>acc punk. foldl (add_proposal_vote punk) acc (np_votes punk)) acc punks) k of None \<Rightarrow> [] | Some ws \<Rightarrow> ws) =
    (case map_of acc k of None \<Rightarrow> [] | Some ws \<Rightarrow> ws) @ concat (map (votes_on k) punks)" for acc
    by (induction punks arbitrary: acc) (simp_all add: add_proposal_votes votes_on_def)
  from this [of "[]"] show ?thesis by (simp add: reduceProposalVotes_def)
qed

section \<open>Signatures\<close>

text \<open>Of the body of a request only its emptiness is checked; what is missing in it reaches the
  signature library as \<open>undefined\<close>.\<close>

lemma body_check: "invalidBodyCheck body = (if truthy body then None else Some (''empty_body'', ''Request body is missing or empty''))"
  by (simp add: invalidBodyCheck_def ramda_has_truthy_def)

text \<open>A signature is called valid exactly if the recovered address is that of the signer, and takes part
  information only then.\<close>

lemma verified_signature:
  assumes "verify_signature big parse verifyMessage body req fetch = Inr (Verified a)"
  shows "\<exists>v x y. parse (the req) = Inr v \<and> verifyMessage (va_message a) (va_signature a) = Inr (va_recoveredAddress a) \<and>
    get_prop v ''signer'' = Inr (va_providedSigner a) \<and> big_from big (va_providedSigner a) = Inr x \<and>
    big (va_recoveredAddress a) = Some y \<and> va_validSignature a = (x = y) \<and>
    (va_participant a \<noteq> None \<longleftrightarrow> fetch \<and> x = y)"
  using assms
  by (auto simp: verify_signature_def bigNumbersEqual_def split: option.splits if_splits)

section \<open>Metadata\<close>

lemma route_keeps:
  "metadata_route sv isInt t redis = (r, redis', u) \<Longrightarrow> redis k = Some m \<Longrightarrow> redis' k = Some m"
  by (auto simp: metadata_route_def getTokenMetadata_def Let_def split: option.splits if_splits)

lemma serve_keeps: "redis k = Some m \<Longrightarrow> snd (serve isInt rs redis) k = Some m"
proof (induction rs arbitrary: redis)
  case (Cons q rs)
  obtain sv t where q: "q = (sv, t)" by (cases q)
  obtain r redis1 u where r: "metadata_route sv isInt t redis = (r, redis1, u)" by (metis prod_cases3)
  have "redis1 k = Some m" using route_keeps [OF r Cons.prems] .
  from Cons.IH [where redis = redis1, OF this] show ?case by (cases "serve isInt rs redis1") (auto simp: q r)
qed simp

text \<open>The metadata of a token never change: once they have been sent, every later request for the same
  text is answered with them, whatever the contract and the services say by then, and without an upload.\<close>

lemma metadata_stable:
  assumes "metadata_route sv isInt t redis = (Metadata m, redis1, u)" and "snd (serve isInt rs redis1) = redis2"
  shows "metadata_route sv' isInt t redis2 = (Metadata m, redis2, 0)"
proof -
  have valid: "isInt t 0 1000" using assms(1) by (auto simp: metadata_route_def split: if_splits)
  have "redis1 (getMetadataKey t) = Some m"
    using assms(1) by (auto simp: metadata_route_def getTokenMetadata_def Let_def split: option.splits if_splits sum.splits)
  then have "redis2 (getMetadataKey t) = Some m" using assms(2) by (metis serve_keeps)
  with valid show ?thesis by (simp add: metadata_route_def getTokenMetadata_def)
qed

end
