(* ===== verification/Web_Names.thy ===== *)
theory Web_Names
  imports Web_Delegate
begin

text \<open>
  The names shown for addresses (\<open>punks-webapp/src/utils/ensLookup.ts\<close>, \<open>lookupNNSOrENS.ts\<close>,
  \<open>resolveNounsContractAddress.ts\<close>, \<open>moderation/containsBlockedText.ts\<close>, the components \<open>ShortAddress\<close>
  and \<open>EnsOrLongAddress\<close>, and the look-ups that \<open>VoteCard\<close> makes in advance). A name is looked up on
  the chain and kept for half an hour in the storage of the browser, which all components share. The
  relation \<open>name_run\<close> runs one use of the hook with everything that writes to the storage.
\<close>

section \<open>The look-up\<close>

text \<open>The answer of the resolver contract is a list of bytes, the ABI encoding of a text. A slice is taken
  of its hexadecimal text, so that it ends with the data, and the bounds of a slice are swapped when
  they are in the wrong order; a number needs a byte at least and fits 53 bits. \<open>utf8\<close> decodes a text.\<close>

definition hexDataSlice :: "nat list \<Rightarrow> nat \<Rightarrow> nat \<Rightarrow> nat list" where
  "hexDataSlice bs i j = drop (min i j) (take (max i j) bs)"

definition bytes_value :: "nat list \<Rightarrow> nat" where
  "bytes_value = foldl (\<lambda>a b. 256 * a + b) 0"

definition bytes_toNumber :: "nat list \<Rightarrow> nat option" where
  "bytes_toNumber bs = (if bs = [] \<or> bytes_value bs \<ge> 2 ^ 53 then None else Some (bytes_value bs))"

definition resolve_call :: "string \<Rightarrow> string" where
  "resolve_call address = ''0x55ea6c47000000000000000000000000'' @ substring_from address 2"

definition lookupNNSOrENS :: "(nat list \<Rightarrow> string option) \<Rightarrow> nat list option \<Rightarrow> string option" where
  "lookupNNSOrENS utf8 res =
     Option.bind res (\<lambda>bs.
       Option.bind (bytes_toNumber (hexDataSlice bs 0 32)) (\<lambda>offset.
         Option.bind (bytes_toNumber (hexDataSlice bs offset (offset + 32))) (\<lambda>len.
           Option.bind (utf8 (hexDataSlice bs (offset + 32) (offset + 32 + len))) (\<lambda>s.
             if s = [] then None else Some s))))"

section \<open>The storage\<close>

text \<open>An expiry is \<open>Date.now() / 1000 + 30 * 60\<close>, kept here in milliseconds; \<open>parseInt\<close> of it gives the
  whole seconds.\<close>

record cached_name =
  cn_name :: string
  cn_expires :: int

type_synonym name_cache = "string \<rightharpoonup> cached_name"

definition cacheKey :: "string \<Rightarrow> string \<Rightarrow> string list \<Rightarrow> string" where
  "cacheKey bucket version parts = toLowerCase (join ''-'' (bucket # version # parts))"

definition ensCacheKey :: "nat \<Rightarrow> string \<Rightarrow> string" where
  "ensCacheKey chain address = cacheKey ''ens'' ''v1'' [dec chain, address]"

definition name_entry_at :: "int \<Rightarrow> string \<Rightarrow> cached_name" where
  "name_entry_at now name = \<lparr>cn_name = name, cn_expires = now + 30 * 60 * 1000\<rparr>"

definition not_expired :: "int \<Rightarrow> cached_name \<Rightarrow> bool" where
  "not_expired now e \<longleftrightarrow> cn_expires e div 1000 * 1000 > now"

text \<open>The effect of \<open>useReverseENSLookUp\<close>: the state \<open>ens\<close>, the storage, and whether a look-up starts.
  Then what follows when the look-up is answered, and the clean-up.\<close>

definition reverse_lookup_effect ::
  "nat \<Rightarrow> bool \<Rightarrow> string \<Rightarrow> int \<Rightarrow> name_cache \<Rightarrow> string option \<Rightarrow> string option \<times> name_cache \<times> bool" where
  "reverse_lookup_effect chain lib address now cache ens =
     (if address = [] \<or> \<not> lib then (ens, cache, False)
      else let key = ensCacheKey chain address;
               (ens1, cache1) =
                 (case cache key of
                    None \<Rightarrow> (ens, cache)
                  | Some e \<Rightarrow> if not_expired now e then (Some (cn_name e), cache) else (ens, cache(key := None)))
           in (ens1, cache1, cache1 key = None))"

definition reverse_lookup_answer ::
  "nat \<Rightarrow> bool \<Rightarrow> string \<Rightarrow> string option \<Rightarrow> int \<Rightarrow> name_cache \<Rightarrow> string option \<Rightarrow> string option \<times> name_cache" where
  "reverse_lookup_answer chain mounted address name now cache ens =
     (if \<not> truthy name \<or> \<not> mounted then (ens, cache)
      else (name, cache(ensCacheKey chain address \<mapsto> name_entry_at now (the name))))"

text \<open>\<open>VoteCard\<close> looks up the delegates that have no entry, expired or not.\<close>

definition prefetched :: "nat \<Rightarrow> name_cache \<Rightarrow> string list \<Rightarrow> string list" where
  "prefetched chain cache ds = filter (\<lambda>d. cache (ensCacheKey chain d) = None) ds"

definition prefetch_answer :: "nat \<Rightarrow> string \<Rightarrow> string option \<Rightarrow> int \<Rightarrow> name_cache \<Rightarrow> name_cache" where
  "prefetch_answer chain address name now cache =
     (if truthy name then cache(ensCacheKey chain address \<mapsto> name_entry_at now (the name)) else cache)"

section \<open>What is shown\<close>

definition resolveNounContractAddress :: "string \<Rightarrow> string \<Rightarrow> string \<Rightarrow> string \<Rightarrow> string option" where
  "resolveNounContractAddress nDAOProxy nAuctionHouseProxy nDaoExecutor address =
     (if toLowerCase address = toLowerCase nDAOProxy then Some ''DAOpunks Proxy''
      else if toLowerCase address = toLowerCase nAuctionHouseProxy then Some ''DAOpunks Auction House Proxy''
      else if toLowerCase address = toLowerCase nDaoExecutor then Some ''DAOpunks Treasury''
      else None)"

text \<open>The regular expressions by language, the library of bad words and the matching of regular
  expressions are parameters.\<close>

definition containsBlockedText ::
  "(string \<Rightarrow> 'r list option) \<Rightarrow> (string \<Rightarrow> bool) \<Rightarrow> ('r \<Rightarrow> string \<Rightarrow> bool) \<Rightarrow> string \<Rightarrow> string \<Rightarrow> bool" where
  "containsBlockedText regexes isProfane match text language =
     (case regexes language of
        None \<Rightarrow> False
      | Some rs \<Rightarrow> if isProfane text then True else length (filter (\<lambda>b. b) (map (\<lambda>r. match r text) rs)) > 0)"

definition or_else :: "string option \<Rightarrow> string option \<Rightarrow> string option" where
  "or_else a b = (if truthy a then a else b)"

definition ShortAddress :: "(string \<Rightarrow> bool) \<Rightarrow> string option \<Rightarrow> string option \<Rightarrow> string \<Rightarrow> string" where
  "ShortAddress blocked looked_up contract address =
     (let ens = or_else looked_up contract;
          ensMatchesBlocklistRegex = blocked (case ens of None \<Rightarrow> [] | Some e \<Rightarrow> e)
      in if truthy ens \<and> \<not> ensMatchesBlocklistRegex then the ens else short_address address)"

definition EnsOrLongAddress :: "(string \<Rightarrow> bool) \<Rightarrow> string option \<Rightarrow> string \<Rightarrow> string" where
  "EnsOrLongAddress blocked ens address =
     (let ensMatchesBlocklistRegex = blocked (case ens of None \<Rightarrow> [] | Some e \<Rightarrow> e)
      in if truthy ens \<and> \<not> ensMatchesBlocklistRegex then the ens else address)"

section \<open>Decoding the answer of the resolver\<close>

text \<open>The ABI encoding of a text: the offset of its tail, then its length and its bytes, padded.\<close>

fun be_bytes :: "nat \<Rightarrow> nat \<Rightarrow> nat list" where
  "be_bytes 0 n = []"
| "be_bytes (Suc k) n = be_bytes k (n div 256) @ [n mod 256]"

definition abi_text :: "nat list \<Rightarrow> nat list \<Rightarrow> nat list" where
  "abi_text bs pad = be_bytes 32 32 @ be_bytes 32 (length bs) @ bs @ pad"

lemma length_be_bytes [simp]: "length (be_bytes k n) = k"
  by (induction k arbitrary: n) simp_all

lemma bytes_value_snoc: "bytes_value (bs @ [b]) = 256 * bytes_value bs + b"
  by (simp add: bytes_value_def)

lemma bytes_value_be_bytes: "n < 256 ^ k \<Longrightarrow> bytes_value (be_bytes k n) = n"
proof (induction k arbitrary: n)
  case 0
  then show ?case by (simp add: bytes_value_def)
next
  case (Suc k)
  then have "n div 256 < 256 ^ k" by (simp add: div_less_iff_less_mult mult.commute)
  with Suc.IH show ?case by (simp add: bytes_value_snoc)
qed

lemma toNumber_be_bytes: "n < 2 ^ 53 \<Longrightarrow> bytes_toNumber (be_bytes 32 n) = Some n"
proof -
  assume n: "n < 2 ^ 53"
  then have "n < 256 ^ 32" by (rule less_trans) simp
  moreover have "be_bytes 32 n \<noteq> []" using length_be_bytes [of 32 n] by (metis list.size(3) zero_neq_numeral)
  ultimately show ?thesis using n by (simp add: bytes_toNumber_def bytes_value_be_bytes)
qed

text \<open>The name that the resolver encodes comes back, and an empty one as no name.\<close>

lemma lookup_decodes:
  assumes "length bs < 2 ^ 53" and "utf8 bs = Some s"
  shows "lookupNNSOrENS utf8 (Some (abi_text bs pad)) = (if s = [] then None else Some s)"
proof -
  have "hexDataSlice (abi_text bs pad) 0 32 = be_bytes 32 32"
    "hexDataSlice (abi_text bs pad) 32 (32 + 32) = be_bytes 32 (length bs)"
    "hexDataSlice (abi_text bs pad) (32 + 32) (32 + 32 + length bs) = bs"
    by (simp_all add: hexDataSlice_def abi_text_def)
  moreover have "bytes_toNumber (be_bytes 32 32) = Some 32" "bytes_toNumber (be_bytes 32 (length bs)) = Some (length bs)"
    using assms(1) by (simp_all add: toNumber_be_bytes)
  ultimately show ?thesis using assms(2) by (simp add: lookupNNSOrENS_def)
qed

section \<open>A use of the hook\<close>

text \<open>The state: the answers so far with their times, the storage, the address (empty when the component
  is not there), the name, the time of the effect, the look-ups under way (with whether their effect is
  the current one) and the present time. The storage is empty at first; other components write to it.\<close>

inductive name_run ::
  "nat \<Rightarrow> (string \<times> string \<times> int) set \<Rightarrow> name_cache \<Rightarrow> string \<Rightarrow> string option \<Rightarrow> int \<Rightarrow> (bool \<times> string) set \<Rightarrow> int \<Rightarrow> bool"
  for chain where
  start: "name_run chain {} Map.empty [] None now {} now"
| tick: "name_run chain log c a e t P now \<Longrightarrow> now \<le> now' \<Longrightarrow> name_run chain log c a e t P now'"
| shown: "name_run chain log c [] e t P now \<Longrightarrow> reverse_lookup_effect chain lib a now c e = (e', c', begun) \<Longrightarrow>
    name_run chain log c' a e' now (P \<union> (if begun then {(True, a)} else {})) now"
| hidden: "name_run chain log c a e t P now \<Longrightarrow>
    name_run chain log c [] (Some []) t ((\<lambda>(m, b). (False, b)) ` P) now"
| answered: "name_run chain log c a e t P now \<Longrightarrow> (m, b) \<in> P \<Longrightarrow>
    reverse_lookup_answer chain m b name now c e = (e', c') \<Longrightarrow>
    name_run chain (log \<union> (\<lambda>n. (b, n, now)) ` set_option name) c' a e' t (P - {(m, b)}) now"
| elsewhere: "name_run chain log c a e t P now \<Longrightarrow>
    name_run chain (log \<union> (\<lambda>n. (b, n, now)) ` set_option name) (prefetch_answer chain b name now c) a e t P now"

definition from_log :: "nat \<Rightarrow> (string \<times> string \<times> int) set \<Rightarrow> name_cache \<Rightarrow> bool" where
  "from_log chain log c \<longleftrightarrow> (\<forall>k x. c k = Some x \<longrightarrow>
     (\<exists>b. ensCacheKey chain b = k \<and> (b, cn_name x, cn_expires x - 30 * 60 * 1000) \<in> log))"

definition name_ok :: "(string \<times> string \<times> int) set \<Rightarrow> string \<Rightarrow> string option \<Rightarrow> int \<Rightarrow> bool" where
  "name_ok log a e t \<longleftrightarrow> (\<forall>n. e = Some n \<longrightarrow> n \<noteq> [] \<longrightarrow>
     (\<exists>b u. (b, n, u) \<in> log \<and> toLowerCase b = toLowerCase a \<and> t < u + 30 * 60 * 1000))"

lemma ensCacheKey_inject [simp]: "ensCacheKey chain a = ensCacheKey chain b \<longleftrightarrow> toLowerCase a = toLowerCase b"
  by (simp add: ensCacheKey_def cacheKey_def toLowerCase_def)

lemma from_log_mono: "from_log chain log c \<Longrightarrow> log \<subseteq> log' \<Longrightarrow> from_log chain log' c"
  unfolding from_log_def by blast

lemma name_ok_mono: "name_ok log a e t \<Longrightarrow> log \<subseteq> log' \<Longrightarrow> name_ok log' a e t"
  unfolding name_ok_def by blast

lemma from_log_write:
  assumes "from_log chain log c" and "name = Some n"
  shows "from_log chain (log \<union> (\<lambda>n. (b, n, now)) ` set_option name) (c(ensCacheKey chain b \<mapsto> name_entry_at now n))"
  using assms unfolding from_log_def by (auto simp: name_entry_at_def)

lemma effect_ok:
  assumes "from_log chain log c" and "e = None \<or> e = Some []" and "reverse_lookup_effect chain lib a now c e = (e', c', l)"
  shows "from_log chain log c' \<and> name_ok log a e' now"
proof (cases "a = [] \<or> \<not> lib")
  case True
  with assms show ?thesis by (auto simp: reverse_lookup_effect_def name_ok_def)
next
  case False
  show ?thesis
  proof (cases "c (ensCacheKey chain a)")
    case None
    with assms False show ?thesis by (auto simp: reverse_lookup_effect_def name_ok_def)
  next
    case (Some x)
    show ?thesis
    proof (cases "not_expired now x")
      case True
      with Some assms False have e': "e' = Some (cn_name x)" "c' = c" by (auto simp: reverse_lookup_effect_def)
      from assms(1) Some obtain b where "toLowerCase b = toLowerCase a"
        "(b, cn_name x, cn_expires x - 30 * 60 * 1000) \<in> log" unfolding from_log_def by force
      moreover have "now < cn_expires x" using True by (simp add: not_expired_def)
      ultimately have "name_ok log a e' now" unfolding name_ok_def e' by force
      with e' assms(1) show ?thesis by simp
    next
      case False
      with Some assms \<open>\<not> (a = [] \<or> \<not> lib)\<close> have "e' = e" "c' = c(ensCacheKey chain a := None)"
        by (auto simp: reverse_lookup_effect_def)
      with assms(1,2) show ?thesis by (auto simp: name_ok_def from_log_def split: if_splits)
    qed
  qed
qed

lemma name_run_ok:
  "name_run chain log c a e t P now \<Longrightarrow>
     from_log chain log c \<and> name_ok log a e t \<and> t \<le> now \<and> (a = [] \<longrightarrow> e = None \<or> e = Some []) \<and>
     (\<forall>b. (True, b) \<in> P \<longrightarrow> b = a \<and> a \<noteq> [])"
proof (induction rule: name_run.induct)
  case (start now)
  show ?case by (simp add: from_log_def name_ok_def)
next
  case (tick log c a e t P now now')
  then show ?case by auto
next
  case (shown log c e t P now lib a e' c' begun)
  then have *: "from_log chain log c' \<and> name_ok log a e' now"
    using effect_ok [OF _ _ shown.hyps(2)] by simp
  have "a = [] \<Longrightarrow> e' = e \<and> \<not> begun" using shown.hyps(2) by (auto simp: reverse_lookup_effect_def)
  with * shown.IH show ?case by (auto split: if_splits)
next
  case (hidden log c a e t P now)
  then show ?case by (auto simp: name_ok_def)
next
  case (answered log c a e t P now m b name e' c')
  let ?log = "log \<union> (\<lambda>n. (b, n, now)) ` set_option name"
  show ?case
  proof (cases "truthy name \<and> m")
    case False
    with answered.hyps(3) have "e' = e" "c' = c" by (auto simp: reverse_lookup_answer_def)
    with answered.IH name_ok_mono [of log a e t ?log] from_log_mono [of chain log c ?log] show ?thesis by auto
  next
    case True
    then obtain n where n: "name = Some n" "n \<noteq> []" by (auto simp: truthy_def)
    with True answered.hyps(3) have e': "e' = Some n" "c' = c(ensCacheKey chain b \<mapsto> name_entry_at now n)"
      by (auto simp: reverse_lookup_answer_def)
    have ba: "b = a" "a \<noteq> []" using answered.hyps(2) answered.IH True by auto
    have "name_ok ?log a e' t" using n ba answered.IH by (auto simp: name_ok_def e'(1) intro!: exI [of _ a] exI [of _ now])
    moreover have "from_log chain ?log c'" unfolding e'(2) using answered.IH n(1) by (blast intro: from_log_write)
    ultimately show ?thesis using answered.IH ba by auto
  qed
next
  case (elsewhere log c a e t P now b name)
  let ?log = "log \<union> (\<lambda>n. (b, n, now)) ` set_option name"
  have "from_log chain ?log (prefetch_answer chain b name now c)"
    using elsewhere.IH from_log_write [of chain log c name _ b now] from_log_mono [of chain log c ?log]
    by (cases name) (auto simp: prefetch_answer_def truthy_def)
  with elsewhere.IH name_ok_mono [of log a e t ?log] show ?case by auto
qed



end
