(* ===== verification/Web_Bid.thy ===== *)
theory Web_Bid
  imports Web_Auction Web_Vote
begin

text \<open>
  Bidding in the web application: \<open>packages/punks-webapp/src/components/Bid/index.tsx\<close>, the timers of
  \<open>AuctionActivity\<close>, \<open>AuctionTimer\<close> and \<open>SettleManuallyBtn\<close>, and the amounts, lists and keys
  around them. Parsing and printing of ether amounts by ethers and bignumber.js are parameters
  (\<open>bid_lib\<close>); amounts are in wei. The results compare the form with \<open>createBid\<close> of the contract, on
  the auction the application shows, and settle what the button says after a bid.
\<close>

section \<open>Amounts\<close>

text \<open>\<open>bb_exponential\<close> is how bignumber.js prints a number from \<open>1e21\<close> on, \<open>bb_from\<close> is
  \<open>EthersBN.from\<close>, and the last two print a number of ether with two decimals, rounded up or to the
  nearest.\<close>

record bid_lib =
  bb_parseEther :: "string \<Rightarrow> int result"
  bb_formatEther :: "int \<Rightarrow> string"
  bb_exponential :: "int \<Rightarrow> string"
  bb_from :: "string \<Rightarrow> int result"
  bb_fixed2Ceil :: "string \<Rightarrow> string"
  bb_fixed2 :: "string \<Rightarrow> string"

definition bn_toString :: "bid_lib \<Rightarrow> int \<Rightarrow> string" where
  "bn_toString B n = (if \<bar>n\<bar> < 10 ^ 21 then int_to_base 10 n else bb_exponential B n)"

text \<open>\<open>amount * (percentage / 100 + 1)\<close>, rounded up to an integer.\<close>

definition computeMinimumNextBid :: "int \<Rightarrow> nat option \<Rightarrow> int" where
  "computeMinimumNextBid currentBid minBidIncPercentage =
     (case minBidIncPercentage of
        None \<Rightarrow> 0
      | Some p \<Rightarrow> - ((- (currentBid * (100 + int p))) div 100))"

definition minBidEth :: "bid_lib \<Rightarrow> int \<Rightarrow> string result" where
  "minBidEth B minBid =
     (if minBid = 0 then Inr ''0.01''
      else rbind (bb_from B (bn_toString B minBid)) (\<lambda>n. Inr (bb_fixed2Ceil B (bb_formatEther B n))))"

text \<open>The value of the input; \<open>None\<close> without an input.\<close>

definition currentBid :: "bid_lib \<Rightarrow> string option \<Rightarrow> int result" where
  "currentBid B input = (if \<not> truthy input then Inr 0 else bb_parseEther B (the input))"

definition truncatedAmount :: "bid_lib \<Rightarrow> int \<Rightarrow> string result" where
  "truncatedAmount B amount =
     rbind (bb_from B (bn_toString B amount)) (\<lambda>n. Inr (bb_fixed2 B (bb_formatEther B n)))"

definition bidInputHandler :: "string \<Rightarrow> string \<Rightarrow> string" where
  "bidInputHandler input bidInput =
     (if CHR ''.'' \<in> set input \<and> length (split_str ''.'' input ! 1) > 2 then bidInput else input)"

section \<open>Placing a bid\<close>

datatype place_result =
    Nothing_Sent
  | Too_Low alert string
  | Bid_Sent int int int

definition too_low_alert :: "string \<Rightarrow> alert" where
  "too_low_alert amount =
     \<lparr>al_title = ''Insufficient bid amount'',
      al_message = ''Please place a bid higher than or equal to the minimum bid amount of '' @ amount @ '' ETH''\<rparr>"

text \<open>A bid that is too low changes the input; one that is sent carries punk, value and gas limit.\<close>

definition placeBidHandler ::
  "bid_lib \<Rightarrow> (int \<Rightarrow> int \<Rightarrow> int result) \<Rightarrow> Auction option \<Rightarrow> string option \<Rightarrow> int \<Rightarrow> place_result result" where
  "placeBidHandler B estimateGas auction input minBid =
     (case auction of
        None \<Rightarrow> Inr Nothing_Sent
      | Some a \<Rightarrow>
          if \<not> truthy input then Inr Nothing_Sent
          else rbind (currentBid B input) (\<lambda>cur.
            if cur < minBid then rbind (minBidEth B minBid) (\<lambda>t. Inr (Too_Low (too_low_alert t) t))
            else rbind (bb_parseEther B (the input)) (\<lambda>v.
              rbind (estimateGas (wa_tokenId a) v) (\<lambda>gas. Inr (Bid_Sent (wa_tokenId a) v (gas + 10000))))))"

section \<open>The button\<close>

text \<open>\<open>bs_ref\<close> is the value of the input element, \<open>bs_bidInput\<close> the state that renders it. What a
  rendering makes of the two belongs to React.\<close>

record bid_state =
  bs_bidInput :: string
  bs_ref :: string
  bs_loading :: bool
  bs_content :: string
  bs_place :: tx_status
  bs_settle :: tx_status
  bs_alert :: "alert option"

definition initial_bid_state :: "bool \<Rightarrow> bid_state" where
  "initial_bid_state auctionEnded =
     \<lparr>bs_bidInput = [], bs_ref = [], bs_loading = False, bs_content = (if auctionEnded then ''Settle'' else ''Place bid''),
      bs_place = Tx_None, bs_settle = Tx_None, bs_alert = None\<rparr>"

text \<open>The effect that recognises the own bid in the auction. It overwrites the status of the transaction.\<close>

definition bid_success_effect :: "bid_lib \<Rightarrow> string option \<Rightarrow> Auction \<Rightarrow> bid_state \<Rightarrow> bid_state result" where
  "bid_success_effect B account auction st =
     (if \<not> truthy account then Inr st
      else rbind (currentBid B (Some (bs_ref st))) (\<lambda>cur.
        if bs_place st = Tx_Mining \<and> wa_bidder auction = the account \<and> cur = wa_amount auction
        then Inr (st\<lparr>bs_place := Tx_Success,
                     bs_alert := Some \<lparr>al_title = ''Success'', al_message = ''Bid was placed successfully!''\<rparr>,
                     bs_loading := False, bs_content := ''Place bid'', bs_ref := []\<rparr>)
        else Inr st))"

definition failed_alert :: "string \<Rightarrow> string option \<Rightarrow> alert option" where
  "failed_alert title e = Some \<lparr>al_title = title, al_message = or_text e ''Please try again.''\<rparr>"

definition place_effect :: "bool \<Rightarrow> bid_state \<Rightarrow> bid_state" where
  "place_effect auctionEnded st =
     (if auctionEnded then st
      else case bs_place st of
          Tx_None \<Rightarrow> st\<lparr>bs_loading := False, bs_content := ''Place bid''\<rparr>
        | Tx_Mining \<Rightarrow> st\<lparr>bs_loading := True, bs_content := []\<rparr>
        | Tx_Fail e \<Rightarrow> st\<lparr>bs_alert := failed_alert ''Transaction Failed'' e, bs_loading := False, bs_content := ''Bid''\<rparr>
        | Tx_Exception e \<Rightarrow> st\<lparr>bs_alert := failed_alert ''Error'' e, bs_loading := False, bs_content := ''Bid''\<rparr>
        | _ \<Rightarrow> st)"

definition settle_effect :: "bool \<Rightarrow> bid_state \<Rightarrow> bid_state" where
  "settle_effect auctionEnded st =
     (if \<not> auctionEnded then st
      else case bs_settle st of
          Tx_None \<Rightarrow> st\<lparr>bs_loading := False, bs_content := ''Settle Auction''\<rparr>
        | Tx_Mining \<Rightarrow> st\<lparr>bs_loading := True, bs_content := []\<rparr>
        | Tx_Success \<Rightarrow>
            st\<lparr>bs_alert := Some \<lparr>al_title = ''Success'', al_message = ''Settled auction successfully!''\<rparr>,
               bs_loading := False, bs_content := ''Settle Auction''\<rparr>
        | Tx_Fail e \<Rightarrow>
            st\<lparr>bs_alert := failed_alert ''Transaction Failed'' e, bs_loading := False, bs_content := ''Settle Auction''\<rparr>
        | Tx_Exception e \<Rightarrow>
            st\<lparr>bs_alert := failed_alert ''Error'' e, bs_loading := False, bs_content := ''Settle Auction''\<rparr>
        | _ \<Rightarrow> st)"

definition bid_disabled :: "string option \<Rightarrow> bid_state \<Rightarrow> bool" where
  "bid_disabled activeAccount st \<longleftrightarrow> bs_place st = Tx_Mining \<or> bs_settle st = Tx_Mining \<or> \<not> truthy activeAccount"

text \<open>What makes the effects run: a new status of the transaction, and a new auction from the store.\<close>

datatype bid_step = Place_Status tx_status | Auction_Changed Auction

fun bid_step_effects :: "bid_lib \<Rightarrow> string option \<Rightarrow> bid_step \<Rightarrow> Auction \<times> bid_state \<Rightarrow> (Auction \<times> bid_state) result" where
  "bid_step_effects B account (Place_Status s) (auction, st) =
     rbind (bid_success_effect B account auction (st\<lparr>bs_place := s\<rparr>)) (\<lambda>st'. Inr (auction, place_effect False st'))"
| "bid_step_effects B account (Auction_Changed a) (auction, st) =
     rbind (bid_success_effect B account a st) (\<lambda>st'. Inr (a, st'))"

fun bid_steps :: "bid_lib \<Rightarrow> string option \<Rightarrow> bid_step list \<Rightarrow> Auction \<times> bid_state \<Rightarrow> (Auction \<times> bid_state) result" where
  "bid_steps B account [] s = Inr s"
| "bid_steps B account (x # xs) s = rbind (bid_step_effects B account x s) (bid_steps B account xs)"

section \<open>The clocks\<close>

text \<open>\<open>AuctionActivity\<close>: whether the auction has ended, and in how many milliseconds it looks again.\<close>

definition auction_check :: "int \<Rightarrow> int \<Rightarrow> bool \<times> int option" where
  "auction_check endTime now =
     (let timeLeft = endTime - now
      in if timeLeft \<le> 0 then (True, None) else (False, Some (if timeLeft > 300 then 30000 else 1000)))"

text \<open>The seconds at which it looks, from a start on.\<close>

function check_times :: "int \<Rightarrow> int \<Rightarrow> int list" where
  "check_times endTime now =
     (case auction_check endTime now of
        (_, None) \<Rightarrow> [now]
      | (_, Some ms) \<Rightarrow> now # check_times endTime (now + ms div 1000))"
  by pat_completeness auto
termination
  by (relation "measure (\<lambda>(endTime, now). nat (endTime - now))")
    (auto simp: auction_check_def Let_def split: if_splits)

text \<open>\<open>AuctionTimer\<close>: the seconds it shows, and whether it goes on; the parts of a duration.\<close>

definition auction_timer :: "int \<Rightarrow> int \<Rightarrow> int \<times> bool" where
  "auction_timer endTime now =
     (let timeLeft = endTime - now in if timeLeft \<le> 0 then (0, False) else (timeLeft, True))"

definition timer_parts :: "int \<Rightarrow> int \<times> int \<times> int" where
  "timer_parts s = (s div 3600 mod 24, s div 60 mod 60, s mod 60)"

definition MINS_TO_ENABLE_MANUAL_SETTLEMENT :: int where
  "MINS_TO_ENABLE_MANUAL_SETTLEMENT = 5"

text \<open>\<open>SettleManuallyBtn\<close>: whether the button is enabled from now on, the seconds shown, and whether the
  timer goes on.\<close>

definition settle_timer :: "int \<Rightarrow> int \<Rightarrow> int \<Rightarrow> bool \<times> int \<times> bool" where
  "settle_timer CHAIN_ID endTime now =
     (if CHAIN_ID \<noteq> 1 then (True, 0, False)
      else let timeLeft = MINS_TO_ENABLE_MANUAL_SETTLEMENT * 60 - (now - endTime)
           in if timeLeft \<le> 0 then (True, 0, False) else (False, timeLeft, True))"

definition settle_text :: "bool \<Rightarrow> int \<Rightarrow> string" where
  "settle_text settleEnabled auctionTimer =
     (let mins = auctionTimer div 60 mod 60
      in if settleEnabled then ''Settle manually''
         else if mins \<noteq> 0 then ''You can settle manually in '' @ int_to_base 10 (mins + 1) @ '' minutes''
         else ''You can settle manually in 1 minute'')"

section \<open>Around the form\<close>

definition bid_history :: "nat \<Rightarrow> BidEvent list option \<Rightarrow> BidEvent list option" where
  "bid_history limit = map_option (\<lambda>bids. take limit (sort_key (\<lambda>b. - be_timestamp b) bids))"

definition isWinnerYou :: "string option \<Rightarrow> string \<Rightarrow> bool" where
  "isWinnerYou activeAccount winner \<longleftrightarrow>
     (case activeAccount of None \<Rightarrow> False | Some a \<Rightarrow> toLowerCase a = toLowerCase winner)"

text \<open>The arrow keys; a jump to the path of the last auction comes first.\<close>

definition handleKeyPress :: "string \<Rightarrow> bool \<Rightarrow> bool \<Rightarrow> Auction option \<Rightarrow> app \<Rightarrow> app" where
  "handleKeyPress key isFirstAuction isLastAuction auction s =
     (if key = ''ArrowLeft''
      then (let shown = map_option wa_tokenId auction;
                lastId = ds_lastAuctionTokenId (ap_display s);
                s1 = (if shown = lastId
                      then dispatch_action (Push (case lastId of None \<Rightarrow> ''/punk/undefined'' | Some i \<Rightarrow> tokenPath i)) s
                      else s)
            in if isFirstAuction then s1 else prevAuctionHandler auction s1)
      else if key = ''ArrowRight'' then (if isLastAuction then s else nextAuctionHandler auction s)
      else s)"

section \<open>The form and the contract\<close>

definition cents :: "int \<Rightarrow> string" where
  "cents c = int_to_base 10 (c div 100) @ ''.'' @ padStart (int_to_base 10 (c mod 100)) 2 (CHR ''0'')"

definition ceil_div :: "int \<Rightarrow> int \<Rightarrow> int" where
  "ceil_div a b = - ((- a) div b)"

definition bid_lib_ok :: "bid_lib \<Rightarrow> bool" where
  "bid_lib_ok B \<longleftrightarrow>
     (\<forall>n \<ge> 0. bb_from B (int_to_base 10 n) = Inr n \<and>
        bb_fixed2Ceil B (bb_formatEther B n) = cents (ceil_div n (10 ^ 16)) \<and> bb_parseEther B (cents n) = Inr (n * 10 ^ 16)) \<and>
     (\<forall>n. isl (bb_from B (bb_exponential B n)))"

lemma ceil_div_bounds:
  assumes "0 < b"
  shows "a \<le> ceil_div a b * b" "ceil_div a b * b < a + b" "0 \<le> a \<Longrightarrow> 0 \<le> ceil_div a b"
proof -
  have "ceil_div a b * b = a + (- a) mod b"
    using div_mult_mod_eq [of "- a" b] by (simp only: ceil_div_def mult_minus_left)
  moreover have "0 \<le> (- a) mod b" "(- a) mod b < b" using assms by simp_all
  ultimately show bounds: "a \<le> ceil_div a b * b" "ceil_div a b * b < a + b" by linarith+
  show "0 \<le> ceil_div a b" if "0 \<le> a"
    using order_trans [OF that bounds(1)] assms by (simp add: zero_le_mult_iff)
qed

lemma minimum_bid_bounds:
  assumes "0 \<le> amount"
  shows "amount + amount * int p div 100 \<le> computeMinimumNextBid amount (Some p)"
    "computeMinimumNextBid amount (Some p) \<le> amount + amount * int p div 100 + 1"
proof -
  let ?m = "computeMinimumNextBid amount (Some p)"
  have m: "?m = ceil_div (amount * (100 + int p)) 100" by (simp add: computeMinimumNextBid_def ceil_div_def)
  have "amount * (100 + int p) \<le> ?m * 100" "?m * 100 < amount * (100 + int p) + 100"
    unfolding m by (rule ceil_div_bounds; simp)+
  moreover have "amount * (100 + int p) = amount * 100 + amount * int p" by (simp add: algebra_simps)
  moreover have "amount * int p div 100 * 100 \<le> amount * int p" "amount * int p < amount * int p div 100 * 100 + 100"
    by (simp_all add: div_mult_mod_eq flip: minus_mod_eq_div_mult)
  ultimately show "amount + amount * int p div 100 \<le> ?m" "?m \<le> amount + amount * int p div 100 + 1" by linarith+
qed

lemma suggested_bid:
  assumes "bid_lib_ok B" and "0 < minBid" and "minBid < 10 ^ 21"
  shows "\<exists>t w. minBidEth B minBid = Inr t \<and> bb_parseEther B t = Inr w \<and> minBid \<le> w \<and> w < minBid + 10 ^ 16"
proof -
  let ?c = "ceil_div minBid (10 ^ 16)"
  have c: "minBid \<le> ?c * 10 ^ 16" "?c * 10 ^ 16 < minBid + 10 ^ 16" "0 \<le> ?c"
    using ceil_div_bounds [of "10 ^ 16" minBid] assms(2) by simp_all
  have "minBidEth B minBid = Inr (cents ?c)"
    using assms by (simp add: minBidEth_def bn_toString_def bid_lib_ok_def)
  moreover have "bb_parseEther B (cents ?c) = Inr (?c * 10 ^ 16)" using assms(1) c(3) by (simp add: bid_lib_ok_def)
  ultimately show ?thesis using c by blast
qed

lemma displayed_running:
  assumes "watching h log hist pend s" and "\<forall>b \<in> set pend. be_tokenId b \<noteq> wa_tokenId (ho_auction h)"
    and "ap_auction r = ap_auction s" and "useOnDisplayAuction r = Inr (Some a)" and "wa_tokenId a = wa_tokenId (ho_auction h)"
  shows "wa_amount a = wa_amount (ho_auction h)" "wa_endTime a = wa_endTime (ho_auction h)" "0 \<le> wa_amount a"
    "wa_startTime a = wa_startTime (ho_auction h)"
proof -
  have "on_auction (ho_auction h) pend = []" using assms(2) by (simp add: filter_empty_conv)
  then obtain x where x: "as_activeAuction (ap_auction s) = Some x" "same_frame x (ho_auction h)"
      "wa_amount x = wa_amount (ho_auction h)" and "0 \<le> wa_amount (ho_auction h)"
    using watching_watch_ok [OF assms(1)] by (auto simp: watch_ok_def same_bid_def chain_ok_def)
  moreover have "a = deserializeAuction x"
    using assms(3,4,5) x displayed_auction(1) [OF assms(4)]
    by (auto simp: useOnDisplayAuction_def same_frame_def split: if_splits)
  ultimately show "wa_amount a = wa_amount (ho_auction h)" "wa_endTime a = wa_endTime (ho_auction h)" "0 \<le> wa_amount a"
    "wa_startTime a = wa_startTime (ho_auction h)"
    by (simp_all add: deserializeAuction_def same_frame_def)
qed

lemma createBid_accepts:
  "createBid tx now sender v i h \<noteq> None \<longleftrightarrow>
     wa_tokenId (ho_auction h) = i \<and> now < wa_endTime (ho_auction h) \<and> ho_reservePrice h \<le> v \<and>
     wa_amount (ho_auction h) + wa_amount (ho_auction h) * int (ho_minBidIncrementPercentage h) div 100 \<le> v"
  by (auto simp: createBid_def Let_def)

text \<open>C11. The form and the contract agree on what a bid is worth. Take the auction on display, in whatever
  page, of an application that watches the auction house, with no bid of the running auction on its way,
  and the increment of the contract. A bid the form sends is for the punk on auction and the amount entered, and
  the contract accepts it, before the end, exactly if it reaches the reserve price. A bid the form turns
  down is one the contract would reject too, except for the one wei between its rounding and the form's;
  and below a thousand ether the form then suggests an amount that is enough and less than 0.01 ether too
  high.\<close>

theorem bid_form_matches_contract:
  assumes "bid_lib_ok B" and "watching h log hist pend s"
    and "\<forall>b \<in> set pend. be_tokenId b \<noteq> wa_tokenId (ho_auction h)"
    and "ap_auction r = ap_auction s" and "useOnDisplayAuction r = Inr (Some a)"
    and "wa_tokenId a = wa_tokenId (ho_auction h)"
    and "bb_parseEther B input = Inr v" and "input \<noteq> []" and "0 \<le> v"
    and "now < wa_endTime (ho_auction h)"
    and "minBid = computeMinimumNextBid (wa_amount a) (Some (ho_minBidIncrementPercentage h))" and "minBid < 10 ^ 21"
  shows "(if minBid \<le> v
     then placeBidHandler B gas (Some a) (Some input) minBid =
            rbind (gas (wa_tokenId a) v) (\<lambda>n. Inr (Bid_Sent (wa_tokenId a) v (n + 10000))) \<and>
          (createBid tx now sender v (wa_tokenId a) h \<noteq> None \<longleftrightarrow> ho_reservePrice h \<le> v)
     else (createBid tx now sender v (wa_tokenId a) h \<noteq> None \<longrightarrow> v = minBid - 1) \<and>
          (\<exists>t w. placeBidHandler B gas (Some a) (Some input) minBid = Inr (Too_Low (too_low_alert t) t) \<and>
             bb_parseEther B t = Inr w \<and> minBid \<le> w \<and> w < minBid + 10 ^ 16))"
proof -
  note shown = displayed_running [OF assms(2-6)]
  note m = minimum_bid_bounds [OF shown(3), of "ho_minBidIncrementPercentage h", folded assms(11)]
  have form: "placeBidHandler B gas (Some a) (Some input) minBid =
    (if v < minBid then rbind (minBidEth B minBid) (\<lambda>t. Inr (Too_Low (too_low_alert t) t))
     else rbind (gas (wa_tokenId a) v) (\<lambda>n. Inr (Bid_Sent (wa_tokenId a) v (n + 10000))))"
    using assms(7,8) by (simp add: placeBidHandler_def currentBid_def truthy_def)
  show ?thesis
  proof (cases "minBid \<le> v")
    case True
    then show ?thesis using form m(1) assms(6,10) unfolding createBid_accepts shown(1) by auto
  next
    case False
    then have "0 < minBid" using assms(9) by simp
    from suggested_bid [OF assms(1) this assms(12)] False show ?thesis
      using form m(2) unfolding createBid_accepts shown(1) by auto
  qed
qed


section \<open>When the auction is over\<close>

declare check_times.simps [simp del]

lemma check_times_Cons: "check_times endTime now = now # (if endTime \<le> now then []
    else check_times endTime (now + (if endTime - now > 300 then 30 else 1)))"
  by (subst check_times.simps) (simp add: auction_check_def Let_def)

text \<open>C40. The end of the auction is noticed at once: from any second on, if the timers fire on time, the
  looks at the clock come to an end, and the last one is at the very second at which the auction ends (or
  at the start, when it is over already), although the clock is read only every half minute until five
  minutes are left; and what the timer shows in between, in hours, minutes and seconds, is the time left,
  if that is less than a day.\<close>

theorem auction_end_noticed:
  "last (check_times endTime now) = max endTime now \<and>
   (\<forall>t \<in> set (butlast (check_times endTime now)). t < endTime) \<and>
   (let (hours, mins, secs) = timer_parts (fst (auction_timer endTime now))
    in now \<le> endTime \<and> endTime < now + 86400 \<longrightarrow> hours * 3600 + mins * 60 + secs = endTime - now)"
proof -
  have "last (check_times endTime now) = max endTime now \<and> (\<forall>t \<in> set (butlast (check_times endTime now)). t < endTime)"
  proof (induction endTime now rule: check_times.induct)
    case (1 endTime now)
    show ?case
    proof (cases "endTime \<le> now")
      case True
      then show ?thesis by (subst (1 2) check_times_Cons) simp
    next
      case False
      let ?n = "now + (if endTime - now > 300 then 30 else 1)"
      have "?n \<le> endTime" using False by simp
      moreover have "last (check_times endTime ?n) = max endTime ?n \<and> (\<forall>t \<in> set (butlast (check_times endTime ?n)). t < endTime)"
        using 1 [of False] False by (auto simp: auction_check_def Let_def split: if_splits)
      moreover have "check_times endTime ?n \<noteq> []" by (subst check_times_Cons) simp
      ultimately show ?thesis using False by (subst (1 2) check_times_Cons) (auto simp: max_def)
    qed
  qed
  moreover have "x div 3600 mod 24 * 3600 + x div 60 mod 60 * 60 + x mod 60 = x" if "0 \<le> x" "x < 86400" for x :: int
  proof -
    have "x div 60 div 60 = x div 3600" by (simp add: zdiv_zmult2_eq [symmetric])
    then have "x = x div 3600 * 3600 + x div 60 mod 60 * 60 + x mod 60"
      using div_mult_mod_eq [of x 60] div_mult_mod_eq [of "x div 60" 60] by linarith
    moreover have "x div 3600 mod 24 = x div 3600" using that by (intro mod_pos_pos_trivial) auto
    ultimately show ?thesis by simp
  qed
  ultimately show ?thesis by (auto simp: timer_parts_def auction_timer_def Let_def)
qed

section \<open>Examples\<close>

definition demo_bids_lib :: bid_lib where
  "demo_bids_lib =
     \<lparr>bb_parseEther = (\<lambda>s. case split_str ''.'' s of
          [a, b] \<Rightarrow> Inr (int (base_value 10 a * 100 + base_value 10 b) * 10 ^ 16)
        | _ \<Rightarrow> of_option TypeError (parseInt 10 s)),
      bb_formatEther = int_to_base 10, bb_exponential = (\<lambda>n. ''e''),
      bb_from = (\<lambda>s. if s = ''e'' then Inl TypeError else of_option TypeError (parseInt 10 s)),
      bb_fixed2Ceil = (\<lambda>s. case parseInt 10 s of None \<Rightarrow> [] | Some n \<Rightarrow> cents (ceil_div n (10 ^ 16))),
      bb_fixed2 = id\<rparr>"

lemma dec_chars: "c \<in> set (dec n) \<Longrightarrow> c \<noteq> CHR ''.'' \<and> c \<noteq> CHR ''e''"
proof -
  assume "c \<in> set (dec n)"
  then obtain d where "d < 10" "c = digit_char d" using nat_to_base_digits [of 10 c n] by auto
  then show ?thesis using nat_less_16_cases [of d] by (auto simp: digit_char_def)
qed

lemma demo_bids_lib_ok: "bid_lib_ok demo_bids_lib"
proof -
  have "n = int (nat n)" if "0 \<le> n" for n :: int using that by simp
  then have int: "int_to_base 10 n = dec (nat n)" if "0 \<le> n" for n using that by (simp add: int_to_base_def)
  have e: "dec n \<noteq> ''e''" for n
    using dec_chars [of "CHR ''e''" n] by auto
  have parts: "split_str ''.'' (cents n) = [dec (nat (n div 100)), padStart (dec (nat (n mod 100))) 2 (CHR ''0'')]" if n: "0 \<le> n" for n
  proof -
    have "CHR ''.'' \<notin> set (dec (nat (n div 100)))" using dec_chars by blast
    moreover have "CHR ''.'' \<notin> set (padStart (dec (nat (n mod 100))) 2 (CHR ''0''))"
      using dec_chars [of "CHR ''.''"] by (auto simp: padStart_def)
    ultimately show ?thesis
      using n by (simp add: cents_def int pos_imp_zdiv_nonneg_iff split_str_char_append split_str_char_single)
  qed
  have pad: "base_value 10 (padStart (dec k) 2 (CHR ''0'')) = k" for k
    by (simp add: padStart_def base_value_leading_zeros base_value_nat_to_base flip: digit_char_0)
  have "bb_parseEther demo_bids_lib (cents n) = Inr (n * 10 ^ 16)" if "0 \<le> n" for n
  proof -
    have "base_value 10 (dec (nat (n div 100))) * 100 + base_value 10 (padStart (dec (nat (n mod 100))) 2 (CHR ''0'')) = nat n"
      using that by (simp add: pad base_value_nat_to_base nat_div_distrib nat_mod_distrib)
    then show ?thesis using that parts by (simp add: demo_bids_lib_def del: of_nat_add of_nat_mult)
  qed
  then show ?thesis
    by (auto simp: bid_lib_ok_def demo_bids_lib_def int e)
qed

text \<open>The auction house of the example before the first bid, and a page that shows it.\<close>

lemma demo_page:
  obtains s r a where "watching demo_house [] [] [] s" "ap_auction r = ap_auction s" "useOnDisplayAuction r = Inr (Some a)"
    "wa_tokenId a = 4" "wa_amount a = 0"
proof -
  let ?a = "ho_auction demo_house"
  let ?s = "dispatch_action (SetLastAuctionTokenId 4) (dispatch_action (SetFullAuction ?a) (initial_app []))"
  let ?r = "dispatch_action (SetOnDisplayAuctionTokenId 4) ?s"
  have "chain demo_house [] []"
    using chain.step [OF chain.start [of 5 1 5 100], of "Unpause 1 (Some 4)" demo_house "[AuctionCreated 4 1 101]"]
    by (simp add: unpause_def initial_house_def createAuction_internal_def demo_house_def)
  then have "watching demo_house [] [] [] ?s"
    by (rule watching.connect [of _ _ _ "[]" "[]"]) (simp_all add: loadState_def toNumber_def demo_house_def)
  moreover have "ap_auction ?r = ap_auction ?s" by simp
  moreover have "useOnDisplayAuction ?r = Inr (Some (deserializeAuction ?a))"
    by (simp add: useOnDisplayAuction_def setOnDisplayAuctionTokenId_def setFullAuction_def initial_app_def
        initial_auction_def demo_house_def)
  moreover have "wa_tokenId (deserializeAuction ?a) = 4" "wa_amount (deserializeAuction ?a) = 0"
    by (simp_all add: deserializeAuction_def demo_house_def)
  ultimately show thesis using that by blast
qed

theorem bid_form_matches_contract_witness:
  "createBid ''tx'' 50 ''0xab'' (3 * 10 ^ 16) 4 demo_house \<noteq> None"
proof -
  obtain s r a where p: "watching demo_house [] [] [] s" "ap_auction r = ap_auction s" "useOnDisplayAuction r = Inr (Some a)"
    "wa_tokenId a = 4" "wa_amount a = 0" by (rule demo_page)
  have "bb_parseEther demo_bids_lib (cents 3) = Inr (3 * 10 ^ 16)"
    using demo_bids_lib_ok by (simp add: bid_lib_ok_def)
  moreover have "cents 3 \<noteq> []" by (simp add: cents_def)
  moreover have "computeMinimumNextBid (wa_amount a) (Some (ho_minBidIncrementPercentage demo_house)) = 0"
    by (simp add: p(5) computeMinimumNextBid_def)
  ultimately show ?thesis
    using bid_form_matches_contract [OF demo_bids_lib_ok p(1) _ p(2,3), of "cents 3" "3 * 10 ^ 16" 50 0 "\<lambda>_ _. Inr 1" "''tx''" "''0xab''"]
      p(4) by (simp add: demo_house_def initial_house_def)
qed


theorem auction_end_noticed_witness:
  "last (check_times 1000 200) = 1000 \<and> timer_parts (fst (auction_timer 1000 200)) = (0, 13, 20)"
  using auction_end_noticed [of 1000 200] by (simp add: timer_parts_def auction_timer_def)

end
