(* ===== verification/Codec.thy ===== *)
theory Codec
  imports Prelude
begin

text \<open>
  The interface the serialised formats of the repository share: an encoder into strings of one
  fixed width per item, a decoder of one such chunk, and the law that decoding inverts encoding on
  the well-formed items. The locale proves once that a whole concatenation of items decodes item
  by item and that encoding is injective. It is interpreted on the run-length pairs of the image
  format (theory \<open>Sdk_Image\<close>) and on the hexadecimal bytes of a seed hash
  (theory \<open>Tasks_Seed\<close>).
\<close>

text \<open>Cutting a list into chunks of \<open>w\<close> elements, the last one possibly shorter.\<close>

function chunks_of :: "nat \<Rightarrow> 'a list \<Rightarrow> 'a list list" where
  "chunks_of w xs =
     (if xs = [] then [] else if w = 0 then [xs] else take w xs # chunks_of w (drop w xs))"
  by pat_completeness auto
termination
  by (relation "measure (\<lambda>(w, xs). length xs)") auto

declare chunks_of.simps [simp del]

lemma chunks_of_Nil [simp]: "chunks_of w [] = []"
  by (simp add: chunks_of.simps)

lemma chunks_of_append:
  "length xs = w \<Longrightarrow> 0 < w \<Longrightarrow> chunks_of w (xs @ ys) = xs # chunks_of w ys"
  by (subst chunks_of.simps) auto

lemma concat_chunks_of: "concat (chunks_of w xs) = xs"
proof (induction w xs rule: chunks_of.induct)
  case (1 w xs)
  then show ?case by (cases "xs = [] \<or> w = 0") (auto simp: chunks_of.simps [of w xs])
qed

lemma chunks_of_concat:
  assumes "\<And>xs. xs \<in> set xss \<Longrightarrow> length xs = w" and "0 < w"
  shows "chunks_of w (concat xss) = xss"
  using assms by (induction xss) (simp_all add: chunks_of_append)

locale fixed_codec =
  fixes enc :: "'a \<Rightarrow> string"
    and dec1 :: "string \<Rightarrow> 'b"
    and view :: "'a \<Rightarrow> 'b"
    and wf :: "'a \<Rightarrow> bool"
    and width :: nat
  assumes width_pos: "0 < width"
    and enc_width: "wf x \<Longrightarrow> length (enc x) = width"
    and dec_enc: "wf x \<Longrightarrow> dec1 (enc x) = view x"
    and view_inj: "wf x \<Longrightarrow> wf y \<Longrightarrow> view x = view y \<Longrightarrow> x = y"
begin

lemma enc_inject: "wf x \<Longrightarrow> wf y \<Longrightarrow> enc x = enc y \<longleftrightarrow> x = y"
  by (metis dec_enc view_inj)

lemma chunks_enc: "list_all wf xs \<Longrightarrow> chunks_of width (concat (map enc xs)) = map enc xs"
  by (rule chunks_of_concat) (auto simp: width_pos enc_width list_all_iff)

lemma dec_all: "list_all wf xs \<Longrightarrow> map dec1 (chunks_of width (concat (map enc xs))) = map view xs"
  by (simp add: chunks_enc dec_enc list_all_iff)

lemma length_enc_all: "list_all wf xs \<Longrightarrow> length (concat (map enc xs)) = width * length xs"
  by (induction xs) (simp_all add: enc_width)

lemma enc_all_inject:
  assumes "list_all wf xs" and "list_all wf ys"
    and "concat (map enc xs) = concat (map enc ys)"
  shows "xs = ys"
proof -
  have "map view xs = map view ys"
    using assms by (metis dec_all)
  with assms(1,2) show ?thesis
  proof (induction xs arbitrary: ys)
    case Nil
    then show ?case by simp
  next
    case (Cons x xs)
    then obtain y ys' where "ys = y # ys'" by (cases ys) auto
    with Cons show ?case by (auto intro: view_inj)
  qed
qed

end

end
