(* ===== verification/Assets.thy ===== *)
theory Assets
  imports Prelude "HOL-Library.Multiset" Complex_Main
begin

text \<open>
  \<open>packages/punks-assets/src/utils.ts\<close>: part lookup, weighted choice, grouping of exclusive
  accessories, the random seed and the emulation of the seeder's shifts. The images and the
  probability document are parameters. A call of \<open>Math.random()\<close> is a rational number of the
  parameter \<open>rnd\<close>, taken in the order of the calls; rounding is not modelled.
\<close>

section \<open>Parts\<close>

record acc_ref =
  ar_accType :: int
  ar_accId :: int

record iseed =
  is_punkType :: int
  is_skinTone :: int
  is_accessories :: "acc_ref list"

definition type2PunkBasic :: "(int \<times> int) list" where
  "type2PunkBasic =
     [(0, 0), (0, 1), (0, 2), (0, 3), (1, 0), (1, 1), (1, 2), (1, 3), (2, 6), (3, 5), (4, 4)]"

text \<open>\<open>xs[i]\<close>; \<open>None\<close> is \<open>undefined\<close>.\<close>

definition js_nth :: "'a list \<Rightarrow> int \<Rightarrow> 'a option" where
  "js_nth xs i = (if 0 \<le> i \<and> i < int (length xs) then Some (xs ! nat i) else None)"

definition js_findIndex :: "('a \<Rightarrow> bool) \<Rightarrow> 'a list \<Rightarrow> int" where
  "js_findIndex P xs = (case find_index P xs of None \<Rightarrow> - 1 | Some i \<Rightarrow> int i)"

definition getPunkData :: "'img list \<Rightarrow> 'img list list \<Rightarrow> iseed \<Rightarrow> 'img option list result" where
  "getPunkData types accResource s =
     (let base = js_nth types
            (js_findIndex (\<lambda>(pt, sk). pt = is_punkType s \<and> sk = is_skinTone s) type2PunkBasic)
      in rbind (rmap_list (\<lambda>acc.
             rbind (of_option TypeError (js_nth accResource (ar_accType acc))) (\<lambda>group.
               Inr (js_nth group (ar_accId acc)))) (is_accessories s))
           (\<lambda>parts. Inr (base # parts)))"

section \<open>Weighted choice\<close>

fun accumulate :: "rat \<Rightarrow> rat list \<Rightarrow> rat list" where
  "accumulate acc0 [] = []"
| "accumulate acc0 (p # ps) = (acc0 + p) # accumulate (acc0 + p) ps"

definition pickRandom :: "rat list \<Rightarrow> rat \<Rightarrow> int" where
  "pickRandom possibilities u =
     (let accumulated = accumulate 0 possibilities
      in if accumulated = [] then - 1
         else let randomness = u * last accumulated
              in js_findIndex (\<lambda>val. val > randomness) accumulated)"

section \<open>Groups of exclusive accessories\<close>

fun take_group :: "string list \<Rightarrow> string list \<Rightarrow> string list \<times> string list" where
  "take_group [] accs = ([], accs)"
| "take_group (item # items) accs =
     (if item \<in> set accs
      then let (taken, accs1) = take_group items (remove1 item accs) in (item # taken, accs1)
      else take_group items accs)"

fun group_loop :: "string list list \<Rightarrow> string list \<Rightarrow> string list list" where
  "group_loop [] accs = map (\<lambda>item. [item]) accs"
| "group_loop (exc # excs) accs =
     (let (group, accs') = take_group exc accs in group # group_loop excs accs')"

definition groupByExclusive :: "string list \<Rightarrow> string list list \<Rightarrow> string list list" where
  "groupByExclusive accs exclusive_groups = group_loop exclusive_groups accs"

section \<open>The random seed\<close>

record type_prob =
  tp_probability :: rat
  tp_skin :: "rat list"
  tp_accessories :: "string list"

text \<open>\<open>accessory_count_probabbilities\<close> is read from the top of the document, where it may be
  missing.\<close>

record prob_config =
  pc_types :: "string list"
  pc_probabilities :: "(string, type_prob) omap"
  pc_exclusive_groups :: "string list list"
  pc_acc_types :: "string list"
  pc_accessory_count_probabbilities :: "rat list option"

definition acc_type_index :: "prob_config \<Rightarrow> string \<Rightarrow> int" where
  "acc_type_index probs item = js_findIndex (\<lambda>k. k = item) (pc_acc_types probs)"

definition resource_length :: "prob_config \<Rightarrow> 'img list list \<Rightarrow> string \<Rightarrow> int result" where
  "resource_length probs accResource item =
     rbind (of_option TypeError (js_nth accResource (acc_type_index probs item))) (\<lambda>r. Inr (int (length r)))"

definition countPerGroup :: "prob_config \<Rightarrow> 'img list list \<Rightarrow> string list list \<Rightarrow> int list result" where
  "countPerGroup probs accResource groupedAccs =
     rmap_list (\<lambda>group. rbind (rmap_list (resource_length probs accResource) group) (\<lambda>ns. Inr (sum_list ns)))
       groupedAccs"

text \<open>The loop that picks a group per accessory and clears its weight; \<open>n\<close> counts the random
  numbers used. Assigning to index \<open>-1\<close> of an array changes no element.\<close>

fun pick_groups :: "(nat \<Rightarrow> rat) \<Rightarrow> nat \<Rightarrow> nat \<Rightarrow> int list \<Rightarrow> int list" where
  "pick_groups rnd n 0 counts = []"
| "pick_groups rnd n (Suc k) counts =
     (let g = pickRandom (map of_int counts) (rnd n)
      in g # pick_groups rnd (n + 1) k (if 0 \<le> g then counts[nat g := 0] else counts))"

definition pick_accessory ::
  "prob_config \<Rightarrow> 'img list list \<Rightarrow> string list list \<Rightarrow> rat \<Rightarrow> rat \<Rightarrow> int \<Rightarrow> acc_ref result" where
  "pick_accessory probs accResource groupedAccs u v g =
     rbind (of_option TypeError (js_nth groupedAccs g)) (\<lambda>currentGroup.
     rbind (rmap_list (resource_length probs accResource) currentGroup) (\<lambda>weights.
       let selectedAccIndex = pickRandom (map of_int weights) u;
           selectedAcc = (case js_nth currentGroup selectedAccIndex of
                            None \<Rightarrow> - 1 | Some item \<Rightarrow> acc_type_index probs item)
       in rbind (of_option TypeError (js_nth accResource selectedAcc)) (\<lambda>r.
            Inr \<lparr>ar_accType = selectedAcc, ar_accId = \<lfloor>v * of_nat (length r)\<rfloor>\<rparr>)))"

fun pick_accessories ::
  "prob_config \<Rightarrow> 'img list list \<Rightarrow> string list list \<Rightarrow> (nat \<Rightarrow> rat) \<Rightarrow> nat \<Rightarrow> int list \<Rightarrow> acc_ref list result" where
  "pick_accessories probs accResource groupedAccs rnd n [] = Inr []"
| "pick_accessories probs accResource groupedAccs rnd n (g # gs) =
     rbind (pick_accessory probs accResource groupedAccs (rnd n) (rnd (n + 1)) g) (\<lambda>a.
     rbind (pick_accessories probs accResource groupedAccs rnd (n + 2) gs) (\<lambda>as. Inr (a # as)))"

definition getRandomPunkSeed :: "prob_config \<Rightarrow> 'img list list \<Rightarrow> (nat \<Rightarrow> rat) \<Rightarrow> iseed result" where
  "getRandomPunkSeed probs accResource rnd =
     (let typeProbabilities = map (\<lambda>(_, p). of_int \<lfloor>tp_probability p * 1000\<rfloor>) (pc_probabilities probs);
          punkType = pickRandom typeProbabilities (rnd 0)
      in rbind (of_option TypeError (Option.bind (js_nth (pc_types probs) punkType) (map_of (pc_probabilities probs))))
         (\<lambda>prob.
           let skinTone = pickRandom (tp_skin prob) (rnd 1);
               groupedAccs = groupByExclusive (tp_accessories prob) (pc_exclusive_groups probs)
           in rbind (of_option TypeError (pc_accessory_count_probabbilities probs)) (\<lambda>counts.
                let accCount = pickRandom (take (length groupedAccs) counts) (rnd 2)
                in rbind (countPerGroup probs accResource groupedAccs) (\<lambda>weights.
                   rbind (pick_accessories probs accResource groupedAccs rnd (3 + nat accCount)
                            (pick_groups rnd 3 (nat accCount) weights)) (\<lambda>accs.
                     Inr \<lparr>is_punkType = punkType, is_skinTone = skinTone, is_accessories = accs\<rparr>)))))"

section \<open>The emulation of the seeder's shifts\<close>

text \<open>\<open>toHexString\<close> is \<open>BigNumber.toHexString\<close> of ethers and \<open>from_string\<close> is
  \<open>BigNumber.from\<close> on a string; \<open>from_string\<close> may throw.\<close>

definition shiftRightAndCast :: "(nat \<Rightarrow> string) \<Rightarrow> nat \<Rightarrow> nat \<Rightarrow> nat \<Rightarrow> string" where
  "shiftRightAndCast toHexString v shiftAmount uintSize =
     (let shifted = toHexString (v div 2 ^ shiftAmount)
      in ''0x'' @ substring_from shifted (length shifted - uintSize div 4))"

definition getPseudorandomPart ::
  "(nat \<Rightarrow> string) \<Rightarrow> (string \<Rightarrow> nat result) \<Rightarrow> nat \<Rightarrow> nat \<Rightarrow> nat \<Rightarrow> nat \<Rightarrow> nat result" where
  "getPseudorandomPart toHexString from_string pseudorandomness partCount shiftAmount uintSize =
     rbind (from_string (shiftRightAndCast toHexString pseudorandomness shiftAmount uintSize)) (\<lambda>n.
       if partCount = 0 then Inl (ErrorMsg ''division-by-zero'') else Inr (n mod partCount))"

text \<open>The hash of the block is computed and not used.\<close>

definition getPunkSeedFromBlockHash :: "prob_config \<Rightarrow> 'img list list \<Rightarrow> (nat \<Rightarrow> rat) \<Rightarrow> nat \<Rightarrow> string \<Rightarrow> iseed result" where
  "getPunkSeedFromBlockHash probs accResource rnd punkId blockHash = getRandomPunkSeed probs accResource rnd"

section \<open>Merging two image files\<close>

fun merge_images :: "(string, 'a list) omap \<Rightarrow> (string, 'a list) omap \<Rightarrow> (string, 'a list) omap result" where
  "merge_images base [] = Inr base"
| "merge_images base ((k, v) # new) =
     rbind (of_option TypeError (map_of base k)) (\<lambda>old. merge_images (omap_set k (old @ v) base) new)"

section \<open>What the weighted choice chooses\<close>

lemma length_accumulate [simp]: "length (accumulate t ps) = length ps"
  by (induction ps arbitrary: t) simp_all

lemma accumulate_nth: "i < length ps \<Longrightarrow> accumulate t ps ! i = t + sum_list (take (Suc i) ps)"
proof (induction ps arbitrary: t i)
  case (Cons p ps)
  then show ?case by (cases i) (simp_all add: add.assoc)
qed simp

lemma accumulate_Nil_iff [simp]: "accumulate t ps = [] \<longleftrightarrow> ps = []"
  by (cases ps) simp_all

lemma last_accumulate: "ps \<noteq> [] \<Longrightarrow> last (accumulate 0 ps) = sum_list ps"
  by (simp add: last_conv_nth accumulate_nth)

lemma sum_take_mono:
  assumes "\<forall>p \<in> set ps. 0 \<le> (p::rat)" and "i \<le> j"
  shows "sum_list (take i ps) \<le> sum_list (take j ps)"
proof -
  have "take j ps = take i ps @ take (j - i) (drop i ps)" using assms(2) by (metis le_add_diff_inverse take_add)
  moreover have "0 \<le> sum_list (take (j - i) (drop i ps))"
    using assms(1) by (intro sum_list_nonneg) (auto dest: in_set_takeD in_set_dropD)
  ultimately show ?thesis by simp
qed

lemma js_findIndex_iff:
  "js_findIndex P xs = int i \<longleftrightarrow> i < length xs \<and> P (xs ! i) \<and> (\<forall>j < i. \<not> P (xs ! j))"
  using find_index_Some_iff [of P xs i] by (auto simp: js_findIndex_def split: option.splits)

text \<open>Weighted choice: for weights that are not negative and a random number in \<open>[0, 1)\<close>,
  \<open>pickRandom\<close> returns index \<open>i\<close> exactly when the random number, scaled by the sum of the weights,
  lies between the sum of the weights before \<open>i\<close> (inclusive) and that sum plus the weight of
  \<open>i\<close> (exclusive). So an index comes up in proportion to its weight, and one of weight 0 never.\<close>

lemma pickRandom_interval:
  assumes "\<forall>p \<in> set ps. 0 \<le> p" and "0 \<le> u" and "i < length ps"
  shows "pickRandom ps u = int i \<longleftrightarrow>
    sum_list (take i ps) \<le> u * sum_list ps \<and>
    u * sum_list ps < sum_list (take (Suc i) ps)"
proof -
  let ?r = "u * sum_list ps"
  have ne: "ps \<noteq> []" using assms(3) by auto
  have r0: "0 \<le> ?r" using assms(1,2) by (intro mult_nonneg_nonneg) (auto intro: sum_list_nonneg)
  have "pickRandom ps u = int i \<longleftrightarrow>
      accumulate 0 ps ! i > ?r \<and> (\<forall>j < i. \<not> accumulate 0 ps ! j > ?r)"
    using ne assms(3) by (simp add: pickRandom_def last_accumulate js_findIndex_iff)
  also have "\<dots> \<longleftrightarrow> sum_list (take (Suc i) ps) > ?r \<and> (\<forall>j < i. sum_list (take (Suc j) ps) \<le> ?r)"
    using assms(3) by (simp add: accumulate_nth not_less)
  also have "(\<forall>j < i. sum_list (take (Suc j) ps) \<le> ?r) \<longleftrightarrow> sum_list (take i ps) \<le> ?r"
  proof
    assume all: "\<forall>j < i. sum_list (take (Suc j) ps) \<le> ?r"
    show "sum_list (take i ps) \<le> ?r"
    proof (cases i)
      case 0
      then show ?thesis using r0 by simp
    next
      case (Suc j)
      then show ?thesis using all by simp
    qed
  next
    assume top: "sum_list (take i ps) \<le> ?r"
    show "\<forall>j < i. sum_list (take (Suc j) ps) \<le> ?r"
    proof (intro allI impI)
      fix j assume "j < i"
      then have "sum_list (take (Suc j) ps) \<le> sum_list (take i ps)"
        by (intro sum_take_mono [OF assms(1)]) simp
      with top show "sum_list (take (Suc j) ps) \<le> ?r" by simp
    qed
  qed
  finally show ?thesis by blast
qed

section \<open>What the grouping keeps\<close>

lemma take_group_mset:
  "take_group items accs = (g, rest) \<Longrightarrow> mset g + mset rest = mset accs \<and> set g \<subseteq> set items"
proof (induction items accs arbitrary: g rest rule: take_group.induct)
  case (2 item items accs)
  show ?case
  proof (cases "item \<in> set accs")
    case True
    with 2(3) obtain g' where g': "take_group items (remove1 item accs) = (g', rest)" "g = item # g'"
      by (auto split: prod.splits)
    from 2(1) [OF True g'(1)] g'(2) True show ?thesis by auto
  next
    case False
    with 2(2) [OF False] 2(3) show ?thesis by auto
  qed
qed simp

lemma group_loop_mset: "mset (concat (group_loop excs accs)) = mset accs"
proof (induction excs arbitrary: accs)
  case Nil
  then show ?case by (induction accs) simp_all
next
  case (Cons exc excs)
  obtain g rest where "take_group exc accs = (g, rest)" by (cases "take_group exc accs")
  with take_group_mset [OF this] Cons [of rest] show ?case by simp
qed

text \<open>Grouping: \<open>groupByExclusive\<close> distributes the accessories over the groups without
  losing or repeating one, the first groups are sublists of the exclusive groups in their order, and
  every accessory that is in none of these groups forms a group of its own.\<close>

lemma groups_partition:
  "mset (concat (groupByExclusive accs excs)) = mset accs \<and>
   list_all2 (\<lambda>g exc. set g \<subseteq> set exc) (take (length excs) (groupByExclusive accs excs)) excs \<and>
   list_all (\<lambda>g. length g = 1) (drop (length excs) (groupByExclusive accs excs))"
proof -
  have "list_all2 (\<lambda>g exc. set g \<subseteq> set exc) (take (length excs) (group_loop excs accs)) excs \<and>
      list_all (\<lambda>g. length g = 1) (drop (length excs) (group_loop excs accs))"
  proof (induction excs arbitrary: accs)
    case Nil
    then show ?case by (simp add: list_all_iff)
  next
    case (Cons exc excs)
    obtain g rest where "take_group exc accs = (g, rest)" by (cases "take_group exc accs")
    with take_group_mset [OF this] Cons [of rest] show ?case by simp
  qed
  then show ?thesis by (simp add: groupByExclusive_def group_loop_mset)
qed

section \<open>The random seed\<close>

text \<open>With a document that has no \<open>accessory_count_probabbilities\<close> of its own (the document of
  the repository has one per punk type only), \<open>getRandomPunkSeed\<close> throws a \<open>TypeError\<close> for all
  random numbers, and so does \<open>getPunkSeedFromBlockHash\<close>.\<close>

lemma random_seed_throws:
  assumes "pc_accessory_count_probabbilities probs = None"
  shows "getRandomPunkSeed probs accResource rnd = Inl TypeError \<and>
    getPunkSeedFromBlockHash probs accResource rnd punkId blockHash = Inl TypeError"
  using assms
  by (cases "of_option TypeError (Option.bind (js_nth (pc_types probs)
        (pickRandom (map (\<lambda>(_, p). of_int \<lfloor>tp_probability p * 1000\<rfloor>) (pc_probabilities probs)) (rnd 0))) (map_of (pc_probabilities probs)))")
    (auto simp: getRandomPunkSeed_def getPunkSeedFromBlockHash_def of_option_def split: option.splits)

section \<open>The emulated shift\<close>

lemma nat_to_base_length_bounds:
  "2 \<le> b \<Longrightarrow> n < b ^ length (nat_to_base b n) \<and> (b \<le> n \<longrightarrow> b ^ (length (nat_to_base b n) - 1) \<le> n)"
proof (induction b n rule: nat_to_base.induct)
  case (1 b n)
  show ?case
  proof (cases "n < b")
    case True
    then show ?thesis by (simp add: nat_to_base.simps [of b n])
  next
    case False
    let ?l = "length (nat_to_base b (n div b))"
    have l: "length (nat_to_base b n) = Suc ?l" using False 1(2) by (simp add: nat_to_base.simps [of b n])
    have ih: "n div b < b ^ ?l" "b \<le> n div b \<longrightarrow> b ^ (?l - 1) \<le> n div b"
      using 1 False by simp_all
    have "n < b * b ^ ?l" using ih(1) 1(2) by (simp add: div_less_iff_less_mult mult.commute)
    moreover have "b ^ ?l \<le> n"
    proof (cases "b \<le> n div b")
      case True
      have "0 < ?l" by simp
      then have "b ^ ?l = b * b ^ (?l - 1)" by (metis Suc_diff_1 power_Suc)
      also have "\<dots> \<le> b * (n div b)" using ih(2) True by simp
      also have "\<dots> \<le> n" by simp
      finally show ?thesis .
    next
      case f: False
      then have "?l = 1" using 1(2) by (simp add: nat_to_base.simps [of b "n div b"])
      then show ?thesis using False by simp
    qed
    ultimately show ?thesis using l by simp
  qed
qed

definition even_hex :: "nat \<Rightarrow> string" where
  "even_hex n = (let h = hex n in if odd (length h) then CHR ''0'' # h else h)"

lemma even_hex_digits: "c \<in> set (even_hex n) \<Longrightarrow> is_digit_of 16 c"
proof -
  assume "c \<in> set (even_hex n)"
  then have "c = digit_char 0 \<or> c \<in> set (hex n)" by (auto simp: even_hex_def Let_def digit_char_0 split: if_splits)
  then show ?thesis using nat_to_base_digits [of 16 c n] is_digit_of_digit_char [of _ 16] by auto
qed

lemma even_hex_value: "base_value 16 (even_hex n) = n"
  using base_value_leading_zeros [of 16 1 "hex n"]
  by (simp add: even_hex_def Let_def digit_char_0 base_value_nat_to_base)

lemma even_hex_length: "2 * k \<le> length (even_hex n) \<longleftrightarrow> k \<le> 1 \<or> 256 ^ (k - 1) \<le> n"
proof (cases "k \<le> 1")
  case True
  obtain l where "length (hex n) = Suc l" by (cases "length (hex n)") auto
  then have "2 \<le> length (even_hex n)" by (cases l) (simp_all add: even_hex_def Let_def)
  with True show ?thesis by simp
next
  case False
  have len: "length (even_hex n) = (if odd (length (hex n)) then Suc (length (hex n)) else length (hex n))"
    by (simp add: even_hex_def Let_def)
  have p: "(256::nat) ^ (k - 1) = 16 ^ (2 * (k - 1))" by (simp add: power_mult)
  have bounds: "n < 16 ^ length (hex n)" "16 \<le> n \<Longrightarrow> 16 ^ (length (hex n) - 1) \<le> n"
    using nat_to_base_length_bounds [of 16 n] by simp_all
  show ?thesis
  proof
    assume "2 * k \<le> length (even_hex n)"
    then have l: "2 * k - 1 \<le> length (hex n)" using len by (auto split: if_splits)
    then have big: "16 \<le> n" using False hex_less_16 [of n] by (cases "n < 16") auto
    have "(16::nat) ^ (2 * (k - 1)) \<le> 16 ^ (length (hex n) - 1)"
      using l by (intro power_increasing) auto
    from order_trans [OF this bounds(2) [OF big]] show "k \<le> 1 \<or> 256 ^ (k - 1) \<le> n" unfolding p by blast
  next
    assume "k \<le> 1 \<or> 256 ^ (k - 1) \<le> n"
    then have "(16::nat) ^ (2 * (k - 1)) \<le> n" using False unfolding p by blast
    then have "(16::nat) ^ (2 * (k - 1)) < 16 ^ length (hex n)" using bounds(1) by (rule le_less_trans)
    then have "2 * (k - 1) < length (hex n)" by (rule power_less_imp_less_exp [rotated]) simp
    then show "2 * k \<le> length (even_hex n)" using len False by (auto split: if_splits)
  qed
qed

lemma even_hex_even: "even (length (even_hex n))"
  by (simp add: even_hex_def Let_def)

text \<open>The documented behaviour of ethers that the property relies on: numbers are written in whole
  bytes; a string is read when it is \<open>0x\<close> and hexadecimal digits, and rejected when a character
  after the prefix is none.\<close>

definition writes_hex_bytes :: "(nat \<Rightarrow> string) \<Rightarrow> bool" where
  "writes_hex_bytes toHexString \<longleftrightarrow> (\<forall>n. toHexString n = ''0x'' @ even_hex n)"

definition reads_hex :: "(string \<Rightarrow> nat result) \<Rightarrow> bool" where
  "reads_hex from_string \<longleftrightarrow>
     (\<forall>t. t \<noteq> [] \<longrightarrow> list_all (is_digit_of 16) t \<longrightarrow> from_string (''0x'' @ t) = Inr (base_value 16 t)) \<and>
     (\<forall>t. \<not> list_all (is_digit_of 16) t \<longrightarrow> from_string (''0x'' @ t) = Inl (ErrorMsg ''invalid BigNumber string''))"

definition bn_from :: "string \<Rightarrow> nat result" where
  "bn_from s =
     (if take 2 s = ''0x'' \<and> drop 2 s \<noteq> [] \<and> list_all (is_digit_of 16) (drop 2 s)
      then Inr (base_value 16 (drop 2 s)) else Inl (ErrorMsg ''invalid BigNumber string''))"

lemma cast_text:
  "writes_hex_bytes th \<Longrightarrow> shiftRightAndCast th v sh (8 * k) =
     ''0x'' @ drop (2 + length (even_hex (v div 2 ^ sh)) - 2 * k) (''0x'' @ even_hex (v div 2 ^ sh))"
  by (simp add: shiftRightAndCast_def writes_hex_bytes_def Let_def substring_from_def)

text \<open>C38. The emulated shift: for a width of \<open>k\<close> bytes, \<open>getPseudorandomPart\<close> returns the
  shifted number cut to that width, modulo the number of parts, when the shifted number has at least
  \<open>k\<close> bytes; a shorter one makes it throw, because the prefix of the number is taken for one of its
  digits. It also throws for zero parts.\<close>

theorem getPseudorandomPart_cast:
  assumes th: "writes_hex_bytes th" and rd: "reads_hex rd" and "0 < k"
  shows "getPseudorandomPart th rd v partCount sh (8 * k) =
    (if k = 1 \<or> 256 ^ (k - 1) \<le> v div 2 ^ sh
     then (if partCount = 0 then Inl (ErrorMsg ''division-by-zero'')
           else Inr (v div 2 ^ sh mod 2 ^ (8 * k) mod partCount))
     else Inl (ErrorMsg ''invalid BigNumber string''))"
proof -
  let ?n = "v div 2 ^ sh"
  let ?H = "even_hex ?n"
  show ?thesis
  proof (cases "2 * k \<le> length ?H")
    case True
    let ?t = "drop (length ?H - 2 * k) ?H"
    have shown: "shiftRightAndCast th v sh (8 * k) = ''0x'' @ ?t"
      using True by (simp add: cast_text [OF th] Suc_diff_le)
    have digits: "list_all (is_digit_of 16) ?t"
      by (auto simp: list_all_iff dest!: in_set_dropD even_hex_digits)
    have len: "length ?t = 2 * k" using True by simp
    have "?n = base_value 16 (take (length ?H - 2 * k) ?H) * 16 ^ (2 * k) + base_value 16 ?t"
      using base_value_append [of 16 "take (length ?H - 2 * k) ?H" ?t] len by (simp add: even_hex_value)
    moreover have "base_value 16 ?t < 16 ^ (2 * k)" using base_value_less [OF digits] len by simp
    ultimately have "base_value 16 ?t = ?n mod 16 ^ (2 * k)" by (metis mod_less mod_mult_self3)
    moreover have "(16::nat) ^ (2 * k) = 2 ^ (8 * k)" by (simp add: power_mult)
    moreover have "?t \<noteq> []" using len assms(3) by auto
    ultimately have "rd (shiftRightAndCast th v sh (8 * k)) = Inr (?n mod 2 ^ (8 * k))"
      using digits rd unfolding shown reads_hex_def by metis
    then show ?thesis
      using True assms(3) even_hex_length [of k ?n] by (auto simp: getPseudorandomPart_def)
  next
    case False
    then have "2 + length ?H - 2 * k = 0" using even_hex_even [of ?n] by presburger
    then have shown: "shiftRightAndCast th v sh (8 * k) = ''0x'' @ (''0x'' @ ?H)" by (simp add: cast_text [OF th])
    have "\<not> list_all (is_digit_of 16) (''0x'' @ ?H)" by (simp add: is_digit_of_def digit_val_def)
    then have "rd (shiftRightAndCast th v sh (8 * k)) = Inl (ErrorMsg ''invalid BigNumber string'')"
      using rd unfolding shown reads_hex_def by blast
    then show ?thesis
      using False assms(3) even_hex_length [of k ?n] by (auto simp: getPseudorandomPart_def)
  qed
qed

theorem getPseudorandomPart_cast_witness:
  "getPseudorandomPart (\<lambda>n. ''0x'' @ even_hex n) bn_from 1311768467463790320 10 8 (8 * 6) =
    Inr (1311768467463790320 div 2 ^ 8 mod 2 ^ 48 mod 10)"
  using getPseudorandomPart_cast [of "\<lambda>n. ''0x'' @ even_hex n" bn_from 6 1311768467463790320 10 8]
  by (simp add: writes_hex_bytes_def reads_hex_def bn_from_def)

end
