(* ===== verification/Tasks_Art.thy ===== *)
theory Tasks_Art
  imports Codec Assets "HOL-Library.Word"
begin

text \<open>
  The art on chain: \<open>packages/punks-contracts/tasks/populate-descriptor.ts\<close> with
  \<open>dataToDescriptorInput\<close> of \<open>tasks/utils/index.ts\<close>, and the contracts it fills,
  \<open>NDescriptorV2.sol\<close> and \<open>NArt.sol\<close> with the blobs of \<open>SSTORE2.sol\<close>. The ABI coder
  of ethers, \<open>abi.decode\<close>, the compressor and the inflator are parameters (\<open>codec\<close>).
  The result: once the task has run, the parts the descriptor returns for a seed are the parts that
  \<open>getPunkData\<close> of the asset library selects, in the document the task sent. Receipts, gas and console output are left out; a
  transaction that reverts makes the task throw.
\<close>

type_synonym bytes = "8 word list"

section \<open>Hexadecimal text and the codec\<close>

definition hex_byte :: "8 word \<Rightarrow> string" where
  "hex_byte b = padStart (hex (unat b)) 2 CHR ''0''"

definition unhex_byte :: "string \<Rightarrow> 8 word option" where
  "unhex_byte s = (if length s = 2 \<and> list_all (is_digit_of 16) s then Some (of_nat (base_value 16 s)) else None)"

text \<open>\<open>Buffer.toString('hex')\<close> and \<open>Buffer.from(s, 'hex')\<close>, which stops at the first pair that
  is not a byte.\<close>

definition to_hex :: "bytes \<Rightarrow> string" where
  "to_hex bs = concat (map hex_byte bs)"

definition from_hex :: "string \<Rightarrow> bytes" where
  "from_hex s = map the (takeWhile (\<lambda>x. x \<noteq> None) (map unhex_byte (chunks_of 2 s)))"

text \<open>How ethers reads an argument of type \<open>bytes\<close> (\<open>None\<close>: it throws), the ABI encoding of
  a \<open>bytes[]\<close> and its decoding on chain, \<open>deflateRawSync\<close> and \<open>Inflator.puff\<close>.\<close>

record codec =
  cx_bytes :: "string \<Rightarrow> bytes option"
  cx_abi_encode :: "bytes list \<Rightarrow> bytes"
  cx_abi_decode :: "bytes \<Rightarrow> bytes list option"
  cx_deflate :: "bytes \<Rightarrow> bytes"
  cx_puff :: "bytes \<Rightarrow> nat \<Rightarrow> bytes"

definition codec_ok :: "codec \<Rightarrow> bool" where
  "codec_ok cx \<longleftrightarrow>
     (\<forall>b. cx_bytes cx (''0x'' @ to_hex b) = Some b) \<and>
     (\<forall>bs. cx_abi_decode cx (cx_abi_encode cx bs) = Some bs \<and> cx_abi_encode cx bs \<noteq> []) \<and>
     (\<forall>b. cx_puff cx (cx_deflate cx b) (length b) = b \<and> cx_deflate cx b \<noteq> [])"

record descriptor_input =
  di_encodedCompressed :: string
  di_originalLength :: nat
  di_itemCount :: nat

definition dataToDescriptorInput :: "codec \<Rightarrow> string list \<Rightarrow> descriptor_input result" where
  "dataToDescriptorInput cx data =
     rbind (rmap_list (\<lambda>s. of_option TypeError (cx_bytes cx s)) data) (\<lambda>bs.
       let abiEncoded = ''0x'' @ to_hex (cx_abi_encode cx bs)
       in Inr \<lparr>di_encodedCompressed = ''0x'' @ to_hex (cx_deflate cx (from_hex (substring_from abiEncoded 2))),
               di_originalLength = length (substring_from abiEncoded 2) div 2,
               di_itemCount = length data\<rparr>)"

section \<open>The art contract\<close>

text \<open>The collections of images, in the order the task sends them.\<close>

datatype collection =
    Types | Necks | Cheekses | Faces | Beards | Mouths | Earses | Hats | Helmets | Hairs | Teeths
  | Lipses | Emotions | Eyeses | Glasseses | Goggleses | Noses

definition populate_order :: "collection list" where
  "populate_order =
     [Types, Necks, Cheekses, Faces, Beards, Mouths, Earses, Hats, Helmets, Hairs, Teeths,
      Lipses, Emotions, Eyeses, Glasseses, Goggleses, Noses]"

text \<open>A pointer is the number of a blob, from 1; 0 is the zero address.\<close>

record art_page =
  pg_pointer :: nat
  pg_decompressedLength :: nat
  pg_imageCount :: nat

record trait =
  tr_storagePages :: "art_page list"
  tr_storedImagesCount :: nat

record art =
  na_descriptor :: string
  na_palettesPointers :: "nat \<Rightarrow> nat"
  na_traits :: "collection \<Rightarrow> trait"
  na_blobs :: "bytes list"

text \<open>A blob is deployed as code with one byte in front, and code has at most 24576 bytes.\<close>

definition SSTORE2_write :: "bytes \<Rightarrow> art \<Rightarrow> (nat \<times> art) result" where
  "SSTORE2_write data a =
     (if 24576 < length data + 1 then Inl (ErrorMsg ''DEPLOYMENT_FAILED'')
      else Inr (length (na_blobs a) + 1, a\<lparr>na_blobs := na_blobs a @ [data]\<rparr>))"

definition SSTORE2_read :: "art \<Rightarrow> nat \<Rightarrow> bytes" where
  "SSTORE2_read a pointer = na_blobs a ! (pointer - 1)"

definition onlyDescriptor :: "string \<Rightarrow> art \<Rightarrow> unit result" where
  "onlyDescriptor sender a =
     (if sender \<noteq> na_descriptor a then Inl (ErrorMsg ''SenderIsNotDescriptor'') else Inr ())"

definition art_setPalette :: "string \<Rightarrow> nat \<Rightarrow> bytes \<Rightarrow> art \<Rightarrow> art result" where
  "art_setPalette sender paletteIndex palette a =
     rbind (onlyDescriptor sender a) (\<lambda>_.
       if length palette = 0 then Inl (ErrorMsg ''EmptyPalette'')
       else if length palette mod 4 \<noteq> 0 \<or> length palette > 1024 then Inl (ErrorMsg ''BadPaletteLength'')
       else rbind (SSTORE2_write palette a) (\<lambda>(p, a').
         Inr (a'\<lparr>na_palettesPointers := (na_palettesPointers a')(paletteIndex := p)\<rparr>)))"

definition addPage_pointer :: "collection \<Rightarrow> nat \<Rightarrow> nat \<Rightarrow> nat \<Rightarrow> art \<Rightarrow> art result" where
  "addPage_pointer c pointer decompressedLength imageCount a =
     (if decompressedLength = 0 then Inl (ErrorMsg ''BadDecompressedLength'')
      else if imageCount = 0 then Inl (ErrorMsg ''BadImageCount'')
      else let t = na_traits a c
           in Inr (a\<lparr>na_traits := (na_traits a)(c :=
                \<lparr>tr_storagePages = tr_storagePages t @
                   [\<lparr>pg_pointer = pointer, pg_decompressedLength = decompressedLength, pg_imageCount = imageCount\<rparr>],
                 tr_storedImagesCount = tr_storedImagesCount t + imageCount\<rparr>)\<rparr>))"

definition addPage :: "collection \<Rightarrow> bytes \<Rightarrow> nat \<Rightarrow> nat \<Rightarrow> art \<Rightarrow> art result" where
  "addPage c encodedCompressed decompressedLength imageCount a =
     (if length encodedCompressed = 0 then Inl (ErrorMsg ''EmptyBytes'')
      else rbind (SSTORE2_write encodedCompressed a) (\<lambda>(pointer, a').
        addPage_pointer c pointer decompressedLength imageCount a'))"

text \<open>\<open>addPunkTypes\<close>, \<open>addNecks\<close> and the fifteen other functions differ in the trait only.\<close>

definition art_add :: "string \<Rightarrow> collection \<Rightarrow> bytes \<Rightarrow> nat \<Rightarrow> nat \<Rightarrow> art \<Rightarrow> art result" where
  "art_add sender c encodedCompressed decompressedLength imageCount a =
     rbind (onlyDescriptor sender a) (\<lambda>_. addPage c encodedCompressed decompressedLength imageCount a)"

fun getPage :: "art_page list \<Rightarrow> nat \<Rightarrow> nat \<Rightarrow> (art_page \<times> nat) result" where
  "getPage [] index pageFirstImageIndex = Inl (ErrorMsg ''ImageNotFound'')"
| "getPage (page # pages) index pageFirstImageIndex =
     (if index < pageFirstImageIndex + pg_imageCount page then Inr (page, index - pageFirstImageIndex)
      else getPage pages index (pageFirstImageIndex + pg_imageCount page))"

definition decompressAndDecode :: "codec \<Rightarrow> art \<Rightarrow> art_page \<Rightarrow> bytes list result" where
  "decompressAndDecode cx a page =
     of_option (ErrorMsg ''revert'')
       (cx_abi_decode cx (cx_puff cx (SSTORE2_read a (pg_pointer page)) (pg_decompressedLength page)))"

definition imageByIndex :: "codec \<Rightarrow> art \<Rightarrow> collection \<Rightarrow> nat \<Rightarrow> bytes result" where
  "imageByIndex cx a c index =
     rbind (getPage (tr_storagePages (na_traits a c)) index 0) (\<lambda>(page, indexInPage).
     rbind (decompressAndDecode cx a page) (\<lambda>decompressedImages.
       if indexInPage < length decompressedImages then Inr (decompressedImages ! indexInPage)
       else Inl (ErrorMsg ''panic'')))"

definition art_palettes :: "art \<Rightarrow> nat \<Rightarrow> bytes result" where
  "art_palettes a paletteIndex =
     (let pointer = na_palettesPointers a paletteIndex
      in if pointer = 0 then Inl (ErrorMsg ''PaletteNotFound'') else Inr (SSTORE2_read a pointer))"

section \<open>The descriptor contract\<close>

record descriptor =
  dc_address :: string
  dc_owner :: string
  dc_arePartsLocked :: bool
  dc_art :: art

definition only_owner_unlocked :: "string \<Rightarrow> descriptor \<Rightarrow> unit result" where
  "only_owner_unlocked sender d =
     (if sender \<noteq> dc_owner d then Inl (ErrorMsg ''Ownable: caller is not the owner'')
      else if dc_arePartsLocked d then Inl (ErrorMsg ''locked'') else Inr ())"

definition setPalette :: "string \<Rightarrow> nat \<Rightarrow> bytes \<Rightarrow> descriptor \<Rightarrow> descriptor result" where
  "setPalette sender paletteIndex palette d =
     rbind (only_owner_unlocked sender d) (\<lambda>_.
     rbind (art_setPalette (dc_address d) paletteIndex palette (dc_art d)) (\<lambda>a. Inr (d\<lparr>dc_art := a\<rparr>)))"

definition add_images :: "string \<Rightarrow> collection \<Rightarrow> bytes \<Rightarrow> nat \<Rightarrow> nat \<Rightarrow> descriptor \<Rightarrow> descriptor result" where
  "add_images sender c encodedCompressed decompressedLength imageCount d =
     rbind (only_owner_unlocked sender d) (\<lambda>_.
     rbind (art_add (dc_address d) c encodedCompressed decompressedLength imageCount (dc_art d)) (\<lambda>a.
       Inr (d\<lparr>dc_art := a\<rparr>)))"

text \<open>The collection of an accessory type, by the chain of comparisons in \<open>getPartsForSeed\<close>.\<close>

definition acc_collections :: "collection list" where
  "acc_collections =
     [Necks, Cheekses, Faces, Lipses, Emotions, Teeths, Beards, Earses, Hats, Helmets, Hairs,
      Mouths, Glasseses, Goggleses, Eyeses, Noses]"

record svg_part =
  sp_image :: bytes
  sp_palette :: bytes

definition getPalette :: "art \<Rightarrow> bytes \<Rightarrow> bytes result" where
  "getPalette a part =
     (case part of [] \<Rightarrow> Inl (ErrorMsg ''panic'') | b # _ \<Rightarrow> art_palettes a (unat b))"

definition part_at :: "codec \<Rightarrow> art \<Rightarrow> collection \<Rightarrow> nat \<Rightarrow> svg_part result" where
  "part_at cx a c index =
     rbind (imageByIndex cx a c index) (\<lambda>accBuffer.
     rbind (getPalette a accBuffer) (\<lambda>p. Inr \<lparr>sp_image = accBuffer, sp_palette = p\<rparr>))"

definition punkTypeId :: "iseed \<Rightarrow> nat" where
  "punkTypeId s =
     (if is_punkType s = 0 then nat (is_skinTone s)
      else if is_punkType s = 1 then 4 + nat (is_skinTone s)
      else 6 + nat (is_punkType s))"

text \<open>The table \<open>sortedAccessories\<close>: a later accessory of the same type replaces the earlier one.\<close>

fun sort_accessories :: "acc_ref list \<Rightarrow> nat list \<Rightarrow> nat list result" where
  "sort_accessories [] table = Inr table"
| "sort_accessories (acc # accs) table =
     (if nat (ar_accType acc) < length table
      then sort_accessories accs (table[nat (ar_accType acc) := 10000 + nat (ar_accId acc)])
      else Inl (ErrorMsg ''panic''))"

text \<open>The parts of the filled entries; entries that stay unused are empty parts.\<close>

definition getPartsForSeed :: "codec \<Rightarrow> descriptor \<Rightarrow> iseed \<Rightarrow> svg_part list result" where
  "getPartsForSeed cx d s =
     rbind (part_at cx (dc_art d) Types (punkTypeId s)) (\<lambda>base.
     rbind (sort_accessories (is_accessories s) (replicate 16 0)) (\<lambda>sortedAccessories.
     rbind (rmap_list (\<lambda>i. part_at cx (dc_art d) (acc_collections ! i) (sortedAccessories ! i mod 10000))
             (filter (\<lambda>i. sortedAccessories ! i > 0) [0..<16])) (\<lambda>parts.
       Inr (base # parts @
            replicate (length (is_accessories s) - length parts) \<lparr>sp_image = [], sp_palette = []\<rparr>))))"

section \<open>The task\<close>

record doc_image =
  im_filename :: string
  im_data :: string

record image_doc =
  id_palette :: "string list"
  id_images :: "collection \<Rightarrow> doc_image list"

text \<open>ethers reads the text as bytes and checks the integer types before it sends anything.\<close>

definition send_palette :: "codec \<Rightarrow> string \<Rightarrow> nat \<Rightarrow> string \<Rightarrow> descriptor \<Rightarrow> descriptor result" where
  "send_palette cx sender paletteIndex palette d =
     rbind (of_option TypeError (cx_bytes cx palette)) (\<lambda>b. setPalette sender paletteIndex b d)"

definition send_page :: "codec \<Rightarrow> string \<Rightarrow> collection \<times> descriptor_input \<Rightarrow> descriptor \<Rightarrow> descriptor result" where
  "send_page cx sender = (\<lambda>(c, page) d.
     rbind (of_option TypeError (cx_bytes cx (di_encodedCompressed page))) (\<lambda>b.
       if di_originalLength page \<ge> 2 ^ 80 \<or> di_itemCount page \<ge> 2 ^ 16 then Inl RangeError
       else add_images sender c b (di_originalLength page) (di_itemCount page) d))"

fun send_pages :: "codec \<Rightarrow> string \<Rightarrow> (collection \<times> descriptor_input) list \<Rightarrow> descriptor \<Rightarrow> descriptor \<times> js_error option" where
  "send_pages cx sender [] d = (d, None)"
| "send_pages cx sender (p # ps) d =
     (case send_page cx sender p d of Inl e \<Rightarrow> (d, Some e) | Inr d' \<Rightarrow> send_pages cx sender ps d')"

definition collection_page :: "codec \<Rightarrow> image_doc \<Rightarrow> collection \<Rightarrow> (collection \<times> descriptor_input) result" where
  "collection_page cx doc c =
     rbind (dataToDescriptorInput cx (map im_data (id_images doc c))) (\<lambda>page. Inr (c, page))"

definition populate_descriptor :: "codec \<Rightarrow> string \<Rightarrow> image_doc \<Rightarrow> descriptor \<Rightarrow> descriptor \<times> js_error option" where
  "populate_descriptor cx sender doc d =
     (case rmap_list (collection_page cx doc) populate_order of
        Inl e \<Rightarrow> (d, Some e)
      | Inr pages \<Rightarrow>
          (case send_palette cx sender 0 (''0x00000000'' @ concat (id_palette doc)) d of
             Inl e \<Rightarrow> (d, Some e)
           | Inr d' \<Rightarrow> send_pages cx sender pages d'))"

text \<open>\<open>accResource\<close> of the asset library.\<close>

definition accResource :: "image_doc \<Rightarrow> doc_image list list" where
  "accResource doc = map (id_images doc) acc_collections"


section \<open>Hexadecimal text round trip\<close>

lemma hex_byte_text: "hex_byte b = replicate (2 - length (hex (unat b))) (digit_char 0) @ hex (unat b)"
  by (simp add: hex_byte_def padStart_def digit_char_0)

lemma unhex_hex_byte: "length (hex_byte b) = 2 \<and> unhex_byte (hex_byte b) = Some b"
proof -
  have "unat b < 256" using unsigned_less [of b, where 'a = nat] by simp
  then have len: "length (hex_byte b) = 2"
    using length_hex_le2 [of "unat b"] by (simp add: hex_byte_def)
  have "list_all (is_digit_of 16) (hex_byte b)"
    using nat_to_base_digits [of 16 _ "unat b"]
    by (fastforce simp: hex_byte_text list_all_iff is_digit_of_def)
  moreover have "base_value 16 (hex_byte b) = unat b"
    by (simp only: hex_byte_text base_value_leading_zeros) (simp add: base_value_nat_to_base)
  ultimately show ?thesis using len by (simp add: unhex_byte_def)
qed

interpretation hex_text: fixed_codec hex_byte unhex_byte Some "\<lambda>_. True" 2
  by unfold_locales (auto simp: unhex_hex_byte)

lemma from_to_hex [simp]: "from_hex (to_hex bs) = bs"
proof -
  have "map unhex_byte (chunks_of 2 (to_hex bs)) = map Some bs"
    unfolding to_hex_def by (rule hex_text.dec_all) (simp add: list_all_iff)
  moreover have "takeWhile (\<lambda>x. x \<noteq> None) (map Some bs) = map Some bs"
    by (simp add: takeWhile_eq_all_conv)
  ultimately show ?thesis by (simp only: from_hex_def) (simp add: comp_def)
qed

lemma length_to_hex [simp]: "length (to_hex bs) = 2 * length bs"
  using hex_text.length_enc_all [of bs] by (simp add: to_hex_def list_all_iff)

lemma substring_from_0x [simp]: "substring_from (''0x'' @ s) 2 = s"
  by (simp add: substring_from_def)

section \<open>What the task stores\<close>

definition image_bytes :: "codec \<Rightarrow> doc_image \<Rightarrow> bytes" where
  "image_bytes cx e = the (cx_bytes cx (im_data e))"

definition page_input :: "codec \<Rightarrow> bytes list \<Rightarrow> descriptor_input" where
  "page_input cx xs =
     \<lparr>di_encodedCompressed = ''0x'' @ to_hex (cx_deflate cx (cx_abi_encode cx xs)),
      di_originalLength = length (cx_abi_encode cx xs),
      di_itemCount = length xs\<rparr>"

lemma dataToDescriptorInput_page:
  assumes "list_all (\<lambda>e. cx_bytes cx (im_data e) \<noteq> None) es"
  shows "dataToDescriptorInput cx (map im_data es) = Inr (page_input cx (map (image_bytes cx) es))"
proof -
  have "rmap_list (\<lambda>s. of_option TypeError (cx_bytes cx s)) (map im_data es) = Inr (map (image_bytes cx) es)"
    using assms by (induction es) (auto simp: image_bytes_def)
  then show ?thesis
    by (simp add: dataToDescriptorInput_def page_input_def Let_def del: append.simps)
qed

text \<open>The images of one collection that fit into one page.\<close>

definition page_fits :: "codec \<Rightarrow> bytes list \<Rightarrow> bool" where
  "page_fits cx xs \<longleftrightarrow>
     xs \<noteq> [] \<and> length xs \<le> 10000 \<and> length (cx_abi_encode cx xs) < 2 ^ 80 \<and>
     length (cx_deflate cx (cx_abi_encode cx xs)) < 24576"

definition stored :: "art \<Rightarrow> nat \<Rightarrow> bytes \<Rightarrow> bool" where
  "stored a pointer b \<longleftrightarrow> 0 < pointer \<and> pointer \<le> length (na_blobs a) \<and> SSTORE2_read a pointer = b"

definition holds :: "codec \<Rightarrow> art \<Rightarrow> collection \<Rightarrow> bytes list \<Rightarrow> bool" where
  "holds cx a c xs \<longleftrightarrow>
     (\<exists>page rest. tr_storagePages (na_traits a c) = page # rest \<and>
        stored a (pg_pointer page) (cx_deflate cx (cx_abi_encode cx xs)) \<and>
        pg_decompressedLength page = length (cx_abi_encode cx xs) \<and> pg_imageCount page = length xs)"

definition ready :: "string \<Rightarrow> descriptor \<Rightarrow> bool" where
  "ready sender d \<longleftrightarrow>
     dc_owner d = sender \<and> \<not> dc_arePartsLocked d \<and> na_descriptor (dc_art d) = dc_address d"

text \<open>Pages are only added: an art contract that extends another still holds what it held.\<close>

definition art_extends :: "art \<Rightarrow> art \<Rightarrow> bool" where
  "art_extends a a' \<longleftrightarrow>
     na_descriptor a' = na_descriptor a \<and> na_palettesPointers a' = na_palettesPointers a \<and>
     (\<exists>more. na_blobs a' = na_blobs a @ more) \<and>
     (\<forall>c. \<exists>more. tr_storagePages (na_traits a' c) = tr_storagePages (na_traits a c) @ more)"

lemma art_extends_refl: "art_extends a a"
  by (simp add: art_extends_def)

lemma art_extends_trans: "art_extends a b \<Longrightarrow> art_extends b c \<Longrightarrow> art_extends a c"
  unfolding art_extends_def by (metis append_assoc)

lemma stored_extends: "stored a p b \<Longrightarrow> art_extends a a' \<Longrightarrow> stored a' p b"
  by (auto simp: stored_def art_extends_def SSTORE2_read_def nth_append)

lemma holds_extends: "holds cx a c xs \<Longrightarrow> art_extends a a' \<Longrightarrow> holds cx a' c xs"
proof -
  assume "holds cx a c xs" and ext: "art_extends a a'"
  then obtain page rest where page: "tr_storagePages (na_traits a c) = page # rest"
      "stored a (pg_pointer page) (cx_deflate cx (cx_abi_encode cx xs))"
      "pg_decompressedLength page = length (cx_abi_encode cx xs)" "pg_imageCount page = length xs"
    by (auto simp: holds_def)
  moreover obtain more where "tr_storagePages (na_traits a' c) = page # rest @ more"
    using ext page(1) unfolding art_extends_def by (metis append_Cons)
  ultimately show ?thesis using stored_extends [OF page(2) ext] by (auto simp: holds_def)
qed

lemma send_page_stores:
  assumes ok: "codec_ok cx" and fits: "page_fits cx xs" and ready: "ready sender d"
    and new: "tr_storagePages (na_traits (dc_art d) c) = []"
  obtains d' where "send_page cx sender (c, page_input cx xs) d = Inr d'"
    "ready sender d'" "art_extends (dc_art d) (dc_art d')" "holds cx (dc_art d') c xs"
    "\<And>c'. c' \<noteq> c \<Longrightarrow> na_traits (dc_art d') c' = na_traits (dc_art d) c'"
proof -
  let ?z = "cx_deflate cx (cx_abi_encode cx xs)" and ?a = "dc_art d"
  let ?a' = "?a\<lparr>na_blobs := na_blobs ?a @ [?z],
      na_traits := (na_traits ?a)(c :=
        \<lparr>tr_storagePages = [\<lparr>pg_pointer = length (na_blobs ?a) + 1,
            pg_decompressedLength = length (cx_abi_encode cx xs), pg_imageCount = length xs\<rparr>],
         tr_storedImagesCount = tr_storedImagesCount (na_traits ?a c) + length xs\<rparr>)\<rparr>"
  have codec: "cx_bytes cx (''0x'' @ to_hex ?z) = Some ?z" "?z \<noteq> []" "cx_abi_encode cx xs \<noteq> []"
    using ok by (auto simp: codec_ok_def)
  have "send_page cx sender (c, page_input cx xs) d = Inr (d\<lparr>dc_art := ?a'\<rparr>)"
    using codec fits ready new
    by (simp add: send_page_def page_input_def page_fits_def ready_def add_images_def
        only_owner_unlocked_def art_add_def onlyDescriptor_def addPage_def SSTORE2_write_def
        addPage_pointer_def Let_def del: append.simps add: append_Nil)
  moreover have "ready sender (d\<lparr>dc_art := ?a'\<rparr>)" using ready by (simp add: ready_def)
  moreover have "art_extends ?a ?a'" using new by (simp add: art_extends_def)
  moreover have "holds cx ?a' c xs" by (simp add: holds_def stored_def SSTORE2_read_def)
  ultimately show thesis by (intro that [of "d\<lparr>dc_art := ?a'\<rparr>"]) auto
qed

lemma send_pages_store:
  assumes ok: "codec_ok cx"
  shows "\<lbrakk>distinct (map fst ps); list_all (\<lambda>(c, xs). page_fits cx xs) ps; ready sender d;
      \<forall>c \<in> fst ` set ps. tr_storagePages (na_traits (dc_art d) c) = []\<rbrakk> \<Longrightarrow>
    \<exists>d'. send_pages cx sender (map (\<lambda>(c, xs). (c, page_input cx xs)) ps) d = (d', None) \<and>
      art_extends (dc_art d) (dc_art d') \<and> (\<forall>(c, xs) \<in> set ps. holds cx (dc_art d') c xs)"
proof (induction ps arbitrary: d)
  case Nil
  then show ?case by (simp add: art_extends_refl)
next
  case (Cons p ps)
  obtain c xs where p: "p = (c, xs)" by (cases p)
  then obtain d1 where d1: "send_page cx sender (c, page_input cx xs) d = Inr d1" "ready sender d1"
      "art_extends (dc_art d) (dc_art d1)" "holds cx (dc_art d1) c xs"
      "\<And>c'. c' \<noteq> c \<Longrightarrow> na_traits (dc_art d1) c' = na_traits (dc_art d) c'"
    using Cons.prems by (auto elim!: send_page_stores [OF ok])
  have "\<forall>c' \<in> fst ` set ps. tr_storagePages (na_traits (dc_art d1) c') = []"
    using Cons.prems p d1(5) by fastforce
  then obtain d' where d': "send_pages cx sender (map (\<lambda>(c, xs). (c, page_input cx xs)) ps) d1 = (d', None)"
      "art_extends (dc_art d1) (dc_art d')" "\<forall>(c, xs) \<in> set ps. holds cx (dc_art d') c xs"
    using Cons.IH [of d1] Cons.prems d1(2) by auto
  then show ?case
    using p d1 art_extends_trans [OF d1(3) d'(2)] holds_extends [OF d1(4) d'(2)] by simp
qed


section \<open>Reading the parts back\<close>

lemma imageByIndex_holds:
  assumes "codec_ok cx" "holds cx a c xs" "i < length xs"
  shows "imageByIndex cx a c i = Inr (xs ! i)"
  using assms
  by (auto simp: holds_def imageByIndex_def decompressAndDecode_def stored_def codec_ok_def)

lemma part_at_holds:
  assumes "codec_ok cx" "holds cx a c xs" "i < length xs" "xs ! i = 0 # w"
    and "stored a (na_palettesPointers a 0) p"
  shows "part_at cx a c i = Inr \<lparr>sp_image = xs ! i, sp_palette = p\<rparr>"
  using assms imageByIndex_holds [OF assms(1-3)]
  by (simp add: part_at_def getPalette_def art_palettes_def stored_def Let_def)

text \<open>The table holds an entry per accessory; reading it from the front sorts the accessories.\<close>

lemma sort_accessories_table:
  "\<lbrakk>distinct (map (nat \<circ> ar_accType) accs); \<forall>a \<in> set accs. nat (ar_accType a) < length table\<rbrakk> \<Longrightarrow>
    \<exists>t. sort_accessories accs table = Inr t \<and> length t = length table \<and>
      (\<forall>a \<in> set accs. t ! nat (ar_accType a) = 10000 + nat (ar_accId a)) \<and>
      (\<forall>i. i \<notin> (nat \<circ> ar_accType) ` set accs \<longrightarrow> t ! i = table ! i)"
proof (induction accs arbitrary: table)
  case Nil
  then show ?case by simp
next
  case (Cons a accs)
  let ?table = "table[nat (ar_accType a) := 10000 + nat (ar_accId a)]"
  obtain t where t: "sort_accessories accs ?table = Inr t" "length t = length table"
      "\<forall>b \<in> set accs. t ! nat (ar_accType b) = 10000 + nat (ar_accId b)"
      "\<forall>i. i \<notin> (nat \<circ> ar_accType) ` set accs \<longrightarrow> t ! i = ?table ! i"
    using Cons.IH [of ?table] Cons.prems by auto
  have "nat (ar_accType a) \<notin> (nat \<circ> ar_accType) ` set accs" using Cons.prems(1) by auto
  then have "t ! nat (ar_accType a) = 10000 + nat (ar_accId a)" using t(4) Cons.prems(2) by simp
  then show ?case using t Cons.prems(2) by auto
qed

lemma filter_upt_sorted_image:
  assumes "sorted xs" "distinct xs" "set xs \<subseteq> {..<n}"
  shows "filter (\<lambda>i. i \<in> set xs) [0..<n] = xs"
  by (rule sorted_distinct_set_unique) (use assms sorted_wrt_filter [of "(\<le>)" "[0..<n]"] in auto)

lemma table_order:
  assumes "distinct (map (nat \<circ> ar_accType) accs)" "\<forall>a \<in> set accs. 0 \<le> ar_accType a \<and> ar_accType a < 16"
    and "sort_accessories accs (replicate 16 0) = Inr t"
  shows "filter (\<lambda>i. t ! i > 0) [0..<16] = map (nat \<circ> ar_accType) (sort_key ar_accType accs)"
proof -
  have "\<forall>a \<in> set accs. nat (ar_accType a) < length (replicate 16 (0::nat))" using assms(2) by auto
  from sort_accessories_table [OF assms(1) this]
  obtain t' where "sort_accessories accs (replicate 16 0) = Inr t'"
      "\<forall>a \<in> set accs. t' ! nat (ar_accType a) = 10000 + nat (ar_accId a)"
      "\<forall>i. i \<notin> (nat \<circ> ar_accType) ` set accs \<longrightarrow> t' ! i = replicate 16 0 ! i"
    by blast
  then have t: "\<forall>a \<in> set accs. t ! nat (ar_accType a) = 10000 + nat (ar_accId a)"
      "\<forall>i. i \<notin> (nat \<circ> ar_accType) ` set accs \<longrightarrow> t ! i = replicate 16 0 ! i"
    using assms(3) by auto
  let ?ts = "map (nat \<circ> ar_accType) (sort_key ar_accType accs)"
  have pos: "t ! i > 0 \<longleftrightarrow> i \<in> set ?ts" if "i < 16" for i
    using that t by (cases "i \<in> (nat \<circ> ar_accType) ` set accs") auto
  have "filter (\<lambda>i. t ! i > 0) [0..<16] = filter (\<lambda>i. i \<in> set ?ts) [0..<16]"
    by (rule filter_cong) (auto simp: pos)
  also have "\<dots> = ?ts"
  proof (rule filter_upt_sorted_image)
    have "sorted (map ar_accType (sort_key ar_accType accs))" by simp
    then show "sorted ?ts"
      unfolding sorted_map by (rule sorted_wrt_mono_rel [rotated]) (auto simp: nat_mono)
    have "distinct (map (nat \<circ> ar_accType) (sort_key ar_accType accs))"
      using assms(1) by (simp add: distinct_map)
    then show "distinct ?ts" .
    show "set ?ts \<subseteq> {..<16}" using assms(2) by auto
  qed
  finally show ?thesis .
qed


section \<open>The parts on chain are the parts of the library\<close>

definition palette_bytes :: "codec \<Rightarrow> image_doc \<Rightarrow> bytes" where
  "palette_bytes cx doc = the (cx_bytes cx (''0x00000000'' @ concat (id_palette doc)))"

text \<open>A document the contracts accept: a palette of at most 256 colours of four bytes, and in
  every collection readable images of palette 0 that fit into one page.\<close>

definition palette_ok :: "bytes option \<Rightarrow> bool" where
  "palette_ok b = (case b of None \<Rightarrow> False | Some p \<Rightarrow> p \<noteq> [] \<and> length p mod 4 = 0 \<and> length p \<le> 1024)"

definition image_ok :: "bytes option \<Rightarrow> bool" where
  "image_ok b = (case b of Some (w # _) \<Rightarrow> w = 0 | _ \<Rightarrow> False)"

definition doc_fits :: "codec \<Rightarrow> image_doc \<Rightarrow> bool" where
  "doc_fits cx doc \<longleftrightarrow>
     palette_ok (cx_bytes cx (''0x00000000'' @ concat (id_palette doc))) \<and>
     list_all (\<lambda>c. list_all (\<lambda>e. image_ok (cx_bytes cx (im_data e))) (id_images doc c) \<and>
                   page_fits cx (map (image_bytes cx) (id_images doc c))) populate_order"

definition part_of :: "codec \<Rightarrow> image_doc \<Rightarrow> doc_image \<Rightarrow> svg_part" where
  "part_of cx doc e = \<lparr>sp_image = image_bytes cx e, sp_palette = palette_bytes cx doc\<rparr>"

lemma in_populate_order: "c \<in> set populate_order"
  by (cases c) (simp_all add: populate_order_def)

lemma doc_fitsD:
  assumes "doc_fits cx doc"
  shows "page_fits cx (map (image_bytes cx) (id_images doc c))"
    "e \<in> set (id_images doc c) \<Longrightarrow> image_ok (cx_bytes cx (im_data e))"
  using assms in_populate_order [of c] by (simp_all only: doc_fits_def list_all_iff)

lemma populate_effect:
  assumes ok: "codec_ok cx" and fits: "doc_fits cx doc" and ready: "ready sender d"
    and new: "\<forall>c. tr_storagePages (na_traits (dc_art d) c) = []"
  obtains d' where "populate_descriptor cx sender doc d = (d', None)"
    "stored (dc_art d') (na_palettesPointers (dc_art d') 0) (palette_bytes cx doc)"
    "\<And>c. holds cx (dc_art d') c (map (image_bytes cx) (id_images doc c))"
proof -
  let ?ps = "map (\<lambda>c. (c, map (image_bytes cx) (id_images doc c))) populate_order"
  let ?pages = "map (\<lambda>(c, xs). (c, page_input cx xs)) ?ps" and ?p = "palette_bytes cx doc" and ?a = "dc_art d"
  let ?d = "d\<lparr>dc_art := ?a\<lparr>na_blobs := na_blobs ?a @ [?p],
      na_palettesPointers := (na_palettesPointers ?a)(0 := length (na_blobs ?a) + 1)\<rparr>\<rparr>"
  have "rmap_list (collection_page cx doc) populate_order = Inr ?pages"
  proof -
    have "collection_page cx doc c = Inr (c, page_input cx (map (image_bytes cx) (id_images doc c)))"
      if "c \<in> set populate_order" for c
    proof -
      have "list_all (\<lambda>e. cx_bytes cx (im_data e) \<noteq> None) (id_images doc c)"
        using fits that by (auto simp: doc_fits_def list_all_iff image_ok_def split: option.splits)
      then show ?thesis by (simp add: collection_page_def dataToDescriptorInput_page)
    qed
    from rmap_list_all_Inr [where xs = populate_order, OF this] show ?thesis by (simp add: comp_def)
  qed
  moreover have "send_palette cx sender 0 (''0x00000000'' @ concat (id_palette doc)) d = Inr ?d"
  proof -
    have p: "cx_bytes cx (''0x00000000'' @ concat (id_palette doc)) = Some ?p" "palette_ok (Some ?p)"
      using fits by (auto simp: doc_fits_def palette_ok_def palette_bytes_def split: option.splits)
    show ?thesis
      unfolding send_palette_def p(1) using p(2) ready
      by (simp add: palette_ok_def setPalette_def only_owner_unlocked_def ready_def
          art_setPalette_def onlyDescriptor_def SSTORE2_write_def)
  qed
  moreover have "stored (dc_art ?d) (na_palettesPointers (dc_art ?d) 0) ?p"
    by (simp add: stored_def SSTORE2_read_def)
  moreover have "\<exists>d'. send_pages cx sender ?pages ?d = (d', None) \<and> art_extends (dc_art ?d) (dc_art d') \<and>
      (\<forall>(c, xs) \<in> set ?ps. holds cx (dc_art d') c xs)"
  proof (rule send_pages_store [OF ok])
    show "distinct (map fst ?ps)" by (simp add: comp_def populate_order_def)
    show "list_all (\<lambda>(c, xs). page_fits cx xs) ?ps"
      using fits by (simp add: doc_fits_def list_all_iff)
    show "ready sender ?d" using ready by (simp add: ready_def)
    show "\<forall>c \<in> fst ` set ?ps. tr_storagePages (na_traits (dc_art ?d) c) = []" using new by simp
  qed
  ultimately show thesis
    using that in_populate_order
    by (fastforce simp: populate_descriptor_def art_extends_def dest: stored_extends)
qed

definition acc_in_range :: "image_doc \<Rightarrow> acc_ref \<Rightarrow> bool" where
  "acc_in_range doc a \<longleftrightarrow> 0 \<le> ar_accType a \<and> ar_accType a < 16 \<and> 0 \<le> ar_accId a \<and>
     nat (ar_accId a) < length (id_images doc (acc_collections ! nat (ar_accType a)))"

definition acc_image :: "image_doc \<Rightarrow> acc_ref \<Rightarrow> doc_image" where
  "acc_image doc a = id_images doc (acc_collections ! nat (ar_accType a)) ! nat (ar_accId a)"

lemma library_accessories:
  "rmap_list (\<lambda>acc. rbind (of_option TypeError (js_nth (accResource doc) (ar_accType acc)))
       (\<lambda>g. Inr (js_nth g (ar_accId acc)))) accs = Inr ps \<Longrightarrow> None \<notin> set ps \<Longrightarrow>
     list_all (acc_in_range doc) accs \<and> ps = map (Some \<circ> acc_image doc) accs"
proof (induction accs arbitrary: ps)
  case Nil
  then show ?case by simp
next
  case (Cons a accs)
  have "length (accResource doc) = 16" by (simp add: accResource_def acc_collections_def)
  then show ?case
    using Cons
    by (auto simp: js_nth_def acc_in_range_def acc_image_def accResource_def split: if_splits)
qed

lemma base_index:
  "0 \<le> js_findIndex (\<lambda>(pt, sk). pt = is_punkType s \<and> sk = is_skinTone s) type2PunkBasic \<Longrightarrow>
    js_findIndex (\<lambda>(pt, sk). pt = is_punkType s \<and> sk = is_skinTone s) type2PunkBasic = int (punkTypeId s)"
  by (auto simp: js_findIndex_def type2PunkBasic_def punkTypeId_def split: if_splits)


lemma rmap_list_map: "rmap_list f (map g xs) = rmap_list (\<lambda>x. f (g x)) xs"
  by (induction xs) simp_all

lemma held_part:
  assumes ok: "codec_ok cx" and fits: "doc_fits cx doc"
    and pal: "stored a (na_palettesPointers a 0) (palette_bytes cx doc)"
    and held: "\<And>c. holds cx a c (map (image_bytes cx) (id_images doc c))"
    and i: "i < length (id_images doc c)"
  shows "part_at cx a c i = Inr (part_of cx doc (id_images doc c ! i))"
proof -
  have "image_ok (cx_bytes cx (im_data (id_images doc c ! i)))"
    by (rule doc_fitsD(2) [OF fits nth_mem [OF i]])
  then obtain w where "image_bytes cx (id_images doc c ! i) = 0 # w"
    by (auto simp: image_ok_def image_bytes_def split: option.splits list.splits)
  then show ?thesis
    using part_at_holds [OF ok held, of i c w] pal i by (simp add: part_of_def)
qed

lemma parts_of_accessories:
  assumes ok: "codec_ok cx" and fits: "doc_fits cx doc"
    and pal: "stored (dc_art d) (na_palettesPointers (dc_art d) 0) (palette_bytes cx doc)"
    and held: "\<And>c. holds cx (dc_art d) c (map (image_bytes cx) (id_images doc c))"
    and base: "punkTypeId s < length (id_images doc Types)"
    and accs: "list_all (acc_in_range doc) (is_accessories s)" "distinct (map ar_accType (is_accessories s))"
  shows "getPartsForSeed cx d s = Inr (part_of cx doc (id_images doc Types ! punkTypeId s) #
           map (part_of cx doc \<circ> acc_image doc) (sort_key ar_accType (is_accessories s)))"
proof -
  let ?accs = "is_accessories s"
  have range: "\<forall>a \<in> set ?accs. 0 \<le> ar_accType a \<and> ar_accType a < 16"
    using accs(1) by (auto simp: list_all_iff acc_in_range_def)
  then have inj: "distinct (map (nat \<circ> ar_accType) ?accs)"
    using accs(2) unfolding distinct_map comp_def inj_on_def by (metis eq_nat_nat_iff)
  have "\<forall>a \<in> set ?accs. nat (ar_accType a) < length (replicate 16 (0::nat))" using range by auto
  from sort_accessories_table [OF inj this] obtain t where
      t: "sort_accessories ?accs (replicate 16 0) = Inr t"
        "\<forall>a \<in> set ?accs. t ! nat (ar_accType a) = 10000 + nat (ar_accId a)"
    by blast
  have part: "part_at cx (dc_art d) (acc_collections ! nat (ar_accType a)) (t ! nat (ar_accType a) mod 10000) =
      Inr (part_of cx doc (acc_image doc a))" if "a \<in> set (sort_key ar_accType ?accs)" for a
  proof -
    have a: "a \<in> set ?accs" "acc_in_range doc a" using that accs(1) by (auto simp: list_all_iff)
    have "length (id_images doc c) \<le> 10000" for c
      using doc_fitsD(1) [OF fits] by (simp add: page_fits_def)
    then have "t ! nat (ar_accType a) mod 10000 = nat (ar_accId a)"
      using a t(2) by (fastforce simp: acc_in_range_def dest: order_less_le_trans)
    then show ?thesis
      using held_part [OF ok fits pal held, of "nat (ar_accId a)" "acc_collections ! nat (ar_accType a)"] a(2)
      by (simp add: acc_in_range_def acc_image_def)
  qed
  have "rmap_list (\<lambda>i. part_at cx (dc_art d) (acc_collections ! i) (t ! i mod 10000))
      (filter (\<lambda>i. t ! i > 0) [0..<16]) =
    Inr (map (part_of cx doc \<circ> acc_image doc) (sort_key ar_accType ?accs))"
    unfolding table_order [OF inj range t(1)] rmap_list_map comp_def
    by (rule rmap_list_all_Inr) (rule part)
  then show ?thesis
    using held_part [OF ok fits pal held base] t(1) by (simp add: getPartsForSeed_def)
qed

lemma punkTypeId_accessories [simp]: "punkTypeId (s\<lparr>is_accessories := as\<rparr>) = punkTypeId s"
  by (simp add: punkTypeId_def)

lemma library_parts:
  assumes "getPunkData (id_images doc Types) (accResource doc) s = Inr parts" and "None \<notin> set parts"
  shows "punkTypeId s < length (id_images doc Types)" "list_all (acc_in_range doc) (is_accessories s)"
    "parts = Some (id_images doc Types ! punkTypeId s) # map (Some \<circ> acc_image doc) (is_accessories s)"
  using assms library_accessories [of doc "is_accessories s"] base_index [of s]
  by (auto simp: getPunkData_def Let_def js_nth_def [of "id_images doc Types"] split: if_splits)

lemma corresponding_parts:
  assumes same: "\<And>c. list_all2 R (id_images lib c) (id_images doc c)"
    and a: "list_all (acc_in_range lib) accs"
  shows "list_all (acc_in_range doc) accs" "list_all2 R (map (acc_image lib) accs) (map (acc_image doc) accs)"
proof -
  have len: "length (id_images lib c) = length (id_images doc c)" for c
    using same by (rule list_all2_lengthD)
  show "list_all (acc_in_range doc) accs" using a by (simp add: list_all_iff acc_in_range_def len)
  show "list_all2 R (map (acc_image lib) accs) (map (acc_image doc) accs)"
    using a list_all2_nthD [OF same]
    by (auto simp: list_all2_conv_all_nth list_all_length acc_in_range_def acc_image_def)
qed

text \<open>C17. \<open>populate-descriptor\<close>, run by the owner on a descriptor that is not locked, whose art
  contract is empty and obeys it, sends all eighteen transactions without an error. Afterwards, for
  every seed with accessories of different types, the parts that \<open>getPartsForSeed\<close> returns correspond,
  one by one and in order, to the parts that \<open>getPunkData\<close> of the asset library returns for the seed
  with its accessories in the order of their types: each is byte for byte an image of the document the
  task sent, with the stored palette, and is related to the part of the library whenever the two
  documents are related image by image (the library has the same images at four times the size, with
  \<open>x4\<close> at the end of the filename). The document has to fit (one page and at most 10000 images
  per collection, a page below the code size limit) and the decoders have to invert the encoders.
\<close>

theorem populated_art_matches_library:
  assumes "codec_ok cx" and "doc_fits cx doc" and "ready sender d"
    and "\<forall>c. tr_storagePages (na_traits (dc_art d) c) = []"
    and "\<And>c. list_all2 R (id_images lib c) (id_images doc c)"
  shows "\<exists>d'. populate_descriptor cx sender doc d = (d', None) \<and>
    (\<forall>s parts. distinct (map ar_accType (is_accessories s)) \<longrightarrow>
       getPunkData (id_images lib Types) (accResource lib)
         (s\<lparr>is_accessories := sort_key ar_accType (is_accessories s)\<rparr>) = Inr parts \<longrightarrow> None \<notin> set parts \<longrightarrow>
       (\<exists>es. getPartsForSeed cx d' s = Inr (map (part_of cx doc) es) \<and> list_all2 R (map the parts) es))"
proof -
  obtain d' where d': "populate_descriptor cx sender doc d = (d', None)"
      "stored (dc_art d') (na_palettesPointers (dc_art d') 0) (palette_bytes cx doc)"
      "\<And>c. holds cx (dc_art d') c (map (image_bytes cx) (id_images doc c))"
    using populate_effect [OF assms(1-4)] by blast
  have "\<exists>es. getPartsForSeed cx d' s = Inr (map (part_of cx doc) es) \<and> list_all2 R (map the parts) es"
    if "distinct (map ar_accType (is_accessories s))" "None \<notin> set parts"
      "getPunkData (id_images lib Types) (accResource lib)
         (s\<lparr>is_accessories := sort_key ar_accType (is_accessories s)\<rparr>) = Inr parts" for s parts
  proof -
    let ?accs = "sort_key ar_accType (is_accessories s)"
    note lib = library_parts [OF that(3,2), simplified]
    have accs: "list_all (acc_in_range lib) ?accs" using lib(2) by (simp add: list_all_iff)
    note corr = corresponding_parts [OF assms(5) accs]
    have base: "punkTypeId s < length (id_images doc Types)"
        "R (id_images lib Types ! punkTypeId s) (id_images doc Types ! punkTypeId s)"
      using lib(1) list_all2_lengthD [OF assms(5)] list_all2_nthD [OF assms(5)] by auto
    have "list_all (acc_in_range doc) (is_accessories s)" using corr(1) by (simp add: list_all_iff)
    from parts_of_accessories [OF assms(1,2) d'(2,3) base(1) this that(1)] show ?thesis
      using base(2) corr(2) lib(3)
      by (intro exI [of _ "id_images doc Types ! punkTypeId s # map (acc_image doc) ?accs"]) (simp add: comp_def)
  qed
  with d'(1) show ?thesis by blast
qed

text \<open>A small codec that satisfies the laws: a tag in front of every byte and after every image.\<close>

definition demo_abi :: "bytes list \<Rightarrow> bytes" where
  "demo_abi xs = concat (map (\<lambda>x. concat (map (\<lambda>b. [1, b]) x) @ [0]) xs) @ [2]"

fun demo_unabi :: "bytes \<Rightarrow> bytes \<Rightarrow> bytes list option" where
  "demo_unabi [] cur = None"
| "demo_unabi [t] cur = (if t = 2 then Some [] else None)"
| "demo_unabi (t # b # r) cur =
     (if t = 0 then map_option ((#) (rev cur)) (demo_unabi (b # r) []) else demo_unabi r (b # cur))"

definition demo_codec :: codec where
  "demo_codec =
     \<lparr>cx_bytes = (\<lambda>s. if take 2 s = ''0x'' then Some (from_hex (drop 2 s)) else None),
      cx_abi_encode = demo_abi, cx_abi_decode = (\<lambda>b. demo_unabi b []),
      cx_deflate = (#) 0, cx_puff = (\<lambda>b n. tl b)\<rparr>"

lemma demo_unabi_image:
  "r \<noteq> [] \<Longrightarrow> demo_unabi (concat (map (\<lambda>b. [1, b]) x) @ 0 # r) cur =
     map_option ((#) (rev cur @ x)) (demo_unabi r [])"
proof (induction x arbitrary: cur)
  case Nil
  then show ?case by (cases r) simp_all
qed simp

lemma demo_unabi_abi: "demo_unabi (demo_abi xs) [] = Some xs"
proof (induction xs)
  case (Cons x xs)
  then show ?case
    using demo_unabi_image [of "demo_abi xs" x "[]"] by (simp add: demo_abi_def)
qed (simp add: demo_abi_def)

lemma demo_codec_ok: "codec_ok demo_codec"
proof -
  have "demo_abi bs \<noteq> []" for bs by (simp add: demo_abi_def)
  then show ?thesis by (simp add: codec_ok_def demo_codec_def demo_unabi_abi)
qed

definition demo_doc :: image_doc where
  "demo_doc =
     \<lparr>id_palette = [[], ''000000ff''],
      id_images = (\<lambda>c. \<lparr>im_filename = ''a'', im_data = ''0x0001''\<rparr> #
        (if c = Hats then [\<lparr>im_filename = ''b'', im_data = ''0x0002''\<rparr>] else []))\<rparr>"

definition demo_art :: descriptor where
  "demo_art =
     \<lparr>dc_address = ''0xd'', dc_owner = ''0xo'', dc_arePartsLocked = False,
      dc_art = \<lparr>na_descriptor = ''0xd'', na_palettesPointers = (\<lambda>_. 0),
        na_traits = (\<lambda>_. \<lparr>tr_storagePages = [], tr_storedImagesCount = 0\<rparr>), na_blobs = []\<rparr>\<rparr>"

definition demo_seed :: iseed where
  "demo_seed = \<lparr>is_punkType = 0, is_skinTone = 0,
     is_accessories = [\<lparr>ar_accType = 12, ar_accId = 0\<rparr>, \<lparr>ar_accType = 8, ar_accId = 1\<rparr>]\<rparr>"

lemma demo_bytes:
  "cx_bytes demo_codec ''0x0001'' = Some [0, 1]" "cx_bytes demo_codec ''0x0002'' = Some [0, 2]"
  "cx_bytes demo_codec ''0x00000000000000ff'' = Some [0, 0, 0, 0, 0, 0, 0, 255]"
  by code_simp+

lemma demo_encoders: "cx_abi_encode demo_codec = demo_abi" "cx_deflate demo_codec = (#) 0"
  by (simp_all add: demo_codec_def)

lemma demo_doc_fits: "doc_fits demo_codec demo_doc"
  by (simp add: doc_fits_def demo_doc_def demo_bytes palette_ok_def image_ok_def page_fits_def
      image_bytes_def populate_order_def demo_encoders demo_abi_def)

definition demo_library :: image_doc where
  "demo_library =
     \<lparr>id_palette = [[], ''000000ff''],
      id_images = (\<lambda>c. \<lparr>im_filename = ''ax4'', im_data = ''0x000404040400''\<rparr> #
        (if c = Hats then [\<lparr>im_filename = ''bx4'', im_data = ''0x000505050500''\<rparr>] else []))\<rparr>"

definition same_name :: "doc_image \<Rightarrow> doc_image \<Rightarrow> bool" where
  "same_name e f \<longleftrightarrow> im_filename e = im_filename f @ ''x4''"

lemma demo_names: "list_all2 same_name (id_images demo_library c) (id_images demo_doc c)"
  by (simp add: demo_library_def demo_doc_def same_name_def)

lemma demo_library_parts:
  "getPunkData (id_images demo_library Types) (accResource demo_library)
     (demo_seed\<lparr>is_accessories := sort_key ar_accType (is_accessories demo_seed)\<rparr>) =
   Inr [Some \<lparr>im_filename = ''ax4'', im_data = ''0x000404040400''\<rparr>,
        Some \<lparr>im_filename = ''bx4'', im_data = ''0x000505050500''\<rparr>,
        Some \<lparr>im_filename = ''ax4'', im_data = ''0x000404040400''\<rparr>]"
  by (simp add: demo_seed_def getPunkData_def js_nth_def js_findIndex_def type2PunkBasic_def
      accResource_def acc_collections_def demo_library_def)

theorem populated_art_matches_library_witness:
  "\<exists>d' es. populate_descriptor demo_codec ''0xo'' demo_doc demo_art = (d', None) \<and>
     getPartsForSeed demo_codec d' demo_seed = Inr (map (part_of demo_codec demo_doc) es) \<and>
     map im_filename es = [''a'', ''b'', ''a'']"
proof -
  have pre: "ready ''0xo'' demo_art" "\<forall>c. tr_storagePages (na_traits (dc_art demo_art) c) = []"
    "distinct (map ar_accType (is_accessories demo_seed))"
    by (simp_all add: ready_def demo_art_def demo_seed_def)
  let ?parts = "[Some \<lparr>im_filename = ''ax4'', im_data = ''0x000404040400''\<rparr>,
        Some \<lparr>im_filename = ''bx4'', im_data = ''0x000505050500''\<rparr>,
        Some \<lparr>im_filename = ''ax4'', im_data = ''0x000404040400''\<rparr>]"
  obtain d' where d': "populate_descriptor demo_codec ''0xo'' demo_doc demo_art = (d', None)"
      and all: "\<forall>s parts. distinct (map ar_accType (is_accessories s)) \<longrightarrow>
       getPunkData (id_images demo_library Types) (accResource demo_library)
         (s\<lparr>is_accessories := sort_key ar_accType (is_accessories s)\<rparr>) = Inr parts \<longrightarrow> None \<notin> set parts \<longrightarrow>
       (\<exists>es. getPartsForSeed demo_codec d' s = Inr (map (part_of demo_codec demo_doc) es) \<and>
             list_all2 same_name (map the parts) es)"
    using populated_art_matches_library [OF demo_codec_ok demo_doc_fits pre(1,2) demo_names] by blast
  from all [rule_format, of demo_seed ?parts, OF pre(3) demo_library_parts]
  obtain es where es: "getPartsForSeed demo_codec d' demo_seed = Inr (map (part_of demo_codec demo_doc) es)"
      "list_all2 same_name (map the ?parts) es"
    by auto
  have "map im_filename es = [''a'', ''b'', ''a'']"
    using es(2) by (auto simp: same_name_def list_all2_Cons1)
  with d' es(1) show ?thesis by (intro exI conjI)
qed

end
