(* ===== verification/Tasks_Proposal.thy ===== *)
theory Tasks_Proposal
  imports Tasks_Art
begin

text \<open>
  The two other tasks that send or write the art:
  \<open>packages/punks-contracts/tasks/populate-descriptor-via-proposal.ts\<close>, which asks the DAO to send it, and
  \<open>descriptor-art-to-console.ts\<close>, which writes it to files for the Solidity tests. The calls of a
  proposal are executed against the descriptor contract of theory \<open>Tasks_Art\<close>.
\<close>

section \<open>The proposal\<close>

text \<open>The JSON document; an absent property is \<open>None\<close>. The entries of \<open>palettes\<close> are in the
  order of \<open>Object.entries\<close>.\<close>

record proposal_images =
  pi_bodies :: "doc_image list option"
  pi_accessories :: "doc_image list option"
  pi_heads :: "doc_image list option"
  pi_glasses :: "doc_image list option"

record proposal_doc =
  pd_bgcolors :: "string list option"
  pd_palettes :: "(string \<times> string list) list option"
  pd_images :: "proposal_images option"

text \<open>The arguments in the ABI-encoded calldata.\<close>

datatype call_args = Strings "string list" | Palette "int option" bytes | Page bytes nat nat

record proposal_action =
  pa_target :: string
  pa_value :: nat
  pa_signature :: string
  pa_calldata :: call_args

definition action :: "string \<Rightarrow> string \<Rightarrow> call_args \<Rightarrow> proposal_action" where
  "action target sig args = \<lparr>pa_target = target, pa_value = 0, pa_signature = sig, pa_calldata = args\<rparr>"

definition palette_action :: "codec \<Rightarrow> string \<Rightarrow> string \<times> string list \<Rightarrow> proposal_action result" where
  "palette_action cx nDescriptor = (\<lambda>(index, colors).
     rbind (of_option TypeError (cx_bytes cx (''0x000000'' @ concat colors))) (\<lambda>b.
     case parseInt 10 index of
       None \<Rightarrow> Inl TypeError
     | Some i \<Rightarrow> if 0 \<le> i \<and> i < 256
                 then Inr (action nDescriptor ''setPalette(uint8,bytes)'' (Palette (Some i) b))
                 else Inl RangeError))"

definition page_action :: "codec \<Rightarrow> string \<Rightarrow> string \<Rightarrow> doc_image list option \<Rightarrow> proposal_action list result" where
  "page_action cx nDescriptor sig images =
     (case images of
        None \<Rightarrow> Inr []
      | Some es \<Rightarrow>
          rbind (dataToDescriptorInput cx (map im_data es)) (\<lambda>page.
          rbind (of_option TypeError (cx_bytes cx (di_encodedCompressed page))) (\<lambda>b.
            if di_originalLength page \<ge> 2 ^ 80 \<or> di_itemCount page \<ge> 2 ^ 16 then Inl RangeError
            else Inr [action nDescriptor sig (Page b (di_originalLength page) (di_itemCount page))])))"

definition image_actions :: "codec \<Rightarrow> string \<Rightarrow> proposal_images \<Rightarrow> proposal_action list result" where
  "image_actions cx nDescriptor im =
     rbind (page_action cx nDescriptor ''addBodies(bytes,uint80,uint16)'' (pi_bodies im)) (\<lambda>as1.
     rbind (page_action cx nDescriptor ''addHeads(bytes,uint80,uint16)'' (pi_heads im)) (\<lambda>as2.
     rbind (page_action cx nDescriptor ''addGlasses(bytes,uint80,uint16)'' (pi_glasses im)) (\<lambda>as3.
     rbind (page_action cx nDescriptor ''addAccessories(bytes,uint80,uint16)'' (pi_accessories im)) (\<lambda>as4.
       Inr (as1 @ as2 @ as3 @ as4)))))"

definition populate_via_proposal :: "codec \<Rightarrow> string \<Rightarrow> proposal_doc \<Rightarrow> proposal_action list result" where
  "populate_via_proposal cx nDescriptor doc =
     (let backgrounds = (case pd_bgcolors doc of None \<Rightarrow> []
            | Some cs \<Rightarrow> [action nDescriptor ''addManyBackgrounds(string[])'' (Strings cs)])
      in rbind (case pd_palettes doc of None \<Rightarrow> Inr [] | Some ps \<Rightarrow> rmap_list (palette_action cx nDescriptor) ps)
           (\<lambda>ps. rbind (case pd_images doc of None \<Rightarrow> Inr [] | Some im \<Rightarrow> image_actions cx nDescriptor im)
             (\<lambda>is. Inr (backgrounds @ ps @ is))))"

text \<open>The functions of \<open>NDescriptorV2\<close> that store images, by their signatures. The contract has no
  fallback function, so a call of any other signature with these arguments reverts.\<close>

definition add_signature :: "collection \<Rightarrow> string" where
  "add_signature c =
     ''add'' @ (case c of
        Types \<Rightarrow> ''PunkTypes'' | Necks \<Rightarrow> ''Necks'' | Cheekses \<Rightarrow> ''Cheekses'' | Faces \<Rightarrow> ''Faces''
      | Beards \<Rightarrow> ''Beards'' | Mouths \<Rightarrow> ''Mouths'' | Earses \<Rightarrow> ''Earses'' | Hats \<Rightarrow> ''Hats''
      | Helmets \<Rightarrow> ''Helmets'' | Hairs \<Rightarrow> ''Hairs'' | Teeths \<Rightarrow> ''Teeths'' | Lipses \<Rightarrow> ''Lipses''
      | Emotions \<Rightarrow> ''Emotions'' | Eyeses \<Rightarrow> ''Eyeses'' | Glasseses \<Rightarrow> ''Glasseses''
      | Goggleses \<Rightarrow> ''Goggleses'' | Noses \<Rightarrow> ''Noses'')
     @ ''(bytes,uint80,uint16)''"

definition descriptor_call :: "string \<Rightarrow> proposal_action \<Rightarrow> descriptor \<Rightarrow> descriptor result" where
  "descriptor_call sender a d =
     (case pa_calldata a of
        Palette (Some i) b \<Rightarrow>
          if pa_signature a = ''setPalette(uint8,bytes)'' then setPalette sender (nat i) b d
          else Inl (ErrorMsg ''revert'')
      | Page b len cnt \<Rightarrow>
          (case List.find (\<lambda>c. add_signature c = pa_signature a) populate_order of
             None \<Rightarrow> Inl (ErrorMsg ''revert'')
           | Some c \<Rightarrow> add_images sender c b len cnt d)
      | _ \<Rightarrow> Inl (ErrorMsg ''revert''))"

text \<open>The timelock executes the calls of a proposal in one transaction: all or none.\<close>

fun execute_actions :: "string \<Rightarrow> proposal_action list \<Rightarrow> descriptor \<Rightarrow> descriptor result" where
  "execute_actions sender [] d = Inr d"
| "execute_actions sender (a # as) d = rbind (descriptor_call sender a d) (execute_actions sender as)"

lemma rmap_list_InrD: "rmap_list f xs = Inr ys \<Longrightarrow> y \<in> set ys \<Longrightarrow> \<exists>x \<in> set xs. f x = Inr y"
  by (induction xs arbitrary: ys) auto

lemma page_action_reverts:
  assumes "page_action cx nd sig images = Inr as" "a \<in> set as" "sig \<notin> add_signature ` set populate_order"
  shows "\<exists>e. descriptor_call sender a d = Inl e"
proof -
  have "List.find (\<lambda>c. add_signature c = sig) populate_order = None"
    using assms(3) by (auto simp: find_None_iff)
  then show ?thesis
    using assms(1,2)
    by (auto simp: page_action_def action_def descriptor_call_def split: option.splits if_splits)
qed

lemma no_such_function:
  "''addBodies(bytes,uint80,uint16)'' \<notin> add_signature ` set populate_order"
  "''addHeads(bytes,uint80,uint16)'' \<notin> add_signature ` set populate_order"
  "''addGlasses(bytes,uint80,uint16)'' \<notin> add_signature ` set populate_order"
  "''addAccessories(bytes,uint80,uint16)'' \<notin> add_signature ` set populate_order"
  by (simp_all add: populate_order_def add_signature_def)

lemma image_actions_revert:
  "image_actions cx nd im = Inr as \<Longrightarrow> a \<in> set as \<Longrightarrow> \<exists>e. descriptor_call sender a d = Inl e"
  using page_action_reverts no_such_function by (auto simp: image_actions_def)

lemma length_concat_colors:
  "\<forall>c \<in> set colors. length c = 8 \<or> c = [] \<Longrightarrow> \<exists>k. length (concat colors) = 8 * k"
proof (induction colors)
  case (Cons c colors)
  then obtain k where "length (concat colors) = 8 * k" by auto
  with Cons.prems show ?case by (auto intro: exI [of _ "k + 1"] exI [of _ k])
qed simp

lemma palette_action_reverts:
  assumes width: "\<And>s b. cx_bytes cx s = Some b \<Longrightarrow> length s = 2 + 2 * length b"
    and a: "palette_action cx nd (index, colors) = Inr a"
    and colors: "\<forall>c \<in> set colors. length c = 8 \<or> c = []"
  shows "\<exists>e. descriptor_call sender a d = Inl e"
proof -
  obtain b i where b: "cx_bytes cx (''0x000000'' @ concat colors) = Some b"
      "a = action nd ''setPalette(uint8,bytes)'' (Palette (Some i) b)"
    using a by (auto simp: palette_action_def split: option.splits if_splits)
  obtain k where "length (concat colors) = 8 * k" using length_concat_colors [OF colors] by blast
  with width [OF b(1)] have "length b = 3 + 4 * k" by simp
  then have "length b mod 4 = 3" by simp
  then have "\<exists>e. setPalette sender (nat i) b d = Inl e"
    by (auto simp: setPalette_def art_setPalette_def rbind_Inl_iff only_owner_unlocked_def onlyDescriptor_def)
  then show ?thesis by (simp add: b(2) action_def descriptor_call_def)
qed

lemma execute_head_reverts:
  "as \<noteq> [] \<Longrightarrow> \<forall>a \<in> set as. \<forall>d. \<exists>e. descriptor_call sender a d = Inl e \<Longrightarrow> \<exists>e. execute_actions sender as d = Inl e"
  by (cases as) (auto simp: rbind_Inl_iff)

text \<open>A proposal made by \<open>populate-descriptor-via-proposal\<close> can never be executed, whatever it
  contains: the functions \<open>addManyBackgrounds\<close>, \<open>addBodies\<close>, \<open>addHeads\<close>, \<open>addGlasses\<close> and
  \<open>addAccessories\<close> do not exist in the descriptor, and three bytes are put in front of a palette of
  four-byte colours where the contract wants a multiple of four, so the execution of its calls reverts
  for every sender and every state of the contracts.
\<close>

lemma proposal_never_executes:
  assumes "\<And>s b. cx_bytes cx s = Some b \<Longrightarrow> length s = 2 + 2 * length b"
    and "\<forall>(i, colors) \<in> set (case pd_palettes doc of None \<Rightarrow> [] | Some ps \<Rightarrow> ps).
           \<forall>c \<in> set colors. length c = 8 \<or> c = []"
    and "populate_via_proposal cx nDescriptor doc = Inr actions" and "actions \<noteq> []"
  shows "\<exists>e. execute_actions sender actions d = Inl e"
proof (rule execute_head_reverts [OF assms(4)], intro ballI allI)
  fix a d assume "a \<in> set actions"
  moreover obtain ps' is' where parts: "actions = (case pd_bgcolors doc of None \<Rightarrow> []
            | Some cs \<Rightarrow> [action nDescriptor ''addManyBackgrounds(string[])'' (Strings cs)]) @ ps' @ is'"
      "(case pd_palettes doc of None \<Rightarrow> Inr [] | Some ps \<Rightarrow> rmap_list (palette_action cx nDescriptor) ps) = Inr ps'"
      "(case pd_images doc of None \<Rightarrow> Inr [] | Some im \<Rightarrow> image_actions cx nDescriptor im) = Inr is'"
    using assms(3) by (auto simp only: populate_via_proposal_def Let_def rbind_Inr_iff sum.inject)
  ultimately consider "a \<in> set (case pd_bgcolors doc of None \<Rightarrow> []
            | Some cs \<Rightarrow> [action nDescriptor ''addManyBackgrounds(string[])'' (Strings cs)])"
    | "a \<in> set ps'" | "a \<in> set is'" by auto
  then show "\<exists>e. descriptor_call sender a d = Inl e"
  proof cases
    case 1
    then show ?thesis by (auto simp: action_def descriptor_call_def split: option.splits)
  next
    case 2
    then obtain ps i colors where "pd_palettes doc = Some ps" "(i, colors) \<in> set ps"
        "palette_action cx nDescriptor (i, colors) = Inr a"
      using parts(2) by (auto split: option.splits dest!: rmap_list_InrD)
    then show ?thesis
      using assms(2) palette_action_reverts [OF assms(1)] by auto
  next
    case 3
    then show ?thesis using parts(3) image_actions_revert by (auto split: option.splits)
  qed
qed

section \<open>The files for the Solidity tests\<close>

text \<open>\<open>xs.slice(a, b)\<close>.\<close>

definition js_slice :: "'a list \<Rightarrow> int \<Rightarrow> int \<Rightarrow> 'a list" where
  "js_slice xs a b =
     (let n = int (length xs);
          rel = (\<lambda>i. nat (if i < 0 then max 0 (n + i) else min i n))
      in take (rel b - rel a) (drop (rel a) xs))"

definition console_images :: "int option \<Rightarrow> int option \<Rightarrow> doc_image list \<Rightarrow> doc_image list" where
  "console_images cnt start es =
     (case cnt of
        None \<Rightarrow> es
      | Some k \<Rightarrow> (let s = (case start of None \<Rightarrow> 0 | Some i \<Rightarrow> i) in js_slice es s (k + s)))"

definition console_file :: "collection \<Rightarrow> string" where
  "console_file c =
     (case c of
        Types \<Rightarrow> ''typesPage.abi'' | Necks \<Rightarrow> ''necksPage.abi'' | Cheekses \<Rightarrow> ''cheeksesPage.abi''
      | Faces \<Rightarrow> ''facesPage.abi'' | Beards \<Rightarrow> ''beardsPage.abi'' | Mouths \<Rightarrow> ''mouthsPage.abi''
      | Earses \<Rightarrow> ''earsesPage.abi'' | Hats \<Rightarrow> ''hatsPage.abi'' | Helmets \<Rightarrow> ''helmetsPage.abi''
      | Hairs \<Rightarrow> ''hairsPage.abi'' | Teeths \<Rightarrow> ''teethsPage.abi'' | Lipses \<Rightarrow> ''lipsesPage.abi''
      | Emotions \<Rightarrow> ''emotionsPage.abi'' | Eyeses \<Rightarrow> ''eyesesPage.abi'' | Glasseses \<Rightarrow> ''glassesPage.abi''
      | Goggleses \<Rightarrow> ''gogglesPage.abi'' | Noses \<Rightarrow> ''nosesPage.abi'')"

text \<open>ethers refuses to encode when the numbers of types and values differ.\<close>

definition abi_arity :: "string list \<Rightarrow> string list \<Rightarrow> string list result" where
  "abi_arity types values =
     (if length types \<noteq> length values then Inl (ErrorMsg ''types/values length mismatch'') else Inr values)"

text \<open>The files the task writes, and the error that stops it.\<close>

definition descriptor_art_to_console ::
  "codec \<Rightarrow> int option \<Rightarrow> int option \<Rightarrow> image_doc \<Rightarrow>
     (string \<times> (string list + descriptor_input)) list \<times> js_error option" where
  "descriptor_art_to_console cx cnt start doc =
     (case rmap_list (\<lambda>c. rbind (dataToDescriptorInput cx
                (map im_data (console_images cnt start (id_images doc c)))) (\<lambda>p. Inr (console_file c, p)))
             populate_order of
        Inl e \<Rightarrow> ([], Some e)
      | Inr pages \<Rightarrow>
          let paletteValue = ''0x000000'' @ concat (id_palette doc)
          in case abi_arity [''bytes'', ''string[]''] [paletteValue] of
               Inl e \<Rightarrow> ([], Some e)
             | Inr vs \<Rightarrow> ((''paletteAndBackgrounds.abi'', Inl vs) #
                           map (\<lambda>(f, p). (f, Inr p)) pages, None))"

lemma console_writes_nothing:
  "\<exists>e. descriptor_art_to_console cx cnt start doc = ([], Some e)"
  by (auto simp: descriptor_art_to_console_def abi_arity_def split: sum.splits)

end
