(* ===== verification/Bots.thy ===== *)
theory Bots
  imports Bots_Cache "HOL-Library.Word"
begin

text \<open>
  \<open>packages/punks-bots/src\<close>: the texts (\<open>utils.ts\<close>), the two handlers (\<open>handlers/twitter.ts\<close>,
  \<open>handlers/discord.ts\<close>) and the ticks (\<open>index.ts\<close>). A tick is a function from the state of the bot
  (cache, messages sent, counters) and what the subgraph answers. The services the bot calls are
  parameters. Handlers that run concurrently touch different things and are run one after the other; a
  call that fails (network) is not modelled. The lemmas say which notices a sequence of ticks sends.
\<close>

section \<open>Services and state\<close>

text \<open>\<open>sv_dataURI\<close> calls the token contract (\<open>None\<close> when it fails), \<open>sv_base64\<close> decodes, \<open>sv_json_image\<close>
  reads the field \<open>image\<close> of a JSON text, \<open>sv_sharp\<close> converts the SVG to PNG, \<open>sv_lookupAddress\<close> is the
  ENS lookup and \<open>sv_tweet_id\<close> the identifier given to the next tweet.\<close>

record 'png services =
  sv_dataURI :: "string \<Rightarrow> string option"
  sv_base64 :: "string \<Rightarrow> string"
  sv_json_image :: "string \<Rightarrow> string"
  sv_sharp :: "string \<Rightarrow> 'png"
  sv_lookupAddress :: "string \<Rightarrow> string option"
  sv_formatEther :: "string \<Rightarrow> string"
  sv_tweet_id :: "nat \<Rightarrow> string"

record 'png embed =
  em_title :: string
  em_description :: string
  em_url :: string
  em_field :: "(string \<times> nat) option"
  em_image :: "(string \<times> 'png) option"

datatype 'png message = Tweet string 'png | Reply string string | WebhookMessage nat "'png embed"

datatype notice =
    NewAuction nat
  | NewBid nat Bid
  | AuctionEndingSoon nat
  | NewProposal bot_proposal
  | UpdatedProposalStatus bot_proposal
  | ProposalAtRiskOfExpiry bot_proposal
  | GovernanceVote bot_proposal bot_vote

text \<open>\<open>bs_notices\<close> is the history of the notices given to the handlers.\<close>

record 'png bot_state =
  bs_redis :: redis
  bs_messages :: "'png message list"
  bs_counters :: "string list"
  bs_notices :: "notice list"

abbreviation on_redis :: "(redis \<Rightarrow> redis) \<Rightarrow> 'png bot_state \<Rightarrow> 'png bot_state" where
  "on_redis f st \<equiv> st\<lparr>bs_redis := f (bs_redis st)\<rparr>"

abbreviation send :: "'png message \<Rightarrow> 'png bot_state \<Rightarrow> 'png bot_state" where
  "send m st \<equiv> st\<lparr>bs_messages := bs_messages st @ [m]\<rparr>"

section \<open>Texts\<close>

definition shortAddress :: "string \<Rightarrow> string" where
  "shortAddress address =
     substr address 0 4 @ ''...'' @ substr address (int (length address) - 4) (length address)"

definition voteDirectionToText :: "VoteDirection \<Rightarrow> string" where
  "voteDirectionToText d = (case d of FOR \<Rightarrow> ''for'' | AGAINST \<Rightarrow> ''against'' | ABSTAIN \<Rightarrow> ''to abstain on'')"

definition resolveEnsOrFormatAddress :: "'png services \<Rightarrow> string \<Rightarrow> string" where
  "resolveEnsOrFormatAddress sv address =
     (case sv_lookupAddress sv address of
        None \<Rightarrow> shortAddress address
      | Some n \<Rightarrow> if n = [] then shortAddress address else n)"

definition newline :: string where "newline = [CHR 0x0A]"

text \<open>The full-width asterisk and the letter Xi are three and two bytes of UTF-8.\<close>

definition full_asterisk :: string where "full_asterisk = [CHR 0xEF, CHR 0xBC, CHR 0x8A]"
definition xi_sign :: string where "xi_sign = [CHR 0xCE, CHR 0x9E]"

definition formatAuctionStartedTweetText :: "nat \<Rightarrow> string" where
  "formatAuctionStartedTweetText auctionId =
     full_asterisk @ ''Bleep Bloop Blop'' @ full_asterisk @ newline @ ''        '' @ newline @
     '' An auction has started for Noun #'' @ dec auctionId @ newline @ '' Learn more at https://nouns.wtf''"

definition formatBidMessageText :: "'png services \<Rightarrow> nat \<Rightarrow> Bid \<Rightarrow> string" where
  "formatBidMessageText sv i bid =
     ''Noun '' @ dec i @ '' has received a bid of '' @ xi_sign @ sv_formatEther sv (bd_amount bid) @ '' from '' @
     resolveEnsOrFormatAddress sv (bd_bidder bid)"

definition getAuctionEndingSoonTweetText :: string where
  "getAuctionEndingSoonTweetText = ''This auction is ending soon! Bid now at https://nouns.wtf''"

definition formatNewGovernanceProposalText :: "bot_proposal \<Rightarrow> string" where
  "formatNewGovernanceProposalText p =
     ''A new NounsDAO proposal (#'' @ num_text (bp_id p) @ '') has been created: '' @ extractProposalTitle p"

definition status_text :: "proposal_status \<Rightarrow> string" where
  "status_text s =
     (case s of PENDING \<Rightarrow> ''PENDING'' | ACTIVE \<Rightarrow> ''ACTIVE'' | CANCELLED \<Rightarrow> ''CANCELLED'' | VETOED \<Rightarrow> ''VETOED''
      | QUEUED \<Rightarrow> ''QUEUED'' | EXECUTED \<Rightarrow> ''EXECUTED'')"

definition formatUpdatedGovernanceProposalStatusText :: "bot_proposal \<Rightarrow> string" where
  "formatUpdatedGovernanceProposalStatusText p =
     ''Nouns DAO proposal #'' @ num_text (bp_id p) @ '' ('' @ extractProposalTitle p @ '') has changed to status: '' @
     toLowerCase (status_text (bp_status p))"

definition formatProposalAtRiskOfExpiryText :: "bot_proposal \<Rightarrow> string" where
  "formatProposalAtRiskOfExpiryText p =
     ''Nouns DAO proposal #'' @ num_text (bp_id p) @ '' ('' @ extractProposalTitle p @
     '') expires in less than two days. Please execute it immediately!''"

definition formatNewGovernanceVoteText :: "'png services \<Rightarrow> bot_proposal \<Rightarrow> bot_vote \<Rightarrow> string" where
  "formatNewGovernanceVoteText sv p v =
     resolveEnsOrFormatAddress sv (bv_voter v) @ '' has voted '' @ voteDirectionToText (bv_supportDetailed v) @
     '' Proposal #'' @ num_text (bp_id p) @ '' ('' @ extractProposalTitle p @ '')'' @
     (case bv_reason v of
        None \<Rightarrow> []
      | Some r \<Rightarrow> if r = [] then [] else newline @ newline @ ''Reason: '' @ r)"

definition getNounPngBuffer :: "'png services \<Rightarrow> string \<Rightarrow> 'png option" where
  "getNounPngBuffer sv tokenId =
     map_option (\<lambda>dataURI.
       let image = sv_json_image sv (sv_base64 sv (substring_from dataURI 29))
       in sv_sharp sv (sv_base64 sv (substring_from image 26))) (sv_dataURI sv tokenId)"

definition buildCounterName :: "string \<Rightarrow> string" where
  "buildCounterName counterName = ''bots_'' @ counterName"

definition incrementCounter :: "string \<Rightarrow> 'png bot_state \<Rightarrow> 'png bot_state" where
  "incrementCounter c st = st\<lparr>bs_counters := bs_counters st @ [c]\<rparr>"

section \<open>Twitter\<close>

text \<open>Sending a tweet and remembering it for the replies.\<close>

definition tweeted :: "'png services \<Rightarrow> 'png message \<Rightarrow> 'png bot_state \<Rightarrow> 'png bot_state" where
  "tweeted sv m st = on_redis (updateAuctionReplyTweetId (sv_tweet_id sv (length (bs_messages st)))) (send m st)"

definition reply_target :: "redis \<Rightarrow> string option" where
  "reply_target r =
     (case getAuctionReplyTweetId r of Some (RText t) \<Rightarrow> if t = [] then None else Some t | _ \<Rightarrow> None)"

definition twitter_handleNewAuction :: "'png services \<Rightarrow> nat \<Rightarrow> 'png bot_state \<Rightarrow> 'png bot_state" where
  "twitter_handleNewAuction sv auctionId st =
     (case getNounPngBuffer sv (dec auctionId) of
        None \<Rightarrow> st
      | Some png \<Rightarrow> tweeted sv (Tweet (formatAuctionStartedTweetText auctionId) png) st)"

definition twitter_handleNewBid :: "'png services \<Rightarrow> nat \<Rightarrow> Bid \<Rightarrow> 'png bot_state \<Rightarrow> 'png bot_state" where
  "twitter_handleNewBid sv auctionId bid st =
     (case reply_target (bs_redis st) of
        None \<Rightarrow> st
      | Some t \<Rightarrow> tweeted sv (Reply (formatBidMessageText sv auctionId bid) t) st)"

definition twitter_handleAuctionEndingSoon :: "'png services \<Rightarrow> nat \<Rightarrow> 'png bot_state \<Rightarrow> 'png bot_state" where
  "twitter_handleAuctionEndingSoon sv auctionId st =
     (case reply_target (bs_redis st) of
        None \<Rightarrow> st
      | Some t \<Rightarrow> tweeted sv (Reply getAuctionEndingSoonTweetText t) st)"

section \<open>Discord\<close>

text \<open>\<open>discordClients\<close> is the number of webhooks; every message goes to each.\<close>

definition to_clients :: "nat \<Rightarrow> 'png embed \<Rightarrow> 'png bot_state \<Rightarrow> 'png bot_state" where
  "to_clients discordClients m st = fold (\<lambda>c. send (WebhookMessage c m)) [0..<discordClients] st"

definition plain_embed :: "string \<Rightarrow> string \<Rightarrow> string \<Rightarrow> 'png embed" where
  "plain_embed title url description =
     \<lparr>em_title = title, em_description = description, em_url = url, em_field = None, em_image = None\<rparr>"

definition discord_handleNewAuction :: "nat \<Rightarrow> 'png services \<Rightarrow> nat \<Rightarrow> 'png bot_state \<Rightarrow> 'png bot_state" where
  "discord_handleNewAuction clients sv auctionId st =
     (case getNounPngBuffer sv (dec auctionId) of
        None \<Rightarrow> st
      | Some png \<Rightarrow>
          to_clients clients
            \<lparr>em_title = ''New Auction Discovered'',
             em_description = ''An auction has started for Noun #'' @ dec auctionId, em_url = ''https://nouns.wtf'',
             em_field = Some (''Noun ID'', auctionId),
             em_image = Some (''attachment://Auction-'' @ dec auctionId @ ''.png'', png)\<rparr> st)"

definition discord_handleNewBid :: "nat \<Rightarrow> 'png services \<Rightarrow> nat \<Rightarrow> Bid \<Rightarrow> 'png bot_state \<Rightarrow> 'png bot_state" where
  "discord_handleNewBid clients sv auctionId bid =
     to_clients clients (plain_embed ''New Bid Placed'' ''https://nouns.wtf'' (formatBidMessageText sv auctionId bid))"

definition vote_url :: "bot_proposal \<Rightarrow> string" where
  "vote_url p = ''https://nouns.wtf/vote/'' @ num_text (bp_id p)"

definition discord_handleNewProposal :: "nat \<Rightarrow> bot_proposal \<Rightarrow> 'png bot_state \<Rightarrow> 'png bot_state" where
  "discord_handleNewProposal clients p =
     to_clients clients (plain_embed ''New Governance Proposal'' (vote_url p) (formatNewGovernanceProposalText p))"

definition discord_handleUpdatedProposalStatus :: "nat \<Rightarrow> bot_proposal \<Rightarrow> 'png bot_state \<Rightarrow> 'png bot_state" where
  "discord_handleUpdatedProposalStatus clients p =
     to_clients clients (plain_embed ''Proposal Status Update'' (vote_url p) (formatUpdatedGovernanceProposalStatusText p))"

definition discord_handleProposalAtRiskOfExpiry :: "nat \<Rightarrow> bot_proposal \<Rightarrow> 'png bot_state \<Rightarrow> 'png bot_state" where
  "discord_handleProposalAtRiskOfExpiry clients p =
     to_clients clients (plain_embed ''Proposal At-Risk of Expiry'' (vote_url p) (formatProposalAtRiskOfExpiryText p))"

definition discord_handleGovernanceVote :: "nat \<Rightarrow> 'png services \<Rightarrow> bot_proposal \<Rightarrow> bot_vote \<Rightarrow> 'png bot_state \<Rightarrow> 'png bot_state" where
  "discord_handleGovernanceVote clients sv p v =
     to_clients clients (plain_embed ''New Proposal Vote'' (vote_url p) (formatNewGovernanceVoteText sv p v))"

section \<open>Dispatch\<close>

datatype handler = TwitterHandler | DiscordHandler nat

text \<open>The method of a handler for a notice; a method the class does not have is skipped.\<close>

fun handle :: "'png services \<Rightarrow> handler \<Rightarrow> notice \<Rightarrow> 'png bot_state \<Rightarrow> 'png bot_state" where
  "handle sv TwitterHandler (NewAuction i) st = twitter_handleNewAuction sv i st"
| "handle sv TwitterHandler (NewBid i b) st = twitter_handleNewBid sv i b st"
| "handle sv TwitterHandler (AuctionEndingSoon i) st = twitter_handleAuctionEndingSoon sv i st"
| "handle sv TwitterHandler _ st = st"
| "handle sv (DiscordHandler n) (NewAuction i) st = discord_handleNewAuction n sv i st"
| "handle sv (DiscordHandler n) (NewBid i b) st = discord_handleNewBid n sv i b st"
| "handle sv (DiscordHandler n) (AuctionEndingSoon i) st = st"
| "handle sv (DiscordHandler n) (NewProposal p) st = discord_handleNewProposal n p st"
| "handle sv (DiscordHandler n) (UpdatedProposalStatus p) st = discord_handleUpdatedProposalStatus n p st"
| "handle sv (DiscordHandler n) (ProposalAtRiskOfExpiry p) st = discord_handleProposalAtRiskOfExpiry n p st"
| "handle sv (DiscordHandler n) (GovernanceVote p v) st = discord_handleGovernanceVote n sv p v st"

definition auctionLifecycleHandlers :: "bool \<Rightarrow> bool \<Rightarrow> handler list" where
  "auctionLifecycleHandlers twitterEnabled discordEnabled =
     (if twitterEnabled then [TwitterHandler] else []) @ (if discordEnabled then [DiscordHandler 2] else [])"

definition dispatch :: "'png services \<Rightarrow> handler list \<Rightarrow> notice \<Rightarrow> 'png bot_state \<Rightarrow> 'png bot_state" where
  "dispatch sv hs n st = fold (\<lambda>h. handle sv h n) hs (st\<lparr>bs_notices := bs_notices st @ [n]\<rparr>)"

section \<open>The ticks\<close>

text \<open>\<open>auctions[0]\<close>, \<open>None\<close> when there is no auction; reading its id throws then.\<close>

definition setupAuction :: "AuctionBids option \<Rightarrow> 'png bot_state \<Rightarrow> 'png bot_state result" where
  "setupAuction lastAuctionBids st = rbind (of_option TypeError lastAuctionBids) (\<lambda>l. Inr (on_redis (updateAuctionCache (ab_id l)) st))"

text \<open>\<open>~~(Date.now() / 1000)\<close> keeps 32 bits.\<close>

definition currentTimestamp :: "int \<Rightarrow> int" where
  "currentTimestamp now = sint (word_of_int (now div 1000) :: 32 word)"

definition ending_soon :: "int \<Rightarrow> AuctionBids \<Rightarrow> bool" where
  "ending_soon now l \<longleftrightarrow> ab_endTime l - currentTimestamp now < 20 * 60"

text \<open>What a tick does after its reads: the three cached values and the answer of the subgraph are
  arguments, so that ticks that overlap can be expressed.\<close>

definition auction_act ::
  "'png services \<Rightarrow> handler list \<Rightarrow> num \<Rightarrow> redis_value \<Rightarrow> num \<Rightarrow> AuctionBids \<Rightarrow> int \<Rightarrow> 'png bot_state \<Rightarrow> 'png bot_state" where
  "auction_act sv hs cachedAuctionId cachedBidId cachedAuctionEndingSoon l now st0 =
     (let lastAuctionId = ab_id l;
          st1 = (if num_less cachedAuctionId (Some (int lastAuctionId))
                 then incrementCounter (buildCounterName ''auction_cache_updates'')
                        (dispatch sv hs (NewAuction lastAuctionId)
                          (on_redis (updateAuctionCache lastAuctionId)
                            (incrementCounter (buildCounterName ''auctions_discovered'') st0)))
                 else st0);
          st2 = incrementCounter (buildCounterName ''auction_process_last_auction'') st1;
          st3 = (case ab_bids l of
                   [] \<Rightarrow> st2
                 | bid # _ \<Rightarrow>
                     if cachedBidId \<noteq> RText (bd_id bid)
                     then dispatch sv hs (NewBid lastAuctionId bid) (on_redis (updateBidCache (bd_id bid)) st2)
                     else st2)
      in if ending_soon now l \<and> num_less cachedAuctionEndingSoon (Some (int lastAuctionId))
         then dispatch sv hs (AuctionEndingSoon lastAuctionId) (on_redis (updateAuctionEndingSoonCache lastAuctionId) st3)
         else st3)"

definition processAuctionTick ::
  "'png services \<Rightarrow> handler list \<Rightarrow> int \<Rightarrow> AuctionBids option \<Rightarrow> 'png bot_state \<Rightarrow> 'png bot_state result" where
  "processAuctionTick sv hs now lastAuctionBids st =
     rbind (of_option TypeError lastAuctionBids) (\<lambda>l.
       Inr (auction_act sv hs (getAuctionCache (bs_redis st)) (getBidCache (bs_redis st))
              (getAuctionEndingSoonCache (bs_redis st)) l now st))"

definition setupGovernance :: "bot_proposal list \<Rightarrow> 'png bot_state \<Rightarrow> 'png bot_state" where
  "setupGovernance proposals st = fold (\<lambda>p. on_redis (updateProposalCache p)) proposals st"

definition process_proposal ::
  "'png services \<Rightarrow> handler list \<Rightarrow> int \<Rightarrow> bot_proposal \<Rightarrow> 'png bot_state \<Rightarrow> 'png bot_state result" where
  "process_proposal sv hs now p st0 =
     rbind (getProposalCache (bp_id p) (bs_redis st0)) (\<lambda>cachedProposal.
       let st' = (case cachedProposal of
             None \<Rightarrow> dispatch sv hs (NewProposal p) st0
           | Some c \<Rightarrow>
               (let st1 = (if bp_status c \<noteq> bp_status p then dispatch sv hs (UpdatedProposalStatus p) st0 else st0);
                    st2 = fold (\<lambda>v. dispatch sv hs (GovernanceVote p v)) (extractNewVotes c p) st1
                in if isAtRiskOfExpiry now p \<and> \<not> hasWarnedOfExpiry (bp_id p) (bs_redis st2)
                   then on_redis (setProposalExpiryWarningSent (bp_id p)) (dispatch sv hs (ProposalAtRiskOfExpiry p) st2)
                   else st2))
       in Inr (on_redis (updateProposalCache p) st'))"

text \<open>A proposal whose processing throws does not stop the others.\<close>

definition processGovernanceTick ::
  "'png services \<Rightarrow> handler list \<Rightarrow> int \<Rightarrow> bot_proposal list \<Rightarrow> 'png bot_state \<Rightarrow> 'png bot_state" where
  "processGovernanceTick sv hs now proposals st =
     fold (\<lambda>p st. case process_proposal sv hs now p st of Inl e \<Rightarrow> st | Inr st' \<Rightarrow> st') proposals st"

section \<open>Which auctions are announced\<close>

text \<open>The elements that exceed everything before them, the start value included.\<close>

fun records :: "nat \<Rightarrow> nat list \<Rightarrow> nat list" where
  "records m [] = []"
| "records m (x # xs) = (if m < x then x # records x xs else records m xs)"

text \<open>The elements that differ from their predecessor.\<close>

fun changes :: "string \<Rightarrow> (nat \<times> Bid) list \<Rightarrow> (nat \<times> Bid) list" where
  "changes b [] = []"
| "changes b (x # xs) = (if bd_id (snd x) \<noteq> b then x # changes (bd_id (snd x)) xs else changes b xs)"

lemma records_sorted: "sorted_wrt (<) (m # records m xs)"
proof (induction xs arbitrary: m)
  case (Cons x xs)
  have "y > m" if "m < x" "y \<in> set (records x xs)" for y using Cons [of x] that by auto
  with Cons [of m] Cons [of x] show ?case by auto
qed simp

lemma set_records: "set (records m xs) \<subseteq> set xs"
  by (induction xs arbitrary: m) auto

lemma records_hit: "x \<in> set xs \<Longrightarrow> m < x \<Longrightarrow> \<exists>y \<in> set (records m xs). x \<le> y"
proof (induction xs arbitrary: m)
  case (Cons a xs)
  then show ?case by (cases "x = a"; cases "m < a"; cases "a < x") force+
qed simp

fun run_auction_ticks ::
  "'png services \<Rightarrow> handler list \<Rightarrow> (int \<times> AuctionBids) list \<Rightarrow> 'png bot_state \<Rightarrow> 'png bot_state" where
  "run_auction_ticks sv hs [] st = st"
| "run_auction_ticks sv hs ((now, l) # obs) st =
     run_auction_ticks sv hs obs (case processAuctionTick sv hs now (Some l) st of Inl e \<Rightarrow> st | Inr st' \<Rightarrow> st')"

definition auctions_in :: "notice list \<Rightarrow> nat list" where
  "auctions_in ns = List.map_filter (\<lambda>n. case n of NewAuction i \<Rightarrow> Some i | _ \<Rightarrow> None) ns"

definition bids_in :: "notice list \<Rightarrow> (nat \<times> Bid) list" where
  "bids_in ns = List.map_filter (\<lambda>n. case n of NewBid i b \<Rightarrow> Some (i, b) | _ \<Rightarrow> None) ns"

definition soon_in :: "notice list \<Rightarrow> nat list" where
  "soon_in ns = List.map_filter (\<lambda>n. case n of AuctionEndingSoon i \<Rightarrow> Some i | _ \<Rightarrow> None) ns"

lemma map_filter_append: "List.map_filter f (xs @ ys) = List.map_filter f xs @ List.map_filter f ys"
  by (simp add: List.map_filter_def)

lemmas notices_simps = auctions_in_def bids_in_def soon_in_def map_filter_append List.map_filter_simps

text \<open>A handler leaves the notices and all cells but the reply alone.\<close>

lemma to_clients_frame [simp]:
  "bs_redis (to_clients n m st) = bs_redis st" "bs_notices (to_clients n m st) = bs_notices st"
  "bs_counters (to_clients n m st) = bs_counters st"
  by (induction n arbitrary: st) (simp_all add: to_clients_def)

lemma handle_frame:
  "bs_notices (handle sv h n st) = bs_notices st \<and>
   (\<forall>k. k \<noteq> getReplyTweetIdKey \<longrightarrow> bs_redis (handle sv h n st) k = bs_redis st k)"
  by (cases h; cases n)
    (auto simp: twitter_handleNewAuction_def twitter_handleNewBid_def twitter_handleAuctionEndingSoon_def tweeted_def
      discord_handleNewAuction_def discord_handleNewBid_def discord_handleNewProposal_def
      discord_handleUpdatedProposalStatus_def discord_handleProposalAtRiskOfExpiry_def discord_handleGovernanceVote_def
      updateAuctionReplyTweetId_def split: option.splits)

lemma dispatch_frame:
  "bs_notices (dispatch sv hs n st) = bs_notices st @ [n] \<and>
   (\<forall>k. k \<noteq> getReplyTweetIdKey \<longrightarrow> bs_redis (dispatch sv hs n st) k = bs_redis st k)"
proof -
  have "bs_notices (fold (\<lambda>h. handle sv h n) hs s) = bs_notices s \<and>
      (\<forall>k. k \<noteq> getReplyTweetIdKey \<longrightarrow> bs_redis (fold (\<lambda>h. handle sv h n) hs s) k = bs_redis s k)" for s
    by (induction hs arbitrary: s) (simp_all add: handle_frame)
  then show ?thesis by (simp add: dispatch_def)
qed

lemma dispatch_cells [simp]:
  "bs_notices (dispatch sv hs n st) = bs_notices st @ [n]"
  "getAuctionCache (bs_redis (dispatch sv hs n st)) = getAuctionCache (bs_redis st)"
  "getBidCache (bs_redis (dispatch sv hs n st)) = getBidCache (bs_redis st)"
  "getAuctionEndingSoonCache (bs_redis (dispatch sv hs n st)) = getAuctionEndingSoonCache (bs_redis st)"
  "getProposalCache i (bs_redis (dispatch sv hs n st)) = getProposalCache i (bs_redis st)"
  "hasWarnedOfExpiry i (bs_redis (dispatch sv hs n st)) = hasWarnedOfExpiry i (bs_redis st)"
  using dispatch_frame [of sv hs n st] keys_distinct [of i i]
  by (auto intro!: auction_cell.get_frame bid_cell.get_frame soon_cell.get_frame proposal_cell.get_frame warned_cell.get_frame)

lemma incrementCounter_frame [simp]:
  "bs_notices (incrementCounter c st) = bs_notices st" "bs_redis (incrementCounter c st) = bs_redis st"
  by (simp_all add: incrementCounter_def)

definition bid_seen :: "nat \<times> AuctionBids \<Rightarrow> (nat \<times> Bid) option" where
  "bid_seen = (\<lambda>(i, l). case ab_bids l of [] \<Rightarrow> None | b # _ \<Rightarrow> Some (i, b))"

definition bids_seen :: "(int \<times> AuctionBids) list \<Rightarrow> (nat \<times> Bid) list" where
  "bids_seen obs = List.map_filter (\<lambda>(now, l). bid_seen (ab_id l, l)) obs"

definition soon_seen :: "(int \<times> AuctionBids) list \<Rightarrow> nat list" where
  "soon_seen obs = map (\<lambda>(now, l). ab_id l) (filter (\<lambda>(now, l). ending_soon now l) obs)"

lemma auction_ticks:
  assumes "getAuctionCache (bs_redis st) = Some (int a)" and "getBidCache (bs_redis st) = RText b"
    and "getAuctionEndingSoonCache (bs_redis st) = Some (int e)"
  shows "\<exists>new. bs_notices (run_auction_ticks sv hs obs st) = bs_notices st @ new \<and>
    auctions_in new = records a (map (\<lambda>(now, l). ab_id l) obs) \<and>
    bids_in new = changes b (bids_seen obs) \<and> soon_in new = records e (soon_seen obs)"
  using assms
proof (induction obs arbitrary: st a b e)
  case Nil
  then show ?case by (simp add: notices_simps bids_seen_def soon_seen_def)
next
  case (Cons x obs)
  obtain now l where x: "x = (now, l)" by force
  let ?st' = "auction_act sv hs (Some (int a)) (RText b) (Some (int e)) l now st"
  let ?a = "if a < ab_id l then ab_id l else a"
  let ?b = "case ab_bids l of [] \<Rightarrow> b | bid # _ \<Rightarrow> bd_id bid"
  let ?e = "if ending_soon now l \<and> e < ab_id l then ab_id l else e"
  let ?new = "(if a < ab_id l then [NewAuction (ab_id l)] else []) @
    (case ab_bids l of [] \<Rightarrow> [] | bid # _ \<Rightarrow> if b \<noteq> bd_id bid then [NewBid (ab_id l) bid] else []) @
    (if ending_soon now l \<and> e < ab_id l then [AuctionEndingSoon (ab_id l)] else [])"
  have cells: "getAuctionCache (bs_redis ?st') = Some (int ?a)" "getBidCache (bs_redis ?st') = RText ?b"
    "getAuctionEndingSoonCache (bs_redis ?st') = Some (int ?e)"
    and out: "bs_notices ?st' = bs_notices st @ ?new"
    using Cons.prems by (auto simp: auction_act_def Let_def num_less_def split: list.splits)
  from Cons.IH [OF cells] obtain new where new: "bs_notices (run_auction_ticks sv hs obs ?st') = bs_notices ?st' @ new"
    "auctions_in new = records ?a (map (\<lambda>(now, l). ab_id l) obs)"
    "bids_in new = changes ?b (bids_seen obs)" "soon_in new = records ?e (soon_seen obs)" by blast
  have "run_auction_ticks sv hs (x # obs) st = run_auction_ticks sv hs obs ?st'"
    using Cons.prems by (simp add: x processAuctionTick_def)
  moreover have "auctions_in (?new @ new) = records a (map (\<lambda>(now, l). ab_id l) (x # obs))"
    using new(2) by (auto simp: x notices_simps split: list.splits)
  moreover have "bids_in (?new @ new) = changes b (bids_seen (x # obs))"
    using new(3) by (auto simp: x notices_simps bids_seen_def bid_seen_def split: list.splits)
  moreover have "soon_in (?new @ new) = records e (soon_seen (x # obs))"
    using new(4) by (auto simp: x notices_simps soon_seen_def split: list.splits)
  ultimately show ?case using new(1) out by (intro exI [of _ "?new @ new"]) simp
qed

text \<open>C36. Announcements: from a memory that holds auction \<open>a\<close>, bid \<open>b\<close> and last warning \<open>e\<close>, any
  sequence of ticks that run one after the other announces exactly the auctions whose identifier exceeds
  all before, warns for exactly those among the ones seen ending soon, and reports a bid exactly when it
  differs from the last one seen; so no auction is announced or warned of twice.\<close>

theorem auctions_announced_once:
  assumes "getAuctionCache (bs_redis st) = Some (int a)" and "getBidCache (bs_redis st) = RText b"
    and "getAuctionEndingSoonCache (bs_redis st) = Some (int e)"
  shows "\<exists>new. bs_notices (run_auction_ticks sv hs obs st) = bs_notices st @ new \<and>
    auctions_in new = records a (map (\<lambda>(now, l). ab_id l) obs) \<and>
    bids_in new = changes b (bids_seen obs) \<and> soon_in new = records e (soon_seen obs) \<and>
    sorted_wrt (<) (a # auctions_in new) \<and> sorted_wrt (<) (e # soon_in new)"
proof -
  obtain new where new: "bs_notices (run_auction_ticks sv hs obs st) = bs_notices st @ new"
    "auctions_in new = records a (map (\<lambda>(now, l). ab_id l) obs)"
    "bids_in new = changes b (bids_seen obs)" "soon_in new = records e (soon_seen obs)"
    using auction_ticks [OF assms, of sv hs obs] by blast
  then show ?thesis
    using records_sorted [of a "map (\<lambda>(now, l). ab_id l) obs"] records_sorted [of e "soon_seen obs"]
    by (intro exI [of _ new]) simp
qed

definition demo_state :: "unit bot_state" where
  "demo_state = \<lparr>bs_redis = updateAuctionEndingSoonCache 6 (updateBidCache ''b1'' (updateAuctionCache 7 (\<lambda>_. None))),
     bs_messages = [], bs_counters = [], bs_notices = []\<rparr>"

theorem auctions_announced_once_witness:
  "\<exists>st' :: unit bot_state. auctions_in (bs_notices st') = [8] \<and> bids_in (bs_notices st') = [] \<and> soon_in (bs_notices st') = [7, 8]"
proof -
  let ?obs = "[(0, \<lparr>ab_id = 7, ab_endTime = 10, ab_bids = [\<lparr>bd_id = ''b1'', bd_amount = ''5'', bd_bidder = ''0xa''\<rparr>]\<rparr>),
    (0, \<lparr>ab_id = 8, ab_endTime = 5000, ab_bids = []\<rparr>), (4000000, \<lparr>ab_id = 8, ab_endTime = 5000, ab_bids = []\<rparr>)]"
  have cells: "getAuctionCache (bs_redis demo_state) = Some (int 7)" "getBidCache (bs_redis demo_state) = RText ''b1''"
    "getAuctionEndingSoonCache (bs_redis demo_state) = Some (int 6)" by (simp_all add: demo_state_def)
  let ?run = "run_auction_ticks (undefined :: unit services) [] ?obs demo_state"
  have soon: "soon_seen ?obs = [7, 8]"
    by (simp add: soon_seen_def ending_soon_def currentTimestamp_def)
  have bids: "changes ''b1'' (bids_seen ?obs) = []"
    by (simp add: bids_seen_def bid_seen_def List.map_filter_simps(1,2))
  from auctions_announced_once [OF cells, of "undefined :: unit services" "[]" ?obs]
  obtain new where new: "bs_notices ?run = bs_notices demo_state @ new"
    "auctions_in new = records 7 (map (\<lambda>(now :: int, l). ab_id l) ?obs)"
    "bids_in new = changes ''b1'' (bids_seen ?obs)" "soon_in new = records 6 (soon_seen ?obs)"
    by blast
  have "bs_notices ?run = new" using new(1) by (simp add: demo_state_def)
  moreover have "auctions_in new = [8]" using new(2) by simp
  moreover have "bids_in new = []" using new(3) bids by simp
  moreover have "soon_in new = [7, 8]" using new(4) soon by simp
  ultimately show ?thesis by metis
qed

section \<open>Ticks that overlap\<close>

text \<open>Two ticks whose reads both precede the writes of the first announce the same auction twice.\<close>

lemma auction_act_announces:
  assumes "num_less a (Some (int (ab_id l)))"
  shows "\<exists>new. bs_notices (auction_act sv hs a b e l now st) = bs_notices st @ new \<and> auctions_in new = [ab_id l]"
proof -
  let ?bid = "case ab_bids l of [] \<Rightarrow> [] | bid # _ \<Rightarrow> if b \<noteq> RText (bd_id bid) then [NewBid (ab_id l) bid] else []"
  let ?soon = "if ending_soon now l \<and> num_less e (Some (int (ab_id l))) then [AuctionEndingSoon (ab_id l)] else []"
  have "bs_notices (auction_act sv hs a b e l now st) = bs_notices st @ [NewAuction (ab_id l)] @ ?bid @ ?soon"
    using assms by (simp add: auction_act_def Let_def split: list.split)
  moreover have "auctions_in ([NewAuction (ab_id l)] @ ?bid @ ?soon) = [ab_id l]"
    by (simp add: notices_simps split: list.split)
  ultimately show ?thesis by blast
qed

lemma overlapping_ticks_announce_twice:
  assumes "num_less a (Some (int (ab_id l)))"
  shows "\<exists>new. bs_notices (auction_act sv hs a b e l now' (auction_act sv hs a b e l now st)) = bs_notices st @ new \<and>
    auctions_in new = [ab_id l, ab_id l]"
proof -
  obtain n1 where n1: "bs_notices (auction_act sv hs a b e l now st) = bs_notices st @ n1" "auctions_in n1 = [ab_id l]"
    using auction_act_announces [OF assms] by blast
  obtain n2 where "bs_notices (auction_act sv hs a b e l now' (auction_act sv hs a b e l now st)) =
      bs_notices (auction_act sv hs a b e l now st) @ n2" "auctions_in n2 = [ab_id l]"
    using auction_act_announces [OF assms] by blast
  with n1 show ?thesis by (intro exI [of _ "n1 @ n2"]) (simp add: auctions_in_def map_filter_append)
qed

section \<open>What is said of one proposal\<close>

fun about :: "num \<Rightarrow> notice \<Rightarrow> bool" where
  "about i (NewProposal p) = (bp_id p = i)"
| "about i (UpdatedProposalStatus p) = (bp_id p = i)"
| "about i (ProposalAtRiskOfExpiry p) = (bp_id p = i)"
| "about i (GovernanceVote p v) = (bp_id p = i)"
| "about i _ = False"

text \<open>The reference: the notices of one proposal from its snapshots, the version of the snapshot before
  and whether the warning has been sent.\<close>

fun proposal_notices :: "bot_proposal option \<Rightarrow> bool \<Rightarrow> (int \<times> bot_proposal) list \<Rightarrow> notice list" where
  "proposal_notices c w [] = []"
| "proposal_notices None w ((now, p) # ps) = NewProposal p # proposal_notices (Some p) w ps"
| "proposal_notices (Some c) w ((now, p) # ps) =
     (if bp_status c \<noteq> bp_status p then [UpdatedProposalStatus p] else []) @
     map (GovernanceVote p) (extractNewVotes c p) @
     (if isAtRiskOfExpiry now p \<and> \<not> w then [ProposalAtRiskOfExpiry p] else []) @
     proposal_notices (Some p) (w \<or> isAtRiskOfExpiry now p) ps"

fun run_governance_ticks ::
  "'png services \<Rightarrow> handler list \<Rightarrow> (int \<times> bot_proposal list) list \<Rightarrow> 'png bot_state \<Rightarrow> 'png bot_state" where
  "run_governance_ticks sv hs [] st = st"
| "run_governance_ticks sv hs ((now, ps) # obs) st = run_governance_ticks sv hs obs (processGovernanceTick sv hs now ps st)"

definition snapshots :: "num \<Rightarrow> (int \<times> bot_proposal list) list \<Rightarrow> (int \<times> bot_proposal) list" where
  "snapshots i obs = concat (map (\<lambda>(now, ps). map (Pair now) (filter (\<lambda>p. bp_id p = i) ps)) obs)"

lemma dispatch_votes [simp]:
  "bs_notices (fold (\<lambda>v. dispatch sv hs (GovernanceVote p v)) vs st) = bs_notices st @ map (GovernanceVote p) vs"
  "getProposalCache i (bs_redis (fold (\<lambda>v. dispatch sv hs (GovernanceVote p v)) vs st)) = getProposalCache i (bs_redis st)"
  "hasWarnedOfExpiry i (bs_redis (fold (\<lambda>v. dispatch sv hs (GovernanceVote p v)) vs st)) = hasWarnedOfExpiry i (bs_redis st)"
  by (induction vs arbitrary: st) simp_all

text \<open>One proposal of a tick: what it adds, and that it leaves the memory of the others alone.\<close>

lemma process_proposal_effect:
  assumes "getProposalCache (bp_id p) (bs_redis st) = Inr c"
  shows "\<exists>st'. process_proposal sv hs now p st = Inr st' \<and>
    bs_notices st' = bs_notices st @ proposal_notices c (hasWarnedOfExpiry (bp_id p) (bs_redis st)) [(now, p)] \<and>
    getProposalCache (bp_id p) (bs_redis st') = Inr (Some p) \<and>
    (hasWarnedOfExpiry (bp_id p) (bs_redis st') \<longleftrightarrow>
       hasWarnedOfExpiry (bp_id p) (bs_redis st) \<or> c \<noteq> None \<and> isAtRiskOfExpiry now p) \<and>
    (\<forall>i. i \<noteq> bp_id p \<longrightarrow> getProposalCache i (bs_redis st') = getProposalCache i (bs_redis st) \<and>
       hasWarnedOfExpiry i (bs_redis st') = hasWarnedOfExpiry i (bs_redis st))"
proof (cases c)
  case None
  then show ?thesis using assms by (simp add: process_proposal_def Let_def)
next
  case (Some q)
  then show ?thesis using assms by (auto simp: process_proposal_def Let_def)
qed

lemma about_proposal_notices: "bp_id p \<noteq> i \<Longrightarrow> filter (about i) (proposal_notices c w [(now, p)]) = []"
  by (cases c) (auto simp: filter_empty_conv)

lemma about_own_notices: "bp_id p = i \<Longrightarrow> filter (about i) (proposal_notices c w [(now, p)]) = proposal_notices c w [(now, p)]"
  by (cases c) (auto simp: filter_id_conv)

lemma proposal_notices_Cons:
  "proposal_notices c w ((now, p) # ps) = proposal_notices c w [(now, p)] @
     proposal_notices (Some p) (w \<or> c \<noteq> None \<and> isAtRiskOfExpiry now p) ps"
  by (cases c) simp_all

lemma proposals_of_tick:
  assumes "\<forall>i. \<not> isl (getProposalCache i (bs_redis st))" and "getProposalCache i (bs_redis st) = Inr c"
  shows "\<exists>new c'. bs_notices (processGovernanceTick sv hs now ps st) = bs_notices st @ new \<and>
    (\<forall>i. \<not> isl (getProposalCache i (bs_redis (processGovernanceTick sv hs now ps st)))) \<and>
    getProposalCache i (bs_redis (processGovernanceTick sv hs now ps st)) = Inr c' \<and>
    (\<forall>more. filter (about i) new @
         proposal_notices c' (hasWarnedOfExpiry i (bs_redis (processGovernanceTick sv hs now ps st))) more =
       proposal_notices c (hasWarnedOfExpiry i (bs_redis st)) (map (Pair now) (filter (\<lambda>p. bp_id p = i) ps) @ more))"
  using assms
proof (induction ps arbitrary: st c)
  case Nil
  then show ?case by (simp add: processGovernanceTick_def)
next
  case (Cons p ps)
  obtain cp where cp: "getProposalCache (bp_id p) (bs_redis st) = Inr cp"
    using Cons.prems(1) by (metis isl_def sum.exhaust)
  from process_proposal_effect [OF this, of sv hs now] obtain st1 where
    run: "process_proposal sv hs now p st = Inr st1" and
    out: "bs_notices st1 = bs_notices st @ proposal_notices cp (hasWarnedOfExpiry (bp_id p) (bs_redis st)) [(now, p)]" and
    own: "getProposalCache (bp_id p) (bs_redis st1) = Inr (Some p)" and
    warn: "hasWarnedOfExpiry (bp_id p) (bs_redis st1) \<longleftrightarrow>
       hasWarnedOfExpiry (bp_id p) (bs_redis st) \<or> cp \<noteq> None \<and> isAtRiskOfExpiry now p" and
    others: "\<forall>i. i \<noteq> bp_id p \<longrightarrow> getProposalCache i (bs_redis st1) = getProposalCache i (bs_redis st) \<and>
       hasWarnedOfExpiry i (bs_redis st1) = hasWarnedOfExpiry i (bs_redis st)" by blast
  have ok: "\<forall>i. \<not> isl (getProposalCache i (bs_redis st1))"
    using Cons.prems(1) own others by (metis isl_def sum.disc(2))
  have step: "processGovernanceTick sv hs now (p # ps) st = processGovernanceTick sv hs now ps st1"
    by (simp add: processGovernanceTick_def run)
  let ?c1 = "if bp_id p = i then Some p else c"
  have c1: "getProposalCache i (bs_redis st1) = Inr ?c1" using own others Cons.prems(2) by auto
  from Cons.IH [OF ok c1] obtain new c' where
    ih: "bs_notices (processGovernanceTick sv hs now ps st1) = bs_notices st1 @ new"
      "\<forall>i. \<not> isl (getProposalCache i (bs_redis (processGovernanceTick sv hs now ps st1)))"
      "getProposalCache i (bs_redis (processGovernanceTick sv hs now ps st1)) = Inr c'" and
    rest: "\<And>more. filter (about i) new @
         proposal_notices c' (hasWarnedOfExpiry i (bs_redis (processGovernanceTick sv hs now ps st1))) more =
       proposal_notices ?c1 (hasWarnedOfExpiry i (bs_redis st1)) (map (Pair now) (filter (\<lambda>p. bp_id p = i) ps) @ more)"
    by blast
  let ?here = "proposal_notices cp (hasWarnedOfExpiry (bp_id p) (bs_redis st)) [(now, p)]"
  have "filter (about i) (?here @ new) @
       proposal_notices c' (hasWarnedOfExpiry i (bs_redis (processGovernanceTick sv hs now (p # ps) st))) more =
     proposal_notices c (hasWarnedOfExpiry i (bs_redis st)) (map (Pair now) (filter (\<lambda>p. bp_id p = i) (p # ps)) @ more)" for more
  proof (cases "bp_id p = i")
    case True
    with Cons.prems(2) cp have "cp = c" by simp
    then show ?thesis using rest [of more] warn True
        proposal_notices_Cons [of c "hasWarnedOfExpiry i (bs_redis st)" now p
          "map (Pair now) (filter (\<lambda>p. bp_id p = i) ps) @ more"]
      by (simp only: step about_own_notices [OF True] filter_append filter.simps list.map append.simps append_assoc
          if_True simp_thms)
  next
    case False
    then show ?thesis using rest [of more] others by (simp add: step about_proposal_notices)
  qed
  then show ?case using ih out by (intro exI [of _ "?here @ new"] exI [of _ c']) (simp add: step)
qed

lemma governance_ticks:
  assumes "\<forall>i. \<not> isl (getProposalCache i (bs_redis st))" and "getProposalCache i (bs_redis st) = Inr c"
  shows "\<exists>new. bs_notices (run_governance_ticks sv hs obs st) = bs_notices st @ new \<and>
    filter (about i) new = proposal_notices c (hasWarnedOfExpiry i (bs_redis st)) (snapshots i obs)"
  using assms
proof (induction obs arbitrary: st c)
  case Nil
  then show ?case by (simp add: snapshots_def)
next
  case (Cons x obs)
  obtain now ps where x: "x = (now, ps)" by force
  let ?st' = "processGovernanceTick sv hs now ps st"
  from proposals_of_tick [OF Cons.prems] obtain new c' where
    one: "bs_notices ?st' = bs_notices st @ new" "\<forall>i. \<not> isl (getProposalCache i (bs_redis ?st'))"
      "getProposalCache i (bs_redis ?st') = Inr c'" and
    rest: "\<And>more. filter (about i) new @ proposal_notices c' (hasWarnedOfExpiry i (bs_redis ?st')) more =
      proposal_notices c (hasWarnedOfExpiry i (bs_redis st)) (map (Pair now) (filter (\<lambda>p. bp_id p = i) ps) @ more)"
    by blast
  from Cons.IH [OF one(2,3)] obtain new2 where
    two: "bs_notices (run_governance_ticks sv hs obs ?st') = bs_notices ?st' @ new2"
      "filter (about i) new2 = proposal_notices c' (hasWarnedOfExpiry i (bs_redis ?st')) (snapshots i obs)" by blast
  then show ?case using one(1) rest [of "snapshots i obs"]
    by (intro exI [of _ "new @ new2"]) (simp add: x snapshots_def)
qed

text \<open>Warnings are not repeated.\<close>

fun is_warning :: "notice \<Rightarrow> bool" where
  "is_warning (ProposalAtRiskOfExpiry p) = True"
| "is_warning _ = False"

lemma one_warning: "length (filter is_warning (proposal_notices c w ps)) \<le> (if w then 0 else 1)"
proof (induction ps arbitrary: c w)
  case (Cons x ps)
  obtain now p where x: "x = (now, p)" by force
  have votes: "filter is_warning (map (GovernanceVote p) vs) = []" for vs by (simp add: filter_empty_conv)
  show ?case
    using Cons.IH [of "Some p" w] Cons.IH [of "Some p" "w \<or> isAtRiskOfExpiry now p"]
    by (cases c) (auto simp: x votes split: if_splits)
qed simp


definition demo_proposal :: "proposal_status \<Rightarrow> bot_vote list \<Rightarrow> bot_proposal" where
  "demo_proposal s vs = \<lparr>bp_id = Some 3, bp_proposer = ''0xa'', bp_description = ''# Fund'', bp_status = s,
     bp_quorumVotes = Some 1, bp_proposalThreshold = Some 0, bp_startBlock = Some 1, bp_endBlock = Some 9,
     bp_executionETA = (if s = QUEUED then Some 0 else None), bp_votes = vs\<rparr>"

definition demo_vote :: bot_vote where
  "demo_vote = \<lparr>bv_id = ''0xa-3'', bv_voter = ''0xa'', bv_votes = Some 2, bv_supportDetailed = FOR, bv_reason = None\<rparr>"

definition empty_bot :: "unit bot_state" where
  "empty_bot = \<lparr>bs_redis = (\<lambda>_. None), bs_messages = [], bs_counters = [], bs_notices = []\<rparr>"

section \<open>The types of the memory\<close>

text \<open>Every reader succeeds with a value of its type, and an entry of a proposal is that proposal.\<close>

definition typed_cache :: "redis \<Rightarrow> bool" where
  "typed_cache r \<longleftrightarrow>
     (\<exists>n. getAuctionCache r = Some (int n)) \<and> (\<exists>t. getBidCache r = RText t) \<and>
     (\<exists>n. getAuctionEndingSoonCache r = Some (int n)) \<and>
     (\<forall>i. \<exists>c. getProposalCache i r = Inr c \<and> pred_option (\<lambda>p. bp_id p = i) c)"

lemma typed_cache_frame:
  assumes "typed_cache r" and "getAuctionCache r' = getAuctionCache r" "getBidCache r' = getBidCache r"
    "getAuctionEndingSoonCache r' = getAuctionEndingSoonCache r" "\<And>i. getProposalCache i r' = getProposalCache i r"
  shows "typed_cache r'"
  using assms by (simp add: typed_cache_def)

lemma typed_cache_writes:
  assumes "typed_cache r"
  shows "typed_cache (updateAuctionCache n r)" and "typed_cache (updateBidCache t r)"
    and "typed_cache (updateAuctionEndingSoonCache n r)" and "typed_cache (setProposalExpiryWarningSent j r)"
    and "typed_cache (updateProposalCache p r)"
proof -
  have other: "getProposalCache i (updateAuctionCache n r) = getProposalCache i r"
    "getProposalCache i (updateBidCache t r) = getProposalCache i r"
    "getProposalCache i (updateAuctionEndingSoonCache n r) = getProposalCache i r" for i
    using keys_distinct [of i i]
    by (auto intro!: proposal_cell.get_frame simp: updateAuctionCache_def updateBidCache_def updateAuctionEndingSoonCache_def)
  have rest: "getAuctionCache (setProposalExpiryWarningSent j r) = getAuctionCache r"
    "getBidCache (setProposalExpiryWarningSent j r) = getBidCache r"
    "getAuctionEndingSoonCache (setProposalExpiryWarningSent j r) = getAuctionEndingSoonCache r"
    "getAuctionCache (updateProposalCache p r) = getAuctionCache r"
    "getBidCache (updateProposalCache p r) = getBidCache r"
    "getAuctionEndingSoonCache (updateProposalCache p r) = getAuctionEndingSoonCache r"
    using keys_distinct [of "bp_id p" j]
    by (auto intro!: auction_cell.get_frame bid_cell.get_frame soon_cell.get_frame
        simp: setProposalExpiryWarningSent_def updateProposalCache_def)
  show "typed_cache (updateAuctionCache n r)" "typed_cache (updateBidCache t r)"
    "typed_cache (updateAuctionEndingSoonCache n r)" "typed_cache (setProposalExpiryWarningSent j r)"
    using assms by (auto simp: typed_cache_def other rest)
  have "\<exists>c. getProposalCache i (updateProposalCache p r) = Inr c \<and> pred_option (\<lambda>q. bp_id q = i) c" for i
    using assms by (cases "bp_id p = i") (auto simp: typed_cache_def)
  then show "typed_cache (updateProposalCache p r)" using assms by (simp add: typed_cache_def rest)
qed

lemma typed_cache_dispatch: "typed_cache (bs_redis st) \<Longrightarrow> typed_cache (bs_redis (dispatch sv hs n st))"
  by (rule typed_cache_frame) simp_all

lemma typed_cache_act:
  assumes "typed_cache (bs_redis st)"
  shows "typed_cache (bs_redis (auction_act sv hs a b e l now st))"
  using assms by (simp add: auction_act_def Let_def typed_cache_dispatch typed_cache_writes split: list.split)

lemma typed_cache_proposal:
  assumes "typed_cache (bs_redis st)" and "process_proposal sv hs now p st = Inr st'"
  shows "typed_cache (bs_redis st')"
proof -
  have votes: "typed_cache (bs_redis s) \<Longrightarrow> typed_cache (bs_redis (fold (\<lambda>v. dispatch sv hs (GovernanceVote p v)) vs s))" for vs s
    by (induction vs arbitrary: s) (simp_all add: typed_cache_dispatch)
  obtain c where "getProposalCache (bp_id p) (bs_redis st) = Inr c" using assms(1) by (auto simp: typed_cache_def)
  with assms show ?thesis
    by (cases c) (auto simp: process_proposal_def Let_def typed_cache_dispatch typed_cache_writes votes)
qed

text \<open>Everything the process does: what it runs at start and the two ticks, with what the subgraph answers.\<close>

datatype bot_event =
    SetupAuction "AuctionBids option"
  | SetupGovernance "bot_proposal list"
  | AuctionTick int "AuctionBids option"
  | GovernanceTick int "bot_proposal list"

text \<open>A step that throws leaves the memory as it is.\<close>

fun bot_step :: "'png services \<Rightarrow> handler list \<Rightarrow> bot_event \<Rightarrow> 'png bot_state \<Rightarrow> 'png bot_state" where
  "bot_step sv hs (SetupAuction l) st = (case setupAuction l st of Inl e \<Rightarrow> st | Inr st' \<Rightarrow> st')"
| "bot_step sv hs (SetupGovernance ps) st = setupGovernance ps st"
| "bot_step sv hs (AuctionTick now l) st = (case processAuctionTick sv hs now l st of Inl e \<Rightarrow> st | Inr st' \<Rightarrow> st')"
| "bot_step sv hs (GovernanceTick now ps) st = processGovernanceTick sv hs now ps st"

lemma typed_cache_step: "typed_cache (bs_redis st) \<Longrightarrow> typed_cache (bs_redis (bot_step sv hs x st))"
proof (cases x)
  case (SetupGovernance ps)
  have "typed_cache (bs_redis s) \<Longrightarrow> typed_cache (bs_redis (setupGovernance ps s))" for s :: "'a bot_state"
    unfolding setupGovernance_def by (induction ps arbitrary: s) (simp_all add: typed_cache_writes)
  then show "typed_cache (bs_redis st) \<Longrightarrow> ?thesis" by (simp add: SetupGovernance)
next
  case (GovernanceTick now ps)
  have "typed_cache (bs_redis s) \<Longrightarrow> typed_cache (bs_redis (processGovernanceTick sv hs now ps s))" for s
    unfolding processGovernanceTick_def
    by (induction ps arbitrary: s) (auto split: sum.split dest: typed_cache_proposal)
  then show "typed_cache (bs_redis st) \<Longrightarrow> ?thesis" by (simp add: GovernanceTick)
qed (auto simp: setupAuction_def processAuctionTick_def typed_cache_act typed_cache_writes of_option_def split: option.split)

text \<open>The memory stays typed: started on an empty Redis, after any sequence of setups and ticks, in
  any order and with any answers of the subgraph, every reader of the cache returns a value of its type:
  the two auction numbers are never \<open>NaN\<close>, the last bid is a text, and the entry of a proposal parses
  and is that proposal.\<close>

lemma bot_memory_typed: "typed_cache (bs_redis (fold (bot_step sv hs) xs (st\<lparr>bs_redis := (\<lambda>_. None)\<rparr>)))"
proof -
  have "typed_cache (bs_redis s) \<Longrightarrow> typed_cache (bs_redis (fold (bot_step sv hs) xs s))" for s
    by (induction xs arbitrary: s) (simp_all add: typed_cache_step)
  moreover have "typed_cache (\<lambda>_. None)"
    by (auto simp: typed_cache_def getAuctionCache_def getAuctionEndingSoonCache_def cached_number_def getBidCache_def
        getProposalCache_def intro: exI [of _ 0])
  ultimately show ?thesis by simp
qed

end
