(* ===== verification/Web_Logs.thy ===== *)
theory Web_Logs
  imports Prelude
begin

text \<open>
  \<open>packages/punks-webapp/src\<close>: the event logs of the web application. A component registers a
  filter (\<open>hooks/useLogs.ts\<close>), the slice keeps one entry per filter key (\<open>state/slices/logs.ts\<close>,
  \<open>utils/logParsing.ts\<close>), and the updater (\<open>state/updaters/logs.ts\<close>) fetches, at every block, the
  logs of the keys that need it. The provider is a parameter: the logs of one block for a filter. The
  lemmas say which logs a component gets, and which blocks a fetch covers.
\<close>

section \<open>Filters and keys\<close>

datatype topic = TNull | TStr string | TArr "string list"

record EventFilter =
  ef_address :: "string option"
  ef_topics :: "topic list option"
  ef_fromBlock :: "nat option"

record Log =
  lo_topics :: "string list"
  lo_transactionHash :: string
  lo_data :: string

text \<open>\<open>topic ? (Array.isArray(topic) ? topic.join(';') : topic) : '\0'\<close>: the empty text is falsy.\<close>

fun topic_key :: "topic \<Rightarrow> string" where
  "topic_key TNull = [CHR 0x00]"
| "topic_key (TStr t) = (if t = [] then [CHR 0x00] else t)"
| "topic_key (TArr ts) = join '';'' ts"

definition filterToKey :: "EventFilter \<Rightarrow> string" where
  "filterToKey f =
     (case ef_address f of None \<Rightarrow> [] | Some a \<Rightarrow> a) @ '':'' @
     (case ef_topics f of None \<Rightarrow> [] | Some ts \<Rightarrow> join ''-'' (map topic_key ts))"

definition topic_of_key :: "string \<Rightarrow> topic" where
  "topic_of_key t = (let parts = split_str '';'' t in if length parts = 1 then TStr (hd parts) else TArr parts)"

definition keyToFilter :: "string \<Rightarrow> EventFilter result" where
  "keyToFilter key =
     (case split_str '':'' key of
        address # topics # _ \<Rightarrow>
          Inr \<lparr>ef_address = (if length address = 0 then None else Some address),
               ef_topics = Some (map topic_of_key (split_str ''-'' topics)), ef_fromBlock = None\<rparr>
      | _ \<Rightarrow> Inl TypeError)"

section \<open>The slice\<close>

datatype log_results = Fetched nat "Log list" | FetchError nat

fun results_block :: "log_results \<Rightarrow> nat" where
  "results_block (Fetched b l) = b"
| "results_block (FetchError b) = b"

record log_entry =
  le_listeners :: int
  le_fetchingBlockNumber :: "nat option"
  le_results :: "log_results option"

type_synonym logs_state = "(string, log_entry) omap"

definition addListener :: "EventFilter \<Rightarrow> logs_state \<Rightarrow> logs_state" where
  "addListener f s =
     (let key = filterToKey f
      in case map_of s key of
           None \<Rightarrow> omap_set key \<lparr>le_listeners = 1, le_fetchingBlockNumber = None, le_results = None\<rparr> s
         | Some e \<Rightarrow> omap_set key (e\<lparr>le_listeners := le_listeners e + 1\<rparr>) s)"

definition removeListener :: "EventFilter \<Rightarrow> logs_state \<Rightarrow> logs_state" where
  "removeListener f s =
     (let key = filterToKey f
      in case map_of s key of
           None \<Rightarrow> s
         | Some e \<Rightarrow> omap_set key (e\<lparr>le_listeners := le_listeners e - 1\<rparr>) s)"

definition fetching_one :: "nat \<Rightarrow> EventFilter \<Rightarrow> logs_state \<Rightarrow> logs_state" where
  "fetching_one blockNumber f s =
     (let key = filterToKey f
      in case map_of s key of
           None \<Rightarrow> s
         | Some e \<Rightarrow> omap_set key (e\<lparr>le_fetchingBlockNumber := Some blockNumber\<rparr>) s)"

definition fetchingLogs :: "EventFilter list \<Rightarrow> nat \<Rightarrow> logs_state \<Rightarrow> logs_state" where
  "fetchingLogs filters blockNumber s = fold (fetching_one blockNumber) filters s"

definition set_results :: "EventFilter \<Rightarrow> log_results \<Rightarrow> logs_state \<Rightarrow> logs_state" where
  "set_results f r s =
     (let key = filterToKey f
      in case map_of s key of
           None \<Rightarrow> s
         | Some e \<Rightarrow>
             (case le_results e of
                Some old \<Rightarrow> if results_block old > results_block r then s else omap_set key (e\<lparr>le_results := Some r\<rparr>) s
              | None \<Rightarrow> omap_set key (e\<lparr>le_results := Some r\<rparr>) s))"

definition fetchedLogs :: "EventFilter \<Rightarrow> nat \<Rightarrow> Log list \<Rightarrow> logs_state \<Rightarrow> logs_state" where
  "fetchedLogs f blockNumber logs = set_results f (Fetched blockNumber logs)"

definition fetchedLogsError :: "EventFilter \<Rightarrow> nat \<Rightarrow> logs_state \<Rightarrow> logs_state" where
  "fetchedLogsError f blockNumber = set_results f (FetchError blockNumber)"

section \<open>The updater\<close>

definition MAX_BLOCKS_PER_CALL :: nat where
  "MAX_BLOCKS_PER_CALL = 1000000"

definition needs_fetch :: "nat \<Rightarrow> log_entry \<Rightarrow> bool" where
  "needs_fetch blockNumber e \<longleftrightarrow>
     le_listeners e \<noteq> 0 \<and>
     \<not> (case le_fetchingBlockNumber e of None \<Rightarrow> False | Some b \<Rightarrow> b \<ge> blockNumber) \<and>
     \<not> (case le_results e of None \<Rightarrow> False | Some r \<Rightarrow> results_block r \<ge> blockNumber)"

definition filtersNeedFetch :: "nat option \<Rightarrow> logs_state \<Rightarrow> EventFilter list result" where
  "filtersNeedFetch blockNumber s =
     (case blockNumber of
        None \<Rightarrow> Inr []
      | Some bn \<Rightarrow> rmap_list keyToFilter (map fst (filter (\<lambda>(key, e). needs_fetch bn e) s)))"

text \<open>The ranges of one filter: first and last block of each call.\<close>

function block_ranges :: "nat \<Rightarrow> nat \<Rightarrow> (nat \<times> nat) list" where
  "block_ranges fromBlock blockNumber =
     (if fromBlock \<le> blockNumber
      then (fromBlock, min (fromBlock + MAX_BLOCKS_PER_CALL) blockNumber) #
           block_ranges (fromBlock + MAX_BLOCKS_PER_CALL) blockNumber
      else [])"
  by pat_completeness auto
termination
  by (relation "measure (\<lambda>(f, b). Suc b - f)") (auto simp: MAX_BLOCKS_PER_CALL_def)

declare block_ranges.simps [simp del]

definition fetch_ranges :: "EventFilter \<Rightarrow> nat \<Rightarrow> (nat \<times> nat) list" where
  "fetch_ranges f blockNumber = block_ranges (case ef_fromBlock f of None \<Rightarrow> 0 | Some b \<Rightarrow> b) blockNumber"

text \<open>The effect: the new state and the requests that are started, each answered later.\<close>

definition updater_effect :: "nat option \<Rightarrow> logs_state \<Rightarrow> (logs_state \<times> (EventFilter \<times> nat) list) result" where
  "updater_effect blockNumber s =
     rbind (filtersNeedFetch blockNumber s) (\<lambda>filters.
       Inr (case blockNumber of
              None \<Rightarrow> (s, [])
            | Some bn \<Rightarrow>
                if filters = [] then (s, []) else (fetchingLogs filters bn s, map (\<lambda>f. (f, bn)) filters)))"

text \<open>\<open>get_logs\<close> is the provider; \<open>None\<close> is a call that fails, which fails the whole request.\<close>

definition request_done ::
  "(EventFilter \<Rightarrow> nat \<Rightarrow> nat \<Rightarrow> Log list option) \<Rightarrow> EventFilter \<Rightarrow> nat \<Rightarrow> logs_state \<Rightarrow> logs_state" where
  "request_done get_logs f bn s =
     (let answers = map (\<lambda>(a, b). get_logs f a b) (fetch_ranges f bn)
      in if None \<in> set answers then fetchedLogsError f bn s
         else fetchedLogs f bn (concat (map the answers)) s)"

section \<open>The hook\<close>

datatype use_logs_state = INVALID | LOADING | SYNCING | ERROR | SYNCED

definition useLogs :: "EventFilter option \<Rightarrow> nat option \<Rightarrow> logs_state \<Rightarrow> Log list option \<times> use_logs_state" where
  "useLogs filterOpt blockNumber s =
     (case (filterOpt, blockNumber) of
        (Some f, Some bn) \<Rightarrow>
          if bn = 0 then (None, INVALID)
          else (case Option.bind (map_of s (filterToKey f)) le_results of
                  None \<Rightarrow> (None, LOADING)
                | Some (FetchError b) \<Rightarrow> (None, ERROR)
                | Some (Fetched b logs) \<Rightarrow> (Some logs, if b \<ge> bn then SYNCED else SYNCING))
      | _ \<Rightarrow> (None, INVALID))"

section \<open>Filters survive as keys\<close>

definition plain :: "string \<Rightarrow> bool" where
  "plain t \<longleftrightarrow> CHR '':'' \<notin> set t \<and> CHR ''-'' \<notin> set t \<and> CHR '';'' \<notin> set t"

fun plain_topic :: "topic \<Rightarrow> bool" where
  "plain_topic TNull \<longleftrightarrow> False"
| "plain_topic (TStr t) \<longleftrightarrow> t \<noteq> [] \<and> plain t"
| "plain_topic (TArr ts) \<longleftrightarrow> 2 \<le> length ts \<and> list_all plain ts"

text \<open>An address without a colon, and at least one topic; a topic is a text or two or more of them.\<close>

definition plain_filter :: "EventFilter \<Rightarrow> bool" where
  "plain_filter f \<longleftrightarrow>
     pred_option (\<lambda>a. a \<noteq> [] \<and> CHR '':'' \<notin> set a) (ef_address f) \<and>
     (case ef_topics f of None \<Rightarrow> False | Some ts \<Rightarrow> ts \<noteq> [] \<and> list_all plain_topic ts)"

lemma set_join: "set (join sep xs) \<subseteq> set sep \<union> \<Union> (set ` set xs)"
  by (induction sep xs rule: join.induct) auto

lemma topic_key_plain:
  assumes "plain_topic t"
  shows "CHR '':'' \<notin> set (topic_key t)" and "CHR ''-'' \<notin> set (topic_key t)"
  using assms set_join [of "'';''"] by (cases t; fastforce simp: plain_def list_all_iff)+

lemma topic_of_topic_key: "plain_topic t \<Longrightarrow> topic_of_key (topic_key t) = t"
proof (cases t)
  case (TArr ts)
  moreover assume "plain_topic t"
  ultimately have "split_str '';'' (join '';'' ts) = ts" "length ts \<noteq> 1"
    by (auto intro!: split_str_join simp: plain_def list_all_iff)
  then show ?thesis by (simp add: TArr topic_of_key_def)
qed (auto simp: topic_of_key_def split_str_char_single plain_def)

text \<open>Reading a key gives the filter back, without its first block.\<close>

lemma keyToFilter_filterToKey:
  assumes "plain_filter f"
  shows "keyToFilter (filterToKey f) = Inr (f\<lparr>ef_fromBlock := None\<rparr>)"
proof -
  from assms obtain ts where ts: "ef_topics f = Some ts" "ts \<noteq> []" "list_all plain_topic ts"
    by (auto simp: plain_filter_def split: option.splits)
  let ?a = "case ef_address f of None \<Rightarrow> [] | Some a \<Rightarrow> a"
  let ?t = "join ''-'' (map topic_key ts)"
  have a: "CHR '':'' \<notin> set ?a" using assms by (cases "ef_address f") (simp_all add: plain_filter_def)
  have t: "CHR '':'' \<notin> set ?t"
    using set_join [of "''-''" "map topic_key ts"] ts(3) topic_key_plain(1) by (fastforce simp: list_all_iff)
  have "split_str '':'' (filterToKey f) = [?a, ?t]"
    using a t by (simp add: filterToKey_def ts split_str_char_append split_str_char_single)
  moreover have "map topic_of_key (split_str ''-'' ?t) = ts"
  proof -
    have "split_str ''-'' ?t = map topic_key ts"
      using ts topic_key_plain(2) by (intro split_str_join) (auto simp: list_all_iff)
    then show ?thesis using ts(3) topic_of_topic_key by (simp add: list_all_iff map_idI)
  qed
  moreover have "(if length ?a = 0 then None else Some ?a) = ef_address f"
    using assms by (cases "ef_address f") (simp_all add: plain_filter_def)
  ultimately show ?thesis by (simp add: keyToFilter_def ts(1))
qed

lemma filterToKey_first_block [simp]: "filterToKey (f\<lparr>ef_fromBlock := b\<rparr>) = filterToKey f"
  by (simp add: filterToKey_def)

lemma plain_filter_first_block [simp]: "plain_filter (f\<lparr>ef_fromBlock := b\<rparr>) = plain_filter f"
  by (simp add: plain_filter_def)

section \<open>The blocks a fetch covers\<close>

text \<open>Each range ends in the block the next one starts with.\<close>

lemma block_ranges_logs:
  "concat (map (\<lambda>(a, b). concat (map g [a..<Suc b])) (block_ranges from bn)) =
   concat (map (\<lambda>i. if from < i \<and> MAX_BLOCKS_PER_CALL dvd (i - from) then g i @ g i else g i) [from..<Suc bn])"
proof (induction "from" bn rule: block_ranges.induct)
  case (1 "from" bn)
  let ?M = MAX_BLOCKS_PER_CALL
  let ?d = "\<lambda>from i. if from < i \<and> ?M dvd (i - from) then g i @ g i else g i"
  have M: "0 < ?M" by (simp add: MAX_BLOCKS_PER_CALL_def)
  show ?case
  proof (cases "from \<le> bn")
    case True
    note IH = 1 [OF True]
    have small: "\<not> (from < i \<and> ?M dvd (i - from))" if "from \<le> i" "i < from + ?M" for i
      using that by (auto dest: dvd_imp_le)
    show ?thesis
    proof (cases "from + ?M \<le> bn")
      case False
      have m: "map (?d from) [from..<Suc bn] = map g [from..<Suc bn]"
      proof (rule map_cong [OF refl])
        fix i assume "i \<in> set [from..<Suc bn]"
        then have "from \<le> i" "i < from + ?M" using False by auto
        from small [OF this] show "?d from i = g i" by (rule if_not_P)
      qed
      have "block_ranges (from + ?M) bn = []" using False by (simp add: block_ranges.simps)
      then have r: "block_ranges from bn = [(from, bn)]"
        using True False by (subst block_ranges.simps) (simp add: min_def)
      show ?thesis unfolding r m by simp
    next
      case here: True
      let ?m = "from + ?M"
      have later: "?d ?m i = ?d from i" if "i \<in> set [Suc ?m..<Suc bn]" for i
      proof -
        have i: "Suc ?m \<le> i" using that by (auto simp del: upt_Suc)
        then have "i - from = (i - ?m) + ?M" by linarith
        then have "?M dvd (i - from) \<longleftrightarrow> ?M dvd (i - ?m)" by simp
        then show ?thesis using i by auto
      qed
      have m1: "map (?d from) [from..<?m] = map g [from..<?m]"
      proof (rule map_cong [OF refl])
        fix i assume "i \<in> set [from..<?m]"
        then have "from \<le> i" "i < ?m" by auto
        from small [OF this] show "?d from i = g i" by (rule if_not_P)
      qed
      have m2: "map (?d ?m) [Suc ?m..<Suc bn] = map (?d from) [Suc ?m..<Suc bn]"
        by (rule map_cong [OF refl]) (rule later)
      have up2: "[?m..<Suc bn] = ?m # [Suc ?m..<Suc bn]" using here by (intro upt_conv_Cons) simp
      have "?m + (Suc bn - ?m) = Suc bn" using here by simp
      then have up: "[from..<Suc bn] = [from..<?m] @ ?m # [Suc ?m..<Suc bn]"
        using upt_add_eq_append [of "from" ?m "Suc bn - ?m"] up2 by simp
      have "concat (map (?d from) [from..<Suc bn]) =
          concat (map g [from..<?m]) @ (g ?m @ g ?m) @ concat (map (?d from) [Suc ?m..<Suc bn])"
        unfolding up map_append concat_append list.map concat.simps m1 using M by simp
      also have "\<dots> = concat (map g [from..<Suc ?m]) @ concat (map (?d ?m) [?m..<Suc bn])"
        unfolding up2 list.map concat.simps m2 by (simp add: upt_Suc_append)
      finally show ?thesis using True here IH
        by (subst block_ranges.simps) (simp add: min_def)
    qed
  next
    case False
    then show ?thesis by (simp add: block_ranges.simps)
  qed
qed

section \<open>The logs a component gets\<close>

text \<open>\<open>blk f i\<close> are the logs of block \<open>i\<close> for a filter. A provider of a chain answers a range with the logs of
  its blocks, in order, or fails.\<close>

definition provider_of :: "(EventFilter \<Rightarrow> nat \<Rightarrow> Log list) \<Rightarrow> (EventFilter \<Rightarrow> nat \<Rightarrow> nat \<Rightarrow> Log list option) \<Rightarrow> bool" where
  "provider_of blk get_logs \<longleftrightarrow>
     (\<forall>f a b l. get_logs f a b = Some l \<longrightarrow> l = concat (map (blk f) [a..<Suc b]))"

text \<open>Components come and go, blocks arrive, and the requests are answered in any order.\<close>

inductive logs_run :: "(EventFilter \<Rightarrow> nat \<Rightarrow> Log list) \<Rightarrow> logs_state \<Rightarrow> (EventFilter \<times> nat) list \<Rightarrow> bool"
  for blk where
  start: "logs_run blk [] []"
| add: "logs_run blk s fl \<Longrightarrow> plain_filter f \<Longrightarrow> logs_run blk (addListener f s) fl"
| remove: "logs_run blk s fl \<Longrightarrow> logs_run blk (removeListener f s) fl"
| block: "logs_run blk s fl \<Longrightarrow> updater_effect bn s = Inr (s', new) \<Longrightarrow> logs_run blk s' (fl @ new)"
| answer: "logs_run blk s fl \<Longrightarrow> (f, bn) \<in> set fl \<Longrightarrow> provider_of blk get_logs \<Longrightarrow>
    logs_run blk (request_done get_logs f bn s) (remove1 (f, bn) fl)"

definition fetched_content :: "(EventFilter \<Rightarrow> nat \<Rightarrow> Log list) \<Rightarrow> EventFilter \<Rightarrow> nat \<Rightarrow> Log list" where
  "fetched_content blk f b =
     concat (map (\<lambda>i. if 0 < i \<and> MAX_BLOCKS_PER_CALL dvd i then blk f i @ blk f i else blk f i) [0..<Suc b])"

definition whole_filter :: "EventFilter \<Rightarrow> bool" where
  "whole_filter f \<longleftrightarrow> plain_filter f \<and> ef_fromBlock f = None"

definition entry_ok :: "(EventFilter \<Rightarrow> nat \<Rightarrow> Log list) \<Rightarrow> string \<Rightarrow> log_entry \<Rightarrow> bool" where
  "entry_ok blk key e \<longleftrightarrow>
     (\<exists>f. whole_filter f \<and> key = filterToKey f \<and>
        (\<forall>b l. le_results e = Some (Fetched b l) \<longrightarrow> l = fetched_content blk f b))"

definition logs_ok :: "(EventFilter \<Rightarrow> nat \<Rightarrow> Log list) \<Rightarrow> logs_state \<Rightarrow> (EventFilter \<times> nat) list \<Rightarrow> bool" where
  "logs_ok blk s fl \<longleftrightarrow>
     (\<forall>key e. (key, e) \<in> set s \<longrightarrow> entry_ok blk key e) \<and> (\<forall>f b. (f, b) \<in> set fl \<longrightarrow> whole_filter f)"

lemma whole_filter_key: "whole_filter f \<Longrightarrow> keyToFilter (filterToKey f) = Inr f"
  using keyToFilter_filterToKey [of f] by (simp add: whole_filter_def)

lemma whole_filter_inject: "whole_filter f \<Longrightarrow> whole_filter g \<Longrightarrow> filterToKey f = filterToKey g \<Longrightarrow> f = g"
  by (metis Inr_inject whole_filter_key)

lemma in_omap_set: "(k, v) \<in> set (omap_set key e s) \<Longrightarrow> (k, v) \<in> set s \<or> k = key \<and> v = e"
  by (induction s) (auto split: if_splits)

text \<open>A change of an entry that is in order.\<close>

lemma logs_ok_set:
  "logs_ok blk s fl \<Longrightarrow> entry_ok blk key e \<Longrightarrow> logs_ok blk (omap_set key e s) fl"
  unfolding logs_ok_def using in_omap_set by fast

lemma logs_ok_keep:
  assumes "logs_ok blk s fl" and "map_of s key = Some e" and "le_results e' = le_results e"
  shows "logs_ok blk (omap_set key e' s) fl"
proof (rule logs_ok_set [OF assms(1)])
  have "entry_ok blk key e" using assms(1) map_of_SomeD [OF assms(2)] by (auto simp: logs_ok_def)
  then show "entry_ok blk key e'" using assms(3) by (simp add: entry_ok_def)
qed

lemma logs_ok_listeners:
  assumes "logs_ok blk s fl"
  shows "plain_filter f \<Longrightarrow> logs_ok blk (addListener f s) fl" and "logs_ok blk (removeListener f s) fl"
proof -
  assume f: "plain_filter f"
  have "entry_ok blk (filterToKey f) \<lparr>le_listeners = 1, le_fetchingBlockNumber = None, le_results = None\<rparr>"
    using f unfolding entry_ok_def whole_filter_def by (intro exI [of _ "f\<lparr>ef_fromBlock := None\<rparr>"]) simp
  then show "logs_ok blk (addListener f s) fl"
    using assms by (auto simp: addListener_def Let_def logs_ok_set split: option.split intro: logs_ok_keep)
next
  show "logs_ok blk (removeListener f s) fl"
    using assms by (auto simp: removeListener_def Let_def split: option.split intro: logs_ok_keep)
qed

lemma logs_ok_fetching: "logs_ok blk s fl \<Longrightarrow> logs_ok blk (fetchingLogs fs bn s) fl"
proof -
  have one: "logs_ok blk s fl \<Longrightarrow> logs_ok blk (fetching_one bn f s) fl" for f s
    by (auto simp: fetching_one_def Let_def split: option.split intro: logs_ok_keep)
  show "logs_ok blk s fl \<Longrightarrow> ?thesis"
    unfolding fetchingLogs_def by (induction fs arbitrary: s) (simp_all add: one)
qed

lemma filtersNeedFetch_whole:
  assumes "logs_ok blk s fl" and "filtersNeedFetch bn s = Inr fs" and "f \<in> set fs"
  shows "whole_filter f"
proof -
  obtain b where b: "bn = Some b" using assms(2,3) by (cases bn) (auto simp: filtersNeedFetch_def)
  have "rmap_list keyToFilter ks = Inr fs \<Longrightarrow> f \<in> set fs \<Longrightarrow> \<exists>k \<in> set ks. keyToFilter k = Inr f" for ks fs
    by (induction ks arbitrary: fs) auto
  then obtain k e where "(k, e) \<in> set s" "keyToFilter k = Inr f"
    using assms(2,3) by (fastforce simp: filtersNeedFetch_def b)
  then show ?thesis using assms(1) whole_filter_key by (fastforce simp: logs_ok_def entry_ok_def)
qed

lemma answers_content:
  assumes "whole_filter f" and "provider_of blk get_logs"
    and "None \<notin> set (map (\<lambda>(a, b). get_logs f a b) (fetch_ranges f bn))"
  shows "concat (map the (map (\<lambda>(a, b). get_logs f a b) (fetch_ranges f bn))) = fetched_content blk f bn"
proof -
  have "map the (map (\<lambda>(a, b). get_logs f a b) rs) = map (\<lambda>(a, b). concat (map (blk f) [a..<Suc b])) rs"
    if "None \<notin> set (map (\<lambda>(a, b). get_logs f a b) rs)" for rs
    using that assms(2) by (induction rs) (auto simp: provider_of_def simp del: upt_Suc)
  note this [OF assms(3)]
  moreover have "fetch_ranges f bn = block_ranges 0 bn" using assms(1) by (simp add: fetch_ranges_def whole_filter_def)
  ultimately show ?thesis
    using block_ranges_logs [of "blk f" 0 bn] by (simp only: fetched_content_def minus_nat.diff_0)
qed

lemma logs_ok_answer:
  assumes ok: "logs_ok blk s fl" and f: "(f, bn) \<in> set fl" and p: "provider_of blk get_logs"
  shows "logs_ok blk (request_done get_logs f bn s) fl"
proof -
  have w: "whole_filter f" using ok f by (auto simp: logs_ok_def)
  have set: "logs_ok blk (set_results f r s) fl" if "\<And>b l. r = Fetched b l \<Longrightarrow> l = fetched_content blk f b" for r
  proof -
    have "entry_ok blk (filterToKey f) (e\<lparr>le_results := Some r\<rparr>)" for e
      using w that unfolding entry_ok_def by auto
    then show ?thesis using ok
      by (auto simp: set_results_def Let_def split: option.split intro: logs_ok_set)
  qed
  show ?thesis
    using set answers_content [OF w p]
    by (auto simp: request_done_def Let_def fetchedLogs_def fetchedLogsError_def)
qed

lemma logs_run_ok: "logs_run blk s fl \<Longrightarrow> logs_ok blk s fl"
proof (induction rule: logs_run.induct)
  case start
  then show ?case by (simp add: logs_ok_def)
next
  case (block s fl bn s' new)
  from block.hyps(2) obtain fs where fs: "filtersNeedFetch bn s = Inr fs"
    and s': "s' = s \<or> (\<exists>b. s' = fetchingLogs fs b s)" and new: "new = [] \<or> (\<exists>b. new = map (\<lambda>f. (f, b)) fs)"
    by (auto simp: updater_effect_def split: option.splits if_splits)
  have "logs_ok blk s' fl" using s' block.IH logs_ok_fetching by blast
  moreover have "whole_filter f" if "(f, b) \<in> set new" for f b
    using new that filtersNeedFetch_whole [OF block.IH fs] by auto
  ultimately show ?case by (auto simp: logs_ok_def)
next
  case (answer s fl f bn get_logs)
  from logs_ok_answer [OF answer.IH answer.hyps(2,3)] have "logs_ok blk (request_done get_logs f bn s) fl" .
  then show ?case using set_remove1_subset [of "(f, bn)" fl] unfolding logs_ok_def by blast
qed (simp_all add: logs_ok_listeners)

text \<open>C37. The logs a component gets: whatever components register and leave, whatever blocks arrive and in
  whatever order requests are answered or fail, the logs handed out for a filter are those of all blocks up
  to the block of the answer, in order, each block once, except that the logs of every millionth block come
  twice; they are called synced exactly when that block is not behind the current one.\<close>

theorem logs_follow_chain:
  assumes "logs_run blk s fl" and "plain_filter f" and "useLogs (Some f) (Some bn) s = (Some logs, state)"
  shows "\<exists>b. logs = fetched_content blk (f\<lparr>ef_fromBlock := None\<rparr>) b \<and> state = (if bn \<le> b then SYNCED else SYNCING)"
proof -
  from assms(3) obtain e b where e: "map_of s (filterToKey f) = Some e" "le_results e = Some (Fetched b logs)"
    and st: "state = (if bn \<le> b then SYNCED else SYNCING)"
    by (auto simp: useLogs_def Option.bind_eq_Some_conv split: if_splits option.splits log_results.splits)
  from logs_run_ok [OF assms(1)] map_of_SomeD [OF e(1)] have "entry_ok blk (filterToKey f) e" by (auto simp: logs_ok_def)
  then obtain g where g: "whole_filter g" "filterToKey f = filterToKey g" "logs = fetched_content blk g b"
    using e(2) by (auto simp: entry_ok_def)
  have "g = f\<lparr>ef_fromBlock := None\<rparr>"
    using g(1,2) assms(2) by (intro whole_filter_inject) (simp_all add: whole_filter_def)
  then show ?thesis using g(3) st by blast
qed

definition demo_filter :: EventFilter where
  "demo_filter = \<lparr>ef_address = Some ''0xa'', ef_topics = Some [TStr ''0x1''], ef_fromBlock = Some 0\<rparr>"

definition demo_log :: Log where
  "demo_log = \<lparr>lo_topics = [''0x1''], lo_transactionHash = ''t'', lo_data = ''0x''\<rparr>"

theorem logs_follow_chain_witness:
  "\<exists>s fl. logs_run (\<lambda>f i. if i = 2 then [demo_log] else []) s fl \<and> useLogs (Some demo_filter) (Some 3) s = (Some [demo_log], SYNCED)"
proof -
  let ?blk = "\<lambda>(f :: EventFilter) (i :: nat). if i = 2 then [demo_log] else []"
  let ?f = "demo_filter\<lparr>ef_fromBlock := None\<rparr>"
  let ?get = "\<lambda>f a b. Some (concat (map (?blk f) [a..<Suc b]))"
  let ?key = "filterToKey demo_filter"
  let ?e = "\<lparr>le_listeners = 1, le_fetchingBlockNumber = None, le_results = None\<rparr>"
  have plain: "plain_filter demo_filter" by (simp add: plain_filter_def demo_filter_def plain_def)
  have key: "keyToFilter ?key = Inr ?f" by (rule keyToFilter_filterToKey [OF plain])
  have r1: "logs_run ?blk [(?key, ?e)] []"
    using logs_run.add [OF logs_run.start plain, of ?blk] by (simp add: addListener_def Let_def)
  have "updater_effect (Some 3) [(?key, ?e)] = Inr ([(?key, ?e\<lparr>le_fetchingBlockNumber := Some 3\<rparr>)], [(?f, 3)])"
    by (simp add: updater_effect_def filtersNeedFetch_def needs_fetch_def key fetchingLogs_def fetching_one_def Let_def)
  from logs_run.block [OF r1 this] have r2: "logs_run ?blk [(?key, ?e\<lparr>le_fetchingBlockNumber := Some 3\<rparr>)] [(?f, 3)]" by simp
  have "provider_of ?blk ?get" by (simp add: provider_of_def)
  from logs_run.answer [OF r2 _ this, of ?f 3]
  have r3: "logs_run ?blk (request_done ?get ?f 3 [(?key, ?e\<lparr>le_fetchingBlockNumber := Some 3\<rparr>)]) []" by simp
  have "fetch_ranges ?f 3 = [(0, 3)]"
    by (simp add: fetch_ranges_def block_ranges.simps MAX_BLOCKS_PER_CALL_def)
  then have "\<exists>l. useLogs (Some demo_filter) (Some 3) (request_done ?get ?f 3 [(?key, ?e\<lparr>le_fetchingBlockNumber := Some 3\<rparr>)]) = (Some l, SYNCED)"
    by (simp add: useLogs_def request_done_def fetchedLogs_def set_results_def Let_def)
  then obtain l where l: "useLogs (Some demo_filter) (Some 3) (request_done ?get ?f 3 [(?key, ?e\<lparr>le_fetchingBlockNumber := Some 3\<rparr>)]) = (Some l, SYNCED)" ..
  from logs_follow_chain [OF r3 plain l] obtain b where b: "l = fetched_content ?blk ?f b" "3 \<le> b"
    by (auto split: if_splits)
  have "concat (map (\<lambda>i. if 0 < i \<and> MAX_BLOCKS_PER_CALL dvd i then ?blk ?f i @ ?blk ?f i else ?blk ?f i) [0..<Suc b]) =
      concat (map (?blk ?f) [0..<Suc b])"
    by (intro arg_cong [of _ _ concat] map_cong) (auto simp: MAX_BLOCKS_PER_CALL_def)
  moreover have "concat (map (?blk ?f) [0..<Suc b]) = [demo_log]" if "3 \<le> b" for b
    using that
  proof (induction b rule: dec_induct)
    case base
    then show ?case by (simp add: upt_rec)
  qed simp
  ultimately have "l = [demo_log]" using b by (simp add: fetched_content_def del: upt_Suc)
  with r3 l show ?thesis by blast
qed

text \<open>A filter that does not survive as a key: without topics its answers go to another key, so it stays
  loading for ever; a topic that may be anything is asked for as a text of one zero character.\<close>

lemma topicless_filter_never_loads:
  assumes "f = \<lparr>ef_address = Some ''0xa'', ef_topics = None, ef_fromBlock = None\<rparr>"
    and "keyToFilter (filterToKey f) = Inr g"
  shows "filterToKey g \<noteq> filterToKey f"
proof -
  have "split_str '':'' (filterToKey f) = [''0xa'', []]"
    by (simp add: assms(1) filterToKey_def split_str_char_append [of "CHR '':''" "''0xa''" "[]", simplified] split_str_char_single)
  then have "g = \<lparr>ef_address = Some ''0xa'', ef_topics = Some [TStr []], ef_fromBlock = None\<rparr>"
    using assms(2) by (simp add: keyToFilter_def topic_of_key_def split_str_char_single)
  then show ?thesis by (simp add: assms(1) filterToKey_def)
qed

lemma null_topic_becomes_text:
  "topic_of_key (topic_key TNull) = TStr [CHR 0x00]"
  by (simp add: topic_of_key_def split_str_char_single)

end
