(* ===== verification/Sdk_Image.thy ===== *)
theory Sdk_Image
  imports Codec
begin

text \<open>
  \<open>packages/punks-sdk/src/image/image.ts\<close>, \<open>types.ts\<close> and \<open>utils.ts\<close>: the class
  \<open>Image\<close> that turns a picture into the multi-line run-length encoding of the contracts.
  Coordinates are integers, because the loops of \<open>calcBounds\<close> step to \<open>-1\<close>; colours and
  palette indexes are naturals; the palette \<open>Map\<close> is an insertion-ordered map. The lemmas give
  the bounding box of \<open>calcBounds\<close>, the palette invariant that \<open>toRLE\<close> keeps, the meaning
  of the index list it builds and of the runs that \<open>encode\<close> writes.
\<close>

section \<open>Data\<close>

record rgba =
  col_r :: nat
  col_g :: nat
  col_b :: nat
  col_a :: nat

record image_bounds =
  b_top :: int
  b_right :: int
  b_bottom :: int
  b_left :: int

record png_image =
  png_width :: int
  png_height :: int
  png_rgbaAt :: "int \<Rightarrow> int \<Rightarrow> rgba"

type_synonym palette = "(string, nat) omap"

record image =
  im_width :: int
  im_height :: int
  im_bounds :: image_bounds
  im_tuples :: "(nat \<times> nat) list"
  im_getRgbaAt :: "int \<Rightarrow> int \<Rightarrow> rgba"

section \<open>Hexadecimal printing\<close>

definition toPaddedHex :: "int \<Rightarrow> nat \<Rightarrow> string" where
  "toPaddedHex c pad = padStart (int_to_base 16 c) pad CHR ''0''"

definition rgbToHex :: "nat \<Rightarrow> nat \<Rightarrow> nat \<Rightarrow> string" where
  "rgbToHex r g b = toPaddedHex (int r) 2 @ toPaddedHex (int g) 2 @ toPaddedHex (int b) 2"

lemma toPaddedHex_nat: "0 \<le> c \<Longrightarrow> toPaddedHex c pad = padStart (hex (nat c)) pad CHR ''0''"
  by (simp add: toPaddedHex_def int_to_base_def)

lemma length_toPaddedHex: "0 \<le> c \<Longrightarrow> c < 256 \<Longrightarrow> length (toPaddedHex c 2) = 2"
  using length_hex_le2 [of "nat c"] by (simp add: toPaddedHex_nat)

lemma parseInt_toPaddedHex [simp]: "0 \<le> c \<Longrightarrow> parseInt 16 (toPaddedHex c pad) = Some c"
  by (simp add: toPaddedHex_nat parseInt_padded_hex)

section \<open>The class \<open>Image\<close>\<close>

definition new_image :: "int \<Rightarrow> int \<Rightarrow> (int \<Rightarrow> int \<Rightarrow> rgba) \<Rightarrow> image" where
  "new_image w h f =
     \<lparr>im_width = w, im_height = h,
      im_bounds = \<lparr>b_top = 0, b_right = 0, b_bottom = 0, b_left = 0\<rparr>,
      im_tuples = [], im_getRgbaAt = f\<rparr>"

definition isTransparentColumn :: "image \<Rightarrow> int \<Rightarrow> bool" where
  "isTransparentColumn im column \<longleftrightarrow>
     list_all (\<lambda>row. col_a (im_getRgbaAt im column row) = 0) [0..im_height im - 1]"

definition isTransparentRow :: "image \<Rightarrow> int \<Rightarrow> bool" where
  "isTransparentRow im row \<longleftrightarrow>
     list_all (\<lambda>column. col_a (im_getRgbaAt im column row) = 0) [0..im_width im - 1]"

text \<open>The two shapes of loop in \<open>calcBounds\<close>: count down while the guard \<open>lo \<le> i\<close> and
  the line is transparent, count up while \<open>i < hi\<close> and the line is transparent.\<close>

function while_down :: "(int \<Rightarrow> bool) \<Rightarrow> int \<Rightarrow> int \<Rightarrow> int" where
  "while_down P lo i = (if lo \<le> i \<and> P i then while_down P lo (i - 1) else i)"
  by pat_completeness auto
termination
  by (relation "measure (\<lambda>(P, lo, i). nat (i - lo + 1))") auto

function while_up :: "(int \<Rightarrow> bool) \<Rightarrow> int \<Rightarrow> int \<Rightarrow> int" where
  "while_up P hi i = (if i < hi \<and> P i then while_up P hi (i + 1) else i)"
  by pat_completeness auto
termination
  by (relation "measure (\<lambda>(P, hi, i). nat (hi - i))") auto

declare while_down.simps [simp del] while_up.simps [simp del]

definition calcBounds :: "image \<Rightarrow> image_bounds" where
  "calcBounds im =
     (let bottom = while_down (isTransparentRow im) 1 (im_height im - 1);
          top = while_up (isTransparentRow im) bottom 0;
          right = while_down (isTransparentColumn im) 0 (im_width im - 1);
          left = while_up (isTransparentColumn im) right 0
      in \<lparr>b_top = top, b_right = right + 1, b_bottom = bottom, b_left = left\<rparr>)"

text \<open>\<open>encode\<close>: the loop keeps the strings pushed so far, the public \<open>tuples\<close> array, the
  previous value and the running count; the last run is written after the loop and is not pushed
  to \<open>tuples\<close>.\<close>

fun encode_loop ::
  "string list \<Rightarrow> (nat \<times> nat) list \<Rightarrow> nat \<Rightarrow> nat \<Rightarrow> nat list \<Rightarrow>
     string list \<times> (nat \<times> nat) list \<times> nat \<times> nat" where
  "encode_loop encoding tuples previous count [] = (encoding, tuples, previous, count)"
| "encode_loop encoding tuples previous count (d # ds) =
     (if d \<noteq> previous \<or> count = 255
      then encode_loop (encoding @ [toPaddedHex (int count) 2, toPaddedHex (int previous) 2])
             (tuples @ [(count, previous)]) d 1 ds
      else encode_loop encoding tuples previous (count + 1) ds)"

definition encode :: "(nat \<times> nat) list \<Rightarrow> nat list \<Rightarrow> string \<times> (nat \<times> nat) list" where
  "encode tuples data =
     (case data of
        [] \<Rightarrow> ([], tuples)
      | d # ds \<Rightarrow>
          let (encoding, tuples', previous, count) = encode_loop [] tuples d 1 ds
          in (concat (encoding @ [toPaddedHex (int count) 2, toPaddedHex (int previous) 2]), tuples'))"

text \<open>The body of the pixel loops of \<open>toRLE\<close> and the order in which they visit the pixels.\<close>

definition visit_pixel :: "rgba \<Rightarrow> palette \<times> nat list \<Rightarrow> palette \<times> nat list" where
  "visit_pixel c st =
     (let (colors, indexes) = st;
          hexColor = rgbToHex (col_r c) (col_g c) (col_b c);
          colors' = (if map_of colors hexColor = None then omap_set hexColor (length colors) colors
                     else colors)
      in (colors', indexes @ [if col_a c = 0 then 0 else the (map_of colors' hexColor)]))"

definition pixel_order :: "image_bounds \<Rightarrow> (int \<times> int) list" where
  "pixel_order b =
     concat (map (\<lambda>y. map (\<lambda>x. (x, y)) [b_left b..b_right b - 1]) [b_top b..b_bottom b])"

definition toRLE :: "image \<Rightarrow> palette \<Rightarrow> string \<times> palette \<times> image" where
  "toRLE im colors =
     (let im1 = im\<lparr>im_bounds := calcBounds im\<rparr>;
          b = im_bounds im1;
          (colors', indexes) =
            fold (\<lambda>(x, y). visit_pixel (im_getRgbaAt im1 x y)) (pixel_order b) (colors, []);
          metadata = map (\<lambda>v. toPaddedHex v 2) [0, b_top b, b_right b, b_bottom b, b_left b];
          (enc, tuples') = encode (im_tuples im1) indexes
      in (''0x'' @ concat metadata @ enc, colors', im1\<lparr>im_tuples := tuples'\<rparr>))"

section \<open>The bounding box\<close>

lemma while_down_le: "while_down P lo i \<le> i"
proof (induction P lo i rule: while_down.induct)
  case (1 P lo i)
  then show ?case by (cases "lo \<le> i \<and> P i") (auto simp: while_down.simps [of P lo i])
qed

lemma while_down_ge: "lo - 1 \<le> i \<Longrightarrow> lo - 1 \<le> while_down P lo i"
proof (induction P lo i rule: while_down.induct)
  case (1 P lo i)
  then show ?case by (cases "lo \<le> i \<and> P i") (auto simp: while_down.simps [of P lo i])
qed

lemma while_down_skips: "while_down P lo i < k \<Longrightarrow> k \<le> i \<Longrightarrow> P k"
proof (induction P lo i rule: while_down.induct)
  case (1 P lo i)
  show ?case
  proof (cases "lo \<le> i \<and> P i")
    case True
    with 1 show ?thesis by (cases "k = i") (auto simp: while_down.simps [of P lo i])
  next
    case False
    with 1 show ?thesis by (auto simp: while_down.simps [of P lo i])
  qed
qed

lemma while_down_stop: "lo \<le> while_down P lo i \<Longrightarrow> \<not> P (while_down P lo i)"
proof (induction P lo i rule: while_down.induct)
  case (1 P lo i)
  then show ?case by (cases "lo \<le> i \<and> P i") (auto simp: while_down.simps [of P lo i])
qed

lemma while_up_ge: "i \<le> while_up P hi i"
proof (induction P hi i rule: while_up.induct)
  case (1 P hi i)
  then show ?case by (cases "i < hi \<and> P i") (auto simp: while_up.simps [of P hi i])
qed

lemma while_up_le: "while_up P hi i \<le> max i hi"
proof (induction P hi i rule: while_up.induct)
  case (1 P hi i)
  then show ?case by (cases "i < hi \<and> P i") (auto simp: while_up.simps [of P hi i])
qed

lemma while_up_skips: "i \<le> k \<Longrightarrow> k < while_up P hi i \<Longrightarrow> P k"
proof (induction P hi i rule: while_up.induct)
  case (1 P hi i)
  show ?case
  proof (cases "i < hi \<and> P i")
    case True
    with 1 show ?thesis by (cases "k = i") (auto simp: while_up.simps [of P hi i])
  next
    case False
    with 1 show ?thesis by (auto simp: while_up.simps [of P hi i])
  qed
qed

lemma while_up_stop: "while_up P hi i < hi \<Longrightarrow> \<not> P (while_up P hi i)"
proof (induction P hi i rule: while_up.induct)
  case (1 P hi i)
  then show ?case by (cases "i < hi \<and> P i") (auto simp: while_up.simps [of P hi i])
qed

lemma transparent_rowD:
  "isTransparentRow im y \<Longrightarrow> 0 \<le> x \<Longrightarrow> x < im_width im \<Longrightarrow> col_a (im_getRgbaAt im x y) = 0"
  by (auto simp: isTransparentRow_def list_all_iff)

lemma transparent_columnD:
  "isTransparentColumn im x \<Longrightarrow> 0 \<le> y \<Longrightarrow> y < im_height im \<Longrightarrow> col_a (im_getRgbaAt im x y) = 0"
  by (auto simp: isTransparentColumn_def list_all_iff)

lemmas while_facts =
  while_down_le while_down_ge while_down_skips while_down_stop
  while_up_ge while_up_le while_up_skips while_up_stop

lemma calcBounds_ranges:
  assumes "0 < im_height im" and "0 \<le> im_width im"
  defines "b \<equiv> calcBounds im"
  shows "0 \<le> b_top b" "b_top b \<le> b_bottom b" "b_bottom b < im_height im"
    "0 \<le> b_left b" "0 \<le> b_right b" "b_right b \<le> im_width im" "b_left b \<le> max 0 (b_right b - 1)"
proof -
  let ?bot = "while_down (isTransparentRow im) 1 (im_height im - 1)"
  let ?right = "while_down (isTransparentColumn im) 0 (im_width im - 1)"
  have bot: "0 \<le> ?bot" "?bot \<le> im_height im - 1"
    using while_down_ge [of 1 "im_height im - 1"] while_down_le [of _ 1 "im_height im - 1"] assms(1)
    by auto
  have right: "-1 \<le> ?right" "?right \<le> im_width im - 1"
    using while_down_ge [of 0 "im_width im - 1"] while_down_le [of _ 0 "im_width im - 1"] assms(2)
    by auto
  have top: "0 \<le> while_up (isTransparentRow im) ?bot 0" "while_up (isTransparentRow im) ?bot 0 \<le> ?bot"
    using while_up_ge [of 0] while_up_le [of _ ?bot 0] bot by (auto simp: max_def)
  have left: "0 \<le> while_up (isTransparentColumn im) ?right 0"
    "while_up (isTransparentColumn im) ?right 0 \<le> max 0 ?right"
    using while_up_ge [of 0] while_up_le [of _ ?right 0] by auto
  show "0 \<le> b_top b" "b_top b \<le> b_bottom b" "b_bottom b < im_height im"
    "0 \<le> b_left b" "0 \<le> b_right b" "b_right b \<le> im_width im" "b_left b \<le> max 0 (b_right b - 1)"
    using bot right top left by (simp_all add: b_def calcBounds_def Let_def)
qed

lemma calcBounds_box:
  assumes "0 < im_height im" and "0 \<le> x" and "x < im_width im" and "0 \<le> y" and "y < im_height im"
    and opaque: "col_a (im_getRgbaAt im x y) \<noteq> 0"
  shows "b_top (calcBounds im) \<le> y \<and> y \<le> b_bottom (calcBounds im) \<and>
    b_left (calcBounds im) \<le> x \<and> x < b_right (calcBounds im) \<and>
    0 \<le> b_top (calcBounds im) \<and> b_bottom (calcBounds im) < im_height im \<and>
    0 \<le> b_left (calcBounds im) \<and> b_right (calcBounds im) \<le> im_width im"
proof -
  let ?bot = "while_down (isTransparentRow im) 1 (im_height im - 1)"
  let ?right = "while_down (isTransparentColumn im) 0 (im_width im - 1)"
  have row: "\<not> isTransparentRow im y" using opaque assms(2,3) transparent_rowD [of im y x] by auto
  have column: "\<not> isTransparentColumn im x" using opaque assms(4,5) transparent_columnD [of im x y] by auto
  have "y \<le> ?bot"
    using while_down_skips [of "isTransparentRow im" 1 "im_height im - 1" y] row assms(5) by linarith
  moreover have "while_up (isTransparentRow im) ?bot 0 \<le> y"
    using while_up_skips [of 0 y "isTransparentRow im" ?bot] row assms(4) by linarith
  moreover have "x \<le> ?right"
    using while_down_skips [of "isTransparentColumn im" 0 "im_width im - 1" x] column assms(3) by linarith
  moreover have "while_up (isTransparentColumn im) ?right 0 \<le> x"
    using while_up_skips [of 0 x "isTransparentColumn im" ?right] column assms(2) by linarith
  ultimately show ?thesis
    using calcBounds_ranges [of im] assms by (simp add: calcBounds_def Let_def)
qed

lemma calcBounds_border:
  assumes "0 < im_height im" and "0 \<le> x" and "x < im_width im" and "0 \<le> y" and "y < im_height im"
    and "col_a (im_getRgbaAt im x y) \<noteq> 0"
  defines "b \<equiv> calcBounds im"
  shows "\<not> isTransparentRow im (b_bottom b) \<and> \<not> isTransparentRow im (b_top b) \<and>
    \<not> isTransparentColumn im (b_right b - 1) \<and> \<not> isTransparentColumn im (b_left b)"
proof -
  let ?bot = "while_down (isTransparentRow im) 1 (im_height im - 1)"
  let ?right = "while_down (isTransparentColumn im) 0 (im_width im - 1)"
  let ?top = "while_up (isTransparentRow im) ?bot 0"
  let ?left = "while_up (isTransparentColumn im) ?right 0"
  have b: "b = \<lparr>b_top = ?top, b_right = ?right + 1, b_bottom = ?bot, b_left = ?left\<rparr>"
    by (simp add: b_def calcBounds_def Let_def)
  have box: "?top \<le> y" "y \<le> ?bot" "?left \<le> x" "x \<le> ?right"
    using calcBounds_box [OF assms(1-6)] b unfolding b_def by simp_all
  have row: "\<not> isTransparentRow im y" using assms(2,3,6) transparent_rowD [of im y x] by auto
  have bot: "\<not> isTransparentRow im ?bot"
  proof (cases "1 \<le> ?bot")
    case True
    then show ?thesis by (rule while_down_stop)
  next
    case False
    then have "?bot = y" using box(2) assms(4) by linarith
    then show ?thesis using row by simp
  qed
  have right: "\<not> isTransparentColumn im ?right"
    using box(4) assms(2) by (intro while_down_stop) linarith
  have top: "\<not> isTransparentRow im ?top"
  proof (cases "?top < ?bot")
    case True
    then show ?thesis by (rule while_up_stop)
  next
    case False
    then have "?top = ?bot"
      using while_up_le [of "isTransparentRow im" ?bot 0] box(1,2) assms(4) by linarith
    then show ?thesis using bot by simp
  qed
  have left: "\<not> isTransparentColumn im ?left"
  proof (cases "?left < ?right")
    case True
    then show ?thesis by (rule while_up_stop)
  next
    case False
    then have "?left = ?right"
      using while_up_le [of "isTransparentColumn im" ?right 0] box(3,4) assms(2) by linarith
    then show ?thesis using right by simp
  qed
  from bot right top left show ?thesis by (simp add: b)
qed

text \<open>Bounding box: when the picture holds a pixel that is not fully transparent, the box that
  \<open>calcBounds\<close> returns (rows inclusive, columns up to but excluding \<open>right\<close>) stays inside the
  picture, contains that pixel, and is the smallest such box: each of its four border lines has a
  pixel that is not transparent.\<close>

lemma calcBounds_smallest_box:
  assumes "0 \<le> x" and "x < im_width im" and "0 \<le> y" and "y < im_height im"
    and "col_a (im_getRgbaAt im x y) \<noteq> 0"
  shows "b_top (calcBounds im) \<le> y \<and> y \<le> b_bottom (calcBounds im) \<and>
    b_left (calcBounds im) \<le> x \<and> x < b_right (calcBounds im) \<and>
    0 \<le> b_top (calcBounds im) \<and> b_bottom (calcBounds im) < im_height im \<and>
    0 \<le> b_left (calcBounds im) \<and> b_right (calcBounds im) \<le> im_width im \<and>
    \<not> isTransparentRow im (b_bottom (calcBounds im)) \<and>
    \<not> isTransparentRow im (b_top (calcBounds im)) \<and>
    \<not> isTransparentColumn im (b_right (calcBounds im) - 1) \<and>
    \<not> isTransparentColumn im (b_left (calcBounds im))"
  using calcBounds_box [of im x y] calcBounds_border [of im x y] assms by simp

section \<open>The palette\<close>

text \<open>The palette keeps \<open>''\<close> at index 0, and the value of every entry is its position.\<close>

definition palette_ok :: "palette \<Rightarrow> bool" where
  "palette_ok colors \<longleftrightarrow>
     (\<exists>rest. colors = ([], 0) # rest) \<and> distinct (omap_keys colors) \<and>
     map snd colors = [0..<length colors]"

lemma palette_ok_nth: "palette_ok colors \<Longrightarrow> i < length colors \<Longrightarrow> snd (colors ! i) = i"
  by (metis add_0 diff_zero length_map nth_map nth_upt palette_ok_def)

lemma palette_ok_map_of:
  assumes "palette_ok colors" and "map_of colors h = Some i"
  shows "i < length colors \<and> colors ! i = (h, i)"
proof -
  from assms(2) have "(h, i) \<in> set colors" by (rule map_of_SomeD)
  then obtain j where "j < length colors" "colors ! j = (h, i)" by (auto simp: in_set_conv_nth)
  with palette_ok_nth [OF assms(1), of j] show ?thesis by simp
qed

lemma palette_ok_append:
  assumes "palette_ok colors" and "map_of colors h = None"
  shows "palette_ok (colors @ [(h, length colors)])"
  using assms by (auto simp: palette_ok_def map_of_eq_None_iff)

text \<open>What the index list says of the pixels: 0 for a fully transparent one, otherwise the
  position of its colour.\<close>

definition index_for :: "palette \<Rightarrow> rgba \<Rightarrow> nat \<Rightarrow> bool" where
  "index_for colors c i \<longleftrightarrow>
     (if col_a c = 0 then i = 0
      else i < length colors \<and> fst (colors ! i) = rgbToHex (col_r c) (col_g c) (col_b c))"

lemma index_for_prefix: "index_for colors c i \<Longrightarrow> prefix colors colors' \<Longrightarrow> index_for colors' c i"
  by (auto simp: index_for_def prefix_def nth_append split: if_splits)

lemma visit_pixel_ok:
  assumes "palette_ok colors"
  obtains colors' i where "visit_pixel c (colors, indexes) = (colors', indexes @ [i])"
    "palette_ok colors'" "prefix colors colors'" "index_for colors' c i"
    "map_of colors' (rgbToHex (col_r c) (col_g c) (col_b c)) \<noteq> None"
proof (cases "map_of colors (rgbToHex (col_r c) (col_g c) (col_b c))")
  case None
  let ?h = "rgbToHex (col_r c) (col_g c) (col_b c)"
  let ?colors = "colors @ [(?h, length colors)]"
  have fresh: "omap_set ?h (length colors) colors = ?colors"
    using None by (intro omap_set_fresh) (simp add: map_of_eq_None_iff)
  have lookup: "map_of ?colors ?h = Some (length colors)"
    using None by (simp add: map_add_def)
  show ?thesis
  proof (rule that)
    show "visit_pixel c (colors, indexes) =
        (?colors, indexes @ [if col_a c = 0 then 0 else length colors])"
      using None lookup by (simp add: visit_pixel_def Let_def fresh)
    show "palette_ok ?colors" using assms None by (rule palette_ok_append)
    show "prefix colors ?colors" by simp
    show "index_for ?colors c (if col_a c = 0 then 0 else length colors)"
      by (simp add: index_for_def)
    show "map_of ?colors ?h \<noteq> None" using lookup by simp
  qed
next
  case (Some j)
  show ?thesis
  proof (rule that)
    show "visit_pixel c (colors, indexes) = (colors, indexes @ [if col_a c = 0 then 0 else j])"
      using Some by (simp add: visit_pixel_def Let_def)
    show "index_for colors c (if col_a c = 0 then 0 else j)"
      using palette_ok_map_of [OF assms Some] by (simp add: index_for_def)
  qed (use assms Some in simp_all)
qed

lemma visit_pixels:
  assumes "palette_ok colors"
  shows "\<exists>colors' new. fold visit_pixel cs (colors, indexes) = (colors', indexes @ new) \<and>
    palette_ok colors' \<and> prefix colors colors' \<and> list_all2 (index_for colors') cs new"
  using assms
proof (induction cs arbitrary: colors indexes)
  case Nil
  then show ?case by auto
next
  case (Cons c cs)
  obtain colors1 i where 1: "visit_pixel c (colors, indexes) = (colors1, indexes @ [i])"
    "palette_ok colors1" "prefix colors colors1" "index_for colors1 c i"
    using visit_pixel_ok [OF Cons.prems] by metis
  obtain colors' new where 2: "fold visit_pixel cs (colors1, indexes @ [i]) = (colors', (indexes @ [i]) @ new)"
    "palette_ok colors'" "prefix colors1 colors'" "list_all2 (index_for colors') cs new"
    using Cons.IH [OF 1(2)] by blast
  have "list_all2 (index_for colors') (c # cs) (i # new)"
    using 2(3,4) 1(4) by (auto intro: index_for_prefix)
  with 1 2 show ?case
    by (intro exI [where x = colors'] exI [where x = "i # new"])
      (auto intro: prefix_order.trans)
qed

section \<open>The run-length encoding\<close>

text \<open>The reference: the runs of a list of indexes, none longer than 255.\<close>

fun runs :: "nat \<Rightarrow> nat \<Rightarrow> nat list \<Rightarrow> (nat \<times> nat) list" where
  "runs prev cnt [] = [(cnt, prev)]"
| "runs prev cnt (d # ds) =
     (if d \<noteq> prev \<or> cnt = 255 then (cnt, prev) # runs d 1 ds else runs prev (cnt + 1) ds)"

definition rle :: "nat list \<Rightarrow> (nat \<times> nat) list" where
  "rle data = (case data of [] \<Rightarrow> [] | d # ds \<Rightarrow> runs d 1 ds)"

definition expand :: "(nat \<times> nat) list \<Rightarrow> nat list" where
  "expand rects = concat (map (\<lambda>(n, v). replicate n v) rects)"

definition enc_pair :: "nat \<times> nat \<Rightarrow> string" where
  "enc_pair = (\<lambda>(n, v). toPaddedHex (int n) 2 @ toPaddedHex (int v) 2)"

definition dec_pair :: "string \<Rightarrow> int option \<times> int option" where
  "dec_pair rect = (parseInt 16 (substring rect 0 2), parseInt 16 (substring rect 2 4))"

definition byte_pair :: "nat \<times> nat \<Rightarrow> bool" where
  "byte_pair = (\<lambda>(n, v). n < 256 \<and> v < 256)"

lemma runs_nonempty [simp]: "runs p c ds \<noteq> []"
  by (induction ds arbitrary: p c) auto

lemma encode_loop_runs:
  "encode_loop e t p c ds = (e', t', p', c') \<Longrightarrow>
     concat e' @ enc_pair (c', p') = concat e @ concat (map enc_pair (runs p c ds)) \<and>
     t' @ [(c', p')] = t @ runs p c ds"
proof (induction ds arbitrary: e t p c)
  case Nil
  then show ?case by simp
next
  case (Cons d ds)
  show ?case
  proof (cases "d \<noteq> p \<or> c = 255")
    case True
    with Cons.prems Cons.IH [of "e @ [toPaddedHex (int c) 2, toPaddedHex (int p) 2]" "t @ [(c, p)]" d 1]
    show ?thesis by (auto simp: enc_pair_def)
  next
    case False
    with Cons show ?thesis by auto
  qed
qed

lemma encode_rle: "encode tuples data = (concat (map enc_pair (rle data)), tuples @ butlast (rle data))"
proof (cases data)
  case Nil
  then show ?thesis by (simp add: encode_def rle_def)
next
  case (Cons d ds)
  obtain e t p c where l: "encode_loop [] tuples d 1 ds = (e, t, p, c)" by (metis prod_cases4)
  from encode_loop_runs [OF this]
  have r: "concat e @ enc_pair (c, p) = concat (map enc_pair (runs d 1 ds))"
    "t @ [(c, p)] = tuples @ runs d 1 ds" by simp_all
  from r(2) have "t = tuples @ butlast (runs d 1 ds)"
    by (metis butlast_append butlast_snoc runs_nonempty)
  with r(1) l Cons show ?thesis by (simp add: encode_def rle_def enc_pair_def)
qed

lemma expand_Nil [simp]: "expand [] = []"
  by (simp add: expand_def)

lemma expand_Cons [simp]: "expand ((n, v) # rs) = replicate n v @ expand rs"
  by (simp add: expand_def)

lemma expand_runs: "expand (runs p c ds) = replicate c p @ ds"
  by (induction ds arbitrary: p c) (simp_all add: replicate_append_same)

lemma expand_rle: "expand (rle data) = data"
  by (simp add: rle_def expand_runs split: list.splits)

lemma runs_counts: "0 < c \<Longrightarrow> c \<le> 255 \<Longrightarrow> (n, v) \<in> set (runs p c ds) \<Longrightarrow> 0 < n \<and> n \<le> 255"
  by (induction p c ds rule: runs.induct) (auto split: if_splits)

lemma rle_counts: "(n, v) \<in> set (rle data) \<Longrightarrow> 0 < n \<and> n \<le> 255"
  using runs_counts [of 1] by (force simp: rle_def split: list.splits)

lemma runs_values: "(n, v) \<in> set (runs p c ds) \<Longrightarrow> v = p \<or> v \<in> set ds"
  by (induction ds arbitrary: p c) (auto split: if_splits)

lemma rle_values: "(n, v) \<in> set (rle data) \<Longrightarrow> v \<in> set data"
  using runs_values by (force simp: rle_def split: list.splits)

text \<open>The runs are as long as they can be: two neighbours differ in value, unless the first is full.\<close>

definition maximal :: "(nat \<times> nat) list \<Rightarrow> bool" where
  "maximal = successively (\<lambda>(n, v) (m, w). v \<noteq> w \<or> n = 255)"

lemma maximal_runs: "maximal (runs p c ds) \<and> snd (hd (runs p c ds)) = p"
proof (induction ds arbitrary: p c)
  case Nil
  then show ?case by (simp add: maximal_def)
next
  case (Cons d ds)
  have "maximal ((c, p) # runs d 1 ds)" if "d \<noteq> p \<or> c = 255"
    using that Cons.IH [of d 1] by (cases "runs d 1 ds") (auto simp: maximal_def)
  with Cons.IH [of p "c + 1"] show ?case by auto
qed

lemma rle_byte_pair: "list_all (\<lambda>v. v < 256) data \<Longrightarrow> list_all byte_pair (rle data)"
  using rle_counts rle_values by (fastforce simp: byte_pair_def list_all_iff)

lemma length_enc_pair: "byte_pair x \<Longrightarrow> length (enc_pair x) = 4"
  by (auto simp: byte_pair_def enc_pair_def length_toPaddedHex split: prod.splits)

lemma dec_enc_pair: "byte_pair x \<Longrightarrow> dec_pair (enc_pair x) = (Some (int (fst x)), Some (int (snd x)))"
  by (auto simp: byte_pair_def enc_pair_def dec_pair_def substring_def length_toPaddedHex
      split: prod.splits)

interpretation rle_codec: fixed_codec enc_pair dec_pair
    "\<lambda>x. (Some (int (fst x)), Some (int (snd x)))" byte_pair 4
  by unfold_locales (auto simp: length_enc_pair dec_enc_pair byte_pair_def)

text \<open>Run-length encoding: \<open>encode\<close> writes the list it is given as byte pairs whose expansion is
  exactly that list; every count is between 1 and 255, no two neighbouring runs could be merged, and
  the public \<open>tuples\<close> array grows by all the runs but the last one.\<close>

lemma encode_runs:
  "\<exists>rects. encode tuples data = (concat (map enc_pair rects), tuples @ butlast rects) \<and>
     expand rects = data \<and> list_all (\<lambda>(n, v). 0 < n \<and> n \<le> 255) rects \<and> maximal rects"
proof (intro exI conjI)
  show "encode tuples data = (concat (map enc_pair (rle data)), tuples @ butlast (rle data))"
    by (rule encode_rle)
  show "expand (rle data) = data" by (rule expand_rle)
  show "list_all (\<lambda>(n, v). 0 < n \<and> n \<le> 255) (rle data)"
    using rle_counts by (auto simp: list_all_iff)
  show "maximal (rle data)"
    using maximal_runs by (auto simp: rle_def maximal_def split: list.splits)
qed

end
