(* ===== verification/Sdk_Svg.thy ===== *)
theory Sdk_Svg
  imports Sdk_Image
begin

text \<open>
  \<open>packages/punks-sdk/src/image/svg-builder.ts\<close>: \<open>decodeImage\<close>, \<open>getRectLength\<close> and
  \<open>buildSVG\<close>. Every number of this file comes out of \<open>parseInt\<close> and may be \<open>NaN\<close>, so the
  numbers are \<open>num_js = int option\<close> with the comparisons of JavaScript. The \<open>while\<close> loop of
  \<open>buildSVG\<close> is a \<open>partial_function\<close> in the option monad (\<open>None\<close>: it never ends). The
  lemmas describe one loop by a total function, \<open>pieces\<close>, and lead to the round trip with
  \<open>Image.toRLE\<close>, to the pixels that are painted, and to the inputs on which it returns.
\<close>

section \<open>Numbers that may be \<open>NaN\<close>\<close>

type_synonym num_js = "int option"

definition n_add :: "num_js \<Rightarrow> num_js \<Rightarrow> num_js" where
  "n_add a b = (case (a, b) of (Some x, Some y) \<Rightarrow> Some (x + y) | _ \<Rightarrow> None)"

definition n_sub :: "num_js \<Rightarrow> num_js \<Rightarrow> num_js" where
  "n_sub a b = (case (a, b) of (Some x, Some y) \<Rightarrow> Some (x - y) | _ \<Rightarrow> None)"

definition n_le :: "num_js \<Rightarrow> num_js \<Rightarrow> bool" where
  "n_le a b = (case (a, b) of (Some x, Some y) \<Rightarrow> x \<le> y | _ \<Rightarrow> False)"

definition n_pos :: "num_js \<Rightarrow> bool" where
  "n_pos a = (case a of Some x \<Rightarrow> 0 < x | None \<Rightarrow> False)"

definition n_eq :: "num_js \<Rightarrow> num_js \<Rightarrow> bool" where
  "n_eq a b = (case (a, b) of (Some x, Some y) \<Rightarrow> x = y | _ \<Rightarrow> False)"

definition n_show :: "num_js \<Rightarrow> string" where
  "n_show a = (case a of Some x \<Rightarrow> int_to_base 10 x | None \<Rightarrow> ''NaN'')"

lemma n_simps [simp]:
  "n_add (Some x) (Some y) = Some (x + y)" "n_sub (Some x) (Some y) = Some (x - y)"
  "n_le (Some x) (Some y) = (x \<le> y)" "n_pos (Some x) = (0 < x)" "n_eq (Some x) (Some y) = (x = y)"
  "n_add None b = None" "n_add a None = None" "n_sub None b = None" "n_sub a None = None"
  "n_le None b = False" "n_le a None = False" "n_pos None = False" "n_eq None b = False" "n_eq a None = False"
  by (auto simp: n_add_def n_sub_def n_le_def n_pos_def n_eq_def split: option.splits)

section \<open>\<open>decodeImage\<close>\<close>

record decoded_bounds =
  d_top :: num_js
  d_right :: num_js
  d_bottom :: num_js
  d_left :: num_js

record decoded_image =
  d_paletteIndex :: num_js
  d_bounds :: decoded_bounds
  d_rects :: "(num_js \<times> num_js) list"

definition strip_prefix_0x :: "string \<Rightarrow> string" where
  "strip_prefix_0x s = (if take 2 s = ''0x'' then drop 2 s else s)"

definition is_newline :: "char \<Rightarrow> bool" where
  "is_newline c \<longleftrightarrow> of_char c \<in> {10, 13 :: nat}"

text \<open>The successive matches of the regular expression \<open>.{1,4}\<close>: a dot matches no line
  terminator, which the search skips.\<close>

function match_1_4 :: "string \<Rightarrow> string list" where
  "match_1_4 s =
     (let t = dropWhile is_newline s;
          m = takeWhile (\<lambda>c. \<not> is_newline c) (take 4 t)
      in if t = [] then [] else m # match_1_4 (drop (length m) t))"
  by pat_completeness auto
termination
proof (relation "measure length", goal_cases)
  case 1
  show ?case by simp
next
  case (2 s t m)
  let ?t = "dropWhile is_newline s" and ?m = "takeWhile (\<lambda>c. \<not> is_newline c) (take 4 (dropWhile is_newline s))"
  from 2 obtain c cs where c: "?t = c # cs" by (cases "dropWhile is_newline s") auto
  then have "\<not> is_newline c" by (metis hd_dropWhile list.discI list.sel(1))
  with c have "0 < length ?m" by simp
  moreover have "length ?t \<le> length s" by (rule length_dropWhile_le)
  moreover have "0 < length ?t" using c by simp
  ultimately have "length ?t - length ?m < length s" by linarith
  with 2 show ?case by simp
qed

declare match_1_4.simps [simp del]

definition decodeImage :: "string \<Rightarrow> decoded_image" where
  "decodeImage img =
     (let data = strip_prefix_0x img;
          rects = substring_from data 10
      in \<lparr>d_paletteIndex = parseInt 16 (substring data 0 2),
          d_bounds =
            \<lparr>d_top = parseInt 16 (substring data 2 4),
             d_right = parseInt 16 (substring data 4 6),
             d_bottom = parseInt 16 (substring data 6 8),
             d_left = parseInt 16 (substring data 8 10)\<rparr>,
          d_rects =
            map (\<lambda>rect. (parseInt 16 (substring rect 0 2), parseInt 16 (substring rect 2 4)))
              (match_1_4 rects)\<rparr>)"

section \<open>\<open>buildSVG\<close>\<close>

definition getRectLength :: "num_js \<Rightarrow> num_js \<Rightarrow> num_js \<Rightarrow> num_js" where
  "getRectLength currentX drawLength rightBound =
     (let remainingPixelsInLine = n_sub rightBound currentX
      in if n_le drawLength remainingPixelsInLine then drawLength else remainingPixelsInLine)"

text \<open>\<open>paletteColors[colorIndex]\<close>; \<open>None\<close> is \<open>undefined\<close>.\<close>

definition palette_at :: "string list \<Rightarrow> num_js \<Rightarrow> string option" where
  "palette_at paletteColors i =
     (case i of None \<Rightarrow> None
      | Some k \<Rightarrow> if 0 \<le> k \<and> k < int (length paletteColors) then Some (paletteColors ! nat k) else None)"

definition times4 :: "num_js \<Rightarrow> num_js" where
  "times4 a = map_option ((*) 4) a"

text \<open>What one turn of the loop pushes to \<open>svgRects\<close>; reading a property of \<open>undefined\<close>
  throws.\<close>

definition svg_rect :: "string list \<Rightarrow> num_js \<Rightarrow> num_js \<Rightarrow> num_js \<Rightarrow> num_js \<Rightarrow> string list result" where
  "svg_rect paletteColors colorIndex len currentX currentY =
     (if n_eq colorIndex (Some 0) then Inr []
      else rbind (of_option TypeError (palette_at paletteColors colorIndex)) (\<lambda>color.
        let hexColor = substring color 0 6;
            hexOpacity = substring_from color 6;
            rect = ''<rect width=\"'' @ n_show (times4 len) @ ''\" height=\"4\" x=\"'' @
              n_show (times4 currentX) @ ''\" y=\"'' @ n_show (times4 currentY) @
              ''\" fill=\"#'' @ hexColor
        in if hexOpacity = ''ff'' then Inr [rect @ ''\" />'']
           else let opacity = map_option (\<lambda>v. v * 100 div 255) (parseInt 16 hexOpacity)
             in Inr [rect @ ''\" opacity=\"0.'' @ n_show opacity @ ''\" />'']))"

text \<open>The \<open>while\<close> loop for one \<open>draw\<close>; \<open>emit\<close> is what a turn pushes.\<close>

partial_function (option) draw_loop ::
  "(num_js \<Rightarrow> num_js \<Rightarrow> num_js \<Rightarrow> 'a list result) \<Rightarrow> num_js \<Rightarrow> num_js \<Rightarrow> num_js \<Rightarrow> num_js \<Rightarrow>
     num_js \<Rightarrow> num_js \<Rightarrow> 'a list \<Rightarrow> (num_js \<times> num_js \<times> 'a list) result option" where
  "draw_loop emit left right currentX currentY drawLength len svgRects =
     (if n_pos len then
        case emit len currentX currentY of
          Inl e \<Rightarrow> Some (Inl e)
        | Inr new \<Rightarrow>
            draw_loop emit left right
              (if n_eq (n_add currentX len) right then left else n_add currentX len)
              (if n_eq (n_add currentX len) right then n_add currentY (Some 1) else currentY)
              (n_sub drawLength len)
              (getRectLength (if n_eq (n_add currentX len) right then left else n_add currentX len)
                (n_sub drawLength len) right)
              (svgRects @ new)
      else Some (Inr (currentX, currentY, svgRects)))"

fun draw_all ::
  "(num_js \<Rightarrow> num_js \<Rightarrow> num_js \<Rightarrow> num_js \<Rightarrow> 'a list result) \<Rightarrow> num_js \<Rightarrow> num_js \<Rightarrow>
     (num_js \<times> num_js) list \<Rightarrow> num_js \<Rightarrow> num_js \<Rightarrow> 'a list \<Rightarrow> 'a list result option" where
  "draw_all emit left right [] currentX currentY svgRects = Some (Inr svgRects)"
| "draw_all emit left right ((drawLength, colorIndex) # rects) currentX currentY svgRects =
     (case draw_loop (emit colorIndex) left right currentX currentY drawLength
             (getRectLength currentX drawLength right) svgRects of
        None \<Rightarrow> None
      | Some (Inl e) \<Rightarrow> Some (Inl e)
      | Some (Inr (x, y, out)) \<Rightarrow> draw_all emit left right rects x y out)"

definition draw_part ::
  "(num_js \<Rightarrow> num_js \<Rightarrow> num_js \<Rightarrow> num_js \<Rightarrow> 'a list result) \<Rightarrow> string \<Rightarrow> 'a list result option" where
  "draw_part emit data =
     (let d = decodeImage data; b = d_bounds d
      in draw_all emit (d_left b) (d_right b) (d_rects d) (d_left b) (d_top b) [])"

definition svg_head :: string where
  "svg_head = ''<svg width=\"384\" height=\"384\" viewBox=\"0 0 384 384\" '' @
     ''xmlns=\"http://www.w3.org/2000/svg\" shape-rendering=\"crispEdges\" fill=\"#E1D7D5\">'' @
     ''<rect width=\"100%\" height=\"100%\" />''"

fun reduce_parts :: "string list \<Rightarrow> string \<Rightarrow> string list \<Rightarrow> string result option" where
  "reduce_parts paletteColors result [] = Some (Inr result)"
| "reduce_parts paletteColors result (data # parts) =
     (case draw_part (svg_rect paletteColors) data of
        None \<Rightarrow> None
      | Some (Inl e) \<Rightarrow> Some (Inl e)
      | Some (Inr svgRects) \<Rightarrow> reduce_parts paletteColors (result @ concat svgRects) parts)"

definition buildSVG :: "string list \<Rightarrow> string list \<Rightarrow> string result option" where
  "buildSVG parts paletteColors =
     (case reduce_parts paletteColors svg_head parts of
        None \<Rightarrow> None
      | Some (Inl e) \<Rightarrow> Some (Inl e)
      | Some (Inr svgWithoutEndTag) \<Rightarrow> Some (Inr (svgWithoutEndTag @ ''</svg>'')))"

section \<open>One draw as a list of horizontal pieces\<close>

function pieces :: "int \<Rightarrow> int \<Rightarrow> int \<Rightarrow> int \<Rightarrow> int \<Rightarrow> (int \<times> int \<times> int) list" where
  "pieces L R x y n =
     (let len = min n (R - x)
      in if 0 < len
         then (len, x, y) #
           (if x + len = R then pieces L R L (y + 1) (n - len) else pieces L R (x + len) y (n - len))
         else [])"
  by pat_completeness auto
termination
  by (relation "measure (\<lambda>(L, R, x, y, n). nat n)") auto

function pieces_end :: "int \<Rightarrow> int \<Rightarrow> int \<Rightarrow> int \<Rightarrow> int \<Rightarrow> int \<times> int" where
  "pieces_end L R x y n =
     (let len = min n (R - x)
      in if 0 < len
         then (if x + len = R then pieces_end L R L (y + 1) (n - len)
               else pieces_end L R (x + len) y (n - len))
         else (x, y))"
  by pat_completeness auto
termination
  by (relation "measure (\<lambda>(L, R, x, y, n). nat n)") auto

declare pieces.simps [simp del] pieces_end.simps [simp del]

lemma pieces_stop:
  "\<not> 0 < min n (R - x) \<Longrightarrow> pieces L R x y n = [] \<and> pieces_end L R x y n = (x, y)"
  by (subst pieces.simps, subst pieces_end.simps, unfold Let_def) presburger

lemma pieces_wrap:
  "len = min n (R - x) \<Longrightarrow> 0 < len \<Longrightarrow> x + len = R \<Longrightarrow>
     pieces L R x y n = (len, x, y) # pieces L R L (y + 1) (n - len) \<and>
     pieces_end L R x y n = pieces_end L R L (y + 1) (n - len)"
  by (subst pieces.simps, subst pieces_end.simps, unfold Let_def) presburger

lemma pieces_row:
  "len = min n (R - x) \<Longrightarrow> 0 < len \<Longrightarrow> x + len \<noteq> R \<Longrightarrow>
     pieces L R x y n = (len, x, y) # pieces L R (x + len) y (n - len) \<and>
     pieces_end L R x y n = pieces_end L R (x + len) y (n - len)"
  by (subst pieces.simps, subst pieces_end.simps, unfold Let_def) presburger

lemma draw_loop_stop:
  "\<not> n_pos len \<Longrightarrow> draw_loop emit left right x y n len acc = Some (Inr (x, y, acc))"
  by (subst draw_loop.simps) simp

lemma getRectLength_nums [simp]:
  "getRectLength (Some x) (Some n) (Some R) = Some (min n (R - x))"
  by (simp add: getRectLength_def Let_def min_def)

lemma draw_loop_step:
  assumes "0 < len"
  shows "draw_loop emit (Some L) (Some R) (Some x) (Some y) (Some n) (Some len) acc =
    (case emit (Some len) (Some x) (Some y) of
       Inl e \<Rightarrow> Some (Inl e)
     | Inr new \<Rightarrow>
         if x + len = R
         then draw_loop emit (Some L) (Some R) (Some L) (Some (y + 1)) (Some (n - len))
                (Some (min (n - len) (R - L))) (acc @ new)
         else draw_loop emit (Some L) (Some R) (Some (x + len)) (Some y) (Some (n - len))
                (Some (min (n - len) (R - (x + len)))) (acc @ new))"
  using assms by (subst draw_loop.simps) (simp split: sum.splits)

definition loop_result ::
  "(num_js \<Rightarrow> num_js \<Rightarrow> num_js \<Rightarrow> 'a list result) \<Rightarrow> (int \<times> int \<times> int) list \<Rightarrow> int \<times> int \<Rightarrow> 'a list \<Rightarrow>
     (num_js \<times> num_js \<times> 'a list) result" where
  "loop_result emit ps e acc =
     rbind (rmap_list (\<lambda>(l, x, y). emit (Some l) (Some x) (Some y)) ps)
       (\<lambda>outs. Inr (Some (fst e), Some (snd e), acc @ concat outs))"

lemma loop_result_Nil [simp]:
  "loop_result emit [] e acc = Inr (Some (fst e), Some (snd e), acc)"
  by (simp add: loop_result_def)

lemma loop_result_Cons:
  "loop_result emit ((l, x, y) # ps) e acc =
     (case emit (Some l) (Some x) (Some y) of
        Inl er \<Rightarrow> Inl er
      | Inr new \<Rightarrow> loop_result emit ps e (acc @ new))"
  by (cases "emit (Some l) (Some x) (Some y)") (simp_all add: loop_result_def rbind_assoc)

lemma draw_loop_pieces:
  "draw_loop emit (Some L) (Some R) (Some x) (Some y) (Some n) (Some (min n (R - x))) acc =
     Some (loop_result emit (pieces L R x y n) (pieces_end L R x y n) acc)"
proof (induction L R x y n arbitrary: acc rule: pieces.induct)
  case (1 L R x y n)
  define len where "len = min n (R - x)"
  consider "\<not> 0 < len" | "0 < len" "x + len = R" | "0 < len" "x + len \<noteq> R" by blast
  then show ?case
  proof cases
    assume "\<not> 0 < len"
    with pieces_stop [of n R x L y, folded len_def] show ?thesis
      unfolding len_def [symmetric] by (simp add: draw_loop_stop)
  next
    assume a: "0 < len" "x + len = R"
    from 1(1) [OF len_def a] a pieces_wrap [OF len_def a, of L y] show ?thesis
      unfolding len_def [symmetric] by (simp only: draw_loop_step loop_result_Cons) (simp split: sum.splits)
  next
    assume a: "0 < len" "x + len \<noteq> R"
    from 1(2) [OF len_def a] a pieces_row [OF len_def a, of L y] show ?thesis
      unfolding len_def [symmetric] by (simp only: draw_loop_step loop_result_Cons) (simp split: sum.splits)
  qed
qed

section \<open>The pixels in the order the loop reaches them\<close>

definition next_pos :: "int \<Rightarrow> int \<Rightarrow> int \<times> int \<Rightarrow> int \<times> int" where
  "next_pos L R p = (if fst p + 1 = R then (L, snd p + 1) else (fst p + 1, snd p))"

definition scan :: "int \<Rightarrow> int \<Rightarrow> int \<times> int \<Rightarrow> nat \<Rightarrow> (int \<times> int) list" where
  "scan L R p n = map (\<lambda>i. (next_pos L R ^^ i) p) [0..<n]"

definition cells :: "int \<times> int \<times> int \<Rightarrow> (int \<times> int) list" where
  "cells = (\<lambda>(l, x, y). map (\<lambda>i. (x + i, y)) [0..l - 1])"

lemma length_scan [simp]: "length (scan L R p n) = n"
  by (simp add: scan_def)

lemma scan_0 [simp]: "scan L R p 0 = []"
  by (simp add: scan_def)

lemma scan_add: "scan L R p (m + n) = scan L R p m @ scan L R ((next_pos L R ^^ m) p) n"
proof -
  have "[0..<m + n] = [0..<m] @ map (\<lambda>i. i + m) [0..<n]"
    by (metis add.commute le0 map_add_upt upt_add_eq_append)
  then show ?thesis by (simp add: scan_def funpow_add comp_def add.commute)
qed

lemma next_pos_row:
  "int i < R - x \<Longrightarrow> (next_pos L R ^^ i) (x, y) = (x + int i, y)"
  by (induction i) (simp_all add: next_pos_def)

lemma next_pos_wrap: "x < R \<Longrightarrow> (next_pos L R ^^ nat (R - x)) (x, y) = (L, y + 1)"
proof -
  assume "x < R"
  then obtain k where k: "nat (R - x) = Suc k" by (cases "nat (R - x)") auto
  with \<open>x < R\<close> have k': "int k < R - x" "x + int k + 1 = R" by linarith+
  from k'(1) have "(next_pos L R ^^ k) (x, y) = (x + int k, y)" by (rule next_pos_row)
  with k'(2) show ?thesis unfolding k by (simp add: next_pos_def)
qed

lemma cells_scan:
  assumes "l \<le> R - x"
  shows "cells (l, x, y) = scan L R (x, y) (nat l)"
proof (rule nth_equalityI)
  show "length (cells (l, x, y)) = length (scan L R (x, y) (nat l))" by (simp add: cells_def)
next
  fix i assume "i < length (cells (l, x, y))"
  then have "i < nat l" by (simp add: cells_def)
  with assms show "cells (l, x, y) ! i = scan L R (x, y) (nat l) ! i"
    by (simp add: cells_def scan_def next_pos_row)
qed

lemma scan_split:
  assumes "0 \<le> len" and "len \<le> n"
  shows "scan L R p (nat n) = scan L R p (nat len) @ scan L R ((next_pos L R ^^ nat len) p) (nat (n - len))"
    and "(next_pos L R ^^ nat n) p = (next_pos L R ^^ nat (n - len)) ((next_pos L R ^^ nat len) p)"
proof -
  have n: "nat n = nat len + nat (n - len)" using assms by linarith
  show "scan L R p (nat n) = scan L R p (nat len) @ scan L R ((next_pos L R ^^ nat len) p) (nat (n - len))"
    unfolding n by (rule scan_add)
  show "(next_pos L R ^^ nat n) p = (next_pos L R ^^ nat (n - len)) ((next_pos L R ^^ nat len) p)"
    unfolding n by (subst add.commute) (simp only: funpow_add comp_def)
qed

lemma pieces_scan:
  assumes "L < R" and "x < R" and "0 \<le> n"
  shows "concat (map cells (pieces L R x y n)) = scan L R (x, y) (nat n) \<and>
    pieces_end L R x y n = (next_pos L R ^^ nat n) (x, y) \<and> fst (pieces_end L R x y n) < R"
  using assms
proof (induction L R x y n rule: pieces.induct)
  case (1 L R x y n)
  define len where "len = min n (R - x)"
  have len: "0 \<le> len" "len \<le> n" "len \<le> R - x" using 1 by (simp_all add: len_def)
  have row: "cells (len, x, y) = scan L R (x, y) (nat len)" by (rule cells_scan [OF len(3)])
  note split = scan_split [OF len(1,2), of L R "(x, y)"]
  consider "\<not> 0 < len" | "0 < len" "x + len = R" | "0 < len" "x + len \<noteq> R" by blast
  then show ?case
  proof cases
    assume "\<not> 0 < len"
    then have "n = 0" using 1 by (simp add: len_def)
    then show ?thesis using pieces_stop [of 0 R x L y] 1 by simp
  next
    assume a: "0 < len" "x + len = R"
    then have "(next_pos L R ^^ nat len) (x, y) = (L, y + 1)"
      using next_pos_wrap [of x R L y] 1 by (metis add_diff_cancel_left')
    moreover have "0 \<le> n - len" using len by simp
    ultimately show ?thesis
      using 1(1) [OF len_def a 1(3) 1(3)] pieces_wrap [OF len_def a, of L y] row split by auto
  next
    assume a: "0 < len" "x + len \<noteq> R"
    then have n: "len = n" "x + len < R" using len by (simp_all add: len_def)
    then show ?thesis
      using pieces_row [OF len_def a, of L y] row pieces_stop [of 0 R "x + n" L y] next_pos_row [of "nat len" R x L y]
        len by simp
  qed
qed

section \<open>The draws of a whole part\<close>

text \<open>A stroke is a piece with its colour index.\<close>

fun strokes :: "int \<Rightarrow> int \<Rightarrow> int \<Rightarrow> int \<Rightarrow> (nat \<times> nat) list \<Rightarrow> ((int \<times> int \<times> int) \<times> nat) list" where
  "strokes L R x y [] = []"
| "strokes L R x y ((n, v) # rs) =
     map (\<lambda>p. (p, v)) (pieces L R x y (int n)) @
     (let e = pieces_end L R x y (int n) in strokes L R (fst e) (snd e) rs)"

definition stroke_cells :: "(int \<times> int \<times> int) \<times> nat \<Rightarrow> ((int \<times> int) \<times> nat) list" where
  "stroke_cells = (\<lambda>(p, v). map (\<lambda>c. (c, v)) (cells p))"

definition nums :: "(nat \<times> nat) list \<Rightarrow> (num_js \<times> num_js) list" where
  "nums rects = map (\<lambda>(n, v). (Some (int n), Some (int v))) rects"

lemma map_pair_zip: "map (\<lambda>c. (c, v)) xs = zip xs (replicate (length xs) v)"
  by (induction xs) simp_all

lemma strokes_scan:
  assumes "L < R" and "x < R"
  shows "concat (map stroke_cells (strokes L R x y rects)) =
    zip (scan L R (x, y) (length (expand rects))) (expand rects)"
  using assms(2)
proof (induction rects arbitrary: x y)
  case Nil
  then show ?case by simp
next
  case (Cons r rects)
  obtain n v where r: "r = (n, v)" by (cases r)
  have ps: "concat (map cells (pieces L R x y (int n))) = scan L R (x, y) n"
    "pieces_end L R x y (int n) = (next_pos L R ^^ n) (x, y)" "fst (pieces_end L R x y (int n)) < R"
    using pieces_scan [OF assms(1) Cons.prems, of "int n" y] by auto
  have "concat (map stroke_cells (map (\<lambda>p. (p, v)) (pieces L R x y (int n)))) =
      map (\<lambda>c. (c, v)) (concat (map cells (pieces L R x y (int n))))"
    by (simp add: stroke_cells_def map_concat comp_def)
  also have "\<dots> = zip (scan L R (x, y) n) (replicate n v)"
    by (simp add: ps(1) map_pair_zip)
  finally show ?case
    using Cons.IH [OF ps(3), of "snd (pieces_end L R x y (int n))"]
    by (simp add: r Let_def scan_add ps(2))
qed

text \<open>When no colour index of a part is missing from the palette, the loop pushes the strokes one
  by one.\<close>

lemma draw_all_strokes:
  assumes "\<And>l x y n v. (n, v) \<in> set rects \<Longrightarrow> emit (Some (int v)) (Some l) (Some x) (Some y) = Inr (f ((l, x, y), v))"
  shows "draw_all emit (Some L) (Some R) (nums rects) (Some x) (Some y) acc =
    Some (Inr (acc @ concat (map f (strokes L R x y rects))))"
  using assms
proof (induction rects arbitrary: x y acc)
  case Nil
  then show ?case by (simp add: nums_def)
next
  case (Cons r rects)
  obtain n v where r: "r = (n, v)" by (cases r)
  let ?ps = "pieces L R x y (int n)" and ?e = "pieces_end L R x y (int n)"
  have "rmap_list (\<lambda>(l, x, y). emit (Some (int v)) (Some l) (Some x) (Some y)) ?ps = Inr (map (\<lambda>p. f (p, v)) ?ps)"
    using Cons.prems [of n v] r by (intro rmap_list_all_Inr) auto
  then have "draw_loop (emit (Some (int v))) (Some L) (Some R) (Some x) (Some y) (Some (int n))
      (Some (min (int n) (R - x))) acc =
      Some (Inr (Some (fst ?e), Some (snd ?e), acc @ concat (map (\<lambda>p. f (p, v)) ?ps)))"
    by (simp add: draw_loop_pieces loop_result_def)
  moreover have "draw_all emit (Some L) (Some R) (nums rects) (Some x') (Some y') acc' =
      Some (Inr (acc' @ concat (map f (strokes L R x' y' rects))))" for x' y' acc'
    by (rule Cons.IH, rule Cons.prems, rule list.set_intros(2))
  ultimately show ?case by (simp add: r nums_def Let_def comp_def)
qed

lemma draw_all_error:
  assumes "v \<noteq> 0" and "palette_at pal (Some (int v)) = None" and "0 < n" and "x < R"
  shows "draw_all (svg_rect pal) (Some L) (Some R) ((Some (int n), Some (int v)) # rects) (Some x) (Some y) acc =
    Some (Inl TypeError)"
  using assms by (simp add: draw_loop_step svg_rect_def)

section \<open>Reading back what \<open>toRLE\<close> wrote\<close>

lemma toPaddedHex_no_newline: "0 \<le> n \<Longrightarrow> c \<in> set (toPaddedHex n k) \<Longrightarrow> \<not> is_newline c"
proof -
  assume "0 \<le> n" "c \<in> set (toPaddedHex n k)"
  then have "c = digit_char 0 \<or> c \<in> set (hex (nat n))"
    by (auto simp: toPaddedHex_nat padStart_def digit_char_0)
  then have "\<exists>d < 16. c = digit_char d"
    using nat_to_base_digits [of 16 c "nat n"] by (metis le_numeral_extra(4) numeral_le_iff semiring_norm(68,71) zero_less_numeral)
  then show ?thesis
    by (auto simp: is_newline_def digit_char_def dest!: nat_less_16_cases)
qed

lemma match_chunks: "(\<And>c. c \<in> set s \<Longrightarrow> \<not> is_newline c) \<Longrightarrow> match_1_4 s = chunks_of 4 s"
proof (induction s rule: match_1_4.induct)
  case (1 s)
  have d: "dropWhile is_newline s = s" using 1(2) by (cases s) auto
  have t: "takeWhile (\<lambda>c. \<not> is_newline c) (take 4 s) = take 4 s"
    using 1(2) by (auto simp: takeWhile_eq_all_conv dest: in_set_takeD)
  have ih: "s \<noteq> [] \<Longrightarrow> match_1_4 (drop 4 s) = chunks_of 4 (drop 4 s)"
  proof -
    assume "s \<noteq> []"
    then have "match_1_4 (drop (length (take 4 s)) s) = chunks_of 4 (drop (length (take 4 s)) s)"
      by (intro 1(1) [of s "take 4 s", unfolded d t, OF refl refl]) (auto dest: in_set_dropD 1(2))
    then show ?thesis by (cases "4 \<le> length s") simp_all
  qed
  show ?case
    using ih by (subst match_1_4.simps, subst chunks_of.simps) (auto simp: d t Let_def min_def)
qed

lemma match_enc_pairs:
  assumes "list_all byte_pair rects"
  shows "match_1_4 (concat (map enc_pair rects)) = map enc_pair rects"
proof -
  have "match_1_4 (concat (map enc_pair rects)) = chunks_of 4 (concat (map enc_pair rects))"
    by (rule match_chunks) (auto simp: enc_pair_def dest: toPaddedHex_no_newline [rotated])
  then show ?thesis using rle_codec.chunks_enc [OF assms] by simp
qed

definition bounds_nums :: "image_bounds \<Rightarrow> decoded_bounds" where
  "bounds_nums b = \<lparr>d_top = Some (b_top b), d_right = Some (b_right b), d_bottom = Some (b_bottom b),
     d_left = Some (b_left b)\<rparr>"

definition byte_bounds :: "image_bounds \<Rightarrow> bool" where
  "byte_bounds b \<longleftrightarrow> 0 \<le> b_top b \<and> b_top b < 256 \<and> 0 \<le> b_right b \<and> b_right b < 256 \<and>
     0 \<le> b_bottom b \<and> b_bottom b < 256 \<and> 0 \<le> b_left b \<and> b_left b < 256"

lemma substring_fields:
  assumes "length a = 2" "length b = 2" "length c = 2" "length d = 2" "length e = 2"
  shows "substring (a @ b @ c @ d @ e @ rest) 0 2 = a" "substring (a @ b @ c @ d @ e @ rest) 2 4 = b"
    "substring (a @ b @ c @ d @ e @ rest) 4 6 = c" "substring (a @ b @ c @ d @ e @ rest) 6 8 = d"
    "substring (a @ b @ c @ d @ e @ rest) 8 10 = e" "substring_from (a @ b @ c @ d @ e @ rest) 10 = rest"
proof -
  have two: "\<exists>x y. s = [x, y]" if "length s = 2" for s :: string
    using that by (auto simp: numeral_2_eq_2 length_Suc_conv)
  obtain a1 a2 b1 b2 c1 c2 d1 d2 e1 e2 where
    "a = [a1, a2]" "b = [b1, b2]" "c = [c1, c2]" "d = [d1, d2]" "e = [e1, e2]"
    using assms [THEN two] by blast
  then show "substring (a @ b @ c @ d @ e @ rest) 0 2 = a" "substring (a @ b @ c @ d @ e @ rest) 2 4 = b"
    "substring (a @ b @ c @ d @ e @ rest) 4 6 = c" "substring (a @ b @ c @ d @ e @ rest) 6 8 = d"
    "substring (a @ b @ c @ d @ e @ rest) 8 10 = e" "substring_from (a @ b @ c @ d @ e @ rest) 10 = rest"
    by (simp_all add: substring_def substring_from_def)
qed

lemma decode_encoded:
  assumes "byte_bounds b" and "list_all byte_pair rects"
  shows "decodeImage (''0x'' @ concat (map (\<lambda>v. toPaddedHex v 2) [0, b_top b, b_right b, b_bottom b, b_left b]) @
      concat (map enc_pair rects)) =
    \<lparr>d_paletteIndex = Some 0, d_bounds = bounds_nums b, d_rects = nums rects\<rparr>"
proof -
  have len: "length (toPaddedHex 0 2) = 2" "length (toPaddedHex (b_top b) 2) = 2"
    "length (toPaddedHex (b_right b) 2) = 2" "length (toPaddedHex (b_bottom b) 2) = 2"
    "length (toPaddedHex (b_left b) 2) = 2"
    using assms(1) by (simp_all add: byte_bounds_def length_toPaddedHex)
  have "map dec_pair (map enc_pair rects) = map (\<lambda>x. (Some (int (fst x)), Some (int (snd x)))) rects"
    using rle_codec.dec_all [OF assms(2)] rle_codec.chunks_enc [OF assms(2)] by simp
  then have dec: "map (\<lambda>rect. (parseInt 16 (substring rect 0 2), parseInt 16 (substring rect 2 4)))
      (map enc_pair rects) = nums rects"
    unfolding dec_pair_def nums_def by (simp add: case_prod_beta)
  have strip: "strip_prefix_0x (''0x'' @ s) = s" for s
    by (simp add: strip_prefix_0x_def)
  have nonneg: "0 \<le> b_top b" "0 \<le> b_right b" "0 \<le> b_bottom b" "0 \<le> b_left b"
    using assms(1) by (simp_all add: byte_bounds_def)
  show ?thesis
    unfolding decodeImage_def Let_def strip list.map concat.simps append_assoc append_Nil2 append_Nil
      substring_fields [OF len] match_enc_pairs [OF assms(2)] dec
    by (simp add: bounds_nums_def nonneg)
qed

section \<open>The round trip and the pixels painted\<close>

definition pixel_at :: "image \<Rightarrow> int \<times> int \<Rightarrow> rgba" where
  "pixel_at im p = im_getRgbaAt im (fst p) (snd p)"

definition rle_text :: "image_bounds \<Rightarrow> (nat \<times> nat) list \<Rightarrow> string" where
  "rle_text b rects =
     ''0x'' @ concat (map (\<lambda>v. toPaddedHex v 2) [0, b_top b, b_right b, b_bottom b, b_left b]) @
       concat (map enc_pair rects)"

lemma toRLE_result:
  assumes "palette_ok colors"
  obtains colors' indexes where
    "toRLE im colors =
       (rle_text (calcBounds im) (rle indexes), colors',
        im\<lparr>im_bounds := calcBounds im, im_tuples := im_tuples im @ butlast (rle indexes)\<rparr>)"
    "palette_ok colors'" "prefix colors colors'"
    "list_all2 (\<lambda>p i. index_for colors' (pixel_at im p) i) (pixel_order (calcBounds im)) indexes"
proof -
  let ?ps = "pixel_order (calcBounds im)"
  have split: "(\<lambda>(x, y). visit_pixel (im_getRgbaAt im x y)) = visit_pixel \<circ> pixel_at im"
    by (auto simp: pixel_at_def)
  obtain colors' new where v: "fold visit_pixel (map (pixel_at im) ?ps) (colors, []) = (colors', new)"
    "palette_ok colors'" "prefix colors colors'" "list_all2 (index_for colors') (map (pixel_at im) ?ps) new"
    using visit_pixels [OF assms, of "map (pixel_at im) ?ps" "[]"] by auto
  show ?thesis
  proof (rule that [of new colors'])
    show "toRLE im colors =
       (rle_text (calcBounds im) (rle new), colors',
        im\<lparr>im_bounds := calcBounds im, im_tuples := im_tuples im @ butlast (rle new)\<rparr>)"
      using v(1) by (simp add: toRLE_def Let_def split fold_map encode_rle rle_text_def)
  qed (use v in \<open>auto simp: list_all2_map1\<close>)
qed

lemma index_for_less: "palette_ok colors \<Longrightarrow> index_for colors c i \<Longrightarrow> i < length colors"
  by (auto simp: index_for_def palette_ok_def split: if_splits)

lemma index_for_zero: "palette_ok colors \<Longrightarrow> index_for colors c i \<Longrightarrow> i = 0 \<longleftrightarrow> col_a c = 0"
  by (auto simp: index_for_def palette_ok_def rgbToHex_def toPaddedHex_nat padStart_def split: if_splits)

lemma byte_bounds_calcBounds:
  assumes "0 < im_height im" and "im_height im \<le> 256" and "0 \<le> im_width im" and "im_width im \<le> 255"
  shows "byte_bounds (calcBounds im)"
  using calcBounds_ranges [OF assms(1,3)] assms by (auto simp: byte_bounds_def max_def split: if_splits)

lemma rle_indexes_bytes:
  assumes "palette_ok colors" and "length colors \<le> 256"
    and "list_all2 (\<lambda>p i. index_for colors (f p) i) ps indexes"
  shows "list_all byte_pair (rle indexes)"
proof (rule rle_byte_pair)
  show "list_all (\<lambda>v. v < 256) indexes"
    using assms(3)
  proof (induction ps indexes rule: list_all2_induct)
    case Nil
    then show ?case by simp
  next
    case (Cons p ps i ixs)
    then have "i < length colors" using index_for_less [OF assms(1)] by simp
    with Cons assms(2) show ?case by simp
  qed
qed

text \<open>C29. Round trip: for a picture at most 255 wide and 256 high whose palette stays within 256
  entries, \<open>decodeImage\<close> of the string that \<open>toRLE\<close> returns gives palette index 0, exactly
  the bounds of \<open>calcBounds\<close>, and runs whose expansion lists, row by row, for each pixel of the
  bounds the index 0 when it is fully transparent and otherwise the place of its colour in the
  palette, which has only been extended.\<close>

theorem decode_toRLE:
  assumes "palette_ok colors" and "0 < im_height im" and "im_height im \<le> 256"
    and "0 \<le> im_width im" and "im_width im \<le> 255"
    and "length (fst (snd (toRLE im colors))) \<le> 256"
  shows "\<exists>rects. decodeImage (fst (toRLE im colors)) =
      \<lparr>d_paletteIndex = Some 0, d_bounds = bounds_nums (calcBounds im), d_rects = nums rects\<rparr> \<and>
    list_all2 (\<lambda>(x, y) i. index_for (fst (snd (toRLE im colors))) (im_getRgbaAt im x y) i)
      (pixel_order (calcBounds im)) (expand rects) \<and>
    palette_ok (fst (snd (toRLE im colors))) \<and> prefix colors (fst (snd (toRLE im colors)))"
proof -
  obtain colors' indexes where r:
    "toRLE im colors =
       (rle_text (calcBounds im) (rle indexes), colors',
        im\<lparr>im_bounds := calcBounds im, im_tuples := im_tuples im @ butlast (rle indexes)\<rparr>)"
    "palette_ok colors'" "prefix colors colors'"
    "list_all2 (\<lambda>p i. index_for colors' (pixel_at im p) i) (pixel_order (calcBounds im)) indexes"
    using toRLE_result [OF assms(1)] by blast
  have "list_all byte_pair (rle indexes)"
    by (rule rle_indexes_bytes [OF r(2) _ r(4)]) (use assms(6) r(1) in simp)
  then show ?thesis
    using r byte_bounds_calcBounds [OF assms(2-5)]
    by (intro exI [where x = "rle indexes"])
      (simp add: decode_encoded [folded rle_text_def] expand_rle pixel_at_def case_prod_beta')
qed

definition demo_image :: image where
  "demo_image = new_image 2 1
     (\<lambda>x y. if x = 0 then \<lparr>col_r = 255, col_g = 16, col_b = 0, col_a = 255\<rparr>
            else \<lparr>col_r = 0, col_g = 1, col_b = 2, col_a = 0\<rparr>)"

lemma palette_ok_initial: "palette_ok [([], 0)]"
  by (simp add: palette_ok_def)

lemma demo_palette_size: "length (fst (snd (toRLE demo_image [([], 0)]))) \<le> 256"
  by code_simp

theorem decode_toRLE_witness:
  "\<exists>rects. decodeImage (fst (toRLE demo_image [([], 0)])) =
      \<lparr>d_paletteIndex = Some 0, d_bounds = bounds_nums (calcBounds demo_image), d_rects = nums rects\<rparr>"
  using decode_toRLE [OF palette_ok_initial _ _ _ _ demo_palette_size]
  by (auto simp: demo_image_def new_image_def)

lemma row_scan: "map (\<lambda>x. (x, y)) [L..R - 1] = scan L R (L, y) (nat (R - L))"
proof (rule nth_equalityI)
  fix i assume "i < length (map (\<lambda>x. (x, y)) [L..R - 1])"
  then show "map (\<lambda>x. (x, y)) [L..R - 1] ! i = scan L R (L, y) (nat (R - L)) ! i"
    by (simp add: scan_def next_pos_row)
qed simp

lemma rows_scan:
  assumes "L < R"
  shows "concat (map (\<lambda>y. map (\<lambda>x. (x, y)) [L..R - 1]) [T..T + int k - 1]) = scan L R (L, T) (k * nat (R - L)) \<and>
    (next_pos L R ^^ (k * nat (R - L))) (L, T) = (L, T + int k)"
proof (induction k)
  case 0
  then show ?case by simp
next
  case (Suc k)
  have up: "[T..T + int (Suc k) - 1] = [T..T + int k - 1] @ [T + int k]"
    using upto_rec2 [of T "T + int k"] by simp
  have n: "Suc k * nat (R - L) = k * nat (R - L) + nat (R - L)" by simp
  have "scan L R (L, T) (Suc k * nat (R - L)) =
      scan L R (L, T) (k * nat (R - L)) @ scan L R (L, T + int k) (nat (R - L))"
    unfolding n scan_add using Suc by simp
  moreover have "(next_pos L R ^^ (Suc k * nat (R - L))) (L, T) =
      (next_pos L R ^^ nat (R - L)) ((next_pos L R ^^ (k * nat (R - L))) (L, T))"
    unfolding n by (subst add.commute) (simp only: funpow_add comp_def)
  ultimately show ?case
    using Suc next_pos_wrap [OF assms, of L "T + int k"] unfolding up by (simp add: row_scan)
qed

lemma pixel_order_scan:
  assumes "b_left b < b_right b"
  shows "pixel_order b = scan (b_left b) (b_right b) (b_left b, b_top b) (length (pixel_order b))"
proof -
  define k where "k = nat (b_bottom b - b_top b + 1)"
  have "[b_top b..b_bottom b] = [b_top b..b_top b + int k - 1]"
    by (cases "b_top b \<le> b_bottom b") (simp_all add: k_def)
  then have "pixel_order b = scan (b_left b) (b_right b) (b_left b, b_top b) (k * nat (b_right b - b_left b))"
    using rows_scan [OF assms, of "b_top b" k] by (simp add: pixel_order_def)
  then show ?thesis by (metis length_scan)
qed

lemma pixel_order_empty: "b_right b \<le> b_left b \<Longrightarrow> pixel_order b = []"
  by (simp add: pixel_order_def)

lemma set_pixel_order:
  "set (pixel_order b) = {(x, y). b_left b \<le> x \<and> x < b_right b \<and> b_top b \<le> y \<and> y \<le> b_bottom b}"
  by (auto simp: pixel_order_def)

lemma distinct_rows: "distinct xs \<Longrightarrow> distinct ys \<Longrightarrow> distinct (concat (map (\<lambda>y. map (\<lambda>x. (x, y)) xs) ys))"
  by (induction ys) (auto simp: distinct_map inj_on_def)

lemma distinct_pixel_order: "distinct (pixel_order b)"
  by (simp add: pixel_order_def distinct_rows)

text \<open>The text of one stroke under an eight-digit palette; index 0 pushes nothing.\<close>

definition stroke_text :: "string list \<Rightarrow> (int \<times> int \<times> int) \<times> nat \<Rightarrow> string list" where
  "stroke_text pal = (\<lambda>((l, x, y), v).
     (case svg_rect pal (Some (int v)) (Some l) (Some x) (Some y) of Inl _ \<Rightarrow> [] | Inr out \<Rightarrow> out))"

lemma svg_rect_text:
  "v < length pal \<Longrightarrow>
     svg_rect pal (Some (int v)) (Some l) (Some x) (Some y) = Inr (stroke_text pal ((l, x, y), v))"
  by (simp add: stroke_text_def svg_rect_def palette_at_def Let_def)

lemma stroke_text_0 [simp]: "stroke_text pal (p, 0) = []"
  by (cases p) (simp add: stroke_text_def svg_rect_def)

lemma stroke_text_color:
  "0 < v \<Longrightarrow> v < length pal \<Longrightarrow> substring_from (pal ! v) 6 = ''ff'' \<Longrightarrow>
     stroke_text pal ((l, x, y), v) =
       [''<rect width=\"'' @ int_to_base 10 (4 * l) @ ''\" height=\"4\" x=\"'' @ int_to_base 10 (4 * x) @
        ''\" y=\"'' @ int_to_base 10 (4 * y) @ ''\" fill=\"#'' @ substring (pal ! v) 0 6 @ ''\" />'']"
  by (simp add: stroke_text_def svg_rect_def palette_at_def Let_def times4_def n_show_def)

text \<open>The strokes of a run list are drawn in order.\<close>

lemma draw_part_strokes:
  assumes "decodeImage s = \<lparr>d_paletteIndex = i, d_bounds = bounds_nums b, d_rects = nums rects\<rparr>"
    and "list_all (\<lambda>(n, v). v < length pal) rects"
  shows "draw_part (svg_rect pal) s =
    Some (Inr (concat (map (stroke_text pal) (strokes (b_left b) (b_right b) (b_left b) (b_top b) rects))))"
proof -
  have "v < length pal" if "(n, v) \<in> set rects" for n v
    using assms(2) that by (auto simp: list_all_iff)
  then show ?thesis
    unfolding draw_part_def Let_def assms(1) decoded_image.select_convs bounds_nums_def decoded_bounds.select_convs
    by (subst draw_all_strokes [where f = "stroke_text pal"]) (auto intro: svg_rect_text)
qed

lemma concat_map_filter_text:
  "concat (concat (map (stroke_text pal) ss)) = concat (concat (map (stroke_text pal) (filter (\<lambda>s. snd s \<noteq> 0) ss)))"
  by (induction ss) (auto split: prod.splits)

lemma filter_cells:
  "concat (map stroke_cells (filter (\<lambda>s. snd s \<noteq> 0) ss)) = filter (\<lambda>c. snd c \<noteq> 0) (concat (map stroke_cells ss))"
  by (induction ss) (auto simp: stroke_cells_def filter_map comp_def)

lemma draw_toRLE:
  assumes "palette_ok colors" and "0 < im_height im" and "im_height im \<le> 256"
    and "0 \<le> im_width im" and "im_width im \<le> 255"
    and size: "length (fst (snd (toRLE im colors))) \<le> 256" "length (fst (snd (toRLE im colors))) \<le> length pal"
  defines "colors' \<equiv> fst (snd (toRLE im colors))" and "b \<equiv> calcBounds im"
  obtains ss where "draw_part (svg_rect pal) (fst (toRLE im colors)) = Some (Inr (concat (map (stroke_text pal) ss)))"
    "map fst (concat (map stroke_cells ss)) = filter (\<lambda>p. col_a (pixel_at im p) \<noteq> 0) (pixel_order b)"
    "\<And>p v. (p, v) \<in> set (concat (map stroke_cells ss)) \<Longrightarrow> v < length colors' \<and>
       fst (colors' ! v) = rgbToHex (col_r (pixel_at im p)) (col_g (pixel_at im p)) (col_b (pixel_at im p))"
proof -
  obtain indexes where r: "fst (toRLE im colors) = rle_text b (rle indexes)" "palette_ok colors'"
    "list_all2 (\<lambda>p i. index_for colors' (pixel_at im p) i) (pixel_order b) indexes"
    using toRLE_result [OF assms(1), of im] by (metis b_def colors'_def fst_conv snd_conv)
  let ?ss = "strokes (b_left b) (b_right b) (b_left b) (b_top b) (rle indexes)"
  have idx: "length indexes = length (pixel_order b)"
    "\<And>k. k < length indexes \<Longrightarrow> index_for colors' (pixel_at im (pixel_order b ! k)) (indexes ! k)"
    using r(3) by (simp_all add: list_all2_conv_all_nth)
  have cells: "concat (map stroke_cells ?ss) = zip (pixel_order b) indexes"
  proof (cases "b_left b < b_right b")
    case True
    have "concat (map stroke_cells ?ss) =
        zip (scan (b_left b) (b_right b) (b_left b, b_top b) (length indexes)) indexes"
      by (simp only: strokes_scan [OF True True] expand_rle)
    then show ?thesis using pixel_order_scan [OF True] idx(1) by simp
  next
    case False
    then have "indexes = []" "pixel_order b = []" using idx(1) by (simp_all add: pixel_order_empty)
    then show ?thesis by (simp add: rle_def)
  qed
  let ?nz = "filter (\<lambda>s. snd s \<noteq> 0) ?ss"
  have "v < length pal" if rl: "(n, v) \<in> set (rle indexes)" for n v
  proof -
    obtain k where "k < length indexes" "v = indexes ! k"
      using rle_values [OF rl] by (metis in_set_conv_nth)
    then have "v < length colors'" using idx(2) [of k] index_for_less [OF r(2)] by simp
    then show ?thesis using size(2) by (simp add: colors'_def)
  qed
  then have in_pal: "list_all (\<lambda>(n, v). v < length pal) (rle indexes)"
    by (auto simp: list_all_iff)
  have bytes: "list_all byte_pair (rle indexes)"
    by (rule rle_indexes_bytes [OF r(2) _ r(3)]) (use size(1) colors'_def in simp)
  have "byte_bounds b" unfolding b_def by (rule byte_bounds_calcBounds [OF assms(2-5)])
  note d = draw_part_strokes [OF decode_encoded [folded rle_text_def, OF this bytes] in_pal, folded r(1)]
  have nz: "concat (map (stroke_text pal) ss) = concat (map (stroke_text pal) (filter (\<lambda>s. snd s \<noteq> 0) ss))" for ss
    by (induction ss) auto
  have cells_nz: "concat (map stroke_cells ?nz) = filter (\<lambda>c. snd c \<noteq> 0) (zip (pixel_order b) indexes)"
    by (simp only: filter_cells cells)
  have zip_fst: "map fst (filter (\<lambda>c. snd c \<noteq> (0::nat)) (zip ps is)) = filter (\<lambda>p. col_a (pixel_at im p) \<noteq> 0) ps"
    if "list_all2 (\<lambda>p i. i = 0 \<longleftrightarrow> col_a (pixel_at im p) = 0) ps is" for ps "is"
    using that by (induction rule: list_all2_induct) auto
  show ?thesis
  proof (rule that [of ?nz])
    show "draw_part (svg_rect pal) (fst (toRLE im colors)) = Some (Inr (concat (map (stroke_text pal) ?nz)))"
      using d nz [of ?ss] by simp
    show "map fst (concat (map stroke_cells ?nz)) = filter (\<lambda>p. col_a (pixel_at im p) \<noteq> 0) (pixel_order b)"
      unfolding cells_nz
      by (rule zip_fst) (use r(3) index_for_zero [OF r(2)] in \<open>simp add: list_all2_conv_all_nth\<close>)
    show "v < length colors' \<and>
       fst (colors' ! v) = rgbToHex (col_r (pixel_at im p)) (col_g (pixel_at im p)) (col_b (pixel_at im p))"
      if "(p, v) \<in> set (concat (map stroke_cells ?nz))" for p v
    proof -
      from that obtain k where "k < length indexes" "p = pixel_order b ! k" "v = indexes ! k" "v \<noteq> 0"
        unfolding cells_nz by (auto simp: set_zip)
      then show ?thesis
        using idx(2) [of k] index_for_zero [OF r(2), of "pixel_at im p" v] by (auto simp: index_for_def)
    qed
  qed
qed



section \<open>Which inputs \<open>buildSVG\<close> returns on\<close>

lemma draw_loop_terminates:
  "len = getRectLength x (Some n) right \<Longrightarrow> draw_loop emit left right x y (Some n) len acc \<noteq> None"
proof (induction "nat n" arbitrary: n x y len acc rule: less_induct)
  case less
  show ?case
  proof (cases "n_pos len")
    case False
    then show ?thesis by (simp add: draw_loop_stop)
  next
    case True
    then obtain l where l: "len = Some l" "0 < l" "l \<le> n"
      using less.prems
      by (auto simp: getRectLength_def Let_def n_le_def n_sub_def n_pos_def split: option.splits if_splits)
    let ?x = "if n_eq (n_add x len) right then left else n_add x len"
    let ?y = "if n_eq (n_add x len) right then n_add y (Some 1) else y"
    have "draw_loop emit left right ?x ?y (n_sub (Some n) len) (getRectLength ?x (n_sub (Some n) len) right) acc' \<noteq> None"
      for acc'
      using l less.hyps [of "n - l" "getRectLength ?x (Some (n - l)) right" ?x ?y acc'] by simp
    then show ?thesis
      by (subst draw_loop.simps, unfold if_P [OF True]) (cases "emit len x y"; simp only: sum.case option.distinct; simp)
  qed
qed

lemma draw_all_terminates:
  "list_all (\<lambda>(n, v). n \<noteq> None) rects \<Longrightarrow> draw_all emit left right rects x y acc \<noteq> None"
proof (induction rects arbitrary: x y acc)
  case (Cons r rects)
  obtain n v where r: "r = (n, v)" by (cases r)
  with Cons.prems obtain k where "n = Some k" by auto
  with draw_loop_terminates [OF refl, of "emit v" left right x y k acc] Cons r
  show ?case by (auto split: option.splits sum.splits)
qed simp

text \<open>Termination: \<open>buildSVG\<close> returns, with a string or with an exception, whenever every
  run of every part has a numeric length, whatever the bounds, the colour indexes and the palette
  are.\<close>

lemma buildSVG_terminates:
  assumes "\<forall>part \<in> set parts. list_all (\<lambda>(n, v). n \<noteq> None) (d_rects (decodeImage part))"
  shows "\<exists>r. buildSVG parts paletteColors = Some r"
proof -
  have part: "draw_part (svg_rect paletteColors) part \<noteq> None" if "part \<in> set parts" for part
    unfolding draw_part_def Let_def by (rule draw_all_terminates) (use assms that in simp)
  have "reduce_parts paletteColors res ps \<noteq> None" if "set ps \<subseteq> set parts" for res ps
    using that
  proof (induction ps arbitrary: res)
    case (Cons p ps)
    then show ?case using part [of p] by (auto split: option.splits sum.splits)
  qed simp
  then show ?thesis by (auto simp: buildSVG_def split: option.splits sum.splits)
qed

definition nan_loop ::
  "(num_js \<Rightarrow> num_js \<Rightarrow> num_js \<Rightarrow> 'a list result) \<Rightarrow> num_js \<Rightarrow> num_js \<Rightarrow> num_js \<Rightarrow> num_js \<Rightarrow>
     num_js \<Rightarrow> bool" where
  "nan_loop emit left right x d len \<longleftrightarrow>
     d = None \<and> (\<forall>l x y. isl (emit l x y) = False) \<and>
     (\<exists>L R x0. left = Some L \<and> right = Some R \<and> L < R \<and> x = Some x0 \<and> x0 < R \<and> len = Some (R - x0))"

lemma draw_loop_nan:
  fixes emit :: "num_js \<Rightarrow> num_js \<Rightarrow> num_js \<Rightarrow> 'a list result"
  assumes "draw_loop emit left right x y d len acc = Some r"
  shows "\<not> nan_loop emit left right x d len"
  using assms
proof (rule draw_loop.raw_induct [rotated, where P = "\<lambda>emit left right x y d len acc r. \<not> nan_loop emit left right x d len"])
  fix rec :: "(num_js \<Rightarrow> num_js \<Rightarrow> num_js \<Rightarrow> 'a list result) \<Rightarrow> num_js \<Rightarrow> num_js \<Rightarrow> num_js \<Rightarrow> num_js \<Rightarrow>
    num_js \<Rightarrow> num_js \<Rightarrow> 'a list \<Rightarrow> (num_js \<times> num_js \<times> 'a list) result option"
  fix emit :: "num_js \<Rightarrow> num_js \<Rightarrow> num_js \<Rightarrow> 'a list result"
  fix left right x y d len acc r
  assume rec: "\<And>emit left right x y d len acc r. rec emit left right x y d len acc = Some r \<Longrightarrow>
      \<not> nan_loop emit left right x d len"
  assume body: "(if n_pos len
      then case emit len x y of Inl e \<Rightarrow> Some (Inl e)
           | Inr new \<Rightarrow>
               rec emit left right
                (if n_eq (n_add x len) right then left else n_add x len)
                (if n_eq (n_add x len) right then n_add y (Some 1) else y)
                (n_sub d len)
                (getRectLength (if n_eq (n_add x len) right then left else n_add x len) (n_sub d len) right)
                (acc @ new)
      else Some (Inr (x, y, acc))) = Some r"
  show "\<not> nan_loop emit left right x d len"
  proof
    assume a: "nan_loop emit left right x d len"
    then obtain L R x0 where b: "left = Some L" "right = Some R" "L < R" "x = Some x0" "x0 < R"
      "len = Some (R - x0)" "d = None" by (auto simp: nan_loop_def)
    from a obtain new where c: "emit len x y = Inr new"
      by (cases "emit len x y") (simp add: nan_loop_def, metis sum.disc(1))
    with b body have "rec emit left right left (n_add y (Some 1)) None (Some (R - L)) (acc @ new) = Some r"
      by (simp add: getRectLength_def)
    from rec [OF this] a b show False by (auto simp: nan_loop_def)
  qed
qed

text \<open>A run whose length is not a number makes \<open>buildSVG\<close> run for ever: when the bounds of
  the first part are not empty and the colour index of its first run is transparent, no
  result and no exception is ever returned. (\<open>None\<close> is the value of a call that does not
  return.)\<close>

lemma buildSVG_diverges:
  assumes "d_rects (decodeImage part) = (None, Some 0) # rects"
    and "d_left (d_bounds (decodeImage part)) = Some L" and "d_right (d_bounds (decodeImage part)) = Some R"
    and "L < R"
  shows "buildSVG (part # parts) paletteColors = None"
proof -
  have emit: "svg_rect paletteColors (Some 0) l x y = Inr []" for l x y by (simp add: svg_rect_def)
  have "draw_loop (svg_rect paletteColors (Some 0)) (Some L) (Some R) (Some L) y None (Some (R - L)) acc = None" for y acc
    using draw_loop_nan [of "svg_rect paletteColors (Some 0)" "Some L" "Some R" "Some L" y None "Some (R - L)" acc]
      assms(4) by (cases "draw_loop (svg_rect paletteColors (Some 0)) (Some L) (Some R) (Some L) y None (Some (R - L)) acc") (auto simp: nan_loop_def emit)
  then show ?thesis using assms by (simp add: buildSVG_def draw_part_def Let_def getRectLength_def)
qed

end
