(* ===== verification/Sdk_Encoder.thy ===== *)
theory Sdk_Encoder
  imports Sdk_Svg
begin

text \<open>
  \<open>packages/punks-sdk/src/image/png-collection-encoder.ts\<close>: the class
  \<open>PNGCollectionEncoder\<close>, whose palette is shared by all the images it encodes. Folders are
  kept in the order of their first image, which is the order of \<open>Object.entries\<close> for folder
  names that are not integers. Writing the JSON file is not modelled.
  The lemmas show that an image encoded early still decodes to its own pixels under the palette the
  encoder ends with, that a palette read from the encoder can be given back to a new one, and what
  \<open>buildSVG\<close> makes of the six-digit colours of an encoder palette.
\<close>

record encoder =
  ec_colors :: palette
  ec_images :: "(string, string) omap"
  ec_folders :: "(string, string list) omap"

record encoded_image =
  ei_filename :: string
  ei_data :: "string option"

record image_data =
  id_palette :: "string list"
  id_images :: "(string, encoded_image list) omap"

fun set_indexed :: "nat \<Rightarrow> string list \<Rightarrow> palette \<Rightarrow> palette" where
  "set_indexed i [] m = m"
| "set_indexed i (c # cs) m = set_indexed (i + 1) cs (omap_set c i m)"

definition new_encoder :: "string list option \<Rightarrow> encoder" where
  "new_encoder colors =
     \<lparr>ec_colors = (case colors of None \<Rightarrow> [([], 0)] | Some cs \<Rightarrow> set_indexed 0 cs [([], 0)]),
      ec_images = [], ec_folders = []\<rparr>"

text \<open>A folder argument counts when it is a non-empty string; \<open>||=\<close> creates its list.\<close>

definition encodeImage :: "encoder \<Rightarrow> string \<Rightarrow> png_image \<Rightarrow> string option \<Rightarrow> encoder \<times> string" where
  "encodeImage enc name png folder =
     (let im = new_image (png_width png) (png_height png) (png_rgbaAt png);
          (rle, colors', _) = toRLE im (ec_colors enc);
          enc1 = enc\<lparr>ec_colors := colors', ec_images := omap_set name rle (ec_images enc)\<rparr>
      in case folder of
           None \<Rightarrow> (enc1, rle)
         | Some f \<Rightarrow>
             if f = [] then (enc1, rle)
             else (let old = (case map_of (ec_folders enc1) f of None \<Rightarrow> [] | Some names \<Rightarrow> names)
                   in (enc1\<lparr>ec_folders := omap_set f (old @ [name]) (ec_folders enc1)\<rparr>, rle)))"

fun folder_files ::
  "string list \<Rightarrow> (string, string) omap \<Rightarrow> encoded_image list \<times> (string, string) omap" where
  "folder_files [] images = ([], images)"
| "folder_files (filename # filenames) images =
     (let entry = \<lparr>ei_filename = filename, ei_data = map_of images filename\<rparr>;
          (rest, images') = folder_files filenames (AList.delete filename images)
      in (entry # rest, images'))"

fun all_folders ::
  "(string, string list) omap \<Rightarrow> (string, encoded_image list) omap \<Rightarrow> (string, string) omap \<Rightarrow>
     (string, encoded_image list) omap \<times> (string, string) omap" where
  "all_folders [] result images = (result, images)"
| "all_folders ((folder, filenames) # folders) result images =
     (let (files, images') = folder_files filenames images
      in all_folders folders (omap_set folder files result) images')"

definition format :: "encoder \<Rightarrow> bool \<Rightarrow> (string, encoded_image list) omap" where
  "format enc flatten =
     (let images = ec_images enc;
          (data, images') = (if \<not> flatten \<and> ec_folders enc \<noteq> []
                             then all_folders (ec_folders enc) [] images else ([], images))
      in if images' \<noteq> []
         then omap_set ''root''
                (map (\<lambda>(filename, data). \<lparr>ei_filename = filename, ei_data = Some data\<rparr>) images') data
         else data)"

definition encoder_images :: "encoder \<Rightarrow> encoded_image list option" where
  "encoder_images enc = map_of (format enc True) ''root''"

definition encoder_data :: "encoder \<Rightarrow> image_data" where
  "encoder_data enc = \<lparr>id_palette = omap_keys (ec_colors enc), id_images = format enc False\<rparr>"

section \<open>Encoding a collection\<close>

fun encode_collection ::
  "encoder \<Rightarrow> (string \<times> png_image \<times> string option) list \<Rightarrow> encoder \<times> string list" where
  "encode_collection enc [] = (enc, [])"
| "encode_collection enc ((name, png, folder) # rest) =
     (let (enc1, rle) = encodeImage enc name png folder;
          (enc2, rles) = encode_collection enc1 rest
      in (enc2, rle # rles))"

definition png_image_of :: "png_image \<Rightarrow> image" where
  "png_image_of png = new_image (png_width png) (png_height png) (png_rgbaAt png)"

definition png_ok :: "png_image \<Rightarrow> bool" where
  "png_ok png \<longleftrightarrow> 0 < png_height png \<and> png_height png \<le> 256 \<and> 0 \<le> png_width png \<and> png_width png \<le> 255"

text \<open>The string decodes, and its runs give each pixel its index under \<open>colors\<close>.\<close>

definition decodes_to :: "palette \<Rightarrow> png_image \<Rightarrow> string \<Rightarrow> bool" where
  "decodes_to colors png s \<longleftrightarrow>
     (\<exists>rects. decodeImage s =
        \<lparr>d_paletteIndex = Some 0, d_bounds = bounds_nums (calcBounds (png_image_of png)), d_rects = nums rects\<rparr> \<and>
      list_all2 (\<lambda>(x, y) i. index_for colors (png_rgbaAt png x y) i)
        (pixel_order (calcBounds (png_image_of png))) (expand rects))"

lemma encodeImage_effect:
  "fst (snd (toRLE (png_image_of png) (ec_colors enc))) = ec_colors (fst (encodeImage enc name png folder)) \<and>
   fst (toRLE (png_image_of png) (ec_colors enc)) = snd (encodeImage enc name png folder) \<and>
   ec_images (fst (encodeImage enc name png folder)) =
     omap_set name (snd (encodeImage enc name png folder)) (ec_images enc)"
  by (simp add: encodeImage_def png_image_of_def Let_def split: prod.splits option.splits)

lemma encodeImage_decodes:
  assumes "palette_ok (ec_colors enc)" and "png_ok png"
    and "prefix (ec_colors (fst (encodeImage enc name png folder))) final" and "length final \<le> 256"
  shows "decodes_to final png (snd (encodeImage enc name png folder))"
proof -
  let ?im = "png_image_of png"
  have dims: "0 < im_height ?im" "im_height ?im \<le> 256" "0 \<le> im_width ?im" "im_width ?im \<le> 255"
    using assms(2) by (simp_all add: png_image_of_def new_image_def png_ok_def)
  obtain colors' indexes where r:
    "toRLE ?im (ec_colors enc) =
       (rle_text (calcBounds ?im) (rle indexes), colors',
        ?im\<lparr>im_bounds := calcBounds ?im, im_tuples := im_tuples ?im @ butlast (rle indexes)\<rparr>)"
    "palette_ok colors'" "prefix (ec_colors enc) colors'"
    "list_all2 (\<lambda>p i. index_for colors' (pixel_at ?im p) i) (pixel_order (calcBounds ?im)) indexes"
    using toRLE_result [OF assms(1)] by blast
  have pre: "prefix colors' final" and s: "snd (encodeImage enc name png folder) = rle_text (calcBounds ?im) (rle indexes)"
    using encodeImage_effect [of png enc name folder] r(1) assms(3) by simp_all
  have "length colors' \<le> 256" using pre assms(4) by (meson le_trans prefix_length_le)
  then have bytes: "list_all byte_pair (rle indexes)" by (rule rle_indexes_bytes [OF r(2) _ r(4)])
  have "list_all2 (\<lambda>p i. index_for final (pixel_at ?im p) i) (pixel_order (calcBounds ?im)) indexes"
    using r(4) by (rule list_all2_mono) (rule index_for_prefix [OF _ pre])
  then show ?thesis
    unfolding decodes_to_def s
    using decode_encoded [folded rle_text_def, OF byte_bounds_calcBounds [OF dims] bytes]
    by (intro exI [where x = "rle indexes"])
      (simp add: expand_rle pixel_at_def case_prod_beta' png_image_of_def new_image_def)
qed

lemma encodeImage_palette:
  assumes "palette_ok (ec_colors enc)"
  shows "palette_ok (ec_colors (fst (encodeImage enc name png folder))) \<and>
    prefix (ec_colors enc) (ec_colors (fst (encodeImage enc name png folder)))"
  using toRLE_result [OF assms, of "png_image_of png"] encodeImage_effect [of png enc name folder]
  by (metis fst_conv snd_conv)

lemma encode_collection_palette:
  "palette_ok (ec_colors enc) \<Longrightarrow>
     palette_ok (ec_colors (fst (encode_collection enc items))) \<and>
     prefix (ec_colors enc) (ec_colors (fst (encode_collection enc items)))"
proof (induction enc items rule: encode_collection.induct)
  case (2 enc name png folder rest)
  from encodeImage_palette [OF 2(2), of name png folder] 2(1) [OF _ refl]
  show ?case by (fastforce simp: Let_def split: prod.splits intro: prefix_order.trans)
qed simp

lemma encode_collection_decodes:
  assumes "palette_ok (ec_colors enc)" and "\<forall>(name, png, folder) \<in> set items. png_ok png"
    and "prefix (ec_colors (fst (encode_collection enc items))) final" and "length final \<le> 256"
  shows "list_all2 (\<lambda>(name, png, folder) s. decodes_to final png s) items (snd (encode_collection enc items))"
  using assms
proof (induction enc items rule: encode_collection.induct)
  case (2 enc name png folder rest)
  let ?enc1 = "fst (encodeImage enc name png folder)"
  have ok: "palette_ok (ec_colors ?enc1)" using encodeImage_palette [OF 2(2)] by blast
  have rest: "prefix (ec_colors (fst (encode_collection ?enc1 rest))) final"
    using 2(4) by (simp add: Let_def split: prod.splits)
  then have pre: "prefix (ec_colors ?enc1) final"
    using encode_collection_palette [OF ok, of rest] by (blast intro: prefix_order.trans)
  have "decodes_to final png (snd (encodeImage enc name png folder))"
    by (rule encodeImage_decodes [OF 2(2) _ pre 2(5)]) (use 2(3) in auto)
  moreover have "list_all2 (\<lambda>(name, png, folder) s. decodes_to final png s) rest
      (snd (encode_collection ?enc1 rest))"
    by (rule 2(1) [OF prod.collapse refl ok _ rest 2(5)]) (use 2(3) in auto)
  ultimately show ?case by (auto simp: Let_def split: prod.splits)
qed simp

text \<open>One palette for a whole collection: encode any sequence of pictures (each at most 255 by
  256) with a new encoder; if the palette it ends with has at most 256 entries, every string it
  returned on the way decodes to its own picture under that final palette.\<close>

lemma encode_collection_final_palette:
  assumes "\<forall>(name, png, folder) \<in> set items. png_ok png"
    and "length (ec_colors (fst (encode_collection (new_encoder None) items))) \<le> 256"
  shows "list_all2 (\<lambda>(name, png, folder) s.
      decodes_to (ec_colors (fst (encode_collection (new_encoder None) items))) png s)
    items (snd (encode_collection (new_encoder None) items))"
  by (rule encode_collection_decodes [OF _ assms(1) prefix_order.refl assms(2)])
    (simp add: new_encoder_def palette_ok_initial)

definition demo_png :: "nat \<Rightarrow> png_image" where
  "demo_png r = \<lparr>png_width = 2, png_height = 1,
     png_rgbaAt = (\<lambda>x y. \<lparr>col_r = r, col_g = 0, col_b = 0, col_a = if x = 0 then 255 else 0\<rparr>)\<rparr>"

section \<open>Giving a palette back\<close>

lemma set_indexed_fresh:
  "distinct cs \<Longrightarrow> set cs \<inter> fst ` set m = {} \<Longrightarrow> set_indexed i cs m = m @ zip cs [i..<i + length cs]"
proof (induction cs arbitrary: i m)
  case (Cons c cs)
  have "omap_set c i m = m @ [(c, i)]" using Cons.prems by (intro omap_set_fresh) auto
  moreover have "[i..<i + length (c # cs)] = i # [i + 1..<i + 1 + length cs]"
    using upt_conv_Cons [of i "i + length (c # cs)"] by (simp del: upt_Suc)
  ultimately show ?case using Cons.IH [of "m @ [(c, i)]" "i + 1"] Cons.prems by auto
qed simp

text \<open>Pre-populating: giving the palette that one encoder reports (\<open>data.palette\<close>) to the
  constructor of another makes the same palette, entry for entry.\<close>

lemma palette_restored:
  assumes "palette_ok (ec_colors enc)"
  shows "ec_colors (new_encoder (Some (id_palette (encoder_data enc)))) = ec_colors enc"
proof -
  obtain rest where rest: "ec_colors enc = ([], 0) # rest" and d: "distinct (omap_keys (ec_colors enc))"
    and idx: "map snd (ec_colors enc) = [0..<length (ec_colors enc)]"
    using assms by (auto simp: palette_ok_def)
  have "set_indexed 0 (omap_keys (ec_colors enc)) [([], 0)] = set_indexed 1 (omap_keys rest) [([], 0)]"
    by (simp add: rest)
  also have "\<dots> = ([], 0) # zip (omap_keys rest) [1..<1 + length rest]"
    using d by (subst set_indexed_fresh) (auto simp: rest)
  also have "[1..<1 + length rest] = map snd rest"
  proof -
    have "[0..<Suc (length rest)] = 0 # [1..<Suc (length rest)]"
      by (simp only: upt_conv_Cons zero_less_Suc One_nat_def)
    with idx rest show ?thesis by simp
  qed
  also have "zip (omap_keys rest) (map snd rest) = rest" by (rule zip_map_fst_snd)
  finally show ?thesis by (simp add: new_encoder_def encoder_data_def rest)
qed

section \<open>The palette of the encoder and the palette of \<open>buildSVG\<close>\<close>

lemma rgbToHex_length:
  "r < 256 \<Longrightarrow> g < 256 \<Longrightarrow> b < 256 \<Longrightarrow> length (rgbToHex r g b) = 6"
  by (simp add: rgbToHex_def length_toPaddedHex)

text \<open>The two halves of the SDK do not fit: every colour that an encoder adds to its palette has
  six digits, and under such an entry \<open>buildSVG\<close>, which reads the opacity from the digits after
  the sixth, writes the attribute \<open>opacity="0.NaN"\<close> into every rectangle.\<close>

theorem encoder_palette_opacity:
  assumes "0 < v" and "v < length pal" and "pal ! v = rgbToHex r g b" and "r < 256" and "g < 256" and "b < 256"
  shows "stroke_text pal ((l, x, y), v) =
    [''<rect width=\"'' @ int_to_base 10 (4 * l) @ ''\" height=\"4\" x=\"'' @ int_to_base 10 (4 * x) @
     ''\" y=\"'' @ int_to_base 10 (4 * y) @ ''\" fill=\"#'' @ rgbToHex r g b @ ''\" opacity=\"0.NaN\" />'']"
  using assms rgbToHex_length [OF assms(4-6)]
  by (simp add: stroke_text_def svg_rect_def palette_at_def Let_def times4_def n_show_def substring_def
      substring_from_def parseInt_def trim_left_def split_sign_def strip_0x_def)

theorem encoder_palette_opacity_witness:
  "stroke_text [[], rgbToHex 1 2 3] ((1, 0, 0), 1) =
    [''<rect width=\"4\" height=\"4\" x=\"0\" y=\"0\" fill=\"#010203\" opacity=\"0.NaN\" />'']"
proof -
  have whole: "stroke_text [[], rgbToHex 1 2 3] ((1, 0, 0), 1) =
    [''<rect width=\"'' @ int_to_base 10 (4 * 1) @ ''\" height=\"4\" x=\"'' @ int_to_base 10 (4 * 0) @
     ''\" y=\"'' @ int_to_base 10 (4 * 0) @ ''\" fill=\"#'' @ rgbToHex 1 2 3 @ ''\" opacity=\"0.NaN\" />'']"
    by (rule encoder_palette_opacity) simp_all
  have digits: "int_to_base 10 (4 * 1) = ''4''" "int_to_base 10 (4 * 0) = ''0''" "rgbToHex 1 2 3 = ''010203''"
    by code_simp+
  from whole show ?thesis unfolding digits by simp
qed

end
