(* ===== verification/Tasks_Seeder.thy ===== *)
theory Tasks_Seeder
  imports Assets "HOL-Library.Word"
begin

unbundle bit_operations_syntax

text \<open>
  \<open>packages/punks-contracts/tasks/populate-seeder.ts\<close>: the numbers the task sends to the seeder
  contract, computed from the probability document, and the checks it makes on the way. The task is
  the list of the transactions it sends, in order, with the error that stopped it, if any. Fees,
  receipts and console output are left out. Bit masks are \<open>32 word\<close>, the width of the shift and
  of the bitwise or of JavaScript.
\<close>

record accessory_item =
  ai_type :: string
  ai_punk :: string
  ai_weight :: int

record seeder_prob =
  sp_probability :: rat
  sp_skin :: "rat list"
  sp_accessory_count_probabbilities :: "rat list"
  sp_accessories :: "string list"

record seeder_doc =
  so_types :: "string list"
  so_acc_types :: "string list"
  so_exclusive_groups :: "string list list"
  so_probabilities :: "(string, seeder_prob) omap"
  so_accessories :: "(string, accessory_item) omap"

datatype seeder_tx =
    SetTypeProbability "int list"
  | SetSkinProbability nat "int list"
  | SetAccCountProbability nat "int list"
  | SetAccIdByType "nat list list list" "int list list list"
  | SetAccExclusion "32 word list"

definition shortPunkType :: "string \<Rightarrow> char option" where
  "shortPunkType t =
     map_of [(''male'', CHR ''m''), (''female'', CHR ''f''), (''alien'', CHR ''l''), (''ape'', CHR ''p''),
             (''zombie'', CHR ''z'')] t"

definition thousandths :: "rat \<Rightarrow> int" where
  "thousandths v = \<lfloor>v * 1000\<rfloor>"

definition fits :: "string \<Rightarrow> accessory_item \<Rightarrow> bool" where
  "fits punkType item \<longleftrightarrow> (case shortPunkType punkType of None \<Rightarrow> False | Some c \<Rightarrow> c \<in> set (ai_punk item))"

definition items_of :: "seeder_doc \<Rightarrow> string \<Rightarrow> accessory_item list" where
  "items_of doc ty = filter (\<lambda>item. ai_type item = ty) (map snd (so_accessories doc))"

definition accCountPerType :: "seeder_doc \<Rightarrow> nat list list" where
  "accCountPerType doc =
     map (\<lambda>punkType. map (\<lambda>ty. length (filter (fits punkType) (items_of doc ty))) (so_acc_types doc)) (so_types doc)"

definition accIdPerType :: "seeder_doc \<Rightarrow> nat list list list" where
  "accIdPerType doc =
     map (\<lambda>punkType. map (\<lambda>ty.
       map snd (filter (\<lambda>(item, idx). fits punkType item) (zip (items_of doc ty) [0..<length (items_of doc ty)])))
         (so_acc_types doc)) (so_types doc)"

definition accWeightPerType :: "seeder_doc \<Rightarrow> int list list list" where
  "accWeightPerType doc =
     map (\<lambda>punkType. map (\<lambda>ty. map ai_weight (filter (fits punkType) (items_of doc ty))) (so_acc_types doc)) (so_types doc)"

text \<open>The check: every accessory type listed for a punk type has a design, and every one with a
  design is listed. A \<open>for ... in\<close> over \<open>undefined\<close> has no iterations.\<close>

definition check_available :: "seeder_doc \<Rightarrow> nat list option \<Rightarrow> string \<Rightarrow> string \<Rightarrow> unit result" where
  "check_available doc counts punkType acc =
     (let typeIndex = js_findIndex (\<lambda>k. k = acc) (so_acc_types doc)
      in if typeIndex < 0
         then Inl (ErrorMsg (''Unknown type found in type availability - '' @ punkType @ '' '' @ acc))
         else case counts of
                None \<Rightarrow> Inl TypeError
              | Some ns \<Rightarrow>
                  if js_nth ns typeIndex = Some 0
                  then Inl (ErrorMsg (''Zero count of an available accessory - '' @ punkType @ '' '' @ acc))
                  else Inr ())"

definition check_unavailable :: "seeder_doc \<Rightarrow> string \<Rightarrow> string list \<Rightarrow> nat \<times> nat \<Rightarrow> unit result" where
  "check_unavailable doc punkType listed = (\<lambda>(typeIndex, count).
     if count > 0 \<and> so_acc_types doc ! typeIndex \<notin> set listed
     then Inl (ErrorMsg (''Non zero count of an unavailable accessory - '' @ punkType @ '' '' @ so_acc_types doc ! typeIndex))
     else Inr ())"

definition check_punk_type :: "seeder_doc \<Rightarrow> string \<times> seeder_prob \<Rightarrow> unit result" where
  "check_punk_type doc = (\<lambda>(punkType, probObj).
     let punkTypeIndex = js_findIndex (\<lambda>t. t = punkType) (so_types doc);
         counts = js_nth (accCountPerType doc) punkTypeIndex
     in rbind (rmap_list (check_available doc counts punkType) (sp_accessories probObj)) (\<lambda>_.
        rbind (rmap_list (check_unavailable doc punkType (sp_accessories probObj))
                 (case counts of None \<Rightarrow> [] | Some ns \<Rightarrow> zip [0..<length ns] ns)) (\<lambda>_. Inr ())))"

definition check_doc :: "seeder_doc \<Rightarrow> unit result" where
  "check_doc doc = rbind (rmap_list (check_punk_type doc) (so_probabilities doc)) (\<lambda>_. Inr ())"

section \<open>Exclusion masks\<close>

text \<open>\<open>1 << i\<close> takes the shift distance modulo 32.\<close>

definition one_shl :: "nat \<Rightarrow> 32 word" where
  "one_shl i = push_bit (i mod 32) 1"

definition exclusion_index :: "seeder_doc \<Rightarrow> string \<Rightarrow> nat result" where
  "exclusion_index doc ty =
     (case find_index (\<lambda>k. k = ty) (so_acc_types doc) of
        None \<Rightarrow> Inl (ErrorMsg (''Unknown type found in exclusive groups - '' @ ty))
      | Some i \<Rightarrow> Inr i)"

definition add_group :: "nat list \<Rightarrow> 32 word list \<Rightarrow> 32 word list" where
  "add_group grp excl =
     (let groupExclusion = fold (\<lambda>i m. m OR one_shl i) grp 0
      in fold (\<lambda>i ex. ex[i := ex ! i OR groupExclusion]) grp excl)"

fun exclusion_loop :: "seeder_doc \<Rightarrow> string list list \<Rightarrow> 32 word list \<Rightarrow> 32 word list result" where
  "exclusion_loop doc [] excl = Inr excl"
| "exclusion_loop doc (grp # groups) excl =
     rbind (rmap_list (exclusion_index doc) grp) (\<lambda>ixs. exclusion_loop doc groups (add_group ixs excl))"

definition accExclusion :: "seeder_doc \<Rightarrow> 32 word list result" where
  "accExclusion doc =
     exclusion_loop doc (so_exclusive_groups doc) (map one_shl [0..<length (so_acc_types doc)])"

section \<open>The task\<close>

definition populate_seeder :: "seeder_doc \<Rightarrow> seeder_tx list \<times> js_error option" where
  "populate_seeder doc =
     (let probs = so_probabilities doc;
          sent = [SetTypeProbability (map (\<lambda>(_, p). thousandths (sp_probability p)) probs)] @
            map (\<lambda>(i, (_, p)). SetSkinProbability i (map thousandths (sp_skin p))) (zip [0..<length probs] probs) @
            map (\<lambda>(i, (_, p)). SetAccCountProbability i (map thousandths (sp_accessory_count_probabbilities p)))
              (zip [0..<length probs] probs)
      in case check_doc doc of
           Inl e \<Rightarrow> (sent, Some e)
         | Inr _ \<Rightarrow>
             let sent2 = sent @ [SetAccIdByType (accIdPerType doc) (accWeightPerType doc)]
             in case accExclusion doc of
                  Inl e \<Rightarrow> (sent2, Some e)
                | Inr masks \<Rightarrow> (sent2 @ [SetAccExclusion masks], None))"

section \<open>What the masks mean\<close>

lemma bit_one_shl: "i < 32 \<Longrightarrow> bit (one_shl i) j \<longleftrightarrow> j = i"
  by (auto simp: one_shl_def bit_simps)

lemma bit_group_mask:
  "\<forall>i \<in> set grp. i < 32 \<Longrightarrow> bit (fold (\<lambda>i m. m OR one_shl i) grp m) j \<longleftrightarrow> bit m j \<or> j \<in> set grp"
  by (induction grp arbitrary: m) (auto simp: bit_or_iff bit_one_shl)

lemma length_or_all: "length (fold (\<lambda>i ex. ex[i := ex ! i OR m]) grp excl) = length excl"
  by (induction grp arbitrary: excl) simp_all

lemma bit_or_all:
  "k < length excl \<Longrightarrow>
     bit (fold (\<lambda>i ex. ex[i := ex ! i OR m]) grp excl ! k) j \<longleftrightarrow>
       bit (excl ! k) j \<or> k \<in> set grp \<and> bit (m :: 32 word) j"
proof (induction grp arbitrary: excl)
  case (Cons i grp)
  from Cons.IH [of "excl[i := excl ! i OR m]"] Cons.prems show ?case
    by (cases "i = k") (auto simp: bit_or_iff)
qed simp

lemma bit_add_group:
  assumes "\<forall>i \<in> set grp. i < 32" and "k < length excl"
  shows "bit (add_group grp excl ! k) j \<longleftrightarrow> bit (excl ! k) j \<or> k \<in> set grp \<and> j \<in> set grp"
  using assms by (simp add: add_group_def Let_def bit_or_all bit_group_mask)

lemma length_add_group: "length (add_group grp excl) = length excl"
  by (simp add: add_group_def Let_def length_or_all)

definition type_at :: "seeder_doc \<Rightarrow> nat \<Rightarrow> string" where
  "type_at doc i = so_acc_types doc ! i"

lemma exclusion_index_iff:
  "distinct (so_acc_types doc) \<Longrightarrow>
     exclusion_index doc ty = Inr i \<longleftrightarrow> i < length (so_acc_types doc) \<and> type_at doc i = ty"
  using find_index_Some_iff [of "\<lambda>k. k = ty" "so_acc_types doc" i]
  by (auto simp: exclusion_index_def type_at_def nth_eq_iff_index_eq split: option.splits)

lemma exclusion_indexes:
  assumes "distinct (so_acc_types doc)"
  shows "rmap_list (exclusion_index doc) grp = Inr ixs \<Longrightarrow>
    (\<forall>i \<in> set ixs. i < length (so_acc_types doc)) \<and>
    (\<forall>i < length (so_acc_types doc). i \<in> set ixs \<longleftrightarrow> type_at doc i \<in> set grp)"
proof (induction grp arbitrary: ixs)
  case (Cons ty grp)
  then obtain i ixs' where "ixs = i # ixs'" "exclusion_index doc ty = Inr i" "rmap_list (exclusion_index doc) grp = Inr ixs'"
    by auto
  with Cons.IH [of ixs'] exclusion_index_iff [OF assms] assms show ?case
    by (auto simp: type_at_def nth_eq_iff_index_eq)
qed simp

lemma exclusion_loop_bits:
  assumes d: "distinct (so_acc_types doc)" and n: "length (so_acc_types doc) \<le> 32"
  shows "exclusion_loop doc groups excl = Inr masks \<Longrightarrow> length excl = length (so_acc_types doc) \<Longrightarrow>
    length masks = length (so_acc_types doc) \<and>
    (\<forall>k < length masks. \<forall>j < length masks. bit (masks ! k) j \<longleftrightarrow>
       bit (excl ! k) j \<or> (\<exists>grp \<in> set groups. type_at doc k \<in> set grp \<and> type_at doc j \<in> set grp))"
proof (induction groups arbitrary: excl)
  case (Cons grp groups)
  then obtain ixs where i: "rmap_list (exclusion_index doc) grp = Inr ixs"
    "exclusion_loop doc groups (add_group ixs excl) = Inr masks" by auto
  note ix = exclusion_indexes [OF d i(1)]
  have "\<forall>i \<in> set ixs. i < 32" using ix n by fastforce
  then have bits: "k < length excl \<Longrightarrow>
      bit (add_group ixs excl ! k) j \<longleftrightarrow> bit (excl ! k) j \<or> k \<in> set ixs \<and> j \<in> set ixs" for k j
    by (rule bit_add_group)
  have "length (add_group ixs excl) = length (so_acc_types doc)" using Cons.prems(2) by (simp add: length_add_group)
  note ih = Cons.IH [OF i(2) this]
  show ?case using ih bits ix Cons.prems(2) by auto
qed simp

text \<open>C18. Exclusion masks: when the accessory types are distinct and at most 32, every type named by
  an exclusive group being one of them, the mask of a type has exactly the bits of itself and of
  every type that shares an exclusive group with it; so the relation the masks encode is symmetric.\<close>

theorem exclusion_masks:
  assumes "distinct (so_acc_types doc)" and "length (so_acc_types doc) \<le> 32" and "accExclusion doc = Inr masks"
    and "k < length (so_acc_types doc)" and "j < length (so_acc_types doc)"
  shows "length masks = length (so_acc_types doc) \<and>
    (bit (masks ! k) j \<longleftrightarrow>
       j = k \<or> (\<exists>grp \<in> set (so_exclusive_groups doc). type_at doc k \<in> set grp \<and> type_at doc j \<in> set grp)) \<and>
    (bit (masks ! k) j \<longleftrightarrow> bit (masks ! j) k)"
proof -
  have "length masks = length (so_acc_types doc) \<and>
    (\<forall>k < length masks. \<forall>j < length masks. bit (masks ! k) j \<longleftrightarrow>
       bit (map one_shl [0..<length (so_acc_types doc)] ! k) j \<or>
       (\<exists>grp \<in> set (so_exclusive_groups doc). type_at doc k \<in> set grp \<and> type_at doc j \<in> set grp))"
    by (rule exclusion_loop_bits [OF assms(1,2) assms(3) [unfolded accExclusion_def]]) simp
  then show ?thesis using assms(2,4,5) by (auto simp: bit_one_shl)
qed

definition demo_doc :: seeder_doc where
  "demo_doc = \<lparr>so_types = [''male''], so_acc_types = [''hair'', ''hat'', ''nose''],
     so_exclusive_groups = [[''hat'', ''hair'']], so_probabilities = [], so_accessories = []\<rparr>"

theorem exclusion_masks_witness:
  "\<exists>masks. accExclusion demo_doc = Inr masks \<and> bit (masks ! 0) 1 \<and> \<not> bit (masks ! 0) 2"
proof -
  have m: "accExclusion demo_doc = Inr [3, 3, 4]" by code_simp
  have "bit (([3, 3, 4] :: 32 word list) ! 0) 1" "\<not> bit (([3, 3, 4] :: 32 word list) ! 0) 2"
    using exclusion_masks [OF _ _ m, of 0 1] exclusion_masks [OF _ _ m, of 0 2]
    by (simp_all add: demo_doc_def type_at_def)
  with m show ?thesis by blast
qed

section \<open>What a successful run has checked\<close>

lemma rmap_list_unit: "rmap_list f xs = Inr ys \<Longrightarrow> x \<in> set xs \<Longrightarrow> \<exists>y. f x = Inr y"
  by (induction xs arbitrary: ys) auto

lemma length_filter_zip:
  "length xs = length ys \<Longrightarrow> length (filter (\<lambda>(x, y). P x) (zip xs ys)) = length (filter P xs)"
  by (induction xs ys rule: list_induct2) auto

text \<open>C30. A run that sends everything has a consistent document: for each punk type of the
  probabilities, an accessory type is listed exactly when the contract gets at least one design of
  it for that punk type, and designs and weights that are sent have the same numbers.\<close>

theorem populate_consistent:
  assumes "snd (populate_seeder doc) = None" and "distinct (so_acc_types doc)"
    and "(so_types doc ! i, p) \<in> set (so_probabilities doc)" and "distinct (so_types doc)"
    and "i < length (so_types doc)" and "j < length (so_acc_types doc)"
  shows "(so_acc_types doc ! j \<in> set (sp_accessories p) \<longleftrightarrow> accIdPerType doc ! i ! j \<noteq> []) \<and>
    length (accIdPerType doc ! i ! j) = length (accWeightPerType doc ! i ! j)"
proof -
  let ?t = "so_types doc ! i" and ?a = "so_acc_types doc ! j"
  let ?items = "items_of doc ?a"
  have count: "accCountPerType doc ! i ! j = length (filter (fits ?t) ?items)"
    using assms(5,6) by (simp add: accCountPerType_def)
  have weights: "accWeightPerType doc ! i ! j = map ai_weight (filter (fits ?t) ?items)"
    using assms(5,6) by (simp add: accWeightPerType_def)
  have "length (filter (\<lambda>(item, idx). fits ?t item) (zip ?items [0..<length ?items])) = length (filter (fits ?t) ?items)"
    by (rule length_filter_zip) simp
  then have ids: "length (accIdPerType doc ! i ! j) = accCountPerType doc ! i ! j"
    using assms(5,6) count by (simp add: accIdPerType_def)
  have "isl (check_doc doc) = False" using assms(1) by (auto simp: populate_seeder_def Let_def split: sum.splits)
  then obtain us where "rmap_list (check_punk_type doc) (so_probabilities doc) = Inr us"
    by (cases "rmap_list (check_punk_type doc) (so_probabilities doc)") (auto simp: check_doc_def)
  from rmap_list_unit [OF this assms(3)] obtain u where u: "check_punk_type doc (?t, p) = Inr u" by blast
  have "find_index (\<lambda>t. t = ?t) (so_types doc) = Some i"
    using assms(4,5) by (auto simp: find_index_Some_iff nth_eq_iff_index_eq)
  then have counts: "js_nth (accCountPerType doc) (js_findIndex (\<lambda>t. t = ?t) (so_types doc)) = Some (accCountPerType doc ! i)"
    using assms(5) by (simp add: js_findIndex_def js_nth_def accCountPerType_def)
  have len: "length (accCountPerType doc ! i) = length (so_acc_types doc)"
    using assms(5) by (simp add: accCountPerType_def)
  from u counts obtain xs ys where
    avail: "rmap_list (check_available doc (Some (accCountPerType doc ! i)) ?t) (sp_accessories p) = Inr xs" and
    unavail: "rmap_list (check_unavailable doc ?t (sp_accessories p))
      (zip [0..<length (accCountPerType doc ! i)] (accCountPerType doc ! i)) = Inr ys"
    by (auto simp: check_punk_type_def Let_def)
  have find: "js_findIndex (\<lambda>k. k = ?a) (so_acc_types doc) = int j"
    using assms(2,6) by (auto simp: js_findIndex_iff nth_eq_iff_index_eq)
  have "?a \<in> set (sp_accessories p) \<longleftrightarrow> accCountPerType doc ! i ! j \<noteq> 0"
  proof
    assume "?a \<in> set (sp_accessories p)"
    from rmap_list_unit [OF avail this] show "accCountPerType doc ! i ! j \<noteq> 0"
      using find assms(6) len by (auto simp: check_available_def Let_def js_nth_def split: if_splits)
  next
    assume pos: "accCountPerType doc ! i ! j \<noteq> 0"
    have "(j, accCountPerType doc ! i ! j) \<in> set (zip [0..<length (accCountPerType doc ! i)] (accCountPerType doc ! i))"
      using assms(6) len by (auto simp: set_zip intro!: exI [of _ j])
    from rmap_list_unit [OF unavail this] pos show "?a \<in> set (sp_accessories p)"
      by (auto simp: check_unavailable_def split: if_splits)
  qed
  then show ?thesis using ids weights count by (metis length_0_conv length_map)
qed

definition demo_doc2 :: seeder_doc where
  "demo_doc2 = \<lparr>so_types = [''male''], so_acc_types = [''hair'', ''hat''], so_exclusive_groups = [],
     so_probabilities = [(''male'', \<lparr>sp_probability = 1, sp_skin = [1], sp_accessory_count_probabbilities = [1],
       sp_accessories = [''hat'']\<rparr>)],
     so_accessories = [(''12'', \<lparr>ai_type = ''hat'', ai_punk = ''mf'', ai_weight = 5\<rparr>)]\<rparr>"

theorem populate_consistent_witness:
  "\<exists>p :: seeder_prob. (''hat'' \<in> set (sp_accessories p)) \<and> accIdPerType demo_doc2 ! 0 ! 1 \<noteq> [] \<and> accIdPerType demo_doc2 ! 0 ! 0 = []"
proof -
  let ?p = "\<lparr>sp_probability = 1, sp_skin = [1], sp_accessory_count_probabbilities = [1], sp_accessories = [''hat'']\<rparr>"
  have "snd (populate_seeder demo_doc2) = None" by code_simp
  note c = populate_consistent [OF this, of 0 ?p]
  have "''hat'' \<in> set (sp_accessories ?p)" "accIdPerType demo_doc2 ! 0 ! 1 \<noteq> []" "accIdPerType demo_doc2 ! 0 ! 0 = []"
    using c [of 0] c [of 1] by (simp_all add: demo_doc2_def)
  then show ?thesis by blast
qed

end
