(* ===== verification/Tasks_Deploy.thy ===== *)
theory Tasks_Deploy
  imports Prelude Complex_Main
begin

text \<open>
  The deployment tasks of \<open>packages/punks-contracts/tasks\<close>: \<open>deploy.ts\<close>,
  \<open>deploy-short-times.ts\<close>, \<open>deploy-local.ts\<close> and \<open>deploy-descriptor-v2.ts\<close>. Contracts refer
  to each other in cycles, so the tasks predict the addresses of three of them from the nonce of the
  deployer. The address function, the encoding of calls, the answers of the operator and the other
  transactions of the deployer are parameters. A deployment succeeds at once: receipts, gas estimates
  and console output are left out. The lemmas show when the predicted addresses are the real ones.
\<close>

section \<open>Contracts, arguments and the deployer\<close>

datatype contract_name =
    NFTDescriptorV2 | SVGRenderer | NDescriptorV2 | Inflator | NArt | NSeeder | NToken
  | NAuctionHouse | NAuctionHouseProxyAdmin | NAuctionHouseProxy | NDAOExecutor | NDAOLogicV1 | NDAOProxy
  | WETH | CryptopunksMock | WrappedPunkMock | CryptopunksVote

definition contract_string :: "contract_name \<Rightarrow> string" where
  "contract_string c =
     (case c of NFTDescriptorV2 \<Rightarrow> ''NFTDescriptorV2'' | SVGRenderer \<Rightarrow> ''SVGRenderer''
      | NDescriptorV2 \<Rightarrow> ''NDescriptorV2'' | Inflator \<Rightarrow> ''Inflator'' | NArt \<Rightarrow> ''NArt'' | NSeeder \<Rightarrow> ''NSeeder''
      | NToken \<Rightarrow> ''NToken'' | NAuctionHouse \<Rightarrow> ''NAuctionHouse''
      | NAuctionHouseProxyAdmin \<Rightarrow> ''NAuctionHouseProxyAdmin'' | NAuctionHouseProxy \<Rightarrow> ''NAuctionHouseProxy''
      | NDAOExecutor \<Rightarrow> ''NDAOExecutor'' | NDAOLogicV1 \<Rightarrow> ''NDAOLogicV1'' | NDAOProxy \<Rightarrow> ''NDAOProxy''
      | WETH \<Rightarrow> ''WETH'' | CryptopunksMock \<Rightarrow> ''CryptopunksMock'' | WrappedPunkMock \<Rightarrow> ''WrappedPunkMock''
      | CryptopunksVote \<Rightarrow> ''CryptopunksVote'')"

text \<open>A constructor argument is a value, or a function read when the contract is deployed: the
  address of a contract, or the encoded call of \<open>initialize\<close>.\<close>

datatype arg_value = VStr string | VNum int | VUndefined

datatype contract_arg = Const arg_value | AddressOf contract_name | InitializeCall "contract_arg list"

record contract_deployment =
  cd_args :: "contract_arg list"
  cd_libraries :: "(string \<times> contract_name) list"
  cd_expected :: "(string \<times> string) option"

record deployed_contract =
  dp_name :: string
  dp_address :: string
  dp_constructorArguments :: "arg_value list"
  dp_libraries :: "(string \<times> string) list"

type_synonym deployment = "(contract_name, deployed_contract) omap"

text \<open>The account of the deployer with the contracts created by its transactions, newest first.\<close>

record creation =
  cr_address :: string
  cr_factory :: string
  cr_libraries :: "(string \<times> arg_value) list"
  cr_args :: "arg_value list"
  cr_fee :: int

record deployer =
  dl_address :: string
  dl_nonce :: nat
  dl_created :: "creation list"

section \<open>Parameters of the tasks\<close>

record deploy_args =
  da_autoDeploy :: bool
  da_weth :: "string option"
  da_cryptopunksVote :: "string option"
  da_punkers :: "string option"
  da_auctionTimeBuffer :: int
  da_auctionReservePrice :: int
  da_auctionMinIncrementBidPercentage :: int
  da_auctionDuration :: int
  da_timelockDelay :: int
  da_votingPeriod :: int
  da_votingDelay :: int
  da_proposalThresholdBps :: int
  da_quorumVotesBps :: int

definition math_round :: "rat \<Rightarrow> int" where
  "math_round x = \<lfloor>x + 1 / 2\<rfloor>"

definition deploy_defaults :: deploy_args where
  "deploy_defaults =
     \<lparr>da_autoDeploy = False, da_weth = None, da_cryptopunksVote = None, da_punkers = None,
      da_auctionTimeBuffer = 5 * 60, da_auctionReservePrice = 1, da_auctionMinIncrementBidPercentage = 2,
      da_auctionDuration = 24 * 60 * 60, da_timelockDelay = 60 * 60 * 24 * 2,
      da_votingPeriod = math_round (4 * 60 * 24 * (60 / 13)), da_votingDelay = math_round (3 * 60 * 24 * (60 / 13)),
      da_proposalThresholdBps = 100, da_quorumVotesBps = 1000\<rparr>"

definition deploy_short_defaults :: deploy_args where
  "deploy_short_defaults =
     \<lparr>da_autoDeploy = False, da_weth = None, da_cryptopunksVote = None, da_punkers = None,
      da_auctionTimeBuffer = 30, da_auctionReservePrice = 1, da_auctionMinIncrementBidPercentage = 2,
      da_auctionDuration = 60 * 2, da_timelockDelay = 60, da_votingPeriod = 80, da_votingDelay = 1,
      da_proposalThresholdBps = 100, da_quorumVotesBps = 1000\<rparr>"

definition wethContracts :: "(nat \<times> string) list" where
  "wethContracts =
     [(1, ''0xC02aaA39b223FE8D0A0e5C4F27eAD9083C756Cc2''), (3, ''0xc778417e063141139fce010982780140aa0cd5ab''),
      (4, ''0xc778417e063141139fce010982780140aa0cd5ab''), (42, ''0xd0a1e359811322d97991e03f863a0c30c2cf029c''),
      (5, ''0xB4FBF271143F4FBf7B91A5ded31805e42b2208d6''), (11155111, ''0xfFf9976782d46CC05630D1f6eBAb18b2324d6B14'')]"

definition cryptopunksVoteContracts :: "(nat \<times> string) list" where
  "cryptopunksVoteContracts =
     [(1, ''0x28b50f3e79b4921146ee7dfD18FB3Ea61294617b''), (5, ''0x5CC68fCb6B18eb05d7008330191494e9ecAd948F''),
      (11155111, ''0x225EB996209af94F45Bd71c35fDB032feF96b8e4'')]"

definition wethContracts_short :: "(nat \<times> string) list" where
  "wethContracts_short =
     [(1, ''0xC02aaA39b223FE8D0A0e5C4F27eAD9083C756Cc2''), (3, ''0xc778417e063141139fce010982780140aa0cd5ab''),
      (4, ''0xc778417e063141139fce010982780140aa0cd5ab''), (42, ''0xd0a1e359811322d97991e03f863a0c30c2cf029c'')]"

definition cryptopunksVoteContracts_short :: "(nat \<times> string) list" where
  "cryptopunksVoteContracts_short = [(5, ''0xfABD98b4976620eE2bc79641126C734FC49e2c81'')]"

definition or_default :: "string option \<Rightarrow> string \<Rightarrow> string" where
  "or_default v d = (case v of None \<Rightarrow> d | Some x \<Rightarrow> if x = [] then d else x)"

definition auto_detect :: "string \<Rightarrow> string \<Rightarrow> (nat \<times> string) list \<Rightarrow> nat \<Rightarrow> string \<Rightarrow> string option \<Rightarrow> string result" where
  "auto_detect what flag table chainId network v =
     (if v \<noteq> None \<and> v \<noteq> Some [] then Inr (the v)
      else case map_of table chainId of
             Some address \<Rightarrow> Inr address
           | None \<Rightarrow> Inl (ErrorMsg (''Can not auto-detect '' @ what @ '' contract on chain '' @ network @
                            ''. Provide it with the --'' @ flag @ '' arg.'')))"

section \<open>The contracts of a deployment\<close>

definition N_ART_NONCE_OFFSET :: nat where "N_ART_NONCE_OFFSET = 4"
definition AUCTION_HOUSE_PROXY_NONCE_OFFSET :: nat where "AUCTION_HOUSE_PROXY_NONCE_OFFSET = 9"
definition GOVERNOR_N_DELEGATOR_NONCE_OFFSET :: nat where "GOVERNOR_N_DELEGATOR_NONCE_OFFSET = 12"

definition plain :: contract_deployment where
  "plain = \<lparr>cd_args = [], cd_libraries = [], cd_expected = None\<rparr>"

definition with_args :: "contract_arg list \<Rightarrow> contract_deployment" where
  "with_args as = \<lparr>cd_args = as, cd_libraries = [], cd_expected = None\<rparr>"

text \<open>The table of \<open>deploy.ts\<close> and \<open>deploy-short-times.ts\<close>, for the three predicted addresses.\<close>

definition deploy_contracts ::
  "deploy_args \<Rightarrow> string \<Rightarrow> string \<Rightarrow> string \<Rightarrow> string \<Rightarrow> string \<Rightarrow> string \<Rightarrow> (contract_name \<times> contract_deployment) list" where
  "deploy_contracts a punkers vote weth expectedNArt expectedAuctionHouseProxy expectedNDAOProxy =
     [(NFTDescriptorV2, plain),
      (SVGRenderer, plain),
      (NDescriptorV2, \<lparr>cd_args = [Const (VStr expectedNArt), AddressOf SVGRenderer],
         cd_libraries = [(''NFTDescriptorV2'', NFTDescriptorV2)], cd_expected = None\<rparr>),
      (Inflator, plain),
      (NArt, with_args [AddressOf NDescriptorV2, AddressOf Inflator]),
      (NSeeder, plain),
      (NToken, with_args [Const (VStr punkers), Const (VStr expectedAuctionHouseProxy), AddressOf NDescriptorV2,
         AddressOf NSeeder]),
      (NAuctionHouse, plain),
      (NAuctionHouseProxyAdmin, plain),
      (NAuctionHouseProxy,
         \<lparr>cd_args = [AddressOf NAuctionHouse, AddressOf NAuctionHouseProxyAdmin,
            InitializeCall [AddressOf NToken, Const (VStr weth), Const (VNum (da_auctionTimeBuffer a)),
              Const (VNum (da_auctionReservePrice a)), Const (VNum (da_auctionMinIncrementBidPercentage a)),
              Const (VNum (da_auctionDuration a))]],
          cd_libraries = [], cd_expected = Some (''auction house proxy'', expectedAuctionHouseProxy)\<rparr>),
      (NDAOExecutor, with_args [Const (VStr expectedNDAOProxy), Const (VNum (da_timelockDelay a))]),
      (NDAOLogicV1, plain),
      (NDAOProxy,
         \<lparr>cd_args = [AddressOf NDAOExecutor, AddressOf NToken, Const (VStr vote), Const (VStr punkers),
            AddressOf NDAOExecutor, AddressOf NDAOLogicV1, Const (VNum (da_votingPeriod a)),
            Const (VNum (da_votingDelay a)), Const (VNum (da_proposalThresholdBps a)),
            Const (VNum (da_quorumVotesBps a))],
          cd_libraries = [], cd_expected = Some (''NDAO proxy'', expectedNDAOProxy)\<rparr>)]"

section \<open>Deploying\<close>

text \<open>\<open>encode\<close> is \<open>encodeFunctionData('initialize', ...)\<close>. Reading the address of a contract that is
  not deployed is a \<open>TypeError\<close>.\<close>

fun eval_arg :: "(arg_value list \<Rightarrow> string) \<Rightarrow> deployment \<Rightarrow> contract_arg \<Rightarrow> arg_value result" and
    eval_args :: "(arg_value list \<Rightarrow> string) \<Rightarrow> deployment \<Rightarrow> contract_arg list \<Rightarrow> arg_value list result" where
  "eval_arg encode d (Const v) = Inr v"
| "eval_arg encode d (AddressOf c) = rbind (of_option TypeError (map_of d c)) (\<lambda>p. Inr (VStr (dp_address p)))"
| "eval_arg encode d (InitializeCall as) = rbind (eval_args encode d as) (\<lambda>vs. Inr (VStr (encode vs)))"
| "eval_args encode d [] = Inr []"
| "eval_args encode d (a # as) = rbind (eval_arg encode d a) (\<lambda>v. rbind (eval_args encode d as) (\<lambda>vs. Inr (v # vs)))"

definition eval_libraries :: "deployment \<Rightarrow> (string \<times> contract_name) list \<Rightarrow> (string \<times> string) list result" where
  "eval_libraries d libs =
     rmap_list (\<lambda>(l, c). rbind (of_option TypeError (map_of d c)) (\<lambda>p. Inr (l, dp_address p))) libs"

text \<open>What differs between the two tasks: the factory of a contract, the name under which the
  answer of the operator is stored (the tasks read the name \<open>operation\<close>), and the fee proposed.\<close>

record variant =
  va_factory :: "contract_name \<Rightarrow> string"
  va_property :: string
  va_fee :: "contract_name \<Rightarrow> int"

text \<open>The operator answers per contract, and the deployer may send other transactions before one.\<close>

record operator =
  op_answer :: "contract_name \<Rightarrow> string"
  op_gwei :: "contract_name \<Rightarrow> int"
  op_foreign :: "contract_name \<Rightarrow> nat"

datatype outcome = Finished deployment | Exited

definition gwei :: "int \<Rightarrow> int" where
  "gwei n = n * 10 ^ 9"

definition create ::
  "(string \<Rightarrow> nat \<Rightarrow> string) \<Rightarrow> string \<Rightarrow> (string \<times> arg_value) list \<Rightarrow> arg_value list \<Rightarrow> int \<Rightarrow> deployer \<Rightarrow>
     string \<times> deployer" where
  "create addr factory libs vs fee dl =
     (let address = addr (dl_address dl) (dl_nonce dl)
      in (address, dl\<lparr>dl_nonce := dl_nonce dl + 1,
            dl_created := \<lparr>cr_address = address, cr_factory = factory, cr_libraries = libs, cr_args = vs,
               cr_fee = fee\<rparr> # dl_created dl\<rparr>))"

definition validate :: "contract_deployment \<Rightarrow> string \<Rightarrow> unit result" where
  "validate k address =
     (case cd_expected k of
        None \<Rightarrow> Inr ()
      | Some (what, expected) \<Rightarrow>
          if toLowerCase expected \<noteq> toLowerCase address
          then Inl (ErrorMsg (''Unexpected '' @ what @ '' address. Expected: '' @ toLowerCase expected @
                 ''. Actual: '' @ toLowerCase address @ ''.''))
          else Inr ())"

fun deploy_loop ::
  "(string \<Rightarrow> nat \<Rightarrow> string) \<Rightarrow> (arg_value list \<Rightarrow> string) \<Rightarrow> variant \<Rightarrow> bool \<Rightarrow> operator \<Rightarrow>
     (contract_name \<times> contract_deployment) list \<Rightarrow> deployer \<Rightarrow> deployment \<Rightarrow> deployer \<times> outcome result" where
  "deploy_loop addr encode va auto opr [] dl d = (dl, Inr (Finished d))"
| "deploy_loop addr encode va auto opr ((c, k) # cs) dl0 d =
     (let dl = dl0\<lparr>dl_nonce := dl_nonce dl0 + op_foreign opr c\<rparr>;
          fee = (if auto then va_fee va c else gwei (op_gwei opr c));
          answers = (if auto then [] else [(va_property va, op_answer opr c)])
      in case rbind (eval_libraries d (cd_libraries k)) (\<lambda>libs. rbind (eval_args encode d (cd_args k)) (\<lambda>vs. Inr (libs, vs))) of
           Inl e \<Rightarrow> (dl, Inl e)
         | Inr (libs, vs) \<Rightarrow>
             if map_of answers ''operation'' = Some ''SKIP'' then deploy_loop addr encode va auto opr cs dl d
             else if map_of answers ''operation'' = Some ''EXIT'' then (dl, Inr Exited)
             else let (address, dl') = create addr (va_factory va c) (map (apsnd VStr) libs) vs fee dl;
                      d' = omap_set c \<lparr>dp_name = va_factory va c, dp_address = address,
                             dp_constructorArguments = vs, dp_libraries = libs\<rparr> d
                  in case validate k address of
                       Inl e \<Rightarrow> (dl', Inl e)
                     | Inr _ \<Rightarrow> deploy_loop addr encode va auto opr cs dl' d')"

definition deploy_task ::
  "(nat \<times> string) list \<Rightarrow> (nat \<times> string) list \<Rightarrow> variant \<Rightarrow> (string \<Rightarrow> nat \<Rightarrow> string) \<Rightarrow> (arg_value list \<Rightarrow> string) \<Rightarrow>
     nat \<Rightarrow> string \<Rightarrow> deploy_args \<Rightarrow> operator \<Rightarrow> deployer \<Rightarrow> deployer \<times> outcome result" where
  "deploy_task weths votes va addr encode chainId network a opr dl =
     (let punkers = or_default (da_punkers a) (dl_address dl)
      in case rbind (auto_detect ''CryptopunksVote'' ''cryptopunksVote'' votes chainId network (da_cryptopunksVote a)) (\<lambda>vote.
              rbind (auto_detect ''WETH'' ''weth'' weths chainId network (da_weth a)) (\<lambda>weth. Inr (vote, weth))) of
           Inl e \<Rightarrow> (dl, Inl e)
         | Inr (vote, weth) \<Rightarrow>
             let nonce = dl_nonce dl;
                 expected = (\<lambda>offset. addr (dl_address dl) (nonce + offset))
             in deploy_loop addr encode va (da_autoDeploy a) opr
                  (deploy_contracts a punkers vote weth (expected N_ART_NONCE_OFFSET)
                     (expected AUCTION_HOUSE_PROXY_NONCE_OFFSET) (expected GOVERNOR_N_DELEGATOR_NONCE_OFFSET)) dl [])"

definition deploy_variant :: variant where
  "deploy_variant = \<lparr>va_factory = contract_string, va_property = ''operation'', va_fee = (\<lambda>_. gwei 17)\<rparr>"

text \<open>\<open>deploy.ts\<close>\<close>

definition deploy ::
  "(string \<Rightarrow> nat \<Rightarrow> string) \<Rightarrow> (arg_value list \<Rightarrow> string) \<Rightarrow> nat \<Rightarrow> string \<Rightarrow> deploy_args \<Rightarrow> operator \<Rightarrow> deployer \<Rightarrow>
     deployer \<times> outcome result" where
  "deploy = deploy_task wethContracts cryptopunksVoteContracts deploy_variant"

definition nameForFactory :: "contract_name \<Rightarrow> string" where
  "nameForFactory c =
     (case c of NDAOExecutor \<Rightarrow> ''NDAOExecutorTest'' | NDAOLogicV1 \<Rightarrow> ''NDAOLogicV1Harness'' | _ \<Rightarrow> contract_string c)"

text \<open>\<open>deploy-short-times.ts\<close>; \<open>gasPrice\<close> is what the provider proposes before each contract.\<close>

definition deploy_short_times ::
  "(contract_name \<Rightarrow> int) \<Rightarrow> (string \<Rightarrow> nat \<Rightarrow> string) \<Rightarrow> (arg_value list \<Rightarrow> string) \<Rightarrow> nat \<Rightarrow> string \<Rightarrow> deploy_args \<Rightarrow> operator \<Rightarrow>
     deployer \<Rightarrow> deployer \<times> outcome result" where
  "deploy_short_times gasPrice =
     deploy_task wethContracts_short cryptopunksVoteContracts_short
       \<lparr>va_factory = nameForFactory, va_property = ''confirm'', va_fee = gasPrice\<rparr>"

section \<open>The local deployment\<close>

text \<open>\<open>deploy-local.ts\<close>: 17 contracts without prompts; \<open>instance?.address\<close> of a contract that is not
  deployed is \<open>undefined\<close>.\<close>

definition local_defaults :: deploy_args where
  "local_defaults =
     \<lparr>da_autoDeploy = True, da_weth = None, da_cryptopunksVote = None, da_punkers = None,
      da_auctionTimeBuffer = 30, da_auctionReservePrice = 1, da_auctionMinIncrementBidPercentage = 5,
      da_auctionDuration = 60 * 2, da_timelockDelay = 60 * 60 * 24 * 2, da_votingPeriod = 4 * 60 * 24 * 3,
      da_votingDelay = 1, da_proposalThresholdBps = 500, da_quorumVotesBps = 1000\<rparr>"

definition local_contracts ::
  "deploy_args \<Rightarrow> string \<Rightarrow> string \<Rightarrow> string \<Rightarrow> string \<Rightarrow> (contract_name \<times> contract_deployment) list" where
  "local_contracts a deployer_address expectedNArt expectedAuctionHouseProxy expectedNDAOProxy =
     (let punkers = or_default (da_punkers a) deployer_address
      in [(WETH, plain),
          (CryptopunksMock, plain),
          (WrappedPunkMock, with_args [AddressOf CryptopunksMock]),
          (CryptopunksVote, with_args [AddressOf CryptopunksMock, AddressOf WrappedPunkMock]),
          (NFTDescriptorV2, plain),
          (SVGRenderer, plain),
          (NDescriptorV2, \<lparr>cd_args = [Const (VStr expectedNArt), AddressOf SVGRenderer],
             cd_libraries = [(''NFTDescriptorV2'', NFTDescriptorV2)], cd_expected = None\<rparr>),
          (Inflator, plain),
          (NArt, with_args [AddressOf NDescriptorV2, AddressOf Inflator]),
          (NSeeder, plain),
          (NToken, with_args [Const (VStr punkers), Const (VStr expectedAuctionHouseProxy), AddressOf NDescriptorV2,
             AddressOf NSeeder]),
          (NAuctionHouse, plain),
          (NAuctionHouseProxyAdmin, plain),
          (NAuctionHouseProxy, with_args [AddressOf NAuctionHouse, AddressOf NAuctionHouseProxyAdmin,
             InitializeCall [AddressOf NToken, AddressOf WETH, Const (VNum (da_auctionTimeBuffer a)),
               Const (VNum (da_auctionReservePrice a)), Const (VNum (da_auctionMinIncrementBidPercentage a)),
               Const (VNum (da_auctionDuration a))]]),
          (NDAOExecutor, with_args [Const (VStr expectedNDAOProxy), Const (VNum (da_timelockDelay a))]),
          (NDAOLogicV1, plain),
          (NDAOProxy, with_args [AddressOf NDAOExecutor, AddressOf NToken, AddressOf CryptopunksVote,
             Const (VStr punkers), AddressOf NDAOExecutor, AddressOf NDAOLogicV1, Const (VNum (da_votingPeriod a)),
             Const (VNum (da_votingDelay a)), Const (VNum (da_proposalThresholdBps a)),
             Const (VNum (da_quorumVotesBps a))])])"

definition instance_address :: "(contract_name, string) omap \<Rightarrow> contract_name \<Rightarrow> arg_value" where
  "instance_address d c = (case map_of d c of None \<Rightarrow> VUndefined | Some address \<Rightarrow> VStr address)"

fun local_arg :: "(arg_value list \<Rightarrow> string) \<Rightarrow> (contract_name, string) omap \<Rightarrow> contract_arg \<Rightarrow> arg_value" where
  "local_arg encode d (Const v) = v"
| "local_arg encode d (AddressOf c) = instance_address d c"
| "local_arg encode d (InitializeCall as) = VStr (encode (map (local_arg encode d) as))"

fun local_loop ::
  "(string \<Rightarrow> nat \<Rightarrow> string) \<Rightarrow> (arg_value list \<Rightarrow> string) \<Rightarrow> (contract_name \<times> contract_deployment) list \<Rightarrow>
     deployer \<Rightarrow> (contract_name, string) omap \<Rightarrow> deployer \<times> (contract_name, string) omap" where
  "local_loop addr encode [] dl d = (dl, d)"
| "local_loop addr encode ((c, k) # cs) dl d =
     (let libs = map (apsnd (instance_address d)) (cd_libraries k);
          (address, dl') = create addr (contract_string c) libs (map (local_arg encode d) (cd_args k)) 0 dl
      in local_loop addr encode cs dl' (omap_set c address d))"

definition deploy_local ::
  "(string \<Rightarrow> nat \<Rightarrow> string) \<Rightarrow> (arg_value list \<Rightarrow> string) \<Rightarrow> nat \<Rightarrow> deploy_args \<Rightarrow> deployer \<Rightarrow>
     deployer \<times> (contract_name, string) omap option" where
  "deploy_local addr encode chainId a dl =
     (if chainId \<noteq> 31337 then (dl, None)
      else let expected = (\<lambda>offset. addr (dl_address dl) (dl_nonce dl + offset));
               (dl', d) = local_loop addr encode
                 (local_contracts a (dl_address dl) (expected 8) (expected 13) (expected 16)) dl []
           in (dl', Some d))"

section \<open>A new descriptor\<close>

text \<open>\<open>deploy-descriptor-v2.ts\<close>, up to the table it prints.\<close>

definition deploy_descriptor_v2 :: "(string \<Rightarrow> nat \<Rightarrow> string) \<Rightarrow> deployer \<Rightarrow> deployer \<times> deployment" where
  "deploy_descriptor_v2 addr dl0 =
     (let expectedNArtAddress = addr (dl_address dl0) (dl_nonce dl0 + 4);
          entry = (\<lambda>c address vs libs. (c, \<lparr>dp_name = contract_string c, dp_address = address,
                     dp_constructorArguments = vs, dp_libraries = libs\<rparr>));
          (library, dl1) = create addr ''NFTDescriptorV2'' [] [] 0 dl0;
          (renderer, dl2) = create addr ''SVGRenderer'' [] [] 0 dl1;
          descriptor_args = [VStr expectedNArtAddress, VStr renderer];
          (nDescriptor, dl3) = create addr ''NDescriptorV2'' [(''NFTDescriptorV2'', VStr library)] descriptor_args 0 dl2;
          (inflator, dl4) = create addr ''Inflator'' [] [] 0 dl3;
          art_args = [VStr nDescriptor, VStr inflator];
          (art, dl5) = create addr ''NArt'' [] art_args 0 dl4
      in (dl5, [entry NFTDescriptorV2 library [] [], entry SVGRenderer renderer [] [],
                entry NDescriptorV2 nDescriptor descriptor_args [(''NFTDescriptorV2'', library)],
                entry Inflator inflator [] [], entry NArt art art_args []]))"

section \<open>What a finished run has deployed\<close>

text \<open>The nonce with which contract \<open>c\<close> is created, when the contracts of \<open>d\<close> are the ones that were
  not skipped.\<close>

fun nonce_at :: "operator \<Rightarrow> deployment \<Rightarrow> nat \<Rightarrow> (contract_name \<times> contract_deployment) list \<Rightarrow> contract_name \<Rightarrow> nat" where
  "nonce_at opr d n [] c = n"
| "nonce_at opr d n ((c', k) # cs) c =
     (let n' = n + op_foreign opr c'
      in if c = c' then n' else nonce_at opr d (if map_of d c' = None then n' else n' + 1) cs c)"

definition extends :: "deployment \<Rightarrow> deployment \<Rightarrow> bool" where
  "extends d d' \<longleftrightarrow> (\<forall>c p. map_of d c = Some p \<longrightarrow> map_of d' c = Some p)"

lemma eval_mono:
  "(extends d d' \<longrightarrow> eval_arg encode d a = Inr v \<longrightarrow> eval_arg encode d' a = Inr v)"
  "(extends d d' \<longrightarrow> eval_args encode d as = Inr vs \<longrightarrow> eval_args encode d' as = Inr vs)"
  by (induction encode d a and encode d as arbitrary: v and vs rule: eval_arg_eval_args.induct) (auto simp: extends_def)

lemma eval_libraries_mono:
  assumes "extends d d'" shows "eval_libraries d libs = Inr ls \<Longrightarrow> eval_libraries d' libs = Inr ls"
  using assms by (induction libs arbitrary: ls) (auto simp: eval_libraries_def extends_def)

definition built ::
  "(string \<Rightarrow> nat \<Rightarrow> string) \<Rightarrow> (arg_value list \<Rightarrow> string) \<Rightarrow> variant \<Rightarrow> string \<Rightarrow> nat \<Rightarrow> deployment \<Rightarrow>
     contract_name \<times> contract_deployment \<Rightarrow> bool" where
  "built addr encode va account n d = (\<lambda>(c, k). \<exists>libs vs.
     eval_libraries d (cd_libraries k) = Inr libs \<and> eval_args encode d (cd_args k) = Inr vs \<and>
     (map_of d c \<noteq> None \<longrightarrow>
        map_of d c = Some \<lparr>dp_name = va_factory va c, dp_address = addr account n, dp_constructorArguments = vs,
          dp_libraries = libs\<rparr> \<and> validate k (addr account n) = Inr ()))"

lemma deploy_loop_finished:
  assumes "deploy_loop addr encode va auto opr cs dl d = (dl', Inr (Finished d'))" and "distinct (map fst cs)"
    and "\<forall>c \<in> fst ` set cs. map_of d c = None"
  shows "extends d d' \<and> (\<forall>c. c \<notin> fst ` set cs \<longrightarrow> map_of d' c = map_of d c) \<and>
    (\<forall>(c, k) \<in> set cs. built addr encode va (dl_address dl) (nonce_at opr d' (dl_nonce dl) cs c) d' (c, k))"
  using assms
proof (induction cs arbitrary: dl d)
  case Nil
  then show ?case by (simp add: extends_def)
next
  case (Cons ck cs)
  obtain c k where ck: "ck = (c, k)" by force
  let ?dl = "dl\<lparr>dl_nonce := dl_nonce dl + op_foreign opr c\<rparr>"
  let ?fee = "if auto then va_fee va c else gwei (op_gwei opr c)"
  let ?adr = "addr (dl_address dl) (dl_nonce dl + op_foreign opr c)"
  obtain libs vs where ev: "eval_libraries d (cd_libraries k) = Inr libs" "eval_args encode d (cd_args k) = Inr vs"
    using Cons.prems(1) by (auto simp: ck Let_def split: sum.splits)
  have fresh: "map_of d c = None" "c \<notin> fst ` set cs" "distinct (map fst cs)" using Cons.prems(2,3) ck by auto
  show ?case
  proof (cases "map_of (if auto then [] else [(va_property va, op_answer opr c)]) ''operation'' = Some ''SKIP''")
    case True
    then have "deploy_loop addr encode va auto opr cs ?dl d = (dl', Inr (Finished d'))"
      using Cons.prems(1) ev by (simp add: ck Let_def split: if_splits)
    from Cons.IH [OF this fresh(3)] Cons.prems(3) have ih: "extends d d'" "\<forall>c. c \<notin> fst ` set cs \<longrightarrow> map_of d' c = map_of d c"
      "\<forall>(c', k) \<in> set cs. built addr encode va (dl_address dl)
         (nonce_at opr d' (dl_nonce dl + op_foreign opr c) cs c') d' (c', k)" by (auto simp: ck)
    moreover have "map_of d' c = None" using ih(2) fresh by simp
    ultimately show ?thesis
      using fresh ev eval_mono(2) [of d d'] eval_libraries_mono [of d d']
      by (fastforce simp: ck Let_def built_def)
  next
    case False
    let ?p = "\<lparr>dp_name = va_factory va c, dp_address = ?adr, dp_constructorArguments = vs, dp_libraries = libs\<rparr>"
    let ?dl1 = "snd (create addr (va_factory va c) (map (apsnd VStr) libs) vs ?fee ?dl)"
    have step: "validate k ?adr = Inr ()" "deploy_loop addr encode va auto opr cs ?dl1 (omap_set c ?p d) = (dl', Inr (Finished d'))"
      using Cons.prems(1) ev False by (auto simp: ck Let_def create_def split: if_splits sum.splits)
    have acc: "dl_address ?dl1 = dl_address dl" "dl_nonce ?dl1 = dl_nonce dl + op_foreign opr c + 1"
      by (simp_all add: create_def Let_def)
    have "\<forall>c' \<in> fst ` set cs. map_of (omap_set c ?p d) c' = None" using Cons.prems(3) fresh ck by (auto simp: update_conv)
    from Cons.IH [OF step(2) fresh(3) this]
    have ih: "extends (omap_set c ?p d) d'" "\<forall>c'. c' \<notin> fst ` set cs \<longrightarrow> map_of d' c' = map_of (omap_set c ?p d) c'"
      "\<forall>(c', k) \<in> set cs. built addr encode va (dl_address dl)
         (nonce_at opr d' (dl_nonce dl + op_foreign opr c + 1) cs c') d' (c', k)" by (auto simp: acc)
    have "extends d d'" using ih(1) fresh(1) unfolding extends_def update_conv by (metis fun_upd_apply option.distinct(1))
    moreover have "map_of d' c = Some ?p" using ih(2) fresh by (simp add: update_conv)
    ultimately show ?thesis
      using ih(2,3) fresh step(1) ev eval_mono(2) [of d d'] eval_libraries_mono [of d d']
      by (fastforce simp: ck Let_def built_def update_conv)
  qed
qed

definition deploy_names :: "contract_name list" where
  "deploy_names = [NFTDescriptorV2, SVGRenderer, NDescriptorV2, Inflator, NArt, NSeeder, NToken, NAuctionHouse,
     NAuctionHouseProxyAdmin, NAuctionHouseProxy, NDAOExecutor, NDAOLogicV1, NDAOProxy]"

definition address_in :: "deployment \<Rightarrow> contract_name \<Rightarrow> string" where
  "address_in d c = dp_address (the (map_of d c))"

text \<open>Every contract is deployed and was built with the arguments and libraries of the table in which
  the three predicted addresses are the addresses the contracts really have.\<close>

definition wired :: "(arg_value list \<Rightarrow> string) \<Rightarrow> deploy_args \<Rightarrow> string \<Rightarrow> string \<Rightarrow> string \<Rightarrow> deployment \<Rightarrow> bool" where
  "wired encode a punkers vote weth d \<longleftrightarrow>
     (\<forall>(c, k) \<in> set (deploy_contracts a punkers vote weth (address_in d NArt) (address_in d NAuctionHouseProxy)
                        (address_in d NDAOProxy)).
        \<exists>p. map_of d c = Some p \<and> eval_args encode d (cd_args k) = Inr (dp_constructorArguments p) \<and>
            eval_libraries d (cd_libraries k) = Inr (dp_libraries p))"

lemma deploy_contracts_names: "map fst (deploy_contracts a punkers vote weth x y z) = deploy_names"
  by (simp add: deploy_contracts_def deploy_names_def)

text \<open>The contracts that an entry of the table reads.\<close>

fun reads :: "contract_arg \<Rightarrow> contract_name list" where
  "reads (Const v) = []"
| "reads (AddressOf c) = [c]"
| "reads (InitializeCall as) = concat (map reads as)"

definition entry_reads :: "contract_deployment \<Rightarrow> contract_name list" where
  "entry_reads k = map snd (cd_libraries k) @ concat (map reads (cd_args k))"

lemma eval_reads:
  "eval_arg encode d a = Inr v \<longrightarrow> c \<in> set (reads a) \<longrightarrow> map_of d c \<noteq> None"
  "eval_args encode d as = Inr vs \<longrightarrow> c \<in> set (concat (map reads as)) \<longrightarrow> map_of d c \<noteq> None"
  by (induction encode d a and encode d as arbitrary: v and vs rule: eval_arg_eval_args.induct) auto

lemma built_reads:
  assumes "built addr encode va acc n d (c, k)" and "x \<in> set (entry_reads k)"
  shows "map_of d x \<noteq> None"
proof -
  obtain libs vs where ev: "eval_libraries d (cd_libraries k) = Inr libs" "eval_args encode d (cd_args k) = Inr vs"
    using assms(1) by (auto simp: built_def)
  have "map_of d x \<noteq> None" if "eval_libraries d ls = Inr libs" "x \<in> snd ` set ls" for ls libs
    using that by (induction ls arbitrary: libs) (auto simp: eval_libraries_def)
  with ev eval_reads(2) [of encode d "cd_args k" vs x] assms(2) show ?thesis
    by (auto simp: entry_reads_def)
qed

lemma finished_run_wired:
  assumes run: "deploy_loop addr encode va auto opr
      (deploy_contracts a punkers vote weth (addr acc (n + 4)) (addr acc (n + 9)) (addr acc (n + 12))) dl [] =
        (dl', Inr (Finished d))"
    and dl: "dl_address dl = acc" "dl_nonce dl = n"
    and inj: "\<And>i j. toLowerCase (addr acc i) = toLowerCase (addr acc j) \<Longrightarrow> i = j"
    and three: "map_of d NArt \<noteq> None" "map_of d NAuctionHouseProxy \<noteq> None" "map_of d NDAOProxy \<noteq> None"
  shows "wired encode a punkers vote weth d"
proof -
  let ?cs = "deploy_contracts a punkers vote weth (addr acc (n + 4)) (addr acc (n + 9)) (addr acc (n + 12))"
  have names: "map fst ?cs = deploy_names" by (rule deploy_contracts_names)
  have dist: "distinct deploy_names" by (simp add: deploy_names_def)
  have b: "\<forall>(c, k) \<in> set ?cs. built addr encode va acc (nonce_at opr d n ?cs c) d (c, k)"
    using deploy_loop_finished [OF run] dl names dist by simp
  have "\<forall>c \<in> set (concat (map (entry_reads \<circ> snd) ?cs)). map_of d c \<noteq> None"
    using b built_reads by fastforce
  moreover have "set deploy_names \<subseteq> {NArt, NAuctionHouseProxy, NDAOProxy} \<union> set (concat (map (entry_reads \<circ> snd) ?cs))"
    by (simp add: deploy_contracts_def deploy_names_def entry_reads_def plain_def with_args_def)
  ultimately have all: "map_of d c \<noteq> None" if "c \<in> set deploy_names" for c using that three by blast
  have present: "\<forall>c \<in> set deploy_names. map_of d c \<noteq> None" using all by blast
  have nonce: "nonce_at opr d n ?cs NDAOProxy = n + 12 + (\<Sum>c\<leftarrow>deploy_names. op_foreign opr c)"
    using present unfolding deploy_names_def by (simp add: deploy_contracts_def Let_def del: not_None_eq)
  have "toLowerCase (addr acc (n + 12)) = toLowerCase (addr acc (nonce_at opr d n ?cs NDAOProxy))"
    using b three(3) by (auto simp: deploy_contracts_def built_def validate_def simp del: nonce_at.simps split: if_splits)
  from inj [OF this] nonce have "(\<Sum>c\<leftarrow>deploy_names. op_foreign opr c) = 0" by simp
  then have quiet: "\<forall>c \<in> set deploy_names. op_foreign opr c = 0" by (simp add: sum_list_eq_0_iff)
  have "nonce_at opr d n ?cs NArt = n + 4" "nonce_at opr d n ?cs NAuctionHouseProxy = n + 9"
    "nonce_at opr d n ?cs NDAOProxy = n + 12"
    using present quiet unfolding deploy_names_def by (simp_all add: deploy_contracts_def Let_def del: not_None_eq)
  moreover have "address_in d c = addr acc (nonce_at opr d n ?cs c)" if "c \<in> set deploy_names" for c
  proof -
    have "c \<in> fst ` set ?cs" using that names by (metis list.set_map)
    then obtain k where "(c, k) \<in> set ?cs" by fastforce
    with b all [OF that] show ?thesis by (fastforce simp: built_def address_in_def)
  qed
  ultimately have real: "address_in d NArt = addr acc (n + 4)" "address_in d NAuctionHouseProxy = addr acc (n + 9)"
    "address_in d NDAOProxy = addr acc (n + 12)"
    by (simp_all add: deploy_names_def del: nonce_at.simps)
  have "c \<in> set deploy_names" if "(c, k) \<in> set ?cs" for c k
    using that names by (metis fst_conv image_eqI list.set_map)
  then show ?thesis
    using b all unfolding wired_def real by (fastforce simp: built_def)
qed

text \<open>Predicted addresses: whatever the operator answers and however many other transactions the
  deployer sends between the deployments, a run of \<open>deploy\<close> that finishes and has deployed the three
  contracts whose addresses were predicted has deployed all thirteen, each with the arguments and
  libraries of the table in which the predicted addresses are the real ones. (Addresses of different
  nonces are assumed to differ, ignoring case.)\<close>

lemma deploy_wired:
  assumes "deploy addr encode chainId network a opr dl = (dl', Inr (Finished d))"
    and "\<And>i j. toLowerCase (addr (dl_address dl) i) = toLowerCase (addr (dl_address dl) j) \<Longrightarrow> i = j"
    and "map_of d NArt \<noteq> None" and "map_of d NAuctionHouseProxy \<noteq> None" and "map_of d NDAOProxy \<noteq> None"
  shows "\<exists>vote weth.
    auto_detect ''CryptopunksVote'' ''cryptopunksVote'' cryptopunksVoteContracts chainId network (da_cryptopunksVote a) = Inr vote \<and>
    auto_detect ''WETH'' ''weth'' wethContracts chainId network (da_weth a) = Inr weth \<and>
    wired encode a (or_default (da_punkers a) (dl_address dl)) vote weth d"
proof -
  obtain vote weth where "auto_detect ''CryptopunksVote'' ''cryptopunksVote'' cryptopunksVoteContracts chainId network (da_cryptopunksVote a) = Inr vote"
    "auto_detect ''WETH'' ''weth'' wethContracts chainId network (da_weth a) = Inr weth"
    "deploy_loop addr encode deploy_variant (da_autoDeploy a) opr
      (deploy_contracts a (or_default (da_punkers a) (dl_address dl)) vote weth (addr (dl_address dl) (dl_nonce dl + 4))
        (addr (dl_address dl) (dl_nonce dl + 9)) (addr (dl_address dl) (dl_nonce dl + 12))) dl [] = (dl', Inr (Finished d))"
    using assms(1) by (auto simp: deploy_def deploy_task_def Let_def N_ART_NONCE_OFFSET_def
      AUCTION_HOUSE_PROXY_NONCE_OFFSET_def GOVERNOR_N_DELEGATOR_NONCE_OFFSET_def split: sum.splits)
  with finished_run_wired [OF this(3) refl refl assms(2-5)] show ?thesis by blast
qed

section \<open>Runs that finish\<close>

lemma eval_total:
  "set (reads a) \<subseteq> dom (map_of d) \<longrightarrow> (\<exists>v. eval_arg encode d a = Inr v)"
  "set (concat (map reads as)) \<subseteq> dom (map_of d) \<longrightarrow> (\<exists>vs. eval_args encode d as = Inr vs)"
  by (induction encode d a and encode d as rule: eval_arg_eval_args.induct) (auto simp del: map_of_eq_Some_iff)

lemma eval_libraries_total: "snd ` set libs \<subseteq> dom (map_of d) \<Longrightarrow> \<exists>ls. eval_libraries d libs = Inr ls"
  by (induction libs) (auto simp: eval_libraries_def)

fun ordered :: "contract_name set \<Rightarrow> (contract_name \<times> contract_deployment) list \<Rightarrow> bool" where
  "ordered S [] = True"
| "ordered S ((c, k) # cs) = (set (entry_reads k) \<subseteq> S \<and> c \<notin> S \<and> ordered (insert c S) cs)"

lemma upt_Suc_shift: "map f [Suc i..<Suc j] = map (\<lambda>x. f (Suc x)) [i..<j]"
  by (simp add: map_Suc_upt [symmetric] del: upt_Suc)

lemma deploy_loop_completes:
  assumes proceed: "auto \<or> (\<forall>c. va_property va = ''operation'' \<longrightarrow> op_answer opr c = ''DEPLOY'')"
    and quiet: "\<forall>c. op_foreign opr c = 0"
  shows "ordered (dom (map_of d)) cs \<Longrightarrow>
    (\<forall>i < length cs. validate (snd (cs ! i)) (addr (dl_address dl) (dl_nonce dl + i)) = Inr ()) \<Longrightarrow>
    \<exists>dl' d'. deploy_loop addr encode va auto opr cs dl d = (dl', Inr (Finished d')) \<and>
      dl_nonce dl' = dl_nonce dl + length cs \<and>
      map (\<lambda>(c, p). (c, dp_address p)) d' = map (\<lambda>(c, p). (c, dp_address p)) d @
        zip (map fst cs) (map (\<lambda>i. addr (dl_address dl) (dl_nonce dl + i)) [0..<length cs])"
proof (induction cs arbitrary: dl d)
  case Nil
  then show ?case by simp
next
  case (Cons ck cs)
  obtain c k where ck: "ck = (c, k)" by force
  let ?fee = "if auto then va_fee va c else gwei (op_gwei opr c)"
  let ?adr = "addr (dl_address dl) (dl_nonce dl)"
  have rd: "set (entry_reads k) \<subseteq> dom (map_of d)" "map_of d c = None" "ordered (insert c (dom (map_of d))) cs"
    using Cons.prems(1) by (auto simp: ck)
  obtain libs where l: "eval_libraries d (cd_libraries k) = Inr libs"
    using eval_libraries_total [of "cd_libraries k" d] rd(1) by (auto simp: entry_reads_def)
  obtain vs where v: "eval_args encode d (cd_args k) = Inr vs"
    using eval_total(2) [of "cd_args k" d encode] rd(1) by (auto simp: entry_reads_def)
  let ?p = "\<lparr>dp_name = va_factory va c, dp_address = ?adr, dp_constructorArguments = vs, dp_libraries = libs\<rparr>"
  let ?dl1 = "snd (create addr (va_factory va c) (map (apsnd VStr) libs) vs ?fee dl)"
  have acc: "dl_address ?dl1 = dl_address dl" "dl_nonce ?dl1 = Suc (dl_nonce dl)" by (simp_all add: create_def Let_def)
  have op: "map_of (if auto then [] else [(va_property va, op_answer opr c)]) ''operation'' \<noteq> Some ''SKIP''"
    "map_of (if auto then [] else [(va_property va, op_answer opr c)]) ''operation'' \<noteq> Some ''EXIT''"
    using proceed by auto
  have valid: "validate k ?adr = Inr ()" using Cons.prems(2) by (auto simp: ck dest: spec [of _ 0])
  have dl0: "dl\<lparr>dl_nonce := dl_nonce dl + op_foreign opr c\<rparr> = dl" using quiet by simp
  have step: "deploy_loop addr encode va auto opr (ck # cs) dl d = deploy_loop addr encode va auto opr cs ?dl1 (omap_set c ?p d)"
    using op valid by (simp add: ck dl0 l v Let_def create_def del: map_of.simps)
  have upd: "omap_set c ?p d = d @ [(c, ?p)]" using rd(2) by (simp add: omap_set_fresh map_of_eq_None_iff)
  have "dom (map_of (omap_set c ?p d)) = insert c (dom (map_of d))" by (auto simp: update_conv)
  moreover have "\<forall>i < length cs. validate (snd (cs ! i)) (addr (dl_address ?dl1) (dl_nonce ?dl1 + i)) = Inr ()"
    using Cons.prems(2) by (auto simp: acc dest: spec [of _ "Suc _"])
  ultimately obtain dl' d' where "deploy_loop addr encode va auto opr cs ?dl1 (omap_set c ?p d) = (dl', Inr (Finished d'))"
    "dl_nonce dl' = dl_nonce ?dl1 + length cs"
    "map (\<lambda>(c, p). (c, dp_address p)) d' = map (\<lambda>(c, p). (c, dp_address p)) (omap_set c ?p d) @
        zip (map fst cs) (map (\<lambda>i. addr (dl_address ?dl1) (dl_nonce ?dl1 + i)) [0..<length cs])"
    using Cons.IH [of "omap_set c ?p d" ?dl1] rd(3) by auto
  then show ?case
    unfolding step by (simp add: ck acc upd upt_conv_Cons upt_Suc_shift del: upt_Suc)
qed

lemma toLowerCase_same: "validate (with_args as) x = Inr ()" "validate plain x = Inr ()"
  "validate \<lparr>cd_args = as, cd_libraries = ls, cd_expected = None\<rparr> x = Inr ()"
  "validate \<lparr>cd_args = as, cd_libraries = ls, cd_expected = Some (w, x)\<rparr> x = Inr ()"
  by (simp_all add: validate_def with_args_def plain_def)

lemma nat_less_13_cases:
  "i < (13::nat) \<Longrightarrow> i = 0 \<or> i = 1 \<or> i = 2 \<or> i = 3 \<or> i = 4 \<or> i = 5 \<or> i = 6 \<or> i = 7 \<or> i = 8 \<or> i = 9 \<or> i = 10 \<or> i = 11 \<or> i = 12"
  by presburger

lemma deploy_table_completes:
  assumes "auto \<or> (\<forall>c. va_property va = ''operation'' \<longrightarrow> op_answer opr c = ''DEPLOY'')" and "\<forall>c. op_foreign opr c = 0"
  shows "\<exists>dl' d'. deploy_loop addr encode va auto opr
      (deploy_contracts a punkers vote weth (addr (dl_address dl) (dl_nonce dl + 4)) (addr (dl_address dl) (dl_nonce dl + 9))
        (addr (dl_address dl) (dl_nonce dl + 12))) dl [] = (dl', Inr (Finished d')) \<and>
    dl_nonce dl' = dl_nonce dl + 13 \<and>
    map (\<lambda>(c, p). (c, dp_address p)) d' = zip deploy_names (map (\<lambda>i. addr (dl_address dl) (dl_nonce dl + i)) [0..<13])"
proof -
  let ?cs = "deploy_contracts a punkers vote weth (addr (dl_address dl) (dl_nonce dl + 4)) (addr (dl_address dl) (dl_nonce dl + 9))
        (addr (dl_address dl) (dl_nonce dl + 12))"
  have o: "ordered (dom (map_of [])) ?cs"
    by (simp add: deploy_contracts_def entry_reads_def with_args_def plain_def)
  have len: "length ?cs = 13" by (simp add: deploy_contracts_def)
  have v: "\<forall>i < length ?cs. validate (snd (?cs ! i)) (addr (dl_address dl) (dl_nonce dl + i)) = Inr ()"
    unfolding len by (auto simp: deploy_contracts_def toLowerCase_same dest!: nat_less_13_cases)
  from deploy_loop_completes [where addr = addr and dl = dl, OF assms o v, of encode] show ?thesis
    by (simp add: deploy_contracts_names len)
qed

lemma deploy_completes_aux:
  assumes "auto_detect ''CryptopunksVote'' ''cryptopunksVote'' cryptopunksVoteContracts chainId network (da_cryptopunksVote a) = Inr vote"
    and "auto_detect ''WETH'' ''weth'' wethContracts chainId network (da_weth a) = Inr weth"
    and "da_autoDeploy a \<or> (\<forall>c. op_answer opr c = ''DEPLOY'')" and "\<forall>c. op_foreign opr c = 0"
  shows "\<exists>dl' d. deploy addr encode chainId network a opr dl = (dl', Inr (Finished d)) \<and>
    dl_nonce dl' = dl_nonce dl + 13 \<and>
    map (\<lambda>(c, p). (c, dp_address p)) d = zip deploy_names (map (\<lambda>i. addr (dl_address dl) (dl_nonce dl + i)) [0..<13])"
proof -
  have proceed: "da_autoDeploy a \<or> (\<forall>c. va_property deploy_variant = ''operation'' \<longrightarrow> op_answer opr c = ''DEPLOY'')"
    using assms(3) by blast
  show ?thesis
    using deploy_table_completes [OF proceed assms(4), of addr encode a "or_default (da_punkers a) (dl_address dl)" vote weth dl]
    by (simp add: deploy_def deploy_task_def assms(1,2) Let_def N_ART_NONCE_OFFSET_def AUCTION_HOUSE_PROXY_NONCE_OFFSET_def
        GOVERNOR_N_DELEGATOR_NONCE_OFFSET_def del: upt_Suc)
qed

text \<open>C34. The run without interference: when every contract is confirmed and the deployer sends
  nothing else, \<open>deploy\<close> finishes, no validation fails and no address is read too early, and contract
  \<open>i\<close> of the thirteen has the address of the \<open>i\<close>-th nonce from the start.\<close>

theorem deploy_completes:
  assumes "auto_detect ''CryptopunksVote'' ''cryptopunksVote'' cryptopunksVoteContracts chainId network (da_cryptopunksVote a) = Inr vote"
    and "auto_detect ''WETH'' ''weth'' wethContracts chainId network (da_weth a) = Inr weth"
    and "da_autoDeploy a \<or> (\<forall>c. op_answer opr c = ''DEPLOY'')" and "\<forall>c. op_foreign opr c = 0"
  shows "\<exists>dl' d. deploy addr encode chainId network a opr dl = (dl', Inr (Finished d)) \<and>
    dl_nonce dl' = dl_nonce dl + 13 \<and>
    map (\<lambda>(c, p). (c, dp_address p)) d = zip deploy_names (map (\<lambda>i. addr (dl_address dl) (dl_nonce dl + i)) [0..<13])"
  using assms by (rule deploy_completes_aux)

definition demo_deployer :: deployer where
  "demo_deployer = \<lparr>dl_address = ''0xd'', dl_nonce = 5, dl_created = []\<rparr>"

definition demo_operator :: operator where
  "demo_operator = \<lparr>op_answer = (\<lambda>_. ''DEPLOY''), op_gwei = (\<lambda>_. 20), op_foreign = (\<lambda>_. 0)\<rparr>"

lemma demo_detect:
  "auto_detect ''CryptopunksVote'' ''cryptopunksVote'' cryptopunksVoteContracts 1 ''mainnet'' (da_cryptopunksVote deploy_defaults) =
     Inr ''0x28b50f3e79b4921146ee7dfD18FB3Ea61294617b''"
  "auto_detect ''WETH'' ''weth'' wethContracts 1 ''mainnet'' (da_weth deploy_defaults) =
     Inr ''0xC02aaA39b223FE8D0A0e5C4F27eAD9083C756Cc2''"
  by (simp_all add: auto_detect_def deploy_defaults_def cryptopunksVoteContracts_def wethContracts_def)

theorem deploy_completes_witness:
  "\<exists>dl' d. deploy (\<lambda>acc n. replicate n CHR ''a'') (\<lambda>_. []) 1 ''mainnet'' deploy_defaults demo_operator demo_deployer =
     (dl', Inr (Finished d)) \<and> dl_nonce dl' = 18"
  using deploy_completes [OF demo_detect, of demo_operator "\<lambda>acc n. replicate n CHR ''a''" "\<lambda>_. []" demo_deployer]
  by (auto simp: demo_operator_def demo_deployer_def)

section \<open>The other deployments\<close>

text \<open>\<open>deploy-short-times\<close> stores the answer as \<open>confirm\<close> and reads \<open>operation\<close>: what the operator
  answers makes no difference, so contracts cannot be skipped and the run cannot be left.\<close>

lemma answers_ignored:
  "va_property va \<noteq> ''operation'' \<Longrightarrow>
    deploy_loop addr encode va auto (opr\<lparr>op_answer := f\<rparr>) cs dl d = deploy_loop addr encode va auto opr cs dl d"
proof (induction cs arbitrary: dl d)
  case (Cons ck cs)
  then show ?case by (cases ck; cases auto) (simp_all add: Let_def case_prod_beta split: sum.splits)
qed simp

lemma short_times_ignores_answers:
  "deploy_short_times gasPrice addr encode chainId network a (opr\<lparr>op_answer := f\<rparr>) dl =
    deploy_short_times gasPrice addr encode chainId network a opr dl"
  by (simp add: deploy_short_times_def deploy_task_def answers_ignored Let_def cong: sum.case_cong)

lemma instance_defined: "c \<in> fst ` set d \<Longrightarrow> instance_address d c \<noteq> VUndefined"
  by (simp add: instance_address_def map_of_eq_None_iff split: option.splits)

lemma local_arg_defined:
  "set (reads a) \<subseteq> fst ` set d \<Longrightarrow> a \<noteq> Const VUndefined \<Longrightarrow> local_arg encode d a \<noteq> VUndefined"
  by (cases a) (simp_all add: instance_defined)

definition defined_creation :: "creation \<Rightarrow> bool" where
  "defined_creation cr \<longleftrightarrow> VUndefined \<notin> set (cr_args cr) \<and> VUndefined \<notin> snd ` set (cr_libraries cr)"

lemma local_loop_result:
  "ordered (fst ` set d) cs \<Longrightarrow> \<forall>(c, k) \<in> set cs. Const VUndefined \<notin> set (cd_args k) \<Longrightarrow>
    local_loop addr encode cs dl d = (dl', d') \<Longrightarrow>
    d' = d @ zip (map fst cs) (map (\<lambda>i. addr (dl_address dl) (dl_nonce dl + i)) [0..<length cs]) \<and>
    (\<forall>cr \<in> set (dl_created dl'). cr \<in> set (dl_created dl) \<or> defined_creation cr)"
proof (induction cs arbitrary: dl d)
  case (Cons ck cs)
  obtain c k where ck: "ck = (c, k)" by force
  let ?libs = "map (apsnd (instance_address d)) (cd_libraries k)"
  let ?vs = "map (local_arg encode d) (cd_args k)"
  let ?dl1 = "snd (create addr (contract_string c) ?libs ?vs 0 dl)"
  let ?d1 = "d @ [(c, addr (dl_address dl) (dl_nonce dl))]"
  have o: "set (entry_reads k) \<subseteq> fst ` set d" "c \<notin> fst ` set d" "ordered (fst ` set ?d1) cs"
    using Cons.prems(1) by (auto simp: ck)
  have run: "local_loop addr encode cs ?dl1 ?d1 = (dl', d')"
    using Cons.prems(3) o(2) by (simp add: ck Let_def create_def omap_set_fresh)
  have "defined_creation (hd (dl_created ?dl1))"
  proof -
    have "local_arg encode d x \<noteq> VUndefined" if "x \<in> set (cd_args k)" for x
      using that o(1) Cons.prems(2) by (intro local_arg_defined) (auto simp: ck entry_reads_def)
    moreover have "instance_address d x \<noteq> VUndefined" if "(l, x) \<in> set (cd_libraries k)" for l x
      using that o(1) by (intro instance_defined) (force simp: entry_reads_def)
    ultimately show ?thesis
      by (fastforce simp: create_def Let_def defined_creation_def)
  qed
  moreover have "dl_created ?dl1 = hd (dl_created ?dl1) # dl_created dl" by (simp add: create_def Let_def)
  moreover have ih: "d' = ?d1 @ zip (map fst cs) (map (\<lambda>i. addr (dl_address ?dl1) (dl_nonce ?dl1 + i)) [0..<length cs])"
    "\<forall>cr \<in> set (dl_created dl'). cr \<in> set (dl_created ?dl1) \<or> defined_creation cr"
    using Cons.IH [OF o(3) _ run] Cons.prems(2) by auto
  ultimately have "\<forall>cr \<in> set (dl_created dl'). cr \<in> set (dl_created dl) \<or> defined_creation cr"
    by (metis set_ConsD)
  moreover have "dl_address ?dl1 = dl_address dl" "dl_nonce ?dl1 = Suc (dl_nonce dl)" by (simp_all add: create_def Let_def)
  ultimately show ?case using ih(1) by (simp add: ck upt_conv_Cons upt_Suc_shift del: upt_Suc)
qed simp

definition local_names :: "contract_name list" where
  "local_names = [WETH, CryptopunksMock, WrappedPunkMock, CryptopunksVote] @ deploy_names"

lemma local_run:
  "\<exists>dl' d. deploy_local addr encode 31337 a dl = (dl', Some d) \<and>
    d = zip local_names (map (\<lambda>i. addr (dl_address dl) (dl_nonce dl + i)) [0..<17]) \<and>
    (\<forall>cr \<in> set (dl_created dl') - set (dl_created dl). defined_creation cr)"
proof -
  let ?cs = "local_contracts a (dl_address dl) (addr (dl_address dl) (dl_nonce dl + 8)) (addr (dl_address dl) (dl_nonce dl + 13))
    (addr (dl_address dl) (dl_nonce dl + 16))"
  obtain dl' d where run: "local_loop addr encode ?cs dl [] = (dl', d)" by fastforce
  have "ordered (fst ` set ([] :: (contract_name, string) omap)) ?cs" "\<forall>(c, k) \<in> set ?cs. Const VUndefined \<notin> set (cd_args k)"
    "map fst ?cs = local_names" "length ?cs = 17"
    by (simp_all add: local_contracts_def Let_def entry_reads_def with_args_def plain_def local_names_def deploy_names_def)
  with local_loop_result [OF this(1,2) run]
  have d: "d = zip local_names (map (\<lambda>i. addr (dl_address dl) (dl_nonce dl + i)) [0..<17])"
    "\<forall>cr \<in> set (dl_created dl') - set (dl_created dl). defined_creation cr" by auto
  have "deploy_local addr encode 31337 a dl = (dl', Some d)" by (simp add: deploy_local_def run)
  with d show ?thesis by blast
qed

text \<open>The local deployment and the new descriptor: \<open>deploy-local\<close> deploys all 17 contracts, none
  with an undefined argument, contract \<open>i\<close> at the address of nonce \<open>i\<close>; so the addresses it predicts
  with the offsets 8, 13 and 16 are those of \<open>NArt\<close>, the auction house proxy and the DAO proxy. In
  \<open>deploy-descriptor-v2\<close> the descriptor gets the address that \<open>NArt\<close> has later.\<close>

lemma local_deployment:
  "(\<exists>dl' d. deploy_local addr encode 31337 a dl = (dl', Some d) \<and>
      d = zip local_names (map (\<lambda>i. addr (dl_address dl) (dl_nonce dl + i)) [0..<17]) \<and>
      map_of d NArt = Some (addr (dl_address dl) (dl_nonce dl + 8)) \<and>
      map_of d NAuctionHouseProxy = Some (addr (dl_address dl) (dl_nonce dl + 13)) \<and>
      map_of d NDAOProxy = Some (addr (dl_address dl) (dl_nonce dl + 16)) \<and>
      (\<forall>cr \<in> set (dl_created dl') - set (dl_created dl). defined_creation cr)) \<and>
   map dp_constructorArguments (map snd (filter (\<lambda>(c, p). c = NDescriptorV2) (snd (deploy_descriptor_v2 addr dl)))) =
     [[VStr (address_in (snd (deploy_descriptor_v2 addr dl)) NArt),
       VStr (address_in (snd (deploy_descriptor_v2 addr dl)) SVGRenderer)]]"
proof -
  obtain dl' d where run: "deploy_local addr encode 31337 a dl = (dl', Some d)"
    and d: "d = zip local_names (map (\<lambda>i. addr (dl_address dl) (dl_nonce dl + i)) [0..<17])"
    and def: "\<forall>cr \<in> set (dl_created dl') - set (dl_created dl). defined_creation cr"
    using local_run [of addr encode a dl] by blast
  have "map_of d NArt = Some (addr (dl_address dl) (dl_nonce dl + 8)) \<and>
      map_of d NAuctionHouseProxy = Some (addr (dl_address dl) (dl_nonce dl + 13)) \<and>
      map_of d NDAOProxy = Some (addr (dl_address dl) (dl_nonce dl + 16))"
    by (simp add: d local_names_def deploy_names_def upt_conv_Cons) (simp add: numeral_eq_Suc)
  moreover have "map dp_constructorArguments (map snd (filter (\<lambda>(c, p). c = NDescriptorV2) (snd (deploy_descriptor_v2 addr dl)))) =
     [[VStr (address_in (snd (deploy_descriptor_v2 addr dl)) NArt),
       VStr (address_in (snd (deploy_descriptor_v2 addr dl)) SVGRenderer)]]"
    by (simp add: deploy_descriptor_v2_def create_def Let_def address_in_def numeral_eq_Suc)
  ultimately show ?thesis using run d def by blast
qed

end
