(* ===== verification/Tasks_Seed.thy ===== *)
theory Tasks_Seed
  imports Codec "HOL-Library.Multiset"
begin

text \<open>
  The seeds of the original punks in \<open>packages/punks-contracts/tasks\<close>: \<open>calculateSeedHash\<close>
  (\<open>utils/index.ts\<close>) and the two tasks that derive a seed from a row of the CSV files,
  \<open>create-merkle.ts\<close> and \<open>generate-og-punks.ts\<close>. The documents \<open>punk_name.json\<close> and
  \<open>probability.json\<close> are parameters, in the order of \<open>Object.entries\<close>; the rows are what the
  CSV reader returns. The lemmas show that the hexadecimal string is the number the token contract
  computes, that it decodes to the sorted seed, and where the two tasks agree.
\<close>

section \<open>The seed hash\<close>

record acc =
  accType :: int
  accId :: int

record seed =
  punkType :: int
  skinTone :: int
  accessories :: "acc list"

definition invalid_value :: js_error where
  "invalid_value = ErrorMsg ''Invalid value''"

text \<open>The loop over the sorted accessories: it throws on a value above 255 and on a repeated type.\<close>

fun push_accs :: "int \<Rightarrow> acc list \<Rightarrow> int list result" where
  "push_accs prevAccType [] = Inr []"
| "push_accs prevAccType (a # as) =
     (if accType a > 255 \<or> accId a > 255 \<or> accType a = prevAccType then Inl invalid_value
      else rbind (push_accs (accType a) as) (\<lambda>rest. Inr (accType a # accId a # rest)))"

definition seed_data :: "seed \<Rightarrow> int list result" where
  "seed_data s =
     (if punkType s > 255 then Inl invalid_value
      else if skinTone s > 255 then Inl invalid_value
      else if length (accessories s) > 14 then Inl invalid_value
      else rbind (push_accs (- 1) (sort_key accType (accessories s)))
        (\<lambda>accs. Inr (punkType s # skinTone s # int (length (accessories s)) # accs)))"

definition byte_hex :: "int \<Rightarrow> string" where
  "byte_hex n = (if n > 15 then [] else ''0'') @ int_to_base 16 n"

definition calculateSeedHash :: "seed \<Rightarrow> string result" where
  "calculateSeedHash s =
     rbind (seed_data s) (\<lambda>data.
       let seedHash = fold (\<lambda>n h. byte_hex n @ h) data ''01''
       in Inr (''0x'' @ padStart seedHash 64 CHR ''0''))"

section \<open>Rows of the CSV files\<close>

record name_entry =
  ne_name :: string
  ne_gender :: string

record prob_doc =
  pd_acc_types :: "string list"
  pd_accessories :: "(string, string) omap"

type_synonym name_doc = "(string, name_entry) omap"

definition column :: "string list \<Rightarrow> nat \<Rightarrow> string result" where
  "column row k = of_option TypeError (if k < length row then Some (row ! k) else None)"

record punk_row =
  r_type :: string
  r_gender :: string
  r_skinTone :: string
  r_accessories :: "string list"

text \<open>\<open>Number(punk[0].trim())\<close> only fails when the column is missing; the id is not used.\<close>

definition parse_row :: "string list \<Rightarrow> punk_row result" where
  "parse_row row =
     rbind (column row 0) (\<lambda>_.
     rbind (column row 1) (\<lambda>ty.
     rbind (column row 2) (\<lambda>gender.
     rbind (column row 3) (\<lambda>skin.
     rbind (column row 5) (\<lambda>accs.
       Inr \<lparr>r_type = trim (toLowerCase ty), r_gender = trim (toLowerCase gender),
            r_skinTone = toLowerCase (trim skin),
            r_accessories = filter (\<lambda>acc. acc \<noteq> []) (map trim (split_str ''/'' accs))\<rparr>)))))"

definition row_punkType :: "punk_row \<Rightarrow> int" where
  "row_punkType p =
     (if r_type p = ''human'' then (if r_gender p = ''male'' then 0 else 1)
      else if r_type p = ''alien'' then 2 else if r_type p = ''ape'' then 3 else 4)"

definition merkle_skinTone :: "punk_row \<Rightarrow> int" where
  "merkle_skinTone p =
     (let t = r_skinTone p
      in if t = ''albino'' then 0 else if t = ''light'' then 1 else if t = ''medium'' then 2
         else if t = ''dark'' then 3 else if t = ''green'' then 4 else if t = ''brown'' then 5
         else if t = ''blue'' then 6 else 0)"

definition generate_skinTone :: "punk_row \<Rightarrow> int" where
  "generate_skinTone p =
     (let t = r_skinTone p
      in if t = ''albino'' then 0 else if t = ''light'' then 1 else if t = ''medium'' then 2
         else if t = ''dark'' then 3 else if t = ''green'' then 4 else if t = ''brown'' then 5
         else if t = ''blue'' then 6
         else if r_type p = ''alien'' then 6 else if r_type p = ''ape'' then 5
         else if r_type p = ''zombie'' then 4 else 0)"

definition index_in :: "'a list \<Rightarrow> 'a \<Rightarrow> int" where
  "index_in xs x = (case find_index (\<lambda>y. y = x) xs of None \<Rightarrow> - 1 | Some i \<Rightarrow> int i)"

definition accGroupByType :: "prob_doc \<Rightarrow> string list list" where
  "accGroupByType doc =
     map (\<lambda>ty. map fst (filter (\<lambda>entry. snd entry = ty) (pd_accessories doc))) (pd_acc_types doc)"

definition find_acc :: "name_doc \<Rightarrow> prob_doc \<Rightarrow> string \<Rightarrow> string \<Rightarrow> acc result" where
  "find_acc names doc gender accName =
     (case find (\<lambda>entry. ne_name (snd entry) = accName \<and> ne_gender (snd entry) = gender) names of
        None \<Rightarrow> Inl (ErrorMsg ''Accessory name not found.'')
      | Some (acc, _) \<Rightarrow>
          rbind (of_option TypeError (map_of (pd_accessories doc) acc)) (\<lambda>ty.
            let accTypeIndex = index_in (pd_acc_types doc) ty
            in if accTypeIndex < 0 then Inl (ErrorMsg ''Invalid accessory type.'')
               else Inr \<lparr>accType = accTypeIndex,
                         accId = index_in (accGroupByType doc ! nat accTypeIndex) acc\<rparr>))"

definition row_seed :: "(punk_row \<Rightarrow> int) \<Rightarrow> name_doc \<Rightarrow> prob_doc \<Rightarrow> string list \<Rightarrow> seed result" where
  "row_seed skin names doc row =
     rbind (parse_row row) (\<lambda>p.
     rbind (rmap_list (find_acc names doc (r_gender p)) (r_accessories p)) (\<lambda>accs.
       Inr \<lparr>punkType = row_punkType p, skinTone = skin p, accessories = accs\<rparr>))"

definition create_merkle :: "name_doc \<Rightarrow> prob_doc \<Rightarrow> string list list \<Rightarrow> string list result" where
  "create_merkle names doc punks =
     rmap_list (\<lambda>row. rbind (row_seed merkle_skinTone names doc row) calculateSeedHash) punks"

text \<open>\<open>svgImage\<close> stands for the call of the descriptor contract and the decoding of its answer.\<close>

definition og_file_name :: "nat \<Rightarrow> string" where
  "og_file_name i = ''./output/og_ours/punk_'' @ padStart (dec i) 5 CHR ''0'' @ ''.svg''"

definition generate_og_punks ::
  "(seed \<Rightarrow> string result) \<Rightarrow> name_doc \<Rightarrow> prob_doc \<Rightarrow> string list list \<Rightarrow> (string \<times> string) list result" where
  "generate_og_punks svgImage names doc punks =
     rmap_list (\<lambda>i.
       rbind (of_option TypeError (if i < length punks then Some (punks ! i) else None)) (\<lambda>row.
       rbind (row_seed generate_skinTone names doc row) (\<lambda>s.
       rbind (svgImage s) (\<lambda>svg. Inr (og_file_name i, svg))))) [0..<10000]"

section \<open>The contract's encoding\<close>

text \<open>\<open>calculateSeedHash\<close> and \<open>_decodeSeedHash\<close> of \<open>NToken.sol\<close>, on natural numbers: no sum of
  at most 14 accessories exceeds 256 bits. The contract assumes sorted accessories.\<close>

fun contract_accs :: "nat \<Rightarrow> acc list \<Rightarrow> nat" where
  "contract_accs i [] = 0"
| "contract_accs i (a # as) =
     nat (accType a) * 2 ^ (16 * i + 32) + nat (accId a) * 2 ^ (16 * i + 40) + contract_accs (i + 1) as"

definition contract_seedHash :: "seed \<Rightarrow> nat" where
  "contract_seedHash s =
     1 + nat (punkType s) * 2 ^ 8 + nat (skinTone s) * 2 ^ 16 + length (accessories s) * 2 ^ 24 +
     contract_accs 0 (accessories s)"

definition contract_decode :: "nat \<Rightarrow> seed" where
  "contract_decode v =
     \<lparr>punkType = int (v div 2 ^ 8 mod 256), skinTone = int (v div 2 ^ 16 mod 256),
      accessories = map (\<lambda>i. \<lparr>accType = int (v div 2 ^ (16 * i + 32) mod 256),
                                accId = int (v div 2 ^ (16 * i + 40) mod 256)\<rparr>)
                      [0..<v div 2 ^ 24 mod 256]\<rparr>"

section \<open>Little-endian bytes\<close>

fun le_value :: "nat list \<Rightarrow> nat" where
  "le_value [] = 0"
| "le_value (b # bs) = b + 256 * le_value bs"

definition byte :: "int \<Rightarrow> bool" where
  "byte n \<longleftrightarrow> 0 \<le> n \<and> n \<le> 255"

lemma byte_hex_padded: "byte n \<Longrightarrow> byte_hex n = padStart (hex (nat n)) 2 CHR ''0''"
proof (cases "n > 15")
  case True
  assume "byte n"
  with True have "\<not> nat n < 16" "nat n div 16 < 16" by (simp_all add: byte_def)
  then have "length (hex (nat n)) = 2" by (subst nat_to_base.simps) (simp add: hex_less_16)
  with True show ?thesis by (simp add: byte_hex_def int_to_base_def padStart_def)
next
  case False
  assume "byte n"
  with False show ?thesis
    by (simp add: byte_hex_def int_to_base_def padStart_def hex_less_16 byte_def)
qed

lemma length_byte_hex: "byte n \<Longrightarrow> length (byte_hex n) = 2"
  using length_hex_le2 [of "nat n"] by (auto simp: byte_hex_padded byte_def nat_less_iff max_def)

lemma parse_byte_hex: "byte n \<Longrightarrow> parseInt 16 (byte_hex n) = Some n"
  by (simp add: byte_hex_padded parseInt_padded_hex byte_def)

interpretation byte_codec: fixed_codec byte_hex "parseInt 16" Some byte 2
  by unfold_locales (auto simp: length_byte_hex parse_byte_hex)

lemma base_value_byte_hex: "byte n \<Longrightarrow> base_value 16 (byte_hex n) = nat n"
  by (simp add: byte_hex_padded padStart_def digit_char_0 [symmetric] base_value_leading_zeros base_value_nat_to_base)

lemma hash_text:
  "fold (\<lambda>n h. byte_hex n @ h) data h = concat (map byte_hex (rev data)) @ h"
  by (induction data arbitrary: h) simp_all

lemma base_value_bytes:
  "list_all byte data \<Longrightarrow> base_value 16 (concat (map byte_hex (rev data))) = le_value (map nat data)"
proof (induction data)
  case Nil
  then show ?case by (simp add: base_value_def)
next
  case (Cons n data)
  then show ?case by (simp add: base_value_append base_value_byte_hex length_byte_hex power2_eq_square)
qed

lemma le_value_nth:
  "list_all (\<lambda>b. b < 256) bs \<Longrightarrow> i < length bs \<Longrightarrow> le_value bs div 256 ^ i mod 256 = bs ! i"
proof (induction bs arbitrary: i)
  case (Cons b bs)
  then show ?case by (cases i) (simp_all add: div_mult2_eq)
qed simp

section \<open>The hash is the contract's number\<close>

definition acc_ok :: "acc \<Rightarrow> bool" where
  "acc_ok a \<longleftrightarrow> byte (accType a) \<and> byte (accId a)"

definition seed_ok :: "seed \<Rightarrow> bool" where
  "seed_ok s \<longleftrightarrow> byte (punkType s) \<and> byte (skinTone s) \<and> length (accessories s) \<le> 14 \<and>
     list_all acc_ok (accessories s) \<and> distinct (map accType (accessories s))"

definition sorted_seed :: "seed \<Rightarrow> seed" where
  "sorted_seed s = s\<lparr>accessories := sort_key accType (accessories s)\<rparr>"

definition flat_accs :: "acc list \<Rightarrow> int list" where
  "flat_accs as = concat (map (\<lambda>a. [accType a, accId a]) as)"

lemma flat_accs_simps [simp]:
  "flat_accs [] = []" "flat_accs (a # as) = accType a # accId a # flat_accs as"
  by (simp_all add: flat_accs_def)

lemma push_accs_sorted:
  "sorted (map accType as) \<Longrightarrow> \<forall>a \<in> set as. prev \<le> accType a \<Longrightarrow>
     push_accs prev as =
       (if (\<forall>a \<in> set as. accType a \<le> 255 \<and> accId a \<le> 255 \<and> accType a \<noteq> prev) \<and> distinct (map accType as)
        then Inr (flat_accs as) else Inl invalid_value)"
proof (induction as arbitrary: prev)
  case (Cons a as)
  have ih: "push_accs (accType a) as =
       (if (\<forall>x \<in> set as. accType x \<le> 255 \<and> accId x \<le> 255 \<and> accType x \<noteq> accType a) \<and> distinct (map accType as)
        then Inr (flat_accs as) else Inl invalid_value)"
    by (rule Cons.IH) (use Cons.prems in auto)
  show ?case
  proof (cases "accType a > 255 \<or> accId a > 255 \<or> accType a = prev")
    case True
    then show ?thesis by auto
  next
    case False
    then have "accType x \<noteq> prev" if "x \<in> set as" for x
      using Cons.prems that by force
    moreover have "accType a \<notin> accType ` set as \<longleftrightarrow> (\<forall>x \<in> set as. accType x \<noteq> accType a)"
      unfolding image_iff by metis
    ultimately show ?thesis using False ih by auto
  qed
qed simp

lemma seed_data_ok:
  assumes "0 \<le> punkType s" and "0 \<le> skinTone s" and "\<forall>a \<in> set (accessories s). 0 \<le> accType a \<and> 0 \<le> accId a"
  shows "seed_data s =
    (if seed_ok s then Inr (punkType s # skinTone s # int (length (accessories s)) # flat_accs (accessories (sorted_seed s)))
     else Inl invalid_value)"
proof -
  let ?as = "sort_key accType (accessories s)"
  have "push_accs (- 1) ?as =
       (if (\<forall>a \<in> set ?as. accType a \<le> 255 \<and> accId a \<le> 255 \<and> accType a \<noteq> - 1) \<and> distinct (map accType ?as)
        then Inr (flat_accs ?as) else Inl invalid_value)"
    by (rule push_accs_sorted) (use assms(3) in force)+
  moreover have "distinct (map accType ?as) \<longleftrightarrow> distinct (map accType (accessories s))"
    by (rule mset_eq_imp_distinct_iff) simp
  moreover have "(\<forall>a \<in> set ?as. accType a \<le> 255 \<and> accId a \<le> 255 \<and> accType a \<noteq> - 1) \<longleftrightarrow> list_all acc_ok (accessories s)"
    using assms(3) by (force simp: list_all_iff acc_ok_def byte_def)
  ultimately show ?thesis
    using assms(1,2) by (auto simp: seed_data_def seed_ok_def byte_def sorted_seed_def)
qed

lemma flat_accs_bytes: "list_all acc_ok as \<Longrightarrow> list_all byte (flat_accs as)"
  by (induction as) (auto simp: acc_ok_def)

lemma length_flat_accs: "length (flat_accs as) = 2 * length as"
  by (induction as) simp_all

lemma contract_accs_value:
  "contract_accs i as = 2 ^ (16 * i + 32) * le_value (map nat (flat_accs as))"
  by (induction as arbitrary: i) (simp_all add: algebra_simps power_add)

lemma seed_bytes:
  assumes "seed_ok s"
  defines "data \<equiv> punkType s # skinTone s # int (length (accessories s)) # flat_accs (accessories (sorted_seed s))"
  shows "list_all byte (1 # data)" and "length data = 3 + 2 * length (accessories s)"
    and "le_value (map nat (1 # data)) = contract_seedHash (sorted_seed s)"
proof -
  have "list_all acc_ok (accessories (sorted_seed s))"
    using assms(1) by (simp add: seed_ok_def sorted_seed_def list_all_iff)
  with assms(1) flat_accs_bytes show "list_all byte (1 # data)"
    by (auto simp: data_def seed_ok_def byte_def)
  show "length data = 3 + 2 * length (accessories s)"
    by (simp add: data_def length_flat_accs sorted_seed_def)
  show "le_value (map nat (1 # data)) = contract_seedHash (sorted_seed s)"
    by (simp add: data_def contract_seedHash_def contract_accs_value sorted_seed_def)
qed

lemma hash_of_seed:
  assumes "seed_ok s"
  defines "data \<equiv> punkType s # skinTone s # int (length (accessories s)) # flat_accs (accessories (sorted_seed s))"
  shows "calculateSeedHash s = Inr (''0x'' @ padStart (concat (map byte_hex (rev (1 # data)))) 64 CHR ''0'')"
proof -
  have "seed_data s = Inr data"
    using assms(1) seed_data_ok [of s] by (force simp: seed_ok_def byte_def acc_ok_def list_all_iff data_def)
  moreover have "byte_hex 1 = ''01''" by code_simp
  ultimately show ?thesis by (simp add: calculateSeedHash_def hash_text)
qed

lemma flat_accs_nth:
  "i < length as \<Longrightarrow> flat_accs as ! (2 * i) = accType (as ! i) \<and> flat_accs as ! (2 * i + 1) = accId (as ! i)"
proof (induction as arbitrary: i)
  case (Cons a as)
  then show ?case by (cases i) simp_all
qed simp

lemma contract_decode_le:
  assumes "list_all (\<lambda>b. b < 256) bs" and "4 + 2 * (bs ! 3) = length bs"
  shows "contract_decode (le_value bs) =
    \<lparr>punkType = int (bs ! 1), skinTone = int (bs ! 2),
     accessories = map (\<lambda>i. \<lparr>accType = int (bs ! (4 + 2 * i)), accId = int (bs ! (5 + 2 * i))\<rparr>) [0..<bs ! 3]\<rparr>"
proof -
  have p: "(2::nat) ^ 8 = 256 ^ 1" "(2::nat) ^ 16 = 256 ^ 2" "(2::nat) ^ 24 = 256 ^ 3" by simp_all
  have q: "(2::nat) ^ (16 * i + 32) = 256 ^ (4 + 2 * i)" "(2::nat) ^ (16 * i + 40) = 256 ^ (5 + 2 * i)" for i
    by (simp_all add: power_add power_mult)
  have n: "le_value bs div 256 ^ i mod 256 = bs ! i" if "i < length bs" for i
    by (rule le_value_nth [OF assms(1) that])
  have len: "1 < length bs" "2 < length bs" "3 < length bs" using assms(2) by simp_all
  have "(le_value bs div 256 ^ (4 + 2 * i) mod 256, le_value bs div 256 ^ (5 + 2 * i) mod 256) = (bs ! (4 + 2 * i), bs ! (5 + 2 * i))"
    if "i < bs ! 3" for i
    using n [of "4 + 2 * i"] n [of "5 + 2 * i"] that assms(2) by simp
  then show ?thesis unfolding contract_decode_def p q n [OF len(1)] n [OF len(2)] n [OF len(3)] by simp
qed

lemma decode_sorted_seed:
  assumes "seed_ok s"
  shows "contract_decode (contract_seedHash (sorted_seed s)) = sorted_seed s"
proof -
  let ?as = "accessories (sorted_seed s)"
  let ?data = "punkType s # skinTone s # int (length (accessories s)) # flat_accs ?as"
  let ?bs = "map nat (1 # ?data)"
  have len: "length ?as = length (accessories s)" by (simp add: sorted_seed_def)
  have ok: "0 \<le> punkType s" "0 \<le> skinTone s" "\<forall>a \<in> set ?as. 0 \<le> accType a \<and> 0 \<le> accId a"
    using assms by (auto simp: seed_ok_def byte_def acc_ok_def list_all_iff sorted_seed_def)
  have bytes: "list_all (\<lambda>b. b < 256) ?bs"
    using seed_bytes(1) [OF assms] by (auto simp: list_all_iff byte_def nat_less_iff)
  have "4 + 2 * (?bs ! 3) = length ?bs" by (simp add: length_flat_accs len)
  from contract_decode_le [OF bytes this]
  have "contract_decode (contract_seedHash (sorted_seed s)) =
    \<lparr>punkType = int (?bs ! 1), skinTone = int (?bs ! 2),
     accessories = map (\<lambda>i. \<lparr>accType = int (?bs ! (4 + 2 * i)), accId = int (?bs ! (5 + 2 * i))\<rparr>) [0..<?bs ! 3]\<rparr>"
    by (simp only: seed_bytes(3) [OF assms])
  also have "map (\<lambda>i. \<lparr>accType = int (?bs ! (4 + 2 * i)), accId = int (?bs ! (5 + 2 * i))\<rparr>) [0..<?bs ! 3] = ?as"
  proof (rule nth_equalityI)
    fix i assume "i < length (map (\<lambda>i. \<lparr>accType = int (?bs ! (4 + 2 * i)), accId = int (?bs ! (5 + 2 * i))\<rparr>) [0..<?bs ! 3])"
    then have i: "i < length ?as" by (simp add: len)
    have "?bs ! (4 + 2 * i) = nat (flat_accs ?as ! (2 * i))" "?bs ! (5 + 2 * i) = nat (flat_accs ?as ! (2 * i + 1))"
      using i by (simp_all add: length_flat_accs)
    then show "map (\<lambda>i. \<lparr>accType = int (?bs ! (4 + 2 * i)), accId = int (?bs ! (5 + 2 * i))\<rparr>) [0..<?bs ! 3] ! i = ?as ! i"
      using i flat_accs_nth [OF i] ok(3) nth_mem [OF i] by (simp add: len)
  qed (simp add: len)
  finally show ?thesis using ok by (simp add: sorted_seed_def)
qed

lemma hash_value:
  assumes "seed_ok s"
  shows "\<exists>h. calculateSeedHash s = Inr (''0x'' @ h) \<and> length h = 64 \<and>
    base_value 16 h = contract_seedHash (sorted_seed s) \<and>
    contract_decode (base_value 16 h) = sorted_seed s"
proof -
  let ?data = "punkType s # skinTone s # int (length (accessories s)) # flat_accs (accessories (sorted_seed s))"
  let ?text = "concat (map byte_hex (rev (1 # ?data)))"
  have bytes: "list_all byte (rev (1 # ?data))" using seed_bytes(1) [OF assms] by (simp add: list_all_iff)
  have "length ?text = 2 * length (rev (1 # ?data))" by (rule byte_codec.length_enc_all [OF bytes])
  moreover have "length (accessories s) \<le> 14" using assms by (simp add: seed_ok_def)
  ultimately have "length (padStart ?text 64 CHR ''0'') = 64"
    using seed_bytes(2) [OF assms] by (simp only: length_padStart length_rev length_Cons) simp
  moreover have "base_value 16 (padStart ?text 64 CHR ''0'') = base_value 16 ?text"
    by (simp only: padStart_def digit_char_0 [symmetric] base_value_leading_zeros)
  moreover have "base_value 16 ?text = contract_seedHash (sorted_seed s)"
    using base_value_bytes [OF seed_bytes(1) [OF assms]] seed_bytes(3) [OF assms] by simp
  ultimately show ?thesis
    using hash_of_seed [OF assms] decode_sorted_seed [OF assms] by (intro exI [where x = "padStart ?text 64 CHR ''0''"]) simp
qed

text \<open>C14. The seed hash: for a seed in range (bytes, at most 14 accessories, no type twice),
  \<open>calculateSeedHash\<close> returns \<open>0x\<close> and 64 digits whose value is the number that
  \<open>calculateSeedHash\<close> of the token contract computes for the same seed with its accessories sorted
  by type, and which the contract decodes to that seed.\<close>

theorem seed_hash_contract:
  assumes "seed_ok s"
  shows "\<exists>h. calculateSeedHash s = Inr (''0x'' @ h) \<and> length h = 64 \<and>
    base_value 16 h = contract_seedHash (sorted_seed s) \<and>
    contract_decode (base_value 16 h) = sorted_seed s"
  using assms by (rule hash_value)

definition demo_seed :: seed where
  "demo_seed = \<lparr>punkType = 1, skinTone = 2, accessories = [\<lparr>accType = 8, accId = 3\<rparr>, \<lparr>accType = 4, accId = 17\<rparr>]\<rparr>"

theorem seed_hash_contract_witness:
  "\<exists>h. calculateSeedHash demo_seed = Inr (''0x'' @ h) \<and> base_value 16 h = contract_seedHash (sorted_seed demo_seed)"
  using seed_hash_contract [of demo_seed] by (auto simp: demo_seed_def seed_ok_def byte_def acc_ok_def)

text \<open>C16. Which seeds have a hash: for a seed without negative numbers \<open>calculateSeedHash\<close> throws
  \<open>Invalid value\<close> unless the seed is in range, and two seeds in range have the same hash exactly
  when they are the same up to the order of their accessories.\<close>

theorem seed_hash_faithful:
  assumes "0 \<le> punkType s" and "0 \<le> skinTone s" and "\<forall>a \<in> set (accessories s). 0 \<le> accType a \<and> 0 \<le> accId a"
  shows "(calculateSeedHash s = Inl (ErrorMsg ''Invalid value'') \<longleftrightarrow> \<not> seed_ok s) \<and>
    (seed_ok s \<and> seed_ok s' \<longrightarrow>
       (calculateSeedHash s = calculateSeedHash s' \<longleftrightarrow> sorted_seed s = sorted_seed s'))"
proof (intro conjI impI)
  show "calculateSeedHash s = Inl (ErrorMsg ''Invalid value'') \<longleftrightarrow> \<not> seed_ok s"
    using seed_data_ok [OF assms] hash_of_seed [of s] by (auto simp: calculateSeedHash_def invalid_value_def)
  assume "seed_ok s \<and> seed_ok s'"
  then have ok: "seed_ok s" "seed_ok s'" by simp_all
  show "calculateSeedHash s = calculateSeedHash s' \<longleftrightarrow> sorted_seed s = sorted_seed s'"
  proof
    assume same: "calculateSeedHash s = calculateSeedHash s'"
    show "sorted_seed s = sorted_seed s'"
      using hash_value [OF ok(1)] hash_value [OF ok(2)] same by auto
  next
    assume eq: "sorted_seed s = sorted_seed s'"
    have "length (accessories t) = length (accessories (sorted_seed t))" "punkType t = punkType (sorted_seed t)"
      "skinTone t = skinTone (sorted_seed t)" for t by (simp_all add: sorted_seed_def)
    then show "calculateSeedHash s = calculateSeedHash s'"
      using hash_of_seed [OF ok(1)] hash_of_seed [OF ok(2)] eq by metis
  qed
qed

theorem seed_hash_faithful_witness:
  "calculateSeedHash (demo_seed\<lparr>accessories := [\<lparr>accType = 4, accId = 3\<rparr>, \<lparr>accType = 4, accId = 17\<rparr>]\<rparr>) =
     Inl (ErrorMsg ''Invalid value'') \<and>
   calculateSeedHash demo_seed = calculateSeedHash (demo_seed\<lparr>accessories := rev (accessories demo_seed)\<rparr>)"
  using seed_hash_faithful [of "demo_seed\<lparr>accessories := [\<lparr>accType = 4, accId = 3\<rparr>, \<lparr>accType = 4, accId = 17\<rparr>]\<rparr>" demo_seed]
    seed_hash_faithful [of demo_seed "demo_seed\<lparr>accessories := rev (accessories demo_seed)\<rparr>"]
  by (simp add: demo_seed_def seed_ok_def sorted_seed_def byte_def acc_ok_def)

section \<open>The two tasks on one row\<close>

definition known_skin :: "string \<Rightarrow> bool" where
  "known_skin t \<longleftrightarrow> t \<in> {''albino'', ''light'', ''medium'', ''dark'', ''green'', ''brown'', ''blue''}"

lemma skin_chain:
  "((if a then 0 else if b then 1 else if c then 2 else if d then 3 else if e then 4 else if f then 5
     else if g then 6 else (0::int)) =
    (if a then 0 else if b then 1 else if c then 2 else if d then 3 else if e then 4 else if f then 5
     else if g then 6 else if x then 6 else if y then 5 else if z then 4 else 0)) \<longleftrightarrow>
   a \<or> b \<or> c \<or> d \<or> e \<or> f \<or> g \<or> \<not> (x \<or> y \<or> z)"
  by auto

text \<open>\<open>generate-og-punks\<close> says its reading of a row is the same as in \<open>create-merkle\<close>: for a row
  that parses, the two tasks give the same seed, or the same exception, exactly when its skin tone is
  one of the seven names, its type is not alien, ape or zombie, or its accessories are not found;
  otherwise the skin tones differ (0 against 6, 5 and 4).\<close>

lemma rows_agree:
  assumes "parse_row row = Inr p"
  shows "row_seed merkle_skinTone names doc row = row_seed generate_skinTone names doc row \<longleftrightarrow>
    known_skin (r_skinTone p) \<or> r_type p \<notin> {''alien'', ''ape'', ''zombie''} \<or>
    isl (rmap_list (find_acc names doc (r_gender p)) (r_accessories p))"
proof -
  have "merkle_skinTone p = generate_skinTone p \<longleftrightarrow>
      known_skin (r_skinTone p) \<or> r_type p \<notin> {''alien'', ''ape'', ''zombie''}"
    unfolding merkle_skinTone_def generate_skinTone_def known_skin_def Let_def insert_iff empty_iff de_Morgan_disj
    by (subst skin_chain) blast
  then show ?thesis
    using assms by (cases "rmap_list (find_acc names doc (r_gender p)) (r_accessories p)") (simp_all add: row_seed_def)
qed

end
