(* ===== verification/Tasks_Configure.thy ===== *)
theory Tasks_Configure
  imports Tasks_Deploy Tasks_Seed
begin

text \<open>
  The tasks of \<open>packages/punks-contracts/tasks\<close> that run after a deployment
  (\<open>deploy-and-configure.ts\<close>, \<open>deploy-and-configure-short-times.ts\<close>, \<open>run-local.ts\<close>,
  \<open>deploy-descriptor-v2.ts\<close>, \<open>start-auction.ts\<close>, \<open>register-og-punks.ts\<close>, \<open>update-configs.ts\<close>) and
  the address book of \<open>packages/punks-sdk/src/contract\<close>. A task is a list of steps; running it gives
  the actions on the contracts up to the first error. Running another task is one action; its
  declared parameters are checked as Hardhat does. Fees, receipts and balances are left out.
\<close>

section \<open>Steps\<close>

datatype task_action =
    RunTask string "(string \<times> string option) list"
  | TransferOwnership string string
  | Unpause string
  | RegisterOGHashes string "string list"

fun run_steps :: "'a result list \<Rightarrow> 'a list \<times> js_error option" where
  "run_steps [] = ([], None)"
| "run_steps (Inl e # steps) = ([], Some e)"
| "run_steps (Inr a # steps) = (let (as, e) = run_steps steps in (a # as, e))"

text \<open>The parameters declared without a default; \<open>run\<close> throws when one is missing or undefined.\<close>

definition required_params :: "string \<Rightarrow> string list" where
  "required_params name =
     (if name = ''verify-etherscan'' \<or> name = ''update-configs'' then [''contracts'']
      else if name = ''register-og-punks'' then [''nTokenAddress''] else [])"

definition run_task :: "string \<Rightarrow> (string \<times> string option) list \<Rightarrow> task_action result" where
  "run_task name args =
     (case find (\<lambda>p. map_of args p = None \<or> map_of args p = Some None) (required_params name) of
        Some p \<Rightarrow> Inl (ErrorMsg (''HH306: '' @ p))
      | None \<Rightarrow> Inr (RunTask name args))"

text \<open>\<open>contracts.X.address\<close>; \<open>contracts\<close> is undefined when the deployment was left.\<close>

definition contract_address :: "deployment option \<Rightarrow> contract_name \<Rightarrow> string result" where
  "contract_address contracts c =
     rbind (of_option TypeError contracts) (\<lambda>d. rbind (of_option TypeError (map_of d c)) (\<lambda>p. Inr (dp_address p)))"

definition transfer_to :: "string \<Rightarrow> deployment option \<Rightarrow> contract_name \<Rightarrow> task_action result" where
  "transfer_to owner contracts c = rbind (contract_address contracts c) (\<lambda>a. Inr (TransferOwnership a owner))"

definition unpause_step :: "deployment option \<Rightarrow> task_action result" where
  "unpause_step contracts =
     rbind (contract_address contracts NAuctionHouse) (\<lambda>_. rbind (contract_address contracts NAuctionHouseProxy) (\<lambda>a. Inr (Unpause a)))"

definition populate_descriptor_step :: "deployment option \<Rightarrow> task_action result" where
  "populate_descriptor_step contracts =
     rbind (contract_address contracts NFTDescriptorV2) (\<lambda>a. rbind (contract_address contracts NDescriptorV2) (\<lambda>b.
       run_task ''populate-descriptor'' [(''nftDescriptor'', Some a), (''nDescriptor'', Some b)]))"

definition populate_seeder_step :: "deployment option \<Rightarrow> task_action result" where
  "populate_seeder_step contracts =
     rbind (contract_address contracts NSeeder) (\<lambda>a. run_task ''populate-seeder'' [(''nSeeder'', Some a), (''probDoc'', Some ''probDoc'')])"

definition contracts_param :: "deployment option \<Rightarrow> (string \<times> string option) list" where
  "contracts_param contracts = [(''contracts'', map_option (\<lambda>_. ''contracts'') contracts)]"

section \<open>Deploy and configure\<close>

definition configure_steps :: "bool \<Rightarrow> bool \<Rightarrow> string \<Rightarrow> deployment option \<Rightarrow> task_action result list" where
  "configure_steps startAuction updateConfigs punkers contracts =
     [run_task ''verify-etherscan'' (contracts_param contracts),
      populate_descriptor_step contracts,
      populate_seeder_step contracts,
      rbind (contract_address contracts NDAOExecutor) (\<lambda>_. transfer_to punkers contracts NDescriptorV2),
      transfer_to punkers contracts NSeeder,
      transfer_to punkers contracts NAuctionHouseProxyAdmin] @
     (if startAuction then [unpause_step contracts, transfer_to punkers contracts NAuctionHouseProxy] else []) @
     (if updateConfigs then [run_task ''update-configs'' (contracts_param contracts)] else [])"

definition configure_short_steps :: "bool \<Rightarrow> bool \<Rightarrow> string \<Rightarrow> deployment option \<Rightarrow> task_action result list" where
  "configure_short_steps startAuction updateConfigs punkers contracts =
     [run_task ''verify-etherscan'' (contracts_param contracts),
      populate_descriptor_step contracts,
      rbind (contract_address contracts NDAOExecutor) (\<lambda>_. transfer_to punkers contracts NDescriptorV2),
      transfer_to punkers contracts NToken,
      transfer_to punkers contracts NSeeder,
      transfer_to punkers contracts NAuctionHouseProxyAdmin] @
     (if startAuction then [unpause_step contracts, transfer_to punkers contracts NAuctionHouseProxy] else []) @
     (if updateConfigs then [run_task ''update-configs'' (contracts_param contracts)] else [])"

fun outcome_contracts :: "outcome \<Rightarrow> deployment option" where
  "outcome_contracts (Finished d) = Some d"
| "outcome_contracts Exited = None"

text \<open>After \<open>run('deploy', args)\<close>; the task of \<open>deploy\<close> works on its own copy of the arguments.\<close>

definition after_deploy ::
  "(deployment option \<Rightarrow> task_action result list) \<Rightarrow> deployer \<times> outcome result \<Rightarrow> deployer \<times> task_action list \<times> js_error option" where
  "after_deploy steps run =
     (case run of
        (dl, Inl e) \<Rightarrow> (dl, [], Some e)
      | (dl, Inr out) \<Rightarrow> (dl, run_steps (steps (outcome_contracts out))))"

definition deploy_and_configure ::
  "(string \<Rightarrow> nat \<Rightarrow> string) \<Rightarrow> (arg_value list \<Rightarrow> string) \<Rightarrow> nat \<Rightarrow> string \<Rightarrow> bool \<Rightarrow> bool \<Rightarrow> deploy_args \<Rightarrow> operator \<Rightarrow> deployer \<Rightarrow>
     deployer \<times> task_action list \<times> js_error option" where
  "deploy_and_configure addr encode chainId network startAuction updateConfigs a opr dl =
     after_deploy (configure_steps startAuction updateConfigs (or_default (da_punkers a) (dl_address dl)))
       (deploy addr encode chainId network a opr dl)"

definition deploy_and_configure_short_times ::
  "(contract_name \<Rightarrow> int) \<Rightarrow> (string \<Rightarrow> nat \<Rightarrow> string) \<Rightarrow> (arg_value list \<Rightarrow> string) \<Rightarrow> nat \<Rightarrow> string \<Rightarrow> bool \<Rightarrow> bool \<Rightarrow>
     deploy_args \<Rightarrow> operator \<Rightarrow> deployer \<Rightarrow> deployer \<times> task_action list \<times> js_error option" where
  "deploy_and_configure_short_times gasPrice addr encode chainId network startAuction updateConfigs a opr dl =
     after_deploy (configure_short_steps startAuction updateConfigs (or_default (da_punkers a) (dl_address dl)))
       (deploy_short_times gasPrice addr encode chainId network a opr dl)"

section \<open>The local node and the new descriptor\<close>

definition local_address :: "(contract_name, string) omap option \<Rightarrow> contract_name \<Rightarrow> string result" where
  "local_address contracts c = rbind (of_option TypeError contracts) (\<lambda>d. of_option TypeError (map_of d c))"

definition run_local_steps :: "string \<Rightarrow> (contract_name, string) omap option \<Rightarrow> task_action result list" where
  "run_local_steps deployer_address contracts =
     (let adr = local_address contracts;
          transfer = (\<lambda>c. rbind (adr c) (\<lambda>a. Inr (TransferOwnership a deployer_address)))
      in [rbind (adr NFTDescriptorV2) (\<lambda>a. rbind (adr NDescriptorV2) (\<lambda>b.
            run_task ''populate-descriptor'' [(''nftDescriptor'', Some a), (''nDescriptor'', Some b)])),
          rbind (adr NSeeder) (\<lambda>a. run_task ''populate-seeder'' [(''nSeeder'', Some a), (''probDoc'', Some ''probDoc'')]),
          rbind (adr NToken) (\<lambda>a. run_task ''register-og-punks'' [(''nToken'', Some a)]),
          rbind (adr NAuctionHouse) (\<lambda>_. rbind (adr NAuctionHouseProxy) (\<lambda>a. Inr (Unpause a))),
          rbind (adr NDAOExecutor) (\<lambda>_. transfer NDescriptorV2),
          transfer NToken, transfer NSeeder, transfer NAuctionHouseProxyAdmin, transfer NAuctionHouseProxy])"

definition run_local ::
  "(string \<Rightarrow> nat \<Rightarrow> string) \<Rightarrow> (arg_value list \<Rightarrow> string) \<Rightarrow> nat \<Rightarrow> deployer \<Rightarrow> deployer \<times> task_action list \<times> js_error option" where
  "run_local addr encode chainId dl =
     (let (dl', contracts) = deploy_local addr encode chainId local_defaults dl
      in (dl', run_steps (run_local_steps (dl_address dl) contracts)))"

definition descriptor_v2_steps :: "string \<Rightarrow> string \<Rightarrow> deployment \<Rightarrow> task_action result list" where
  "descriptor_v2_steps daoExecutor network d =
     [populate_descriptor_step (Some d), transfer_to daoExecutor (Some d) NDescriptorV2] @
     (if network \<noteq> ''localhost'' then [run_task ''verify-etherscan'' (contracts_param (Some d))] else [])"

text \<open>\<open>start-auction.ts\<close>\<close>

definition start_auction :: "string \<Rightarrow> string option \<Rightarrow> task_action list" where
  "start_auction auctionHouseAddress punkers =
     Unpause auctionHouseAddress #
     (case punkers of None \<Rightarrow> [] | Some p \<Rightarrow> if p = [] then [] else [TransferOwnership auctionHouseAddress p])"

section \<open>Registering the original punks\<close>

function og_slices :: "string \<Rightarrow> string list \<Rightarrow> nat \<Rightarrow> task_action list" where
  "og_slices nToken hashes i =
     (if i < length hashes
      then let count = (if i + 200 > length hashes then length hashes - i else 200)
           in RegisterOGHashes nToken (take count (drop i hashes)) # og_slices nToken hashes (i + 200)
      else [])"
  by pat_completeness auto
termination by (relation "measure (\<lambda>(nToken, hashes, i). length hashes - i)") auto

definition register_og_punks ::
  "name_doc \<Rightarrow> prob_doc \<Rightarrow> string list list \<Rightarrow> string \<Rightarrow> task_action list result" where
  "register_og_punks names doc punks nTokenAddress =
     rbind (create_merkle names doc punks) (\<lambda>hashes. Inr (og_slices nTokenAddress hashes 0))"

section \<open>The address book\<close>

text \<open>An entry of \<open>addresses.json\<close>; a key that is missing reads as \<open>undefined\<close>.\<close>

type_synonym contract_addresses = "(string \<times> string) list"
type_synonym address_book = "(nat, contract_addresses) omap"

record subgraph_config =
  sc_network :: string
  sc_sources :: "(string \<times> string \<times> nat) list"

definition descriptor_or :: "deployment \<Rightarrow> contract_name \<Rightarrow> string option \<Rightarrow> string result" where
  "descriptor_or d v2 v1 =
     (case map_of d v2 of Some p \<Rightarrow> Inr (dp_address p) | None \<Rightarrow> of_option TypeError v1)"

text \<open>\<open>v1\<close> and \<open>nft_v1\<close> are the addresses of the contracts \<open>NDescriptor\<close> and \<open>NFTDescriptor\<close> of an
  older deployment, if there are any; \<open>block\<close> is the block of a deployment transaction.\<close>

definition update_addresses ::
  "string option \<Rightarrow> string option \<Rightarrow> deployment \<Rightarrow> nat \<Rightarrow> address_book \<Rightarrow> address_book result" where
  "update_addresses v1 nft_v1 d chainId book =
     (let adr = contract_address (Some d)
      in rbind (adr NToken) (\<lambda>nToken. rbind (adr NSeeder) (\<lambda>nSeeder.
         rbind (descriptor_or d NDescriptorV2 v1) (\<lambda>nDescriptor.
         rbind (descriptor_or d NFTDescriptorV2 nft_v1) (\<lambda>nftDescriptor.
         rbind (adr NAuctionHouse) (\<lambda>nAuctionHouse. rbind (adr NAuctionHouseProxy) (\<lambda>nAuctionHouseProxy.
         rbind (adr NAuctionHouseProxyAdmin) (\<lambda>nAuctionHouseProxyAdmin. rbind (adr NDAOExecutor) (\<lambda>nDaoExecutor.
         rbind (adr NDAOProxy) (\<lambda>nDAOProxy. rbind (adr NDAOLogicV1) (\<lambda>nDAOLogicV1.
           Inr (omap_set chainId
             [(''nToken'', nToken), (''nSeeder'', nSeeder), (''nDescriptor'', nDescriptor), (''nftDescriptor'', nftDescriptor),
              (''nAuctionHouse'', nAuctionHouse), (''nAuctionHouseProxy'', nAuctionHouseProxy),
              (''nAuctionHouseProxyAdmin'', nAuctionHouseProxyAdmin), (''nDaoExecutor'', nDaoExecutor),
              (''nDAOProxy'', nDAOProxy), (''nDAOLogicV1'', nDAOLogicV1)] book))))))))))))"

definition update_subgraph_config ::
  "(contract_name \<Rightarrow> nat) \<Rightarrow> deployment \<Rightarrow> string \<Rightarrow> (string \<times> subgraph_config) result" where
  "update_subgraph_config block d network =
     (let source = (\<lambda>key c. rbind (contract_address (Some d) c) (\<lambda>a. Inr (key, a, block c)))
      in rbind (source ''nToken'' NToken) (\<lambda>s1. rbind (source ''nAuctionHouse'' NAuctionHouseProxy) (\<lambda>s2.
         rbind (source ''nDAO'' NDAOProxy) (\<lambda>s3.
           Inr (network @ ''-fork.json'', \<lparr>sc_network = network, sc_sources = [s1, s2, s3]\<rparr>)))))"

text \<open>\<open>punks-sdk/src/contract\<close>; \<open>connect\<close> is the function of the factory of a contract.\<close>

definition getContractAddressesForChainOrThrow :: "address_book \<Rightarrow> nat \<Rightarrow> contract_addresses result" where
  "getContractAddressesForChainOrThrow book chainId =
     of_option (ErrorMsg (''Unknown chain id ('' @ dec chainId @ ''). No known contracts have been deployed on this chain.''))
       (map_of book chainId)"

record 'contract contracts =
  co_nTokenContract :: 'contract
  co_nAuctionHouseContract :: 'contract
  co_nDescriptorContract :: 'contract
  co_nSeederContract :: 'contract
  co_nDaoContract :: 'contract

definition getContractsForChainOrThrow ::
  "(string \<Rightarrow> string option \<Rightarrow> 'contract) \<Rightarrow> address_book \<Rightarrow> nat \<Rightarrow> 'contract contracts result" where
  "getContractsForChainOrThrow connect book chainId =
     rbind (getContractAddressesForChainOrThrow book chainId) (\<lambda>addresses.
       Inr \<lparr>co_nTokenContract = connect ''NToken'' (map_of addresses ''nToken''),
            co_nAuctionHouseContract = connect ''NAuctionHouse'' (map_of addresses ''nAuctionHouseProxy''),
            co_nDescriptorContract = connect ''NDescriptor'' (map_of addresses ''nDescriptor''),
            co_nSeederContract = connect ''NSeeder'' (map_of addresses ''nSeeder''),
            co_nDaoContract = connect ''NDaoLogicV1'' (map_of addresses ''nDAOProxy'')\<rparr>)"

section \<open>Owners after the configuration\<close>

fun owner_step :: "task_action \<Rightarrow> (string \<Rightarrow> string) \<Rightarrow> string \<Rightarrow> string" where
  "owner_step (TransferOwnership c o') own = own(c := o')"
| "owner_step _ own = own"

definition owner_after :: "string \<Rightarrow> task_action list \<Rightarrow> string \<Rightarrow> string" where
  "owner_after deployer_address trace = fold owner_step trace (\<lambda>_. deployer_address)"

lemma run_steps_Inr: "run_steps (map Inr as) = (as, None)"
  by (induction as) simp_all

definition configure_trace :: "bool \<Rightarrow> bool \<Rightarrow> string \<Rightarrow> deployment \<Rightarrow> task_action list" where
  "configure_trace startAuction updateConfigs punkers d =
     [RunTask ''verify-etherscan'' (contracts_param (Some d)),
      RunTask ''populate-descriptor'' [(''nftDescriptor'', Some (address_in d NFTDescriptorV2)), (''nDescriptor'', Some (address_in d NDescriptorV2))],
      RunTask ''populate-seeder'' [(''nSeeder'', Some (address_in d NSeeder)), (''probDoc'', Some ''probDoc'')],
      TransferOwnership (address_in d NDescriptorV2) punkers, TransferOwnership (address_in d NSeeder) punkers,
      TransferOwnership (address_in d NAuctionHouseProxyAdmin) punkers] @
     (if startAuction then [Unpause (address_in d NAuctionHouseProxy), TransferOwnership (address_in d NAuctionHouseProxy) punkers] else []) @
     (if updateConfigs then [RunTask ''update-configs'' (contracts_param (Some d))] else [])"

lemma contract_address_in: "map_of d c \<noteq> None \<Longrightarrow> contract_address (Some d) c = Inr (address_in d c)"
  by (auto simp: contract_address_def address_in_def)

lemma configure_steps_trace:
  assumes "\<forall>c \<in> set deploy_names. map_of d c \<noteq> None"
  shows "run_steps (configure_steps startAuction updateConfigs punkers (Some d)) =
    (configure_trace startAuction updateConfigs punkers d, None)"
proof -
  have "contract_address (Some d) c = Inr (address_in d c)" if "c \<in> set deploy_names" for c
    using assms that by (simp add: contract_address_in)
  then have "configure_steps startAuction updateConfigs punkers (Some d) = map Inr (configure_trace startAuction updateConfigs punkers d)"
    by (simp add: configure_steps_def configure_trace_def transfer_to_def unpause_step_def populate_descriptor_step_def
        populate_seeder_step_def run_task_def required_params_def contracts_param_def deploy_names_def)
  then show ?thesis by (simp add: run_steps_Inr)
qed

lemma configured_owner:
  assumes "inj_on (address_in d) (set deploy_names)" and "c \<in> {NDescriptorV2, NSeeder, NAuctionHouseProxyAdmin, NToken, NAuctionHouseProxy}"
  shows "owner_after deployer_address (configure_trace startAuction updateConfigs punkers d) (address_in d c) =
    (if c \<in> {NDescriptorV2, NSeeder, NAuctionHouseProxyAdmin} \<or> c = NAuctionHouseProxy \<and> startAuction then punkers
     else deployer_address)"
proof -
  have "address_in d x = address_in d y \<longleftrightarrow> x = y"
    if "x \<in> {NDescriptorV2, NSeeder, NAuctionHouseProxyAdmin, NToken, NAuctionHouseProxy}"
      "y \<in> {NDescriptorV2, NSeeder, NAuctionHouseProxyAdmin, NToken, NAuctionHouseProxy}" for x y
    using that assms(1) by (auto simp: deploy_names_def dest: inj_onD)
  with assms(2) show ?thesis by (auto simp: owner_after_def configure_trace_def)
qed

lemma zip_names:
  assumes "map (\<lambda>(c, p). (c, dp_address p)) d = zip deploy_names (map f [0..<13])"
  shows "\<forall>c \<in> set deploy_names. map_of d c \<noteq> None"
    and "(\<And>i j. f i = f j \<Longrightarrow> i = j) \<Longrightarrow> inj_on (address_in d) (set deploy_names)"
proof -
  have len: "length deploy_names = 13" and dist: "distinct deploy_names" by (simp_all add: deploy_names_def)
  have "map fst (map (\<lambda>(c, p). (c, dp_address p)) d) = deploy_names" unfolding assms by (simp add: len del: upt_Suc)
  then have names: "map fst d = deploy_names" by (simp add: comp_def case_prod_beta)
  then show present: "\<forall>c \<in> set deploy_names. map_of d c \<noteq> None"
    by (metis list.set_map map_of_eq_None_iff)
  have at: "address_in d (deploy_names ! i) = f i" if i: "i < 13" for i
  proof -
    have l: "length d = 13" using names len by (metis length_map)
    then have "d ! i \<in> set d" using i by simp
    have "map (\<lambda>(c, p). (c, dp_address p)) d ! i = (deploy_names ! i, f i)"
      unfolding assms using i len by (simp del: upt_Suc)
    then obtain p where p: "d ! i = (deploy_names ! i, p)" "dp_address p = f i"
      using i l by (cases "d ! i") simp
    with \<open>d ! i \<in> set d\<close> names dist have "map_of d (deploy_names ! i) = Some p" by simp
    with p(2) show ?thesis by (simp add: address_in_def)
  qed
  assume inj: "\<And>i j. f i = f j \<Longrightarrow> i = j"
  show "inj_on (address_in d) (set deploy_names)"
  proof (rule inj_onI)
    fix x y assume "x \<in> set deploy_names" "y \<in> set deploy_names" and eq: "address_in d x = address_in d y"
    then obtain i j where "i < 13" "x = deploy_names ! i" "j < 13" "y = deploy_names ! j"
      by (metis in_set_conv_nth len)
    with eq at inj show "x = y" by metis
  qed
qed

text \<open>The configured system: after a deployment in which every contract is confirmed and the
  deployer sends nothing else, \<open>deploy-and-configure\<close> runs to its end; the descriptor, the seeder and
  the proxy admin belong to the punkers, the auction house proxy too exactly when the first auction is
  started, and the token still belongs to the deployer.\<close>

lemma configured_system:
  assumes "auto_detect ''CryptopunksVote'' ''cryptopunksVote'' cryptopunksVoteContracts chainId network (da_cryptopunksVote a) = Inr vote"
    and "auto_detect ''WETH'' ''weth'' wethContracts chainId network (da_weth a) = Inr weth"
    and "da_autoDeploy a \<or> (\<forall>c. op_answer opr c = ''DEPLOY'')" and "\<forall>c. op_foreign opr c = 0"
    and "\<And>i j. addr (dl_address dl) i = addr (dl_address dl) j \<Longrightarrow> i = j"
  shows "\<exists>dl' d trace. deploy addr encode chainId network a opr dl = (dl', Inr (Finished d)) \<and>
    deploy_and_configure addr encode chainId network startAuction updateConfigs a opr dl = (dl', trace, None) \<and>
    (\<forall>c \<in> {NDescriptorV2, NSeeder, NAuctionHouseProxyAdmin, NToken, NAuctionHouseProxy}.
       owner_after (dl_address dl) trace (address_in d c) =
         (if c \<in> {NDescriptorV2, NSeeder, NAuctionHouseProxyAdmin} \<or> c = NAuctionHouseProxy \<and> startAuction
          then or_default (da_punkers a) (dl_address dl) else dl_address dl)) \<and>
    (Unpause (address_in d NAuctionHouseProxy) \<in> set trace \<longleftrightarrow> startAuction)"
proof -
  obtain dl' d where run: "deploy addr encode chainId network a opr dl = (dl', Inr (Finished d))"
    "map (\<lambda>(c, p). (c, dp_address p)) d = zip deploy_names (map (\<lambda>i. addr (dl_address dl) (dl_nonce dl + i)) [0..<13])"
    using deploy_completes_aux [OF assms(1-4), of addr encode dl] by blast
  note names = zip_names [OF run(2)]
  have inj: "inj_on (address_in d) (set deploy_names)" by (rule names(2)) (auto dest: assms(5))
  have "deploy_and_configure addr encode chainId network startAuction updateConfigs a opr dl =
      (dl', configure_trace startAuction updateConfigs (or_default (da_punkers a) (dl_address dl)) d, None)"
    by (simp add: deploy_and_configure_def after_deploy_def run(1) configure_steps_trace [OF names(1)])
  moreover have "Unpause (address_in d NAuctionHouseProxy) \<in> set (configure_trace startAuction updateConfigs p d) \<longleftrightarrow> startAuction" for p
    by (simp add: configure_trace_def)
  ultimately show ?thesis using run(1) configured_owner [OF inj] by blast
qed

section \<open>The local run, the registered hashes and the address book\<close>

text \<open>The local run stops early: \<open>run-local\<close> calls \<open>register-og-punks\<close> with \<open>nToken\<close>, while the task
  declares the parameter \<open>nTokenAddress\<close>; so after the descriptor and the seeder are populated the run
  throws, the auction house is never unpaused and no owner changes.\<close>

theorem run_local_stops:
  "\<exists>dl' a b c. run_local addr encode 31337 dl =
    (dl', [RunTask ''populate-descriptor'' [(''nftDescriptor'', Some a), (''nDescriptor'', Some b)],
           RunTask ''populate-seeder'' [(''nSeeder'', Some c), (''probDoc'', Some ''probDoc'')]],
     Some (ErrorMsg ''HH306: nTokenAddress''))"
proof -
  obtain dl' d where run: "deploy_local addr encode 31337 local_defaults dl = (dl', Some d)"
    and d: "d = zip local_names (map (\<lambda>i. addr (dl_address dl) (dl_nonce dl + i)) [0..<17])"
    using local_run [of addr encode local_defaults dl] by blast
  have "\<exists>a. map_of d c = Some a" if "c \<in> set local_names" for c
  proof -
    have "map fst d = local_names" by (simp add: d local_names_def deploy_names_def del: upt_Suc)
    then have "c \<in> fst ` set d" using that by (metis list.set_map)
    then show ?thesis by (metis map_of_eq_None_iff not_None_eq)
  qed
  then obtain a b c t where "map_of d NFTDescriptorV2 = Some a" "map_of d NDescriptorV2 = Some b"
    "map_of d NSeeder = Some c" "map_of d NToken = Some t"
    by (metis UnI2 deploy_names_def list.set_intros local_names_def set_append)
  then have "run_steps (run_local_steps (dl_address dl) (Some d)) =
    ([RunTask ''populate-descriptor'' [(''nftDescriptor'', Some a), (''nDescriptor'', Some b)],
      RunTask ''populate-seeder'' [(''nSeeder'', Some c), (''probDoc'', Some ''probDoc'')]],
     Some (ErrorMsg ''HH306: nTokenAddress''))"
    by (simp add: run_local_steps_def local_address_def run_task_def required_params_def)
  then show ?thesis using run by (simp add: run_local_def)
qed

declare og_slices.simps [simp del]

fun registered :: "task_action \<Rightarrow> string list" where
  "registered (RegisterOGHashes t hs) = hs"
| "registered _ = []"

lemma og_slices_cover:
  "concat (map registered (og_slices t hs i)) = drop i hs \<and>
   (\<forall>a \<in> set (og_slices t hs i). \<exists>s. a = RegisterOGHashes t s \<and> s \<noteq> [] \<and> length s \<le> 200) \<and>
   (\<forall>a \<in> set (butlast (og_slices t hs i)). length (registered a) = 200)"
proof (induction t hs i rule: og_slices.induct)
  case (1 t hs i)
  show ?case
  proof (cases "i < length hs")
    case True
    have slice: "og_slices t hs i = RegisterOGHashes t (take 200 (drop i hs)) # og_slices t hs (i + 200)"
      using True by (subst og_slices.simps) simp
    have "take 200 (drop i hs) @ drop (i + 200) hs = drop i hs"
      by (metis add.commute append_take_drop_id drop_drop)
    moreover have "length (take 200 (drop i hs)) = 200" if "og_slices t hs (i + 200) \<noteq> []"
      using that by (subst (asm) og_slices.simps) (simp split: if_splits)
    moreover have "take 200 (drop i hs) \<noteq> []" using True by simp
    ultimately show ?thesis using 1 [OF True refl] unfolding slice by auto
  next
    case False
    then show ?thesis by (simp add: og_slices.simps [of t hs i])
  qed
qed

text \<open>Registering the original punks: when the hashes of all rows can be computed,
  \<open>register-og-punks\<close> sends each of them exactly once and in order, in transactions to the token of at
  most 200 hashes, all but the last full.\<close>

lemma og_hashes_registered:
  assumes "create_merkle names doc punks = Inr hashes"
  shows "\<exists>txs. register_og_punks names doc punks token = Inr txs \<and> concat (map registered txs) = hashes \<and>
    (\<forall>a \<in> set txs. \<exists>s. a = RegisterOGHashes token s \<and> s \<noteq> [] \<and> length s \<le> 200) \<and>
    (\<forall>a \<in> set (butlast txs). length (registered a) = 200) \<and> length hashes = length punks"
  using assms og_slices_cover [of token hashes 0] rmap_list_Inr_length
  by (auto simp: register_og_punks_def create_merkle_def)

text \<open>The address book: after \<open>update-configs\<close> for a complete deployment the SDK connects its five
  contracts to the addresses of that deployment on its chain (the auction house and the DAO to their
  proxies), the entries of the other chains are as before, and the entry has no address of the voting
  contract of the original punks. The subgraph gets the token and the two proxies as sources.\<close>

lemma address_book_updated:
  assumes "\<forall>c \<in> set deploy_names. map_of d c \<noteq> None"
  shows "\<exists>book' entry. update_addresses v1 nft_v1 d chainId book = Inr book' \<and>
    getContractAddressesForChainOrThrow book' chainId = Inr entry \<and> map_of entry ''cryptopunksVote'' = None \<and>
    getContractsForChainOrThrow connect book' chainId =
      Inr \<lparr>co_nTokenContract = connect ''NToken'' (Some (address_in d NToken)),
           co_nAuctionHouseContract = connect ''NAuctionHouse'' (Some (address_in d NAuctionHouseProxy)),
           co_nDescriptorContract = connect ''NDescriptor'' (Some (address_in d NDescriptorV2)),
           co_nSeederContract = connect ''NSeeder'' (Some (address_in d NSeeder)),
           co_nDaoContract = connect ''NDaoLogicV1'' (Some (address_in d NDAOProxy))\<rparr> \<and>
    (\<forall>other. other \<noteq> chainId \<longrightarrow>
       getContractsForChainOrThrow connect book' other = getContractsForChainOrThrow connect book other) \<and>
    update_subgraph_config block d network =
      Inr (network @ ''-fork.json'', \<lparr>sc_network = network,
        sc_sources = [(''nToken'', address_in d NToken, block NToken),
          (''nAuctionHouse'', address_in d NAuctionHouseProxy, block NAuctionHouseProxy),
          (''nDAO'', address_in d NDAOProxy, block NDAOProxy)]\<rparr>)"
proof -
  have adr: "contract_address (Some d) c = Inr (address_in d c)" if "c \<in> set deploy_names" for c
    using assms that by (simp add: contract_address_in)
  have v2: "descriptor_or d c v = Inr (address_in d c)" if "c \<in> set deploy_names" for c v
    using assms that by (auto simp: descriptor_or_def address_in_def)
  show ?thesis
    by (simp add: update_addresses_def update_subgraph_config_def adr v2 deploy_names_def
        getContractAddressesForChainOrThrow_def getContractsForChainOrThrow_def update_conv)
qed

end
